(* ===== verification/Prelude.thy ===== *)
theory Prelude
  imports Complex_Main "HOL-Library.AList"
begin

section \<open>Prelude: the vocabulary the components share\<close>

text \<open>
  The Python values every component uses, and the generic lemmas their proofs share.

  \<^item> A \<^verbatim>\<open>dict\<close> is an association list in insertion order, because several components
    iterate over one (\<^verbatim>\<open>batch.metrics.items()\<close>, \<^verbatim>\<open>_pending\<close>, \<^verbatim>\<open>_states\<close>): lookup is
    \<open>map_of\<close>, assignment is \<open>AList.update\<close> (in place, or appended), deletion is
    \<open>AList.delete\<close>. \<open>dict_wf\<close> is the invariant that keys are unique.
  \<^item> A Python \<^verbatim>\<open>float\<close> is a \<open>real\<close>: rounding, infinities and NaN are not modelled.
    A Python \<^verbatim>\<open>int\<close> is an \<open>int\<close>, a \<^verbatim>\<open>str\<close> is a \<open>string\<close> of ASCII characters.
  \<^item> An exception is the \<open>Inl\<close> side of a sum over \<open>py_error\<close>.
\<close>

subsection \<open>Exceptions\<close>

datatype py_error =
    ValueError string
  | KeyError string
  | RuntimeError string
  | ZeroDivisionError
  | NotImplementedError string
  | TypeError string
  | AttributeError string
  | PrivacyBudgetExceeded
  | TransportError string string
  | OtherException string string

text \<open>Sequencing of calls that may raise: the first exception wins.\<close>

definition sum_bind :: "'e + 'a \<Rightarrow> ('a \<Rightarrow> 'e + 'b) \<Rightarrow> 'e + 'b" where
  "sum_bind r f = (case r of Inl e \<Rightarrow> Inl e | Inr x \<Rightarrow> f x)"

lemma sum_bind_simps [simp]:
  "sum_bind (Inl e) f = Inl e"
  "sum_bind (Inr x) f = f x"
  by (simp_all add: sum_bind_def)

lemma sum_bind_Inr_iff: "sum_bind r f = Inr y \<longleftrightarrow> (\<exists>x. r = Inr x \<and> f x = Inr y)"
  by (cases r) simp_all

lemma map_sum_Inr: "map_sum f g x = Inr y \<longleftrightarrow> (\<exists>z. x = Inr z \<and> y = g z)"
  by (cases x) auto

text \<open>A comprehension whose value may raise: the first exception ends it.\<close>

fun traverse :: "('a \<Rightarrow> 'e + 'b) \<Rightarrow> 'a list \<Rightarrow> 'e + 'b list" where
  "traverse f [] = Inr []"
| "traverse f (x # xs) = sum_bind (f x) (\<lambda>y. sum_bind (traverse f xs) (\<lambda>ys. Inr (y # ys)))"

lemma traverse_members: "traverse f xs = Inr ys \<Longrightarrow> length ys = length xs \<and> (\<forall>y \<in> set ys. \<exists>x \<in> set xs. f x = Inr y)"
proof (induction xs arbitrary: ys)
  case (Cons x xs)
  then obtain y zs where "f x = Inr y" "traverse f xs = Inr zs" "ys = y # zs" by (auto simp: sum_bind_Inr_iff)
  with Cons.IH [of zs] show ?case by simp
qed simp

subsection \<open>Dictionaries\<close>

type_synonym ('k, 'v) dict = "('k \<times> 'v) list"

named_theorems dict_simps \<open>rewrite rules for dictionaries as association lists\<close>

abbreviation dict_wf :: "('k, 'v) dict \<Rightarrow> bool" where
  "dict_wf d \<equiv> distinct (map fst d)"

definition dict_get :: "('k, 'v) dict \<Rightarrow> 'k \<Rightarrow> 'v \<Rightarrow> 'v" where
  "dict_get d k v0 = (case map_of d k of None \<Rightarrow> v0 | Some v \<Rightarrow> v)"

lemma map_of_dict_update [dict_simps, simp]:
  "map_of (AList.update k v d) k' = (if k' = k then Some v else map_of d k')"
  by (simp add: update_conv')

lemma map_of_dict_delete [dict_simps, simp]:
  "map_of (AList.delete k d) k' = (if k' = k then None else map_of d k')"
  by (simp add: delete_conv')

lemma dict_get_update [dict_simps, simp]:
  "dict_get (AList.update k v d) k' v0 = (if k' = k then v else dict_get d k' v0)"
  by (simp add: dict_get_def)

lemma dict_wf_update [simp, intro]: "dict_wf d \<Longrightarrow> dict_wf (AList.update k v d)"
  by (rule distinct_update)

lemma dict_wf_delete [simp, intro]: "dict_wf d \<Longrightarrow> dict_wf (AList.delete k d)"
  by (rule distinct_delete)

lemma dict_get_None [dict_simps]: "map_of d k = None \<Longrightarrow> dict_get d k v0 = v0"
  by (simp add: dict_get_def)

lemma dict_get_Some [dict_simps]: "map_of d k = Some v \<Longrightarrow> dict_get d k v0 = v"
  by (simp add: dict_get_def)

lemma map_of_filter_key:
  "map_of (filter (\<lambda>(k, v). P k) d) x = (if P x then map_of d x else None)"
  by (induction d) auto

lemma dict_wf_filter [simp, intro]: "dict_wf d \<Longrightarrow> dict_wf (filter P d)"
  by (rule distinct_map_filter)

lemma map_of_fold_delete [dict_simps]:
  "map_of (fold AList.delete ks d) k = (if k \<in> set ks then None else map_of d k)"
  by (induction ks arbitrary: d) auto

text \<open>The entries of one key, as a dictionary of their own.\<close>

definition only_key :: "'k \<Rightarrow> ('k, 'v) dict \<Rightarrow> ('k, 'v) dict" where
  "only_key k d = filter (\<lambda>p. fst p = k) d"

lemma only_key_update [dict_simps]:
  "only_key k (AList.update k' v d) = (if k' = k then AList.update k v (only_key k d) else only_key k d)"
  by (induction d) (auto simp: only_key_def)

lemma only_key_delete [dict_simps]:
  "only_key k (AList.delete k' d) = (if k' = k then AList.delete k (only_key k d) else only_key k d)"
  by (induction d) (auto simp: only_key_def AList.delete_eq)

lemma map_of_only_key [dict_simps]: "map_of (only_key k d) k = map_of d k"
  by (induction d) (auto simp: only_key_def)

lemma dict_get_only_key [dict_simps]: "dict_get (only_key k d) k v0 = dict_get d k v0"
  by (simp add: dict_get_def map_of_only_key)

subsection \<open>Stream identities\<close>

text \<open>A stream is a (model tuple, suite version, metric name) triple.\<close>

type_synonym stream_key = "string \<times> string \<times> string"

subsection \<open>Rounding\<close>

text \<open>\<^verbatim>\<open>round(x, n)\<close>: to the nearest multiple of \<open>10\<^sup>-\<^sup>n\<close>, ties to even.\<close>

definition round_half_even :: "real \<Rightarrow> int" where
  "round_half_even y =
     (let f = \<lfloor>y\<rfloor>; d = y - of_int f
      in if d < 1 / 2 then f else if d > 1 / 2 then f + 1 else if even f then f else f + 1)"

definition py_round :: "nat \<Rightarrow> real \<Rightarrow> real" where
  "py_round n x = of_int (round_half_even (x * 10 ^ n)) / 10 ^ n"

lemma round_half_even_near: "\<bar>of_int (round_half_even y) - y\<bar> \<le> 1 / 2"
  by (auto simp: round_half_even_def Let_def)

lemma round_half_even_between:
  assumes "of_int a \<le> y" and "y \<le> of_int b"
  shows "a \<le> round_half_even y \<and> round_half_even y \<le> b"
proof -
  have "real_of_int a - 1 < of_int (round_half_even y)" "real_of_int (round_half_even y) < of_int b + 1"
    using round_half_even_near [of y] assms by linarith+
  then show ?thesis by linarith
qed

lemma py_round_between:
  assumes "of_int a \<le> x" and "x \<le> of_int b"
  shows "of_int a \<le> py_round n x" "py_round n x \<le> of_int b"
proof -
  have "of_int (a * 10 ^ n) \<le> x * 10 ^ n" "x * 10 ^ n \<le> of_int (b * 10 ^ n)"
    using assms by (simp_all add: mult_right_mono)
  then have "a * 10 ^ n \<le> round_half_even (x * 10 ^ n) \<and> round_half_even (x * 10 ^ n) \<le> b * 10 ^ n"
    by (rule round_half_even_between)
  then have "real_of_int (a * 10 ^ n) \<le> of_int (round_half_even (x * 10 ^ n))"
    "of_int (round_half_even (x * 10 ^ n)) \<le> real_of_int (b * 10 ^ n)"
    by (simp_all only: of_int_le_iff)
  then show "of_int a \<le> py_round n x" "py_round n x \<le> of_int b"
    by (simp_all add: py_round_def field_simps)
qed

lemma py_round_nonneg:
  assumes "0 \<le> x"
  shows "0 \<le> py_round n x"
proof -
  have "0 \<le> x * 10 ^ n" using assms by simp
  then have "(0 :: int) \<le> round_half_even (x * 10 ^ n)"
    using round_half_even_near [of "x * 10 ^ n"] by linarith
  then show ?thesis by (simp add: py_round_def)
qed

subsection \<open>Lists\<close>

lemma sum_list_ge_const: "(\<And>x. x \<in> set xs \<Longrightarrow> (c :: real) \<le> x) \<Longrightarrow> of_nat (length xs) * c \<le> sum_list xs"
proof (induction xs)
  case (Cons a xs)
  then have "c \<le> a" "of_nat (length xs) * c \<le> sum_list xs" by auto
  then show ?case by (simp add: algebra_simps)
qed simp

lemma sum_list_le_const: "(\<And>x. x \<in> set xs \<Longrightarrow> x \<le> (c :: real)) \<Longrightarrow> sum_list xs \<le> of_nat (length xs) * c"
proof (induction xs)
  case (Cons a xs)
  then have "a \<le> c" "sum_list xs \<le> of_nat (length xs) * c" by auto
  then show ?case by (simp add: algebra_simps)
qed simp

lemma sum_list_nonneg_real: "(\<And>x. x \<in> set xs \<Longrightarrow> (0 :: real) \<le> x) \<Longrightarrow> 0 \<le> sum_list xs"
  using sum_list_ge_const [of xs 0] by simp

lemma sum_list_zero_real: "(\<And>x. x \<in> set xs \<Longrightarrow> x = (0 :: real)) \<Longrightarrow> sum_list xs = 0"
  by (induction xs) auto

end
