(* ===== verification/Keyed.thy ===== *)
theory Keyed
  imports Prelude
begin

section \<open>Machines that keep one independent state per key\<close>

text \<open>
  The detector keeps one CUSUM state per stream and the agreement scorer one pair of tables
  per stream. Both promise the same thing: an operation changes the state of the keys it
  names and of no other. \<open>keyed_machine\<close> is that interface. \<open>view\<close> is what a key can
  observe of the whole state, \<open>lstep\<close> the machine of one key alone. The lemmas say that a
  key's view of a run is the run of its own machine on the operations that affect it, so no
  operation on another key can ever be noticed. \<^verbatim>\<open>Detector\<close> and \<^verbatim>\<open>Correlation\<close> interpret it.
\<close>

locale keyed_machine =
  fixes step :: "'op \<Rightarrow> 'd \<Rightarrow> 'd"
    and affects :: "'op \<Rightarrow> 'k \<Rightarrow> bool"
    and view :: "'d \<Rightarrow> 'k \<Rightarrow> 'v"
    and lstep :: "'k \<Rightarrow> 'op \<Rightarrow> 'v \<Rightarrow> 'v"
  assumes view_affected: "affects op k \<Longrightarrow> view (step op d) k = lstep k op (view d k)"
    and view_unaffected: "\<not> affects op k \<Longrightarrow> view (step op d) k = view d k"
begin

lemma view_run:
  "view (fold step ops d) k = fold (lstep k) (filter (\<lambda>op. affects op k) ops) (view d k)"
  by (induction ops arbitrary: d) (simp_all add: view_affected view_unaffected)

lemma view_run_filter:
  "view (fold step (filter (\<lambda>op. affects op k) ops) d) k = view (fold step ops d) k"
  by (simp add: view_run)

lemma view_run_cong:
  "view d k = view d' k
   \<Longrightarrow> filter (\<lambda>op. affects op k) ops = filter (\<lambda>op. affects op k) ops'
   \<Longrightarrow> view (fold step ops d) k = view (fold step ops' d') k"
  by (simp add: view_run)

lemma view_run_untouched:
  "(\<And>op. op \<in> set ops \<Longrightarrow> \<not> affects op k) \<Longrightarrow> view (fold step ops d) k = view d k"
  by (induction ops arbitrary: d) (simp_all add: view_unaffected)

lemma view_run_invariant:
  assumes "\<And>op v. op \<in> set ops \<Longrightarrow> I v \<Longrightarrow> I (lstep k op v)" and "I (view d k)"
  shows "I (view (fold step ops d) k)"
  using assms
proof (induction ops arbitrary: d)
  case (Cons op ops)
  have "I (view (step op d) k)"
    using Cons.prems by (cases "affects op k") (simp_all add: view_affected view_unaffected)
  with Cons show ?case by simp
qed simp

end

end
