(* ===== verification/Detector.thy ===== *)
theory Detector
  imports Keyed
begin

section \<open>The CUSUM change-point detector (engine/detector.py)\<close>

text \<open>
  One \<open>metric_state\<close> per stream (\<^verbatim>\<open>_MetricState\<close>): a baseline phase that buffers the
  first observations and estimates \<open>mu0\<close> and \<open>sigma0\<close>, then the Page-CUSUM accumulators
  \<open>S+\<close> and \<open>S-\<close>. \<open>cusum_detector\<close> is \<^verbatim>\<open>CUSUMDetector\<close>, a dictionary of streams keyed by
  (model tuple, suite version, metric name). The lemmas say when a stream is silent, that
  the recursive accumulators are the largest suffix sums of the standardised deviations,
  when an alert must come, and that streams never influence each other.

  \<^verbatim>\<open>_mu0\<close> and \<^verbatim>\<open>_sigma0\<close> are only ever assigned together (in \<^verbatim>\<open>_finalize_baseline\<close>), so they
  are one \<open>option\<close> of a pair, and the \<^verbatim>\<open>assert\<close> that both are set is its \<open>Some\<close> case.
\<close>

subsection \<open>Data\<close>

record drift_alert =
  da_timestamp_ns :: int
  da_model_tuple :: string
  da_metric_name :: string
  da_direction :: string
  da_cusum_score :: real
  da_threshold :: real
  da_window_count :: int
  da_suite_version :: string

record metric_state =
  ms_h :: real
  ms_k :: real
  ms_min_baseline :: int
  ms_buf :: "real list"
  ms_base :: "(real \<times> real) option"
  ms_s_pos :: real
  ms_s_neg :: real
  ms_n :: int

record cusum_detector =
  cd_h :: real
  cd_k :: real
  cd_baseline_samples :: int
  cd_states :: "(stream_key, metric_state) dict"

subsection \<open>One stream\<close>

definition min_baseline_samples :: int where
  "min_baseline_samples = 10"

definition init_metric_state :: "real \<Rightarrow> real \<Rightarrow> metric_state" where
  "init_metric_state h k =
     \<lparr>ms_h = h, ms_k = k, ms_min_baseline = min_baseline_samples, ms_buf = [], ms_base = None,
      ms_s_pos = 0, ms_s_neg = 0, ms_n = 0\<rparr>"

definition baseline_ready :: "metric_state \<Rightarrow> bool" where
  "baseline_ready st \<longleftrightarrow> ms_base st \<noteq> None"

text \<open>
  The sample mean and the sample standard deviation of the buffer, the latter replaced by
  1 when it is below \<open>1e-9\<close>. Only \<open>update_stream\<close> calls it, right after an append.
\<close>

definition finalize_baseline :: "metric_state \<Rightarrow> metric_state" where
  "finalize_baseline st =
     (let n = length (ms_buf st);
          mu = sum_list (ms_buf st) / real n;
          variance = (if n > 1
                      then sum_list (map (\<lambda>x. (x - mu)\<^sup>2) (ms_buf st)) / (real n - 1)
                      else 0);
          sigma = sqrt variance;
          sigma = (if sigma < 1 / 10 ^ 9 then 1 else sigma)
      in st\<lparr>ms_base := Some (mu, sigma)\<rparr>)"

definition make_alert ::
  "metric_state \<Rightarrow> string \<Rightarrow> real \<Rightarrow> string \<Rightarrow> string \<Rightarrow> int \<Rightarrow> string \<Rightarrow> drift_alert" where
  "make_alert st dir score model_tuple metric_name ts suite =
     \<lparr>da_timestamp_ns = ts, da_model_tuple = model_tuple, da_metric_name = metric_name,
      da_direction = dir, da_cusum_score = score, da_threshold = ms_h st,
      da_window_count = ms_n st, da_suite_version = suite\<rparr>"

definition update_stream ::
  "metric_state \<Rightarrow> real \<Rightarrow> string \<Rightarrow> string \<Rightarrow> int \<Rightarrow> string
    \<Rightarrow> metric_state \<times> drift_alert option" where
  "update_stream st value model_tuple metric_name ts suite =
     (let st = st\<lparr>ms_n := ms_n st + 1\<rparr>
      in case ms_base st of
           None \<Rightarrow>
             (let st = st\<lparr>ms_buf := ms_buf st @ [value]\<rparr>
              in (if ms_min_baseline st \<le> int (length (ms_buf st))
                  then finalize_baseline st else st, None))
         | Some (mu0, sigma0) \<Rightarrow>
             (let z = (value - mu0) / sigma0;
                  st = st\<lparr>ms_s_pos := max 0 (ms_s_pos st + z - ms_k st),
                          ms_s_neg := max 0 (ms_s_neg st - z - ms_k st)\<rparr>
              in if ms_s_pos st > ms_h st
                 then (st, Some (make_alert st ''positive'' (ms_s_pos st)
                                   model_tuple metric_name ts suite))
                 else if ms_s_neg st > ms_h st
                 then (st, Some (make_alert st ''negative'' (ms_s_neg st)
                                   model_tuple metric_name ts suite))
                 else (st, None)))"

subsection \<open>The multi-stream detector\<close>

definition init_detector :: "real \<Rightarrow> real \<Rightarrow> int option \<Rightarrow> cusum_detector" where
  "init_detector h k baseline_samples =
     \<lparr>cd_h = h, cd_k = k,
      cd_baseline_samples =
        (case baseline_samples of Some b \<Rightarrow> b | None \<Rightarrow> min_baseline_samples),
      cd_states = []\<rparr>"

text \<open>The state a first observation of a stream finds: fresh, with the detector's window.\<close>

definition fresh_stream :: "cusum_detector \<Rightarrow> metric_state" where
  "fresh_stream d =
     (init_metric_state (cd_h d) (cd_k d))\<lparr>ms_min_baseline := cd_baseline_samples d\<rparr>"

text \<open>
  \<open>mono_ns\<close> is the reading of \<^verbatim>\<open>time.monotonic_ns()\<close>, used when no timestamp is supplied.
\<close>

definition detector_update ::
  "cusum_detector \<Rightarrow> int \<Rightarrow> string \<Rightarrow> string \<Rightarrow> real \<Rightarrow> int option \<Rightarrow> string
    \<Rightarrow> cusum_detector \<times> drift_alert option" where
  "detector_update d mono_ns model_tuple metric_name value timestamp_ns suite =
     (let key = (model_tuple, suite, metric_name);
          states = (if map_of (cd_states d) key = None
                    then AList.update key (fresh_stream d) (cd_states d)
                    else cd_states d);
          ts = (case timestamp_ns of Some t \<Rightarrow> t | None \<Rightarrow> mono_ns);
          (st, alert) = update_stream (the (map_of states key)) value model_tuple metric_name ts suite
      in (d\<lparr>cd_states := AList.update key st states\<rparr>, alert))"

fun reset_selects :: "string \<Rightarrow> string option \<Rightarrow> string option \<Rightarrow> stream_key \<Rightarrow> bool" where
  "reset_selects model_tuple metric_name suite (mt, sv, mn) \<longleftrightarrow>
     mt = model_tuple
     \<and> (case suite of None \<Rightarrow> True | Some s \<Rightarrow> sv = s)
     \<and> (case metric_name of None \<Rightarrow> True | Some m \<Rightarrow> mn = m)"

definition detector_reset ::
  "cusum_detector \<Rightarrow> string \<Rightarrow> string option \<Rightarrow> string option \<Rightarrow> cusum_detector" where
  "detector_reset d model_tuple metric_name suite =
     (let keys = filter (reset_selects model_tuple metric_name suite) (map fst (cd_states d))
      in d\<lparr>cd_states := fold AList.delete keys (cd_states d)\<rparr>)"

definition tracked_streams :: "cusum_detector \<Rightarrow> stream_key list" where
  "tracked_streams d = map fst (cd_states d)"

subsection \<open>Runs of one stream\<close>

text \<open>
  The labels of an observation only reach the alert, never the state: \<open>stream_next\<close> is the
  state after an observation and \<open>stream_alert\<close> whether it raises an alert.
\<close>

definition stream_next :: "real \<Rightarrow> metric_state \<Rightarrow> metric_state" where
  "stream_next v st = fst (update_stream st v [] [] 0 [])"

definition stream_alert :: "real \<Rightarrow> metric_state \<Rightarrow> bool" where
  "stream_alert v st \<longleftrightarrow> snd (update_stream st v [] [] 0 []) \<noteq> None"

lemmas update_stream_simps = update_stream_def stream_next_def stream_alert_def Let_def

lemma fst_update_stream: "fst (update_stream st v mt mn ts sv) = stream_next v st"
  by (simp add: update_stream_simps split: option.splits prod.splits)

lemma alert_update_stream: "(snd (update_stream st v mt mn ts sv) \<noteq> None) = stream_alert v st"
  by (auto simp add: update_stream_simps less_max_iff_disj split: option.splits prod.splits)

lemma stream_next_params [simp]:
  "ms_h (stream_next v st) = ms_h st"
  "ms_k (stream_next v st) = ms_k st"
  "ms_min_baseline (stream_next v st) = ms_min_baseline st"
  "ms_n (stream_next v st) = ms_n st + 1"
  by (simp_all add: update_stream_simps finalize_baseline_def split: option.splits prod.splits)

text \<open>After the baseline, an observation only moves the two accumulators.\<close>

lemma stream_next_active:
  "ms_base st = Some (mu, sg) \<Longrightarrow>
   stream_next v st =
     st\<lparr>ms_n := ms_n st + 1,
        ms_s_pos := max 0 (ms_s_pos st + (v - mu) / sg - ms_k st),
        ms_s_neg := max 0 (ms_s_neg st - (v - mu) / sg - ms_k st)\<rparr>"
  by (simp add: update_stream_simps)

lemma stream_alert_active:
  "ms_base st = Some (mu, sg) \<Longrightarrow>
   stream_alert v st \<longleftrightarrow>
     ms_s_pos (stream_next v st) > ms_h st \<or> ms_s_neg (stream_next v st) > ms_h st"
  by (auto simp add: update_stream_simps less_max_iff_disj)

lemma stream_run_active:
  "ms_base st = Some (mu, sg) \<Longrightarrow> ms_base (fold stream_next vs st) = Some (mu, sg)"
  by (induction vs arbitrary: st) (simp_all add: stream_next_active)

lemma stream_run_params [simp]:
  "ms_h (fold stream_next vs st) = ms_h st"
  "ms_k (fold stream_next vs st) = ms_k st"
  by (induction vs arbitrary: st) simp_all

subsection \<open>The baseline phase\<close>

definition clamped_sd :: "real list \<Rightarrow> real" where
  "clamped_sd xs =
     (let mu = sum_list xs / real (length xs);
          sd = (if length xs > 1
                then sqrt (sum_list (map (\<lambda>x. (x - mu)\<^sup>2) xs) / (real (length xs) - 1)) else 0)
      in if sd < 1 / 10 ^ 9 then 1 else sd)"

lemma finalize_baseline_base:
  "ms_base (finalize_baseline st) =
     Some (sum_list (ms_buf st) / real (length (ms_buf st)), clamped_sd (ms_buf st))"
  by (simp add: finalize_baseline_def clamped_sd_def Let_def)

lemma clamped_sd_ge: "1 / 10 ^ 9 \<le> clamped_sd xs"
  by (simp add: clamped_sd_def Let_def)

lemma clamped_sd_pos [simp]: "0 < clamped_sd xs"
  using clamped_sd_ge [of xs] by (simp add: less_le_trans)

lemma clamped_sd_constant: "(\<And>x. x \<in> set xs \<Longrightarrow> x = c) \<Longrightarrow> clamped_sd xs = 1"
proof -
  assume const: "\<And>x. x \<in> set xs \<Longrightarrow> x = c"
  then have xs: "xs = replicate (length xs) c"
    by (metis replicate_eqI)
  have sum: "sum_list xs = real (length xs) * c"
    by (subst xs) (simp add: sum_list_replicate)
  show ?thesis
  proof (cases xs)
    case (Cons a as)
    then have mu: "sum_list xs / real (length xs) = c" using sum by simp
    have "sum_list (map (\<lambda>x. (x - c)\<^sup>2) xs) = 0"
      using const by (intro sum_list_zero_real) auto
    then show ?thesis by (simp add: clamped_sd_def Let_def mu)
  qed (simp add: clamped_sd_def)
qed

lemma stream_next_baseline:
  "ms_base st = None \<Longrightarrow>
   ms_buf (stream_next v st) = ms_buf st @ [v]
   \<and> ms_s_pos (stream_next v st) = ms_s_pos st \<and> ms_s_neg (stream_next v st) = ms_s_neg st
   \<and> ms_base (stream_next v st) =
       (if ms_min_baseline st \<le> int (length (ms_buf st)) + 1
        then Some (sum_list (ms_buf st @ [v]) / real (length (ms_buf st) + 1),
                   clamped_sd (ms_buf st @ [v]))
        else None)
   \<and> \<not> stream_alert v st"
  by (simp add: update_stream_simps finalize_baseline_base)
     (simp add: finalize_baseline_def Let_def)

lemma baseline_run:
  "ms_base st = None \<Longrightarrow> int (length (ms_buf st) + length vs) < ms_min_baseline st \<Longrightarrow>
   ms_base (fold stream_next vs st) = None \<and> ms_buf (fold stream_next vs st) = ms_buf st @ vs
   \<and> ms_min_baseline (fold stream_next vs st) = ms_min_baseline st
   \<and> ms_s_pos (fold stream_next vs st) = ms_s_pos st
   \<and> ms_s_neg (fold stream_next vs st) = ms_s_neg st"
proof (induction vs arbitrary: st)
  case (Cons v vs)
  have "ms_base (stream_next v st) = None" "ms_buf (stream_next v st) = ms_buf st @ [v]"
    "ms_s_pos (stream_next v st) = ms_s_pos st" "ms_s_neg (stream_next v st) = ms_s_neg st"
    using stream_next_baseline [OF Cons.prems(1), of v] Cons.prems(2) by auto
  then show ?case
    using Cons.IH [of "stream_next v st"] Cons.prems(2) by simp
qed simp

lemma baseline_run_silent:
  "ms_base st = None \<Longrightarrow> int (length (ms_buf st) + length vs) < ms_min_baseline st \<Longrightarrow>
   \<not> stream_alert v (fold stream_next vs st)"
  using baseline_run [of st vs] stream_next_baseline by blast

lemma baseline_run_complete:
  assumes "ms_base st = None" "ms_buf st = []"
    and "vs \<noteq> []" "int (length vs) = ms_min_baseline st"
  shows "ms_base (fold stream_next vs st) = Some (sum_list vs / real (length vs), clamped_sd vs)
    \<and> ms_s_pos (fold stream_next vs st) = ms_s_pos st
    \<and> ms_s_neg (fold stream_next vs st) = ms_s_neg st"
proof -
  obtain us v where vs: "vs = us @ [v]" using assms(3) by (metis rev_exhaust)
  let ?st = "fold stream_next us st"
  have run: "ms_base ?st = None \<and> ms_buf ?st = us \<and> ms_min_baseline ?st = ms_min_baseline st
      \<and> ms_s_pos ?st = ms_s_pos st \<and> ms_s_neg ?st = ms_s_neg st"
    using baseline_run [of st us] assms vs by simp
  then show ?thesis
    using stream_next_baseline [of ?st v] assms(4) vs by (simp add: algebra_simps)
qed

subsection \<open>Page-CUSUM as a maximum over suffixes\<close>

text \<open>
  The textbook form of the statistic: the largest sum of a suffix of the deviations, the
  empty suffix counting 0. The recursive accumulators of the code compute it.
\<close>

definition suffix_sums :: "real list \<Rightarrow> real list" where
  "suffix_sums ys = map (\<lambda>j. sum_list (drop j ys)) [0 ..< length ys + 1]"

definition largest_suffix_sum :: "real list \<Rightarrow> real" where
  "largest_suffix_sum ys = Max (set (suffix_sums ys))"

lemma largest_suffix_sum_Nil [simp]: "largest_suffix_sum [] = 0"
  by (simp add: largest_suffix_sum_def suffix_sums_def)

lemma suffix_sums_snoc:
  "set (suffix_sums (ys @ [y])) = insert 0 ((\<lambda>s. s + y) ` set (suffix_sums ys))"
proof -
  have "[0 ..< length (ys @ [y]) + 1] = [0 ..< length ys + 1] @ [length ys + 1]" by simp
  then have "suffix_sums (ys @ [y]) =
      map (\<lambda>j. sum_list (drop j (ys @ [y]))) [0 ..< length ys + 1] @ [0]"
    by (simp add: suffix_sums_def)
  also have "map (\<lambda>j. sum_list (drop j (ys @ [y]))) [0 ..< length ys + 1] =
      map (\<lambda>s. s + y) (suffix_sums ys)"
    by (auto simp: suffix_sums_def)
  finally show ?thesis by auto
qed

lemma largest_suffix_sum_snoc:
  "largest_suffix_sum (ys @ [y]) = max 0 (largest_suffix_sum ys + y)"
proof -
  have fin: "finite (set (suffix_sums ys))" and ne: "set (suffix_sums ys) \<noteq> {}"
    by (simp_all add: suffix_sums_def)
  have "Max ((\<lambda>s. s + y) ` set (suffix_sums ys)) = Max (set (suffix_sums ys)) + y"
    using mono_Max_commute [of "\<lambda>s. s + y", OF _ fin ne] by (simp add: mono_def)
  then show ?thesis
    using fin ne by (simp add: largest_suffix_sum_def suffix_sums_snoc)
qed

lemma accumulators_are_suffix_sums:
  assumes "ms_base st = Some (mu, sg)" "ms_s_pos st = 0" "ms_s_neg st = 0"
  shows "ms_s_pos (fold stream_next vs st) =
           largest_suffix_sum (map (\<lambda>v. (v - mu) / sg - ms_k st) vs)
       \<and> ms_s_neg (fold stream_next vs st) =
           largest_suffix_sum (map (\<lambda>v. - ((v - mu) / sg) - ms_k st) vs)"
proof (induction vs rule: rev_induct)
  case (snoc v vs)
  have "ms_base (fold stream_next vs st) = Some (mu, sg)"
    by (rule stream_run_active [OF assms(1)])
  then show ?case
    using snoc by (simp add: stream_next_active largest_suffix_sum_snoc algebra_simps)
qed (simp add: assms)

subsection \<open>Bounds on the accumulators\<close>

lemma s_pos_lower_bound:
  "ms_base st = Some (mu, sg) \<Longrightarrow> (\<And>v. v \<in> set vs \<Longrightarrow> ms_k st + d \<le> (v - mu) / sg) \<Longrightarrow>
   ms_s_pos st + real (length vs) * d \<le> ms_s_pos (fold stream_next vs st)"
proof (induction vs arbitrary: st)
  case (Cons v vs)
  have "ms_k st + d \<le> (v - mu) / sg" using Cons.prems(2) by simp
  then have "ms_s_pos st + d \<le> ms_s_pos (stream_next v st)"
    using Cons.prems(1) by (simp add: stream_next_active)
  moreover have "ms_base (stream_next v st) = Some (mu, sg)"
    using Cons.prems(1) by (simp add: stream_next_active)
  ultimately show ?case
    using Cons.IH [of "stream_next v st"] Cons.prems(2) by (force simp: algebra_simps)
qed simp

lemma s_neg_lower_bound:
  "ms_base st = Some (mu, sg) \<Longrightarrow> (\<And>v. v \<in> set vs \<Longrightarrow> (v - mu) / sg \<le> - (ms_k st + d)) \<Longrightarrow>
   ms_s_neg st + real (length vs) * d \<le> ms_s_neg (fold stream_next vs st)"
proof (induction vs arbitrary: st)
  case (Cons v vs)
  have "(v - mu) / sg \<le> - (ms_k st + d)" using Cons.prems(2) by simp
  then have "ms_s_neg st + d \<le> ms_s_neg (stream_next v st)"
    using Cons.prems(1) by (simp add: stream_next_active)
  moreover have "ms_base (stream_next v st) = Some (mu, sg)"
    using Cons.prems(1) by (simp add: stream_next_active)
  ultimately show ?case
    using Cons.IH [of "stream_next v st"] Cons.prems(2) by (force simp: algebra_simps)
qed simp

lemma accumulators_quiet:
  assumes "ms_base st = Some (mu, sg)" "ms_s_pos st = 0" "ms_s_neg st = 0"
    and "\<And>v. v \<in> set vs \<Longrightarrow> \<bar>(v - mu) / sg\<bar> \<le> ms_k st"
  shows "ms_s_pos (fold stream_next vs st) = 0 \<and> ms_s_neg (fold stream_next vs st) = 0"
  using assms
proof (induction vs arbitrary: st)
  case (Cons v vs)
  have "(v - mu) / sg \<le> ms_k st" "- ((v - mu) / sg) \<le> ms_k st"
    using Cons.prems(4) [of v] by (simp_all only: abs_le_iff list.set_intros)
  then have "ms_s_pos (stream_next v st) = 0" "ms_s_neg (stream_next v st) = 0"
    "ms_base (stream_next v st) = Some (mu, sg)"
    using Cons.prems(1-3) by (auto simp: stream_next_active max_def)
  then show ?case using Cons by simp
qed simp

subsection \<open>The detector as a keyed machine\<close>

record observation =
  ob_model_tuple :: string
  ob_metric_name :: string
  ob_value :: real
  ob_timestamp_ns :: "int option"
  ob_suite_version :: string

datatype detector_op = Feed observation | Reset string "string option" "string option"

definition ob_key :: "observation \<Rightarrow> stream_key" where
  "ob_key ob = (ob_model_tuple ob, ob_suite_version ob, ob_metric_name ob)"

text \<open>One call on the detector; a monotonic clock reading never reaches the state.\<close>

fun detector_step :: "detector_op \<Rightarrow> cusum_detector \<Rightarrow> cusum_detector" where
  "detector_step (Feed ob) d =
     fst (detector_update d 0 (ob_model_tuple ob) (ob_metric_name ob) (ob_value ob)
            (ob_timestamp_ns ob) (ob_suite_version ob))"
| "detector_step (Reset mt mn sv) d = detector_reset d mt mn sv"

fun op_affects :: "detector_op \<Rightarrow> stream_key \<Rightarrow> bool" where
  "op_affects (Feed ob) key \<longleftrightarrow> key = ob_key ob"
| "op_affects (Reset mt mn sv) key \<longleftrightarrow> reset_selects mt mn sv key"

definition stream_of :: "cusum_detector \<Rightarrow> stream_key \<Rightarrow> metric_state" where
  "stream_of d key = (case map_of (cd_states d) key of None \<Rightarrow> fresh_stream d | Some st \<Rightarrow> st)"

definition stream_view :: "cusum_detector \<Rightarrow> stream_key \<Rightarrow> metric_state \<times> metric_state option" where
  "stream_view d key = (fresh_stream d, map_of (cd_states d) key)"

fun stream_lstep ::
  "stream_key \<Rightarrow> detector_op \<Rightarrow> metric_state \<times> metric_state option
    \<Rightarrow> metric_state \<times> metric_state option" where
  "stream_lstep key (Feed ob) (fr, st) =
     (fr, Some (stream_next (ob_value ob) (case st of None \<Rightarrow> fr | Some s \<Rightarrow> s)))"
| "stream_lstep key (Reset mt mn sv) (fr, st) = (fr, None)"

lemma detector_update_eq:
  "detector_update d clk mt mn v ts sv =
     (d\<lparr>cd_states := AList.update (mt, sv, mn) (stream_next v (stream_of d (mt, sv, mn)))
          (if map_of (cd_states d) (mt, sv, mn) = None
           then AList.update (mt, sv, mn) (fresh_stream d) (cd_states d) else cd_states d)\<rparr>,
      snd (update_stream (stream_of d (mt, sv, mn)) v mt mn
             (case ts of Some t \<Rightarrow> t | None \<Rightarrow> clk) sv))"
proof -
  have split: "update_stream st v mt mn t sv = (stream_next v st, snd (update_stream st v mt mn t sv))"
    for st t by (simp add: prod_eq_iff fst_update_stream)
  show ?thesis
    unfolding detector_update_def Let_def stream_of_def
    by (subst split) (simp split: option.split)
qed

lemma fresh_stream_update [simp]: "fresh_stream (d\<lparr>cd_states := x\<rparr>) = fresh_stream d"
  by (simp add: fresh_stream_def)

lemma states_detector_update:
  "map_of (cd_states (fst (detector_update d clk mt mn v ts sv))) key =
     (if key = (mt, sv, mn) then Some (stream_next v (stream_of d key)) else map_of (cd_states d) key)"
  by (simp add: detector_update_eq)

lemma fresh_detector_update [simp]:
  "fresh_stream (fst (detector_update d clk mt mn v ts sv)) = fresh_stream d"
  by (simp add: detector_update_eq)

lemma stream_of_detector_update:
  "stream_of (fst (detector_update d clk mt mn v ts sv)) key =
     (if key = (mt, sv, mn) then stream_next v (stream_of d key) else stream_of d key)"
  by (simp add: stream_of_def states_detector_update split: option.split)

lemma states_detector_reset:
  "map_of (cd_states (detector_reset d mt mn sv)) key =
     (if reset_selects mt mn sv key then None else map_of (cd_states d) key)"
  by (auto simp: detector_reset_def Let_def map_of_fold_delete map_of_eq_None_iff)

lemma fresh_detector_reset [simp]: "fresh_stream (detector_reset d mt mn sv) = fresh_stream d"
  by (simp add: detector_reset_def)

interpretation det: keyed_machine detector_step op_affects stream_view stream_lstep
proof
  fix op key d
  show "stream_view (detector_step op d) key = stream_lstep key op (stream_view d key)"
    if "op_affects op key"
    using that by (cases op)
      (simp_all add: stream_view_def states_detector_update states_detector_reset stream_of_def ob_key_def)
  show "stream_view (detector_step op d) key = stream_view d key" if "\<not> op_affects op key"
    using that by (cases op)
      (simp_all add: stream_view_def states_detector_update states_detector_reset ob_key_def)
qed

lemma stream_of_view:
  "stream_of d key = (case stream_view d key of (fr, None) \<Rightarrow> fr | (fr, Some st) \<Rightarrow> st)"
  by (simp add: stream_of_def stream_view_def split: option.splits)

text \<open>What every reachable stream satisfies: a positive scale and non-negative accumulators.\<close>

definition stream_ok :: "metric_state \<Rightarrow> bool" where
  "stream_ok st \<longleftrightarrow>
     0 \<le> ms_s_pos st \<and> 0 \<le> ms_s_neg st
     \<and> (case ms_base st of None \<Rightarrow> ms_s_pos st = 0 \<and> ms_s_neg st = 0
        | Some (mu, sg) \<Rightarrow> 1 / 10 ^ 9 \<le> sg \<and> ms_buf st \<noteq> [])"

lemma stream_ok_next: "stream_ok st \<Longrightarrow> stream_ok (stream_next v st)"
proof (cases "ms_base st")
  case None
  then show "stream_ok st \<Longrightarrow> stream_ok (stream_next v st)"
    using stream_next_baseline [OF None, of v] clamped_sd_ge [of "ms_buf st @ [v]"]
    by (auto simp: stream_ok_def split: option.splits)
next
  case (Some b)
  then show "stream_ok st \<Longrightarrow> stream_ok (stream_next v st)"
    by (cases b) (auto simp: stream_ok_def stream_next_active)
qed

lemma stream_ok_fresh [simp]: "stream_ok (fresh_stream d)"
  by (simp add: stream_ok_def fresh_stream_def init_metric_state_def)

text \<open>Feeding one stream of a detector.\<close>

definition detector_feed ::
  "string \<Rightarrow> string \<Rightarrow> string \<Rightarrow> real list \<Rightarrow> cusum_detector \<Rightarrow> cusum_detector" where
  "detector_feed mt mn sv vs d = fold (\<lambda>v d. fst (detector_update d 0 mt mn v None sv)) vs d"

lemma stream_of_feed:
  "stream_of (detector_feed mt mn sv vs d) key =
     (if key = (mt, sv, mn) then fold stream_next vs (stream_of d key) else stream_of d key)"
  unfolding detector_feed_def
  by (induction vs arbitrary: d) (simp_all add: stream_of_detector_update)

lemma stream_of_init:
  "stream_of (init_detector h k b) key =
     (init_metric_state h k)\<lparr>ms_min_baseline := (case b of Some n \<Rightarrow> n | None \<Rightarrow> min_baseline_samples)\<rparr>"
  by (simp add: stream_of_def init_detector_def fresh_stream_def split: option.splits)

lemma alert_detector_update:
  "snd (detector_update d clk mt mn v ts sv) \<noteq> None \<longleftrightarrow> stream_alert v (stream_of d (mt, sv, mn))"
  by (simp only: detector_update_eq snd_conv alert_update_stream)

subsection \<open>Properties\<close>

text \<open>C9: Page-CUSUM is the maximum over suffixes. Feed a new detector \<open>N\<close> baseline values
  \<open>bs\<close> and then any values \<open>vs\<close> on one stream: the two accumulators are the largest suffix
  sums of the deviations of \<open>vs\<close>, standardised by the mean and the (clamped) sample
  standard deviation of \<open>bs\<close>, less the slack \<open>k\<close>.\<close>

theorem page_cusum_is_max_suffix_sum:
  assumes "length bs = N" and "0 < N"
  shows "let st = stream_of (detector_feed mt mn sv (bs @ vs) (init_detector h k (Some (int N))))
                    (mt, sv, mn);
             z = (\<lambda>v. (v - sum_list bs / real N) / clamped_sd bs)
         in ms_s_pos st = largest_suffix_sum (map (\<lambda>v. z v - k) vs)
          \<and> ms_s_neg st = largest_suffix_sum (map (\<lambda>v. - z v - k) vs)"
proof -
  let ?st0 = "stream_of (init_detector h k (Some (int N))) (mt, sv, mn)"
  have st0: "ms_base ?st0 = None" "ms_buf ?st0 = []" "ms_min_baseline ?st0 = int N"
    "ms_s_pos ?st0 = 0" "ms_s_neg ?st0 = 0" "ms_k ?st0 = k"
    by (simp_all add: stream_of_init init_metric_state_def)
  have "bs \<noteq> []" using assms by auto
  then have base: "ms_base (fold stream_next bs ?st0) = Some (sum_list bs / real N, clamped_sd bs)
      \<and> ms_s_pos (fold stream_next bs ?st0) = 0 \<and> ms_s_neg (fold stream_next bs ?st0) = 0"
    using baseline_run_complete [of ?st0 bs] st0 assms(1) by simp
  show ?thesis
    using accumulators_are_suffix_sums [of "fold stream_next bs ?st0" _ _ vs] base st0(6)
    by (simp add: stream_of_feed)
qed

theorem page_cusum_is_max_suffix_sum_witness:
  "ms_s_pos (stream_of (detector_feed ''m'' ''j'' ''v1'' ([1, 1] @ [3, 0, 4])
     (init_detector 5 (1 / 2) (Some (int 2)))) (''m'', ''v1'', ''j'')) = 5 / 2"
  using page_cusum_is_max_suffix_sum [of "[1, 1]" 2 "''m''" "''j''" "''v1''" "[3, 0, 4]" 5 "1 / 2"]
    clamped_sd_constant [of "[1, 1]" 1]
  by (simp add: Let_def largest_suffix_sum_def suffix_sums_def upt_rec)

text \<open>The baseline phase is silent. None of the first \<open>N\<close> observations of a stream raises an
  alert, whatever its value, and the \<open>N\<close>-th fixes the mean and the clamped sample standard
  deviation of exactly those \<open>N\<close> values as the baseline.\<close>

theorem baseline_phase_is_silent:
  assumes "length bs = N" and "i < N"
  shows "snd (detector_update (detector_feed mt mn sv (take i bs) (init_detector h k (Some (int N))))
                clk mt mn (bs ! i) ts sv) = None
       \<and> ms_base (stream_of (detector_feed mt mn sv bs (init_detector h k (Some (int N))))
                   (mt, sv, mn)) = Some (sum_list bs / real N, clamped_sd bs)"
proof -
  let ?d = "init_detector h k (Some (int N))" and ?key = "(mt, sv, mn)"
  let ?st0 = "stream_of ?d ?key"
  have st0: "ms_base ?st0 = None" "ms_buf ?st0 = []" "ms_min_baseline ?st0 = int N"
    by (simp_all add: stream_of_init init_metric_state_def)
  have "\<not> stream_alert (bs ! i) (stream_of (detector_feed mt mn sv (take i bs) ?d) ?key)"
    using baseline_run_silent [of ?st0 "take i bs"] st0 assms by (simp add: stream_of_feed)
  then have "snd (detector_update (detector_feed mt mn sv (take i bs) ?d) clk mt mn (bs ! i) ts sv) = None"
    using alert_detector_update by blast
  moreover have "bs \<noteq> []" using assms by auto
  ultimately show ?thesis
    using baseline_run_complete [of ?st0 bs] st0 assms(1) by (simp add: stream_of_feed)
qed

theorem baseline_phase_is_silent_witness:
  "snd (detector_update (detector_feed ''m'' ''j'' ''v1'' (take 1 [1, 900]) (init_detector 5 (1 / 2) (Some (int 2))))
          0 ''m'' ''j'' ([1, 900] ! 1) None ''v1'') = None"
  using baseline_phase_is_silent [of "[1, 900]" 2 1 "''m''" "''j''" "''v1''" 5 "1 / 2" 0 None] by simp

text \<open>C16: A sustained shift is detected in bounded time. Once a stream has its baseline, let every
  standardised observation of \<open>vs\<close> exceed the slack by at least \<open>e\<close>, in one direction. As soon
  as \<open>length vs * e\<close> exceeds the threshold, the last observation of \<open>vs\<close> raises an alert.\<close>

theorem sustained_shift_raises_alert:
  assumes "ms_base (stream_of d (mt, sv, mn)) = Some (mu, sg)"
    and "stream_ok (stream_of d (mt, sv, mn))"
    and "vs \<noteq> []" and "ms_h (stream_of d (mt, sv, mn)) < real (length vs) * e"
    and "(\<forall>v\<in>set vs. ms_k (stream_of d (mt, sv, mn)) + e \<le> (v - mu) / sg)
         \<or> (\<forall>v\<in>set vs. (v - mu) / sg \<le> - (ms_k (stream_of d (mt, sv, mn)) + e))"
  shows "snd (detector_update (detector_feed mt mn sv (butlast vs) d) clk mt mn (last vs) ts sv) \<noteq> None"
proof -
  let ?st = "stream_of d (mt, sv, mn)"
  let ?st' = "fold stream_next (butlast vs) ?st"
  have vs: "fold stream_next vs ?st = stream_next (last vs) ?st'"
    using assms(3) by (subst append_butlast_last_id [symmetric]) (simp_all del: append_butlast_last_id)
  have "0 \<le> ms_s_pos ?st" "0 \<le> ms_s_neg ?st" using assms(2) by (simp_all add: stream_ok_def)
  then have "ms_h ?st < ms_s_pos (stream_next (last vs) ?st') \<or> ms_h ?st < ms_s_neg (stream_next (last vs) ?st')"
    using assms(4,5) s_pos_lower_bound [OF assms(1), of vs e] s_neg_lower_bound [OF assms(1), of vs e]
    by (fastforce simp: vs)
  then have "stream_alert (last vs) ?st'"
    using stream_alert_active [OF stream_run_active [OF assms(1)]] by simp
  then show ?thesis by (simp only: alert_detector_update stream_of_feed if_True simp_thms)
qed

text \<open>A stream whose baseline is two observations of 0 (so \<open>mu = 0\<close>, \<open>sigma = 1\<close>).\<close>

definition example_detector :: cusum_detector where
  "example_detector = detector_feed ''m'' ''j'' ''v1'' [0, 0] (init_detector 5 (1 / 2) (Some (int 2)))"

lemma example_detector_stream:
  "stream_of example_detector (''m'', ''v1'', ''j'') =
     \<lparr>ms_h = 5, ms_k = 1 / 2, ms_min_baseline = 2, ms_buf = [0, 0], ms_base = Some (0, 1),
      ms_s_pos = 0, ms_s_neg = 0, ms_n = 2\<rparr>"
  by (simp add: example_detector_def stream_of_feed stream_of_init init_metric_state_def
      stream_next_def update_stream_def finalize_baseline_def Let_def)

theorem sustained_shift_raises_alert_witness:
  "snd (detector_update (detector_feed ''m'' ''j'' ''v1'' (butlast [- 4, - 4]) example_detector)
          0 ''m'' ''j'' (last [- 4, - 4]) None ''v1'') \<noteq> None"
  by (rule sustained_shift_raises_alert [where mu = 0 and sg = 1 and e = "7 / 2"])
     (simp_all add: example_detector_stream stream_ok_def)

text \<open>No alert while the process is in control. If every standardised observation stays within
  the slack \<open>k\<close> of the baseline mean, no observation of the run ever raises an alert.\<close>

theorem in_control_stream_never_alerts:
  assumes "ms_base (stream_of d (mt, sv, mn)) = Some (mu, sg)"
    and "ms_s_pos (stream_of d (mt, sv, mn)) = 0" and "ms_s_neg (stream_of d (mt, sv, mn)) = 0"
    and "0 \<le> ms_h (stream_of d (mt, sv, mn))"
    and "\<forall>v\<in>set (vs @ [v]). \<bar>(v - mu) / sg\<bar> \<le> ms_k (stream_of d (mt, sv, mn))"
  shows "snd (detector_update (detector_feed mt mn sv vs d) clk mt mn v ts sv) = None"
proof -
  let ?st = "stream_of d (mt, sv, mn)"
  have "ms_s_pos (fold stream_next (vs @ [v]) ?st) = 0 \<and> ms_s_neg (fold stream_next (vs @ [v]) ?st) = 0"
    by (rule accumulators_quiet [OF assms(1-3)]) (use assms(5) in blast)
  then have "ms_s_pos (stream_next v (fold stream_next vs ?st)) = 0
      \<and> ms_s_neg (stream_next v (fold stream_next vs ?st)) = 0" by simp
  then have "\<not> stream_alert v (fold stream_next vs ?st)"
    using stream_alert_active [OF stream_run_active [OF assms(1)], of v vs] assms(4) by simp
  then have "\<not> snd (detector_update (detector_feed mt mn sv vs d) clk mt mn v ts sv) \<noteq> None"
    by (simp only: alert_detector_update stream_of_feed if_True simp_thms)
  then show ?thesis by blast
qed

theorem in_control_stream_never_alerts_witness:
  "snd (detector_update (detector_feed ''m'' ''j'' ''v1'' [1 / 2, - 1 / 2, 1 / 2] example_detector)
          0 ''m'' ''j'' (1 / 2) None ''v1'') = None"
  by (rule in_control_stream_never_alerts [where mu = 0 and sg = 1])
     (simp_all add: example_detector_stream)

text \<open>Streams are independent. After any sequence of observations and resets, a stream's state,
  and so whether its next observation raises an alert and with what score, is the same as if
  the operations on all other (model, suite, metric) keys had never happened.\<close>

theorem streams_are_independent:
  "let mine = filter (\<lambda>op. op_affects op (mt, sv, mn)) ops
   in stream_of (fold detector_step ops d) (mt, sv, mn) = stream_of (fold detector_step mine d) (mt, sv, mn)
    \<and> snd (detector_update (fold detector_step ops d) clk mt mn v ts sv) =
      snd (detector_update (fold detector_step mine d) clk mt mn v ts sv)"
  by (simp add: detector_update_eq stream_of_view det.view_run_filter)

text \<open>Standardising never divides by zero. In every state a detector can reach by observations
  and resets, every stream with a baseline has a scale of at least \<open>1e-9\<close> estimated from a
  non-empty buffer, and its accumulators are not negative.\<close>

theorem reachable_scale_positive:
  assumes "ms_base (stream_of (fold detector_step ops (init_detector h k b)) key) = Some (mu, sg)"
  shows "1 / 10 ^ 9 \<le> sg \<and> ms_buf (stream_of (fold detector_step ops (init_detector h k b)) key) \<noteq> []
       \<and> 0 \<le> ms_s_pos (stream_of (fold detector_step ops (init_detector h k b)) key)
       \<and> 0 \<le> ms_s_neg (stream_of (fold detector_step ops (init_detector h k b)) key)"
proof -
  let ?I = "\<lambda>v. stream_ok (fst v) \<and> (\<forall>st. snd v = Some st \<longrightarrow> stream_ok st)"
  have "?I (stream_view (fold detector_step ops (init_detector h k b)) key)"
  proof (rule det.view_run_invariant)
    fix op v assume "?I v"
    then show "?I (stream_lstep key op v)"
      by (cases op; cases v) (auto intro!: stream_ok_next split: option.splits)
  qed (simp add: stream_view_def init_detector_def)
  then have "stream_ok (stream_of (fold detector_step ops (init_detector h k b)) key)"
    by (simp add: stream_view_def stream_of_def split: option.splits)
  then show ?thesis using assms by (simp add: stream_ok_def)
qed

theorem reachable_scale_positive_witness:
  "1 / 10 ^ 9 \<le> (1 :: real) \<and>
   0 \<le> ms_s_pos (stream_of (fold detector_step
        [Feed \<lparr>ob_model_tuple = ''m'', ob_metric_name = ''j'', ob_value = 7, ob_timestamp_ns = None,
               ob_suite_version = ''v1''\<rparr>] (init_detector 5 (1 / 2) (Some 1))) (''m'', ''v1'', ''j''))"
  using reachable_scale_positive
    [of "[Feed \<lparr>ob_model_tuple = ''m'', ob_metric_name = ''j'', ob_value = 7, ob_timestamp_ns = None,
           ob_suite_version = ''v1''\<rparr>]" 5 "1 / 2" "Some 1" "(''m'', ''v1'', ''j'')" 7 1]
  by (simp add: stream_of_detector_update stream_of_init init_metric_state_def stream_next_def
      update_stream_def finalize_baseline_def Let_def)

end
