(* ===== verification/Correlation.thy ===== *)
theory Correlation
  imports Keyed
begin

section \<open>Cross-observer agreement (engine/correlation.py)\<close>

text \<open>
  \<open>scorer\<close> is \<^verbatim>\<open>AgreementScorer\<close>: two dictionaries of tables, one of agreeing candidates and
  one of observers, keyed by stream; each table maps an organisation to its latest event
  time in nanoseconds. \<open>required_quorum\<close> is the policy \<open>q(M) = max(floor, ceil(num*M/den))\<close>.
  A wall-clock reading (\<^verbatim>\<open>_now_ns()\<close>) is the argument \<open>now\<close>. The lemmas say that the tables
  hold the latest event time of each organisation, that a promotion is backed by that many
  distinct live votes, and that buckets never influence each other. The Bayesian detector of
  the same file is modelled in \<^verbatim>\<open>Bayes\<close>; the interface stub only raises
  \<^verbatim>\<open>NotImplementedError\<close>.
\<close>

subsection \<open>The quorum policy\<close>

definition QUORUM_FLOOR :: int where "QUORUM_FLOOR = 3"
definition QUORUM_FRAC_NUM :: int where "QUORUM_FRAC_NUM = 1"
definition QUORUM_FRAC_DEN :: int where "QUORUM_FRAC_DEN = 3"
definition DEFAULT_TTL_NS :: int where "DEFAULT_TTL_NS = 14 * 86400 * 1000000000"

text \<open>Python's floor division raises on a zero divisor; on any other it is \<open>div\<close>.\<close>

definition required_quorum :: "int \<Rightarrow> int \<Rightarrow> int \<Rightarrow> int \<Rightarrow> py_error + int" where
  "required_quorum network_size q_floor frac_num frac_den =
     (let m = max 0 network_size
      in if frac_den = 0 then Inl ZeroDivisionError
         else Inr (max q_floor ((frac_num * m + frac_den - 1) div frac_den)))"

subsection \<open>Data\<close>

record feature_vector =
  fv_org_id :: string
  fv_model_tuple :: string
  fv_suite_version_hash :: string
  fv_values :: "real list"
  fv_timestamp_ns :: int

record change_point_result =
  cp_model_tuple :: string
  cp_change_detected :: bool
  cp_score :: real
  cp_threshold :: real
  cp_contributing_orgs :: "string list"
  cp_metric_name :: string
  cp_timestamp_ns :: int
  cp_suite_version :: string

definition cp_key :: "change_point_result \<Rightarrow> stream_key" where
  "cp_key r = (cp_model_tuple r, cp_suite_version r, cp_metric_name r)"

type_synonym org_table = "(string, int) dict"

record scorer =
  sc_floor :: int
  sc_ttl_ns :: int
  sc_frac_num :: int
  sc_frac_den :: int
  sc_agree :: "(stream_key, org_table) dict"
  sc_observers :: "(stream_key, org_table) dict"

definition init_scorer :: "int option \<Rightarrow> int \<Rightarrow> int \<Rightarrow> int \<Rightarrow> scorer" where
  "init_scorer quorum ttl_ns frac_num frac_den =
     \<lparr>sc_floor = (case quorum of Some q \<Rightarrow> q | None \<Rightarrow> QUORUM_FLOOR), sc_ttl_ns = ttl_ns,
      sc_frac_num = frac_num, sc_frac_den = frac_den, sc_agree = [], sc_observers = []\<rparr>"

definition default_scorer :: scorer where
  "default_scorer = init_scorer None DEFAULT_TTL_NS QUORUM_FRAC_NUM QUORUM_FRAC_DEN"

subsection \<open>Operations\<close>

text \<open>\<^verbatim>\<open>timestamp_ns if timestamp_ns else now\<close>: an absent or zero stamp means now.\<close>

definition stamp_or_now :: "int option \<Rightarrow> int \<Rightarrow> int" where
  "stamp_or_now ts now = (case ts of None \<Rightarrow> now | Some t \<Rightarrow> if t = 0 then now else t)"

text \<open>\<^verbatim>\<open>setdefault\<close> the bucket, then keep the later of the old and the new stamp.\<close>

definition stamp_bucket ::
  "(stream_key, org_table) dict \<Rightarrow> stream_key \<Rightarrow> string \<Rightarrow> int \<Rightarrow> (stream_key, org_table) dict" where
  "stamp_bucket tables key org ts =
     (let bucket = dict_get tables key [];
          prev = dict_get bucket org 0
      in AList.update key (if prev \<le> ts then AList.update org ts bucket else bucket) tables)"

definition scorer_observe ::
  "scorer \<Rightarrow> int \<Rightarrow> string \<Rightarrow> string \<Rightarrow> string \<Rightarrow> int option \<Rightarrow> string \<Rightarrow> scorer" where
  "scorer_observe sc now model_tuple metric_name org_id timestamp_ns suite =
     sc\<lparr>sc_observers :=
          stamp_bucket (sc_observers sc) (model_tuple, suite, metric_name) org_id
            (stamp_or_now timestamp_ns now)\<rparr>"

definition ingest_org ::
  "change_point_result \<Rightarrow> int \<Rightarrow> int \<Rightarrow> string \<Rightarrow> scorer \<Rightarrow> scorer" where
  "ingest_org r now ts org_id sc =
     (let sc = scorer_observe sc now (cp_model_tuple r) (cp_metric_name r) org_id (Some ts)
                 (cp_suite_version r)
      in if cp_change_detected r
         then sc\<lparr>sc_agree := stamp_bucket (sc_agree sc) (cp_key r) org_id ts\<rparr> else sc)"

definition scorer_ingest :: "scorer \<Rightarrow> int \<Rightarrow> change_point_result \<Rightarrow> scorer" where
  "scorer_ingest sc now r =
     (if cp_contributing_orgs r = [] then sc
      else let ts = (if cp_timestamp_ns r \<noteq> 0 then cp_timestamp_ns r else now)
           in fold (ingest_org r now ts) (cp_contributing_orgs r) sc)"

definition live_orgs :: "scorer \<Rightarrow> org_table \<Rightarrow> int \<Rightarrow> string set" where
  "live_orgs sc table now =
     (let cutoff = now - sc_ttl_ns sc
      in set (map fst (filter (\<lambda>(org, ts). cutoff \<le> ts \<and> ts \<le> now) table)))"

definition scorer_clear :: "scorer \<Rightarrow> string \<Rightarrow> string \<Rightarrow> string \<Rightarrow> scorer" where
  "scorer_clear sc model_tuple metric_name suite =
     sc\<lparr>sc_agree := AList.delete (model_tuple, suite, metric_name) (sc_agree sc)\<rparr>"

definition promote_to_public_alert ::
  "scorer \<Rightarrow> int \<Rightarrow> string \<Rightarrow> string \<Rightarrow> string \<Rightarrow> py_error + scorer \<times> nat option" where
  "promote_to_public_alert sc now model_tuple metric_name suite =
     (let key = (model_tuple, suite, metric_name);
          agree_tbl = dict_get (sc_agree sc) key []
      in if agree_tbl = [] then Inr (sc, None)
         else let live_agree = live_orgs sc agree_tbl now
              in if live_agree = {} then Inr (sc, None)
                 else let live_obs = live_orgs sc (dict_get (sc_observers sc) key []) now;
                          population = max (card live_obs) (card live_agree)
                      in case required_quorum (int population) (sc_floor sc)
                                (sc_frac_num sc) (sc_frac_den sc) of
                           Inl e \<Rightarrow> Inl e
                         | Inr q \<Rightarrow>
                             if q \<le> int (card live_agree)
                             then Inr (scorer_clear sc model_tuple metric_name suite,
                                       Some (card live_agree))
                             else Inr (sc, None))"

subsection \<open>The quorum schedule\<close>

lemma required_quorum_Inr [simp]:
  "den \<noteq> 0 \<Longrightarrow> required_quorum m fl num den = Inr (max fl ((num * max 0 m + den - 1) div den))"
  by (simp add: required_quorum_def)

lemma ceil_div:
  assumes "0 < (den :: int)"
  shows "(a + den - 1) div den = \<lceil>real_of_int a / real_of_int den\<rceil>"
proof -
  obtain q r where q: "q = (a + den - 1) div den" and eq: "q * den + r = a + den - 1"
    and r: "0 \<le> r" "r < den"
    using assms div_mult_mod_eq [of "a + den - 1" den] pos_mod_sign pos_mod_bound by metis
  then have "a \<le> q * den" "(q - 1) * den < a" by (simp_all add: algebra_simps)
  then have "real_of_int a \<le> of_int (q * den)" "of_int ((q - 1) * den) < real_of_int a"
    by (simp_all only: of_int_le_iff of_int_less_iff)
  then show ?thesis
    unfolding q [symmetric] using assms
    by (intro ceiling_unique [symmetric]) (simp_all add: field_simps)
qed

subsection \<open>Histories\<close>

text \<open>
  One call on the scorer, with the clock reading it makes. A promotion that raises leaves
  the scorer unchanged.
\<close>

datatype scorer_op =
    Observe string string string "int option" string int
  | Ingest change_point_result int
  | Promote string string int string
  | Clear string string string

fun scorer_step :: "scorer_op \<Rightarrow> scorer \<Rightarrow> scorer" where
  "scorer_step (Observe mt mn org ts sv now) sc = scorer_observe sc now mt mn org ts sv"
| "scorer_step (Ingest r now) sc = scorer_ingest sc now r"
| "scorer_step (Promote mt mn now sv) sc =
     (case promote_to_public_alert sc now mt mn sv of Inl e \<Rightarrow> sc | Inr (sc', c) \<Rightarrow> sc')"
| "scorer_step (Clear mt mn sv) sc = scorer_clear sc mt mn sv"

fun scorer_op_key :: "scorer_op \<Rightarrow> stream_key" where
  "scorer_op_key (Observe mt mn org ts sv now) = (mt, sv, mn)"
| "scorer_op_key (Ingest r now) = cp_key r"
| "scorer_op_key (Promote mt mn now sv) = (mt, sv, mn)"
| "scorer_op_key (Clear mt mn sv) = (mt, sv, mn)"

text \<open>The candidates and the sightings an operation contributes to a stream.\<close>

definition vote_stamp :: "change_point_result \<Rightarrow> int \<Rightarrow> int" where
  "vote_stamp r now = (if cp_timestamp_ns r \<noteq> 0 then cp_timestamp_ns r else now)"

fun votes :: "scorer_op \<Rightarrow> stream_key \<Rightarrow> (string \<times> int) set" where
  "votes (Ingest r now) key =
     (if cp_change_detected r \<and> cp_key r = key
      then (\<lambda>org. (org, vote_stamp r now)) ` set (cp_contributing_orgs r) else {})"
| "votes _ key = {}"

fun sightings :: "scorer_op \<Rightarrow> stream_key \<Rightarrow> (string \<times> int) set" where
  "sightings (Observe mt mn org ts sv now) key =
     (if (mt, sv, mn) = key then {(org, stamp_or_now ts now)} else {})"
| "sightings (Ingest r now) key =
     (if cp_key r = key
      then (\<lambda>org. (org, vote_stamp r now)) ` set (cp_contributing_orgs r) else {})"
| "sightings _ key = {}"

definition agree_table :: "scorer \<Rightarrow> stream_key \<Rightarrow> org_table" where
  "agree_table sc key = dict_get (sc_agree sc) key []"

definition observer_table :: "scorer \<Rightarrow> stream_key \<Rightarrow> org_table" where
  "observer_table sc key = dict_get (sc_observers sc) key []"

subsection \<open>What the operations do to the tables\<close>

lemma stamp_bucket_table:
  "dict_get (stamp_bucket T key org ts) k [] =
     (if k = key \<and> dict_get (dict_get T key []) org 0 \<le> ts
      then AList.update org ts (dict_get T key []) else dict_get T k [])"
  by (auto simp: stamp_bucket_def Let_def)

lemma set_update_subset: "set (AList.update k v d) \<subseteq> insert (k, v) (set d)"
  by (induction d) auto

lemma stamp_ingest: "stamp_or_now (Some (vote_stamp r now)) now = vote_stamp r now"
  by (simp add: stamp_or_now_def vote_stamp_def)

lemma scorer_observe_simps [simp]:
  "agree_table (scorer_observe sc now mt mn org ts sv) key = agree_table sc key"
  "observer_table (scorer_observe sc now mt mn org ts sv) key =
     (if key = (mt, sv, mn) \<and> dict_get (observer_table sc key) org 0 \<le> stamp_or_now ts now
      then AList.update org (stamp_or_now ts now) (observer_table sc key) else observer_table sc key)"
  "sc_floor (scorer_observe sc now mt mn org ts sv) = sc_floor sc"
  "sc_ttl_ns (scorer_observe sc now mt mn org ts sv) = sc_ttl_ns sc"
  "sc_frac_num (scorer_observe sc now mt mn org ts sv) = sc_frac_num sc"
  "sc_frac_den (scorer_observe sc now mt mn org ts sv) = sc_frac_den sc"
  by (auto simp: scorer_observe_def agree_table_def observer_table_def stamp_bucket_table)

lemma ingest_org_simps [simp]:
  "agree_table (ingest_org r now ts org sc) key =
     (if cp_change_detected r \<and> key = cp_key r \<and> dict_get (agree_table sc key) org 0 \<le> ts
      then AList.update org ts (agree_table sc key) else agree_table sc key)"
  "observer_table (ingest_org r now ts org sc) key =
     (let t = stamp_or_now (Some ts) now
      in if key = cp_key r \<and> dict_get (observer_table sc key) org 0 \<le> t
         then AList.update org t (observer_table sc key) else observer_table sc key)"
  "sc_floor (ingest_org r now ts org sc) = sc_floor sc"
  "sc_ttl_ns (ingest_org r now ts org sc) = sc_ttl_ns sc"
  "sc_frac_num (ingest_org r now ts org sc) = sc_frac_num sc"
  "sc_frac_den (ingest_org r now ts org sc) = sc_frac_den sc"
  by (auto simp: ingest_org_def Let_def agree_table_def observer_table_def
      scorer_observe_def cp_key_def stamp_bucket_table)

lemma scorer_ingest_eq:
  "scorer_ingest sc now r = fold (ingest_org r now (vote_stamp r now)) (cp_contributing_orgs r) sc"
  by (simp add: scorer_ingest_def vote_stamp_def Let_def)

text \<open>The policy parameters never change.\<close>

lemma fold_ingest_params [simp]:
  "sc_floor (fold (ingest_org r now ts) orgs sc) = sc_floor sc"
  "sc_ttl_ns (fold (ingest_org r now ts) orgs sc) = sc_ttl_ns sc"
  "sc_frac_num (fold (ingest_org r now ts) orgs sc) = sc_frac_num sc"
  "sc_frac_den (fold (ingest_org r now ts) orgs sc) = sc_frac_den sc"
  by (induction orgs arbitrary: sc) simp_all

lemma scorer_clear_simps [simp]:
  "sc_floor (scorer_clear sc mt mn sv) = sc_floor sc"
  "sc_ttl_ns (scorer_clear sc mt mn sv) = sc_ttl_ns sc"
  "sc_frac_num (scorer_clear sc mt mn sv) = sc_frac_num sc"
  "sc_frac_den (scorer_clear sc mt mn sv) = sc_frac_den sc"
  "sc_observers (scorer_clear sc mt mn sv) = sc_observers sc"
  "observer_table (scorer_clear sc mt mn sv) key = observer_table sc key"
  "agree_table (scorer_clear sc mt mn sv) key = (if key = (mt, sv, mn) then [] else agree_table sc key)"
  by (simp_all add: scorer_clear_def agree_table_def observer_table_def dict_get_def)

lemma promote_cases:
  "promote_to_public_alert sc now mt mn sv = Inr (sc', c) \<Longrightarrow>
     (sc' = sc \<and> c = None) \<or> (sc' = scorer_clear sc mt mn sv \<and> c \<noteq> None)"
  by (auto simp: promote_to_public_alert_def Let_def split: if_splits sum.splits)

lemma scorer_step_params [simp]:
  "sc_floor (scorer_step op sc) = sc_floor sc"
  "sc_ttl_ns (scorer_step op sc) = sc_ttl_ns sc"
  "sc_frac_num (scorer_step op sc) = sc_frac_num sc"
  "sc_frac_den (scorer_step op sc) = sc_frac_den sc"
  by (cases op; auto simp: scorer_ingest_eq dest: promote_cases split: sum.splits)+

lemma scorer_run_params [simp]:
  "sc_floor (fold scorer_step ops sc) = sc_floor sc"
  "sc_ttl_ns (fold scorer_step ops sc) = sc_ttl_ns sc"
  "sc_frac_num (fold scorer_step ops sc) = sc_frac_num sc"
  "sc_frac_den (fold scorer_step ops sc) = sc_frac_den sc"
  by (induction ops arbitrary: sc) simp_all

subsection \<open>Every counted candidate was voted\<close>

lemma agree_fold_ingest:
  "set (agree_table (fold (ingest_org r now ts) orgs sc) key) \<subseteq>
     set (agree_table sc key)
     \<union> (if cp_change_detected r \<and> cp_key r = key then (\<lambda>org. (org, ts)) ` set orgs else {})"
proof (induction orgs arbitrary: sc)
  case (Cons org orgs)
  have "set (agree_table (ingest_org r now ts org sc) key) \<subseteq>
      set (agree_table sc key) \<union> (if cp_change_detected r \<and> cp_key r = key then {(org, ts)} else {})"
    using set_update_subset [of org ts "agree_table sc key"]
    by auto
  with Cons [of "ingest_org r now ts org sc"] show ?case by (auto split: if_splits)
qed simp

lemma agree_step: "set (agree_table (scorer_step op sc) key) \<subseteq> set (agree_table sc key) \<union> votes op key"
proof (cases op)
  case (Ingest r now)
  then show ?thesis
    using agree_fold_ingest [of r now "vote_stamp r now" "cp_contributing_orgs r" sc key]
    by (simp add: scorer_ingest_eq)
next
  case (Promote mt mn now sv)
  then show ?thesis by (auto dest!: promote_cases split: sum.splits if_splits)
qed auto

lemma agree_run:
  "set (agree_table (fold scorer_step ops sc) key) \<subseteq>
     set (agree_table sc key) \<union> (\<Union>op\<in>set ops. votes op key)"
proof (induction ops arbitrary: sc)
  case (Cons op ops)
  with agree_step [of op sc key] show ?case by fastforce
qed simp

lemma live_orgs_iff:
  "org \<in> live_orgs sc table now \<longleftrightarrow> (\<exists>t. (org, t) \<in> set table \<and> now - sc_ttl_ns sc \<le> t \<and> t \<le> now)"
  by (force simp: live_orgs_def)

lemma finite_live_orgs [simp]: "finite (live_orgs sc table now)"
  by (simp add: live_orgs_def)

text \<open>The decision, in terms of the two live sets.\<close>

definition quorum_of :: "scorer \<Rightarrow> stream_key \<Rightarrow> int \<Rightarrow> py_error + int" where
  "quorum_of sc key now =
     required_quorum
       (int (max (card (live_orgs sc (observer_table sc key) now))
                 (card (live_orgs sc (agree_table sc key) now))))
       (sc_floor sc) (sc_frac_num sc) (sc_frac_den sc)"

lemma live_orgs_Nil [simp]: "live_orgs sc [] now = {}"
  by (simp add: live_orgs_def)

lemma promote_decision:
  "promote_to_public_alert sc now mt mn sv =
     (let key = (mt, sv, mn); live = live_orgs sc (agree_table sc key) now
      in if live = {} then Inr (sc, None)
         else case quorum_of sc key now of
                Inl e \<Rightarrow> Inl e
              | Inr q \<Rightarrow> if q \<le> int (card live)
                        then Inr (scorer_clear sc mt mn sv, Some (card live)) else Inr (sc, None))"
  by (cases "dict_get (sc_agree sc) (mt, sv, mn) [] = []")
     (simp_all add: promote_to_public_alert_def quorum_of_def agree_table_def observer_table_def Let_def)

lemma promote_Some:
  assumes "promote_to_public_alert sc now mt mn sv = Inr (sc', Some c)"
  shows "sc' = scorer_clear sc mt mn sv \<and> c = card (live_orgs sc (agree_table sc (mt, sv, mn)) now)
    \<and> (\<exists>q. quorum_of sc (mt, sv, mn) now = Inr q \<and> q \<le> int c) \<and> sc_floor sc \<le> int c"
  using assms
  by (auto simp: promote_decision Let_def quorum_of_def required_quorum_def split: if_splits sum.splits)

lemma promote_no_error:
  "sc_frac_den sc \<noteq> 0 \<Longrightarrow> \<exists>sc' c. promote_to_public_alert sc now mt mn sv = Inr (sc', c)"
  by (simp add: promote_decision Let_def quorum_of_def)

subsection \<open>Tables hold each organisation's latest event\<close>

definition tables_wf :: "scorer \<Rightarrow> bool" where
  "tables_wf sc \<longleftrightarrow> (\<forall>key. dict_wf (agree_table sc key) \<and> dict_wf (observer_table sc key))"

lemma tables_wfD: "tables_wf sc \<Longrightarrow> dict_wf (agree_table sc key) \<and> dict_wf (observer_table sc key)"
  unfolding tables_wf_def by blast

lemma tables_wfI:
  "(\<And>key. dict_wf (agree_table sc key)) \<Longrightarrow> (\<And>key. dict_wf (observer_table sc key)) \<Longrightarrow> tables_wf sc"
  by (simp add: tables_wf_def)

lemma ingest_org_wf: "tables_wf sc \<Longrightarrow> tables_wf (ingest_org r now ts org sc)"
  by (rule tables_wfI) (auto simp: Let_def dict_wf_update dest: tables_wfD)

lemma ingest_tables_wf: "tables_wf sc \<Longrightarrow> tables_wf (fold (ingest_org r now ts) orgs sc)"
  by (induction orgs arbitrary: sc) (simp_all add: ingest_org_wf)

lemma step_tables_wf: "tables_wf sc \<Longrightarrow> tables_wf (scorer_step op sc)"
proof (cases op)
  case (Observe mt mn org ts sv now)
  then show "tables_wf sc \<Longrightarrow> tables_wf (scorer_step op sc)"
    by (intro tables_wfI) (auto simp: dict_wf_update dest: tables_wfD)
next
  case (Ingest r now)
  then show "tables_wf sc \<Longrightarrow> tables_wf (scorer_step op sc)"
    by (simp add: scorer_ingest_eq ingest_tables_wf)
next
  case (Promote mt mn now sv)
  then show "tables_wf sc \<Longrightarrow> tables_wf (scorer_step op sc)"
    by (intro tables_wfI) (auto dest!: promote_cases dest: tables_wfD split: sum.splits)
next
  case (Clear mt mn sv)
  then show "tables_wf sc \<Longrightarrow> tables_wf (scorer_step op sc)"
    by (intro tables_wfI) (auto dest: tables_wfD)
qed

lemma run_tables_wf: "tables_wf sc \<Longrightarrow> tables_wf (fold scorer_step ops sc)"
  by (induction ops arbitrary: sc) (simp_all add: step_tables_wf)

lemma live_orgs_map:
  "dict_wf table \<Longrightarrow>
   live_orgs sc table now = {org. \<exists>t. map_of table org = Some t \<and> now - sc_ttl_ns sc \<le> t \<and> t \<le> now}"
  by (auto simp: live_orgs_iff)

text \<open>One organisation's entry after a call: the later of the old stamp and the new one.\<close>

definition keep_later :: "int option \<Rightarrow> int \<Rightarrow> int option" where
  "keep_later prev ts = (case prev of None \<Rightarrow> if 0 \<le> ts then Some ts else None
                         | Some p \<Rightarrow> if p \<le> ts then Some ts else Some p)"

lemma keep_later_idem [simp]: "keep_later (keep_later prev ts) ts = keep_later prev ts"
  by (simp add: keep_later_def split: option.splits)

lemma map_of_keep_later:
  "map_of (if dict_get table org 0 \<le> ts then AList.update org ts table else table) org' =
     (if org' = org then keep_later (map_of table org) ts else map_of table org')"
  by (auto simp: keep_later_def dict_get_def split: option.splits)

lemma keep_later_simps:
  "dict_get table org 0 \<le> ts \<Longrightarrow> keep_later (map_of table org) ts = Some ts"
  "\<not> dict_get table org 0 \<le> ts \<Longrightarrow> keep_later (map_of table org) ts = map_of table org"
  "keep_later (Some ts) ts = Some ts"
  by (auto simp: keep_later_def dict_get_def split: option.splits)

lemma agree_entry_ingest:
  "map_of (agree_table (fold (ingest_org r now ts) orgs sc) key) org =
     (if cp_change_detected r \<and> cp_key r = key \<and> org \<in> set orgs
      then keep_later (map_of (agree_table sc key) org) ts else map_of (agree_table sc key) org)"
  by (induction orgs arbitrary: sc) (auto simp: keep_later_simps)

lemma observer_entry_ingest:
  "stamp_or_now (Some ts) now = ts \<Longrightarrow>
   map_of (observer_table (fold (ingest_org r now ts) orgs sc) key) org =
     (if cp_key r = key \<and> org \<in> set orgs
      then keep_later (map_of (observer_table sc key) org) ts
      else map_of (observer_table sc key) org)"
  by (induction orgs arbitrary: sc) (auto simp: keep_later_simps Let_def)

text \<open>Histories that only record: no promotion and no clearing.\<close>

fun records :: "scorer_op \<Rightarrow> bool" where
  "records (Observe mt mn org ts sv now) = True"
| "records (Ingest r now) = True"
| "records _ = False"

definition org_stamps :: "(scorer_op \<Rightarrow> stream_key \<Rightarrow> (string \<times> int) set) \<Rightarrow> scorer_op list
    \<Rightarrow> stream_key \<Rightarrow> string \<Rightarrow> int set" where
  "org_stamps contributes ops key org = {t. \<exists>op\<in>set ops. (org, t) \<in> contributes op key}"

definition latest :: "int set \<Rightarrow> int option" where
  "latest T = (if T = {} then None else Some (Max T))"

lemma finite_votes [simp]: "finite (votes op key)"
  by (cases "(op, key)" rule: votes.cases) simp_all

lemma finite_sightings [simp]: "finite (sightings op key)"
  by (cases "(op, key)" rule: sightings.cases) simp_all

lemma finite_org_stamps:
  "(\<And>op. finite (contributes op key)) \<Longrightarrow> finite (org_stamps contributes ops key org)"
proof -
  assume "\<And>op. finite (contributes op key)"
  then have "finite (snd ` (\<Union>op\<in>set ops. contributes op key))" by simp
  moreover have "org_stamps contributes ops key org \<subseteq> snd ` (\<Union>op\<in>set ops. contributes op key)"
    by (force simp: org_stamps_def)
  ultimately show ?thesis by (rule finite_subset [rotated])
qed

lemma latest_insert: "finite T \<Longrightarrow> T \<noteq> {} \<or> 0 \<le> t \<Longrightarrow> latest (insert t T) = keep_later (latest T) t"
  by (cases "T = {}") (auto simp: latest_def keep_later_def max_def simp del: Max.bounded_iff)

lemma latest_empty [simp]: "latest {} = None"
  by (simp add: latest_def)

lemma org_stamps_snoc:
  "org_stamps contributes (ops @ [op]) key org =
     {t. (org, t) \<in> contributes op key} \<union> org_stamps contributes ops key org"
  by (auto simp: org_stamps_def)

lemma org_stamps_Nil [simp]: "org_stamps contributes [] key org = {}"
  by (simp add: org_stamps_def)

lemma votes_of_org:
  "{t. (org, t) \<in> votes (Ingest r now) key} =
     (if cp_change_detected r \<and> cp_key r = key \<and> org \<in> set (cp_contributing_orgs r)
      then {vote_stamp r now} else {})"
  "{t. (org, t) \<in> votes (Observe mt mn org' ts sv now) key} = {}"
  by auto

lemma sightings_of_org:
  "{t. (org, t) \<in> sightings (Ingest r now) key} =
     (if cp_key r = key \<and> org \<in> set (cp_contributing_orgs r) then {vote_stamp r now} else {})"
  "{t. (org, t) \<in> sightings (Observe mt mn org' ts sv now) key} =
     (if (mt, sv, mn) = key \<and> org = org' then {stamp_or_now ts now} else {})"
  by auto

lemma recorded_step:
  assumes "records op"
    and "\<And>t. (org, t) \<in> votes op key \<Longrightarrow> 0 \<le> t"
    and "map_of (agree_table sc key) org = latest T" and "finite T"
  shows "map_of (agree_table (scorer_step op sc) key) org = latest ({t. (org, t) \<in> votes op key} \<union> T)"
  using assms
proof (cases op)
  case (Ingest r now)
  then have "vote_stamp r now \<ge> 0" if "cp_change_detected r" "cp_key r = key" "org \<in> set (cp_contributing_orgs r)"
    using assms(2) that by auto
  with Ingest show ?thesis
    using assms by (auto simp: scorer_ingest_eq agree_entry_ingest votes_of_org latest_insert simp del: votes.simps)
qed (simp_all add: votes_of_org del: votes.simps)

lemma recorded_sighting:
  assumes "records op"
    and "\<And>t. (org, t) \<in> sightings op key \<Longrightarrow> 0 \<le> t"
    and "map_of (observer_table sc key) org = latest T" and "finite T"
  shows "map_of (observer_table (scorer_step op sc) key) org =
         latest ({t. (org, t) \<in> sightings op key} \<union> T)"
  using assms
proof (cases op)
  case (Ingest r now)
  then have "vote_stamp r now \<ge> 0" if "cp_key r = key" "org \<in> set (cp_contributing_orgs r)"
    using assms(2) that by auto
  with Ingest show ?thesis
    using assms by (auto simp: scorer_ingest_eq observer_entry_ingest stamp_ingest sightings_of_org
        latest_insert simp del: sightings.simps)
next
  case (Observe mt mn org' ts sv now)
  show ?thesis
  proof (cases "(mt, sv, mn) = key \<and> org = org'")
    case True
    then have "0 \<le> stamp_or_now ts now" using assms(2) Observe by simp
    with True Observe show ?thesis
      by (auto simp: sightings_of_org latest_insert [OF assms(4)] keep_later_simps simp del: sightings.simps
          simp flip: assms(3))
  qed (use Observe assms in \<open>auto simp: sightings_of_org simp del: sightings.simps\<close>)
qed simp_all

definition nonneg_history :: "scorer_op list \<Rightarrow> stream_key \<Rightarrow> bool" where
  "nonneg_history ops key \<longleftrightarrow> (\<forall>op\<in>set ops. \<forall>(org, t)\<in>sightings op key. 0 \<le> t)"

lemma votes_are_sightings: "votes op key \<subseteq> sightings op key"
  by (cases op) auto

lemma nonneg_historyD:
  "nonneg_history ops key \<Longrightarrow> op \<in> set ops \<Longrightarrow> (org, t) \<in> sightings op key \<Longrightarrow> 0 \<le> t"
  by (auto simp: nonneg_history_def)

lemma entries_are_latest:
  assumes "\<forall>op\<in>set ops. records op" and "nonneg_history ops key"
    and "agree_table sc key = []" and "observer_table sc key = []"
  shows "map_of (agree_table (fold scorer_step ops sc) key) org = latest (org_stamps votes ops key org)
       \<and> map_of (observer_table (fold scorer_step ops sc) key) org = latest (org_stamps sightings ops key org)"
  using assms(1,2)
proof (induction ops rule: rev_induct)
  case (snoc op ops)
  have nonneg: "0 \<le> t" if "(org, t) \<in> sightings op key" for t
    using nonneg_historyD [OF snoc.prems(2) _ that] by simp
  have "nonneg_history ops key" using snoc.prems(2) by (simp add: nonneg_history_def)
  with snoc have
    "map_of (agree_table (fold scorer_step ops sc) key) org = latest (org_stamps votes ops key org)"
    "map_of (observer_table (fold scorer_step ops sc) key) org = latest (org_stamps sightings ops key org)"
    by simp_all
  then show ?case
    using snoc.prems(1) nonneg votes_are_sightings [of op key]
    by (auto simp: org_stamps_snoc finite_org_stamps intro!: recorded_step recorded_sighting)
qed (simp add: assms)

text \<open>The live set, read off the history: who voted, and whose latest vote is in the window.\<close>

definition live_voters ::
  "(scorer_op \<Rightarrow> stream_key \<Rightarrow> (string \<times> int) set) \<Rightarrow> scorer_op list \<Rightarrow> stream_key \<Rightarrow> int \<Rightarrow> int
    \<Rightarrow> string set" where
  "live_voters contributes ops key ttl now =
     {org. \<exists>t. latest (org_stamps contributes ops key org) = Some t \<and> now - ttl \<le> t \<and> t \<le> now}"

lemma live_orgs_of_history:
  assumes "\<forall>op\<in>set ops. records op" and "nonneg_history ops key" and "tables_wf sc"
    and "agree_table sc key = []" and "observer_table sc key = []"
  shows "live_orgs sc (agree_table (fold scorer_step ops sc) key) now = live_voters votes ops key (sc_ttl_ns sc) now"
    and "live_orgs sc (observer_table (fold scorer_step ops sc) key) now = live_voters sightings ops key (sc_ttl_ns sc) now"
  using entries_are_latest [OF assms(1,2,4,5)] tables_wfD [OF run_tables_wf [OF assms(3), of ops], of key]
  by (simp_all add: live_orgs_map live_voters_def)


subsection \<open>Buckets as independent machines\<close>

text \<open>The part of a scorer that one stream can observe: its own two tables and the policy.\<close>

definition scorer_view :: "scorer \<Rightarrow> stream_key \<Rightarrow> scorer" where
  "scorer_view sc key =
     sc\<lparr>sc_agree := only_key key (sc_agree sc), sc_observers := only_key key (sc_observers sc)\<rparr>"

lemma only_key_stamp_bucket:
  "only_key k (stamp_bucket T key org ts) =
     (if key = k then stamp_bucket (only_key k T) key org ts else only_key k T)"
  by (simp add: stamp_bucket_def Let_def dict_simps)

lemma view_observe:
  "scorer_view (scorer_observe sc now mt mn org ts sv) key =
     (if key = (mt, sv, mn) then scorer_observe (scorer_view sc key) now mt mn org ts sv
      else scorer_view sc key)"
  by (auto simp: scorer_view_def scorer_observe_def only_key_stamp_bucket)

lemma view_ingest_org:
  "scorer_view (ingest_org r now ts org sc) key =
     (if key = cp_key r then ingest_org r now ts org (scorer_view sc key) else scorer_view sc key)"
  by (auto simp: ingest_org_def scorer_view_def scorer_observe_def cp_key_def only_key_stamp_bucket Let_def)

lemma view_ingest:
  "scorer_view (scorer_ingest sc now r) key =
     (if key = cp_key r then scorer_ingest (scorer_view sc key) now r else scorer_view sc key)"
proof -
  have "scorer_view (fold (ingest_org r now ts) orgs sc) key =
      (if key = cp_key r then fold (ingest_org r now ts) orgs (scorer_view sc key)
       else scorer_view sc key)" for ts orgs
    by (induction orgs arbitrary: sc) (simp_all add: view_ingest_org)
  then show ?thesis by (simp add: scorer_ingest_eq)
qed

lemma view_clear:
  "scorer_view (scorer_clear sc mt mn sv) key =
     (if key = (mt, sv, mn) then scorer_clear (scorer_view sc key) mt mn sv else scorer_view sc key)"
  by (auto simp: scorer_view_def scorer_clear_def dict_simps)

lemma view_tables [simp]:
  "agree_table (scorer_view sc key) key = agree_table sc key"
  "observer_table (scorer_view sc key) key = observer_table sc key"
  by (simp_all add: agree_table_def observer_table_def scorer_view_def dict_simps)

lemma live_orgs_view [simp]: "live_orgs (scorer_view sc key) table now = live_orgs sc table now"
  by (simp add: live_orgs_def scorer_view_def)

lemma view_promote:
  "promote_to_public_alert (scorer_view sc (mt, sv, mn)) now mt mn sv =
     map_sum id (\<lambda>(sc', c). (scorer_view sc' (mt, sv, mn), c)) (promote_to_public_alert sc now mt mn sv)"
proof -
  have "quorum_of (scorer_view sc (mt, sv, mn)) (mt, sv, mn) now = quorum_of sc (mt, sv, mn) now"
    by (simp add: quorum_of_def) (simp add: scorer_view_def)
  then show ?thesis by (simp add: promote_decision Let_def view_clear split: sum.splits)
qed

lemma view_promote_step:
  "scorer_view (scorer_step (Promote mt mn now sv) sc) key =
     (if key = (mt, sv, mn) then scorer_step (Promote mt mn now sv) (scorer_view sc key)
      else scorer_view sc key)"
  by (cases "promote_to_public_alert sc now mt mn sv")
     (auto simp: view_promote view_clear dest!: promote_cases split: prod.splits)

interpretation buckets: keyed_machine scorer_step "\<lambda>op key. scorer_op_key op = key" scorer_view
  "\<lambda>key. scorer_step"
proof unfold_locales
  fix op sc key
  show "scorer_op_key op = key \<Longrightarrow> scorer_view (scorer_step op sc) key = scorer_step op (scorer_view sc key)"
    by (cases op) (auto simp: view_observe view_ingest view_clear view_promote_step simp del: scorer_step.simps(3))
  show "scorer_op_key op \<noteq> key \<Longrightarrow> scorer_view (scorer_step op sc) key = scorer_view sc key"
    by (cases op) (auto simp: view_observe view_ingest view_clear view_promote_step simp del: scorer_step.simps(3))
qed

subsection \<open>Properties\<close>

text \<open>The default quorum schedule. For every network size the required quorum is
  \<open>max 3 \<lceil>M / 3\<rceil>\<close>; it is exactly 3 up to nine observers, never more than the number of
  observers once there are three, and always at least a third of them.\<close>

theorem quorum_schedule:
  "\<exists>q. required_quorum m QUORUM_FLOOR QUORUM_FRAC_NUM QUORUM_FRAC_DEN = Inr q
     \<and> q = max 3 \<lceil>real_of_int (max 0 m) / 3\<rceil>
     \<and> (q = 3 \<longleftrightarrow> m \<le> 9) \<and> (q \<le> m \<longleftrightarrow> 3 \<le> m) \<and> m \<le> 3 * q"
proof -
  let ?q = "max 3 ((max 0 m + 3 - 1) div 3)"
  have "?q = max 3 \<lceil>real_of_int (max 0 m) / 3\<rceil>" using ceil_div [of 3 "max 0 m"] by simp
  moreover have "?q = 3 \<longleftrightarrow> m \<le> 9" "?q \<le> m \<longleftrightarrow> 3 \<le> m" "m \<le> 3 * ?q" by presburger+
  moreover have "required_quorum m QUORUM_FLOOR QUORUM_FRAC_NUM QUORUM_FRAC_DEN = Inr ?q"
    by (simp add: QUORUM_FLOOR_def QUORUM_FRAC_NUM_def QUORUM_FRAC_DEN_def)
  ultimately show ?thesis by metis
qed

text \<open>A public alert is backed by that many distinct organisations. Whatever calls were made
  since the bucket was empty, a promotion that returns \<open>c\<close> has \<open>c\<close> distinct organisations
  that each voted, with a detected change on this very (model, suite, metric), inside the
  time window; and \<open>c\<close> is at least the floor.\<close>

theorem promotion_backed_by_votes:
  assumes "agree_table sc (mt, sv, mn) = []"
    and "promote_to_public_alert (fold scorer_step ops sc) now mt mn sv = Inr (sc', Some c)"
  shows "\<exists>voters. card voters = c \<and> sc_floor sc \<le> int c
    \<and> (\<forall>org\<in>voters. \<exists>op\<in>set ops. \<exists>t. (org, t) \<in> votes op (mt, sv, mn) \<and> now - sc_ttl_ns sc \<le> t \<and> t \<le> now)"
proof -
  let ?sc = "fold scorer_step ops sc" and ?key = "(mt, sv, mn)"
  let ?voters = "live_orgs ?sc (agree_table ?sc ?key) now"
  have "card ?voters = c \<and> sc_floor sc \<le> int c" using promote_Some [OF assms(2)] by simp
  moreover have "\<exists>op\<in>set ops. \<exists>t. (org, t) \<in> votes op ?key \<and> now - sc_ttl_ns sc \<le> t \<and> t \<le> now"
    if "org \<in> ?voters" for org
    using that agree_run [of ops sc ?key] assms(1) by (fastforce simp: live_orgs_iff)
  ultimately show ?thesis by blast
qed

text \<open>Three organisations report a change on one stream.\<close>

definition example_result :: "string \<Rightarrow> int \<Rightarrow> change_point_result" where
  "example_result org t =
     \<lparr>cp_model_tuple = ''m'', cp_change_detected = True, cp_score = 6, cp_threshold = 5,
      cp_contributing_orgs = [org], cp_metric_name = ''j'', cp_timestamp_ns = t,
      cp_suite_version = ''v1''\<rparr>"

definition example_votes :: "scorer_op list" where
  "example_votes = [Ingest (example_result ''a'' 10) 50, Ingest (example_result ''b'' 20) 50,
                    Ingest (example_result ''c'' 30) 50]"

lemmas scorer_eval = example_votes_def example_result_def default_scorer_def init_scorer_def
  scorer_ingest_def ingest_org_def scorer_observe_def stamp_bucket_def stamp_or_now_def cp_key_def
  dict_get_def agree_table_def observer_table_def

lemma example_promotes:
  "promote_to_public_alert (fold scorer_step example_votes default_scorer) 60 ''m'' ''j'' ''v1'' =
     Inr (scorer_clear (fold scorer_step example_votes default_scorer) ''m'' ''j'' ''v1'', Some 3)"
  by (simp add: scorer_eval promote_to_public_alert_def live_orgs_def Let_def required_quorum_def
      QUORUM_FLOOR_def QUORUM_FRAC_NUM_def QUORUM_FRAC_DEN_def DEFAULT_TTL_NS_def)

theorem promotion_backed_by_votes_witness:
  "\<exists>voters. card voters = 3 \<and> (\<forall>org\<in>voters. \<exists>op\<in>set example_votes. \<exists>t. (org, t) \<in> votes op (''m'', ''v1'', ''j''))"
proof -
  have "agree_table default_scorer (''m'', ''v1'', ''j'') = []" by (simp add: scorer_eval)
  from promotion_backed_by_votes [OF this example_promotes] show ?thesis by blast
qed

text \<open>C4: Promotion implements the quorum policy. For a history of observations and votes on a
  new bucket, let \<open>V\<close> be the organisations whose latest vote, and \<open>Obs\<close> those whose latest
  sighting, lies in the window. The promotion succeeds, with the count \<open>card V\<close>, exactly when
  \<open>V\<close> is not empty and reaches \<open>max floor \<lceil>num * max |Obs| |V| / den\<rceil>\<close>; otherwise it returns
  nothing and changes nothing.\<close>

theorem promotion_implements_quorum_spec:
  assumes "\<forall>op\<in>set ops. records op" and "nonneg_history ops (mt, sv, mn)" and "0 < den"
  shows "let sc = fold scorer_step ops (init_scorer fl ttl num den);
             V = live_voters votes ops (mt, sv, mn) ttl now;
             Obs = live_voters sightings ops (mt, sv, mn) ttl now;
             quorum = max (case fl of Some q \<Rightarrow> q | None \<Rightarrow> QUORUM_FLOOR)
                        \<lceil>real_of_int (num * int (max (card Obs) (card V))) / real_of_int den\<rceil>
         in promote_to_public_alert sc now mt mn sv =
              (if V \<noteq> {} \<and> quorum \<le> int (card V)
               then Inr (scorer_clear sc mt mn sv, Some (card V)) else Inr (sc, None))"
proof -
  let ?fresh = "init_scorer fl ttl num den"
  let ?sc = "fold scorer_step ops ?fresh"
  have sc0: "tables_wf ?fresh" "agree_table ?fresh (mt, sv, mn) = []" "observer_table ?fresh (mt, sv, mn) = []"
    "sc_ttl_ns ?fresh = ttl"
    by (auto simp: tables_wf_def init_scorer_def agree_table_def observer_table_def dict_get_def)
  have "live_orgs ?sc table now = live_orgs ?fresh table now" for table
    by (simp add: live_orgs_def)
  then have live: "live_orgs ?sc (agree_table ?sc (mt, sv, mn)) now = live_voters votes ops (mt, sv, mn) ttl now"
    "live_orgs ?sc (observer_table ?sc (mt, sv, mn)) now = live_voters sightings ops (mt, sv, mn) ttl now"
    using live_orgs_of_history [OF assms(1,2) sc0(1-3), of now] sc0(4) by simp_all
  have "sc_floor ?fresh = (case fl of Some q \<Rightarrow> q | None \<Rightarrow> QUORUM_FLOOR)"
    "sc_frac_num ?fresh = num" "sc_frac_den ?fresh = den"
    by (simp_all add: init_scorer_def)
  then show ?thesis
    using assms(3) by (simp add: promote_decision live quorum_of_def ceil_div Let_def)
qed

theorem promotion_implements_quorum_spec_witness:
  "promote_to_public_alert (fold scorer_step [Ingest (example_result ''a'' 10) 50]
      (init_scorer (Some 1) 100 1 3)) 60 ''m'' ''j'' ''v1'' =
   Inr (scorer_clear (fold scorer_step [Ingest (example_result ''a'' 10) 50]
      (init_scorer (Some 1) 100 1 3)) ''m'' ''j'' ''v1'', Some 1)"
proof -
  let ?ops = "[Ingest (example_result ''a'' 10) 50]"
  have "org_stamps votes ?ops (''m'', ''v1'', ''j'') org = (if org = ''a'' then {10} else {})"
    "org_stamps sightings ?ops (''m'', ''v1'', ''j'') org = (if org = ''a'' then {10} else {})" for org
    by (auto simp: org_stamps_def example_result_def vote_stamp_def cp_key_def)
  then have "live_voters votes ?ops (''m'', ''v1'', ''j'') 100 60 = {''a''}"
    "live_voters sightings ?ops (''m'', ''v1'', ''j'') 100 60 = {''a''}"
    by (auto simp: live_voters_def latest_def split: if_splits)
  moreover have "nonneg_history ?ops (''m'', ''v1'', ''j'')"
    by (auto simp: nonneg_history_def example_result_def vote_stamp_def)
  ultimately show ?thesis
    using promotion_implements_quorum_spec [of ?ops "''m''" "''v1''" "''j''" 3 "Some 1" 100 1 60] by (simp add: Let_def)
qed

text \<open>Buckets are independent. After any history of calls, what a promotion decides for a
  stream is what it would decide had no call on another (model, suite, metric) been made.\<close>

theorem buckets_are_independent:
  "map_sum id snd (promote_to_public_alert (fold scorer_step ops sc) now mt mn sv) =
   map_sum id snd (promote_to_public_alert
     (fold scorer_step (filter (\<lambda>op. scorer_op_key op = (mt, sv, mn)) ops) sc) now mt mn sv)"
proof -
  have "map_sum id snd (promote_to_public_alert sc now mt mn sv) =
      map_sum id snd (promote_to_public_alert (scorer_view sc (mt, sv, mn)) now mt mn sv)" for sc
    by (cases "promote_to_public_alert sc now mt mn sv") (auto simp: view_promote)
  then show ?thesis by (metis buckets.view_run_filter)
qed

text \<open>A promotion consumes its candidates once. Right after a promotion returned a count, at
  any later reading of the clock, a retry on the stream returns nothing until a new vote
  arrives; observers and every other bucket are as before.\<close>

theorem promotion_consumes_candidates:
  assumes "promote_to_public_alert sc now mt mn sv = Inr (sc', Some c)"
  shows "promote_to_public_alert sc' later mt mn sv = Inr (sc', None)
       \<and> sc_observers sc' = sc_observers sc
       \<and> agree_table sc' key = (if key = (mt, sv, mn) then [] else agree_table sc key)"
proof -
  have "sc' = scorer_clear sc mt mn sv" using promote_Some [OF assms] by simp
  then show ?thesis by (simp add: promote_decision)
qed

theorem promotion_consumes_candidates_witness:
  "promote_to_public_alert (scorer_clear (fold scorer_step example_votes default_scorer) ''m'' ''j'' ''v1'')
     70 ''m'' ''j'' ''v1'' =
   Inr (scorer_clear (fold scorer_step example_votes default_scorer) ''m'' ''j'' ''v1'', None)"
  using promotion_consumes_candidates [OF example_promotes, of 70] by blast

end
