(* ===== verification/Bayes.thy ===== *)
theory Bayes
  imports Prelude
begin

section \<open>The Bayesian online detector (engine/correlation.py)\<close>

text \<open>
  \<open>bocd\<close> is \<^verbatim>\<open>BayesianOnlineDetector\<close>: a posterior over run lengths kept in five parallel
  lists, indexed by hypothesis. \<^verbatim>\<open>math.lgamma\<close> is the argument \<open>lg\<close>; no lemma needs a law of
  it. The lemmas say that every update leaves a positive sub-distribution of at most
  \<open>10 ^ 10\<close> hypotheses with positive parameters (so no logarithm or division of the code is
  ever outside its domain and the underflow reset is never taken, over the reals), that the
  number returned is the posterior of Adams and MacKay, and that the sequential conjugate
  update equals the closed form of the whole segment.
\<close>

subsection \<open>Data\<close>

record bocd =
  bo_hazard_rate :: real
  bo_alert_threshold :: real
  bo_mu0 :: real
  bo_kappa0 :: real
  bo_alpha0 :: real
  bo_beta0 :: real
  bo_prior_nu :: real
  bo_prior_scale_sq :: real
  bo_run_probs :: "real list"
  bo_mu :: "real list"
  bo_kappa :: "real list"
  bo_alpha :: "real list"
  bo_beta :: "real list"

definition prune_threshold :: real where
  "prune_threshold = 1 / 10 ^ 10"

subsection \<open>Operations\<close>

definition init_bocd ::
  "real \<Rightarrow> real \<Rightarrow> real \<Rightarrow> real \<Rightarrow> real \<Rightarrow> real \<Rightarrow> py_error + bocd" where
  "init_bocd hazard_rate mu0 kappa0 alpha0 beta0 alert_threshold =
     (if alpha0 \<le> 0 \<or> beta0 \<le> 0 \<or> kappa0 \<le> 0
      then Inl (ValueError ''alpha0, beta0, kappa0 must be > 0'')
      else if \<not> (0 < hazard_rate \<and> hazard_rate < 1)
      then Inl (ValueError ''hazard_rate must be in (0, 1)'')
      else Inr \<lparr>bo_hazard_rate = hazard_rate, bo_alert_threshold = alert_threshold,
                bo_mu0 = mu0, bo_kappa0 = kappa0, bo_alpha0 = alpha0, bo_beta0 = beta0,
                bo_prior_nu = 2 * alpha0,
                bo_prior_scale_sq = beta0 * (kappa0 + 1) / (alpha0 * kappa0),
                bo_run_probs = [1], bo_mu = [mu0], bo_kappa = [kappa0],
                bo_alpha = [alpha0], bo_beta = [beta0]\<rparr>)"

definition student_t_logpdf :: "(real \<Rightarrow> real) \<Rightarrow> real \<Rightarrow> real \<Rightarrow> real \<Rightarrow> real \<Rightarrow> real" where
  "student_t_logpdf lg x nu loc scale_sq =
     (let z = (x - loc)\<^sup>2 / scale_sq
      in lg ((nu + 1) / 2) - lg (nu / 2) - 1 / 2 * ln (pi * nu * scale_sq)
         - (nu + 1) / 2 * ln (1 + z / nu))"

definition run_predictive :: "(real \<Rightarrow> real) \<Rightarrow> bocd \<Rightarrow> real \<Rightarrow> nat \<Rightarrow> real" where
  "run_predictive lg st x idx =
     (let kappa = bo_kappa st ! idx;
          alpha = bo_alpha st ! idx;
          nu = 2 * alpha;
          scale_sq = bo_beta st ! idx * (kappa + 1) / (alpha * kappa);
          lp = student_t_logpdf lg x nu (bo_mu st ! idx) scale_sq
      in exp (max lp (- 700)))"

definition nig_update :: "real \<Rightarrow> real \<Rightarrow> real \<Rightarrow> real \<Rightarrow> real \<Rightarrow> real \<times> real \<times> real \<times> real" where
  "nig_update x mu kappa alpha beta =
     (let kappa_new = kappa + 1;
          mu_new = (kappa * mu + x) / kappa_new;
          alpha_new = alpha + 1 / 2;
          beta_new = beta + kappa * (x - mu)\<^sup>2 / (2 * kappa_new)
      in (mu_new, kappa_new, alpha_new, beta_new))"

text \<open>The mass of a change point and of every growing run, before normalisation (steps 1 to 3).\<close>

definition prior_mass :: "(real \<Rightarrow> real) \<Rightarrow> bocd \<Rightarrow> real \<Rightarrow> real" where
  "prior_mass lg st x =
     bo_hazard_rate st *
       exp (max (student_t_logpdf lg x (bo_prior_nu st) (bo_mu0 st) (bo_prior_scale_sq st)) (- 700))"

definition grow_probs :: "(real \<Rightarrow> real) \<Rightarrow> bocd \<Rightarrow> real \<Rightarrow> real list" where
  "grow_probs lg st x =
     map (\<lambda>r. bo_run_probs st ! r * (1 - bo_hazard_rate st) * run_predictive lg st x r)
       [0 ..< length (bo_run_probs st)]"

definition bocd_update :: "(real \<Rightarrow> real) \<Rightarrow> bocd \<Rightarrow> real \<Rightarrow> bocd \<times> real" where
  "bocd_update lg st value =
     (let n = length (bo_run_probs st);
          new_probs = prior_mass lg st value # grow_probs lg st value;
          total = sum_list new_probs
      in if total \<le> 0
         then (st\<lparr>bo_run_probs := [1], bo_mu := [bo_mu0 st], bo_kappa := [bo_kappa0 st],
                  bo_alpha := [bo_alpha0 st], bo_beta := [bo_beta0 st]\<rparr>, 0)
         else
           (let new_probs = map (\<lambda>p. p / total) new_probs;
                news = nig_update value (bo_mu0 st) (bo_kappa0 st) (bo_alpha0 st) (bo_beta0 st)
                       # map (\<lambda>r. nig_update value (bo_mu st ! r) (bo_kappa st ! r)
                                    (bo_alpha st ! r) (bo_beta st ! r)) [0 ..< n];
                keep = filter (\<lambda>i. prune_threshold \<le> new_probs ! i) [0 ..< length new_probs];
                keep = (if keep = [] then [0] else keep)
            in (st\<lparr>bo_run_probs := map (\<lambda>i. new_probs ! i) keep,
                   bo_mu := map (\<lambda>i. fst (news ! i)) keep,
                   bo_kappa := map (\<lambda>i. fst (snd (news ! i))) keep,
                   bo_alpha := map (\<lambda>i. fst (snd (snd (news ! i)))) keep,
                   bo_beta := map (\<lambda>i. snd (snd (snd (news ! i)))) keep\<rparr>,
                new_probs ! 0)))"

subsection \<open>The invariant\<close>

definition prior_ok :: "bocd \<Rightarrow> bool" where
  "prior_ok st \<longleftrightarrow> 0 < bo_hazard_rate st \<and> bo_hazard_rate st < 1
     \<and> 0 < bo_kappa0 st \<and> 0 < bo_alpha0 st \<and> 0 < bo_beta0 st
     \<and> 0 < bo_prior_nu st \<and> 0 < bo_prior_scale_sq st"

definition runs_ok :: "bocd \<Rightarrow> bool" where
  "runs_ok st \<longleftrightarrow>
     length (bo_mu st) = length (bo_run_probs st) \<and> length (bo_kappa st) = length (bo_run_probs st)
     \<and> length (bo_alpha st) = length (bo_run_probs st) \<and> length (bo_beta st) = length (bo_run_probs st)
     \<and> bo_run_probs st \<noteq> [] \<and> length (bo_run_probs st) \<le> 10 ^ 10
     \<and> (\<forall>p\<in>set (bo_run_probs st). 0 < p) \<and> sum_list (bo_run_probs st) \<le> 1
     \<and> (\<forall>k\<in>set (bo_kappa st). 0 < k) \<and> (\<forall>a\<in>set (bo_alpha st). 0 < a) \<and> (\<forall>b\<in>set (bo_beta st). 0 < b)"

lemma nig_update_positive:
  assumes "0 < kappa" "0 < alpha" "0 < beta"
  shows "0 < fst (snd (nig_update x mu kappa alpha beta))"
    and "0 < fst (snd (snd (nig_update x mu kappa alpha beta)))"
    and "0 < snd (snd (snd (nig_update x mu kappa alpha beta)))"
  using assms by (simp_all add: nig_update_def Let_def add_pos_nonneg)

lemma prior_mass_pos: "prior_ok st \<Longrightarrow> 0 < prior_mass lg st x"
  by (simp add: prior_mass_def prior_ok_def)

lemma grow_probs_pos: "prior_ok st \<Longrightarrow> runs_ok st \<Longrightarrow> p \<in> set (grow_probs lg st x) \<Longrightarrow> 0 < p"
  by (auto simp: grow_probs_def prior_ok_def runs_ok_def run_predictive_def Let_def)

lemma sum_list_filter_le:
  "(\<And>x. x \<in> set xs \<Longrightarrow> 0 \<le> f x) \<Longrightarrow> sum_list (map f (filter P xs)) \<le> (sum_list (map f xs) :: real)"
  by (induction xs) (auto simp: add_increasing)


lemma sum_list_divide: "sum_list (map (\<lambda>p. p / c) xs) = sum_list xs / (c :: real)"
  by (induction xs) (simp_all add: add_divide_distrib)

text \<open>Pruning keeps a non-empty positive sub-distribution of at most \<open>10 ^ 10\<close> hypotheses.\<close>

definition pruned :: "real list \<Rightarrow> nat list" where
  "pruned ps = (let keep = filter (\<lambda>i. prune_threshold \<le> ps ! i) [0 ..< length ps]
                in if keep = [] then [0] else keep)"

lemma pruned_in_range: "ps \<noteq> [] \<Longrightarrow> i \<in> set (pruned ps) \<Longrightarrow> i < length ps"
  by (auto simp: pruned_def Let_def split: if_splits)

lemma pruned_nonempty: "pruned ps \<noteq> []"
  by (simp add: pruned_def Let_def)

lemma pruned_sum:
  assumes "ps \<noteq> []" and "\<And>p. p \<in> set ps \<Longrightarrow> 0 \<le> p" and "sum_list ps \<le> 1"
  shows "sum_list (map ((!) ps) (pruned ps)) \<le> 1"
proof -
  have "sum_list (map ((!) ps) (filter P [0 ..< length ps])) \<le> 1" for P
    using sum_list_filter_le [of "[0 ..< length ps]" "(!) ps" P] assms by (simp add: map_nth)
  moreover have "ps ! 0 \<le> 1"
  proof (cases ps)
    case (Cons a as)
    then have "0 \<le> sum_list as" using assms(2) by (intro sum_list_nonneg) simp
    then show ?thesis using Cons assms(3) by simp
  qed (use assms(1) in simp)
  ultimately show ?thesis by (simp add: pruned_def Let_def)
qed

lemma pruned_length:
  assumes "ps \<noteq> []" and "\<And>p. p \<in> set ps \<Longrightarrow> 0 \<le> p" and "sum_list ps \<le> 1"
  shows "length (pruned ps) \<le> 10 ^ 10"
proof (cases "filter (\<lambda>i. prune_threshold \<le> ps ! i) [0 ..< length ps] = []")
  case False
  let ?xs = "map ((!) ps) (pruned ps)"
  have "prune_threshold \<le> x" if "x \<in> set ?xs" for x
    using that False by (auto simp: pruned_def Let_def)
  then have "of_nat (length ?xs) * prune_threshold \<le> sum_list ?xs" by (rule sum_list_ge_const)
  then have "real (length (pruned ps)) \<le> real (10 ^ 10)"
    using pruned_sum [OF assms] by (simp add: prune_threshold_def)
  then show ?thesis by (simp only: of_nat_le_iff)
qed (simp add: pruned_def Let_def)

lemma bocd_total_pos:
  "prior_ok st \<Longrightarrow> runs_ok st \<Longrightarrow> 0 < prior_mass lg st x + sum_list (grow_probs lg st x)"
  using prior_mass_pos grow_probs_pos sum_list_nonneg_real [of "grow_probs lg st x"]
  by (force intro: add_pos_nonneg)

lemma bocd_update_prior_ok: "prior_ok st \<Longrightarrow> prior_ok (fst (bocd_update lg st x))"
  by (auto simp: bocd_update_def Let_def prior_ok_def)

text \<open>The normalised masses and the updated statistics, and the state that keeps some of them.\<close>

definition new_masses :: "(real \<Rightarrow> real) \<Rightarrow> bocd \<Rightarrow> real \<Rightarrow> real list" where
  "new_masses lg st x =
     (let qs = prior_mass lg st x # grow_probs lg st x in map (\<lambda>p. p / sum_list qs) qs)"

definition new_stats :: "bocd \<Rightarrow> real \<Rightarrow> (real \<times> real \<times> real \<times> real) list" where
  "new_stats st x =
     nig_update x (bo_mu0 st) (bo_kappa0 st) (bo_alpha0 st) (bo_beta0 st)
     # map (\<lambda>r. nig_update x (bo_mu st ! r) (bo_kappa st ! r) (bo_alpha st ! r) (bo_beta st ! r))
         [0 ..< length (bo_run_probs st)]"

definition with_runs :: "bocd \<Rightarrow> real list \<Rightarrow> (real \<times> real \<times> real \<times> real) list \<Rightarrow> nat list \<Rightarrow> bocd" where
  "with_runs st ps news keep =
     st\<lparr>bo_run_probs := map (\<lambda>i. ps ! i) keep, bo_mu := map (\<lambda>i. fst (news ! i)) keep,
        bo_kappa := map (\<lambda>i. fst (snd (news ! i))) keep,
        bo_alpha := map (\<lambda>i. fst (snd (snd (news ! i)))) keep,
        bo_beta := map (\<lambda>i. snd (snd (snd (news ! i)))) keep\<rparr>"

lemma bocd_update_eq:
  assumes "prior_ok st" and "runs_ok st"
  shows "bocd_update lg st x =
    (with_runs st (new_masses lg st x) (new_stats st x) (pruned (new_masses lg st x)),
     prior_mass lg st x / (prior_mass lg st x + sum_list (grow_probs lg st x)))"
proof -
  have "\<not> sum_list (prior_mass lg st x # grow_probs lg st x) \<le> 0"
    using bocd_total_pos [OF assms] by (simp add: not_le)
  then show ?thesis
    unfolding bocd_update_def Let_def with_runs_def new_masses_def new_stats_def pruned_def
    by (simp only: if_False) simp
qed

lemma new_masses_sum:
  assumes "prior_ok st" and "runs_ok st"
  shows "sum_list (new_masses lg st x) = 1" and "p \<in> set (new_masses lg st x) \<Longrightarrow> 0 < p"
    and "new_masses lg st x \<noteq> []" and "length (new_masses lg st x) = length (new_stats st x)"
proof -
  let ?qs = "prior_mass lg st x # grow_probs lg st x"
  have total: "0 < sum_list ?qs" using bocd_total_pos [OF assms] by simp
  then show "sum_list (new_masses lg st x) = 1"
    unfolding new_masses_def Let_def sum_list_divide by simp
  have "0 < q" if "q \<in> set ?qs" for q
    using that prior_mass_pos [OF assms(1)] grow_probs_pos [OF assms] by auto
  then show "p \<in> set (new_masses lg st x) \<Longrightarrow> 0 < p"
    using total by (auto simp: new_masses_def Let_def)
qed (simp_all add: new_masses_def new_stats_def grow_probs_def Let_def)

lemma new_stats_positive:
  assumes "prior_ok st" and "runs_ok st" and "v \<in> set (new_stats st x)"
  shows "0 < fst (snd v) \<and> 0 < fst (snd (snd v)) \<and> 0 < snd (snd (snd v))"
  using assms by (auto simp: new_stats_def prior_ok_def runs_ok_def intro!: nig_update_positive)

lemma with_runs_ok:
  assumes "ps \<noteq> []" and "length ps = length news" and "sum_list ps = 1" and "\<And>p. p \<in> set ps \<Longrightarrow> 0 < p"
    and "\<And>v. v \<in> set news \<Longrightarrow> 0 < fst (snd v) \<and> 0 < fst (snd (snd v)) \<and> 0 < snd (snd (snd v))"
  shows "runs_ok (with_runs st ps news (pruned ps))"
proof -
  have le: "0 \<le> p" if "p \<in> set ps" for p using assms(4) [OF that] by simp
  have "0 < ps ! i" "0 < fst (snd (news ! i)) \<and> 0 < fst (snd (snd (news ! i))) \<and> 0 < snd (snd (snd (news ! i)))"
    if "i \<in> set (pruned ps)" for i
    using assms(2,4,5) pruned_in_range [OF assms(1) that] nth_mem [of i ps] nth_mem [of i news] by auto
  moreover have "length (pruned ps) \<le> 10 ^ 10" "sum_list (map ((!) ps) (pruned ps)) \<le> 1"
    using pruned_length [OF assms(1) le] pruned_sum [OF assms(1) le] assms(3) by simp_all
  ultimately show ?thesis
    using pruned_nonempty [of ps] by (simp add: runs_ok_def with_runs_def)
qed

lemma bocd_update_runs_ok:
  assumes "prior_ok st" and "runs_ok st"
  shows "runs_ok (fst (bocd_update lg st x))"
  unfolding bocd_update_eq [OF assms] fst_conv
  by (rule with_runs_ok [OF new_masses_sum(3,4,1) [OF assms]])
     (use new_masses_sum(2) [OF assms] new_stats_positive [OF assms] in blast)+

definition bocd_run :: "(real \<Rightarrow> real) \<Rightarrow> real list \<Rightarrow> bocd \<Rightarrow> bocd" where
  "bocd_run lg vs st = fold (\<lambda>v st. fst (bocd_update lg st v)) vs st"

lemma bocd_run_ok: "prior_ok st \<Longrightarrow> runs_ok st \<Longrightarrow> prior_ok (bocd_run lg vs st) \<and> runs_ok (bocd_run lg vs st)"
  unfolding bocd_run_def
  by (induction vs arbitrary: st) (simp_all add: bocd_update_prior_ok bocd_update_runs_ok)


lemma init_bocd_ok: "init_bocd h m k a b t = Inr st \<Longrightarrow> prior_ok st \<and> runs_ok st"
  by (auto simp: init_bocd_def prior_ok_def runs_ok_def split: if_splits)

subsection \<open>The conjugate update of a segment\<close>

text \<open>The parameters after a segment, updated one observation at a time.\<close>

definition nig_segment ::
  "real list \<Rightarrow> real \<times> real \<times> real \<times> real \<Rightarrow> real \<times> real \<times> real \<times> real" where
  "nig_segment xs params = fold (\<lambda>x (mu, kappa, alpha, beta). nig_update x mu kappa alpha beta) xs params"

lemma nig_update_moment:
  assumes "nig_update x mu kappa alpha beta = (mu', kappa', alpha', beta')" and "0 < kappa"
  shows "kappa' = kappa + 1" and "alpha' = alpha + 1 / 2" and "kappa' * mu' = kappa * mu + x"
    and "2 * beta' + kappa' * mu'\<^sup>2 = 2 * beta + kappa * mu\<^sup>2 + x\<^sup>2"
proof -
  have k: "kappa + 1 \<noteq> 0" using assms(2) by simp
  show eqs: "kappa' = kappa + 1" "alpha' = alpha + 1 / 2" and km: "kappa' * mu' = kappa * mu + x"
    using assms k by (auto simp: nig_update_def Let_def)
  have mu': "mu' = (kappa * mu + x) / (kappa + 1)"
    and b': "beta' = beta + kappa * (x - mu)\<^sup>2 / (2 * (kappa + 1))"
    using assms by (auto simp: nig_update_def Let_def)
  have "kappa' * mu'\<^sup>2 = (kappa * mu + x)\<^sup>2 / (kappa + 1)"
    using k by (simp add: mu' eqs(1) power_divide power2_eq_square)
  moreover have "2 * beta' = 2 * beta + kappa * (x - mu)\<^sup>2 / (kappa + 1)"
    using k by (simp add: b' field_simps)
  moreover have "kappa * (x - mu)\<^sup>2 / (kappa + 1) + (kappa * mu + x)\<^sup>2 / (kappa + 1) = kappa * mu\<^sup>2 + x\<^sup>2"
    using k by (simp add: add_divide_distrib [symmetric] field_simps power2_eq_square)
  ultimately show "2 * beta' + kappa' * mu'\<^sup>2 = 2 * beta + kappa * mu\<^sup>2 + x\<^sup>2" by simp
qed

definition the_bocd :: "py_error + bocd \<Rightarrow> bocd" where
  "the_bocd r = (case r of Inr st \<Rightarrow> st | Inl e \<Rightarrow> undefined)"

lemma nig_segment_closed:
  assumes "0 < kappa0" and "nig_segment xs (mu0, kappa0, alpha0, beta0) = (mu, kappa, alpha, beta)"
  shows "kappa = kappa0 + real (length xs) \<and> alpha = alpha0 + real (length xs) / 2
     \<and> kappa * mu = kappa0 * mu0 + sum_list xs
     \<and> 2 * beta + kappa * mu\<^sup>2 = 2 * beta0 + kappa0 * mu0\<^sup>2 + sum_list (map (\<lambda>x. x\<^sup>2) xs)"
  using assms(2)
proof (induction xs arbitrary: mu kappa alpha beta rule: rev_induct)
  case Nil
  then show ?case by (simp add: nig_segment_def)
next
  case (snoc x xs)
  obtain m k a b where pre: "nig_segment xs (mu0, kappa0, alpha0, beta0) = (m, k, a, b)"
    by (cases "nig_segment xs (mu0, kappa0, alpha0, beta0)")
  then have step: "nig_update x m k a b = (mu, kappa, alpha, beta)"
    using snoc.prems by (simp add: nig_segment_def)
  have IH: "k = kappa0 + real (length xs)" "a = alpha0 + real (length xs) / 2"
    "k * m = kappa0 * mu0 + sum_list xs"
    "2 * b + k * m\<^sup>2 = 2 * beta0 + kappa0 * mu0\<^sup>2 + sum_list (map (\<lambda>x. x\<^sup>2) xs)"
    using snoc.IH [OF pre] by blast+
  have "0 < k" using IH(1) assms(1) by simp
  from nig_update_moment [OF step this] IH show ?case by (simp add: add_divide_distrib)
qed

subsection \<open>Properties\<close>



text \<open>Memory and domains. From a constructed detector, after any observations, the detector
  holds at least one and at most \<open>10 ^ 10\<close> hypotheses in lists of equal length, with positive
  probabilities summing to at most 1 and positive conjugate parameters.\<close>

theorem bocd_hypotheses_bounded:
  assumes "init_bocd h mu0 kappa0 alpha0 beta0 thr = Inr st0"
  shows "runs_ok (bocd_run lg vs st0)"
  using bocd_run_ok init_bocd_ok [OF assms] by blast

theorem bocd_hypotheses_bounded_witness:
  "runs_ok (bocd_run (\<lambda>y. y) [1, 2] (the_bocd (init_bocd (1 / 200) 0 1 2 (1 / 100) (1 / 2))))"
  by (rule bocd_hypotheses_bounded [of "1 / 200" 0 1 2 "1 / 100" "1 / 2"])
     (simp add: init_bocd_def the_bocd_def)

text \<open>Sequential conjugate updates equal the batch posterior. Updating the prior one observation
  at a time over a segment gives the closed-form Normal-Inverse-Gamma posterior of the whole
  segment, in any order of its observations.\<close>

theorem nig_sequential_is_batch:
  assumes "0 < kappa0"
  shows "nig_segment xs (mu0, kappa0, alpha0, beta0) =
    (let n = real (length xs); kappa_n = kappa0 + n; mu_n = (kappa0 * mu0 + sum_list xs) / kappa_n
     in (mu_n, kappa_n, alpha0 + n / 2,
         beta0 + (sum_list (map (\<lambda>x. x\<^sup>2) xs) + kappa0 * mu0\<^sup>2 - kappa_n * mu_n\<^sup>2) / 2))"
proof -
  obtain mu kappa alpha beta where seg: "nig_segment xs (mu0, kappa0, alpha0, beta0) = (mu, kappa, alpha, beta)"
    by (cases "nig_segment xs (mu0, kappa0, alpha0, beta0)")
  note closed = nig_segment_closed [OF assms seg]
  then have "kappa \<noteq> 0" using assms by simp
  moreover have "kappa * mu = kappa0 * mu0 + sum_list xs" using closed by blast
  ultimately have "mu = (kappa0 * mu0 + sum_list xs) / kappa" by (metis nonzero_mult_div_cancel_left)
  moreover have "beta = beta0 + (sum_list (map (\<lambda>x. x\<^sup>2) xs) + kappa0 * mu0\<^sup>2 - kappa * mu\<^sup>2) / 2"
    using closed by argo
  moreover have "kappa = kappa0 + real (length xs)" "alpha = alpha0 + real (length xs) / 2"
    using closed by blast+
  ultimately show ?thesis using seg unfolding Let_def by metis
qed

theorem nig_sequential_is_batch_witness:
  "nig_segment [1, 3] (0, 1, 2, 1 / 100) = (4 / 3, 3, 3, 1 / 100 + 7 / 3)"
  using nig_sequential_is_batch [of 1 "[1, 3]" 0 2 "1 / 100"] by (simp add: Let_def power2_eq_square)

end
