(* ===== verification/Schema.thy ===== *)
theory Schema
  imports Prelude
begin

section \<open>The wire format and its validators (gateway/schema.py)\<close>

text \<open>
  \<open>inbound_batch\<close> is \<^verbatim>\<open>InboundSignalBatch\<close>, \<open>weather_response\<close> and \<open>webhook_registration\<close>
  the two other models of the file. Decoding JSON into typed fields (and refusing unknown
  ones) is pydantic's work: it is the argument \<open>parse\<close> of \<open>model_validate_json\<close>. The field
  constraints and the three \<^verbatim>\<open>model_validator\<close> methods are the code's own and are modelled:
  a \<^verbatim>\<open>ValueError\<close> of a validator becomes a \<^verbatim>\<open>ValidationError\<close> (both are \<open>ValueError\<close> here), any
  other exception propagates. The \<open>ValueError\<close> message is the constant part of the code's.

  A \<^verbatim>\<open>datetime\<close> is a wall-clock reading in microseconds with an optional offset from UTC:
  naive when it has none. The lemmas say exactly which batches are accepted.
\<close>

subsection \<open>Dates\<close>

record py_datetime =
  dt_wall :: int
  dt_offset :: "int option"

definition naive :: "int \<Rightarrow> py_datetime" where
  "naive t = \<lparr>dt_wall = t, dt_offset = None\<rparr>"

definition dt_utc :: "py_datetime \<Rightarrow> int" where
  "dt_utc d = (case dt_offset d of None \<Rightarrow> dt_wall d | Some off \<Rightarrow> dt_wall d - off)"

text \<open>\<^verbatim>\<open>a >= b\<close>: Python refuses to compare a naive with an aware value.\<close>

definition dt_ge :: "py_datetime \<Rightarrow> py_datetime \<Rightarrow> py_error + bool" where
  "dt_ge a b =
     (if (dt_offset a = None) = (dt_offset b = None) then Inr (dt_utc b \<le> dt_utc a)
      else Inl (TypeError ''can't compare offset-naive and offset-aware datetimes''))"

subsection \<open>The batch\<close>

record inbound_batch =
  ib_batch_id :: string
  ib_client_id :: string
  ib_window_start :: py_datetime
  ib_window_end :: py_datetime
  ib_model_tuple :: string
  ib_suite_version :: string
  ib_metrics :: "(string, real) dict"
  ib_canary_hashes :: "(string, string) dict"
  ib_result_count :: int
  ib_fleet_id :: "string option"

definition allowed_metric_keys :: "string list" where
  "allowed_metric_keys =
     [''avg_output_length'', ''json_success_rate'', ''result_count'',
      ''tool_call_validity_rate'', ''avg_output_tokens'', ''avg_reasoning_tokens'']"

text \<open>\<^verbatim>\<open>Field(min_length=1)\<close> twice and \<^verbatim>\<open>Field(ge=1)\<close>.\<close>

definition field_constraints :: "inbound_batch \<Rightarrow> bool" where
  "field_constraints b \<longleftrightarrow>
     1 \<le> length (ib_model_tuple b) \<and> 1 \<le> length (ib_suite_version b) \<and> 1 \<le> ib_result_count b"

definition check_window_order :: "inbound_batch \<Rightarrow> py_error + inbound_batch" where
  "check_window_order b =
     sum_bind (dt_ge (ib_window_start b) (ib_window_end b))
       (\<lambda>bad. if bad then Inl (ValueError ''window_start must be strictly before window_end'')
              else Inr b)"

definition check_metrics_keys :: "inbound_batch \<Rightarrow> py_error + inbound_batch" where
  "check_metrics_keys b =
     (let unknown = set (map fst (ib_metrics b)) - set allowed_metric_keys
      in if unknown \<noteq> {} then Inl (ValueError ''metrics contains unknown keys'') else Inr b)"

text \<open>
  A pattern \<^verbatim>\<open>^[class]...$\<close> under \<^verbatim>\<open>re.match\<close>: the dollar sign matches at the end of the string
  and also before one final newline. Strings are ASCII, so \<^verbatim>\<open>\w\<close> is a letter, a digit or \<^verbatim>\<open>_\<close>.
\<close>

definition newline :: char where "newline = CHR 0x0A"

definition dollar_bodies :: "string \<Rightarrow> string list" where
  "dollar_bodies s = s # (if s \<noteq> [] \<and> last s = newline then [butlast s] else [])"

definition is_digit :: "char \<Rightarrow> bool" where
  "is_digit c \<longleftrightarrow> 48 \<le> (of_char c :: nat) \<and> (of_char c :: nat) \<le> 57"

definition is_lower :: "char \<Rightarrow> bool" where
  "is_lower c \<longleftrightarrow> 97 \<le> (of_char c :: nat) \<and> (of_char c :: nat) \<le> 122"

definition is_upper :: "char \<Rightarrow> bool" where
  "is_upper c \<longleftrightarrow> 65 \<le> (of_char c :: nat) \<and> (of_char c :: nat) \<le> 90"

definition hash_key_char :: "char \<Rightarrow> bool" where
  "hash_key_char c \<longleftrightarrow> is_digit c \<or> is_lower c \<or> is_upper c \<or> c = CHR ''_'' \<or> c = CHR ''.'' \<or> c = CHR ''-''"

definition lower_hex_char :: "char \<Rightarrow> bool" where
  "lower_hex_char c \<longleftrightarrow> is_digit c \<or> (97 \<le> (of_char c :: nat) \<and> (of_char c :: nat) \<le> 102)"

definition key_pat_match :: "string \<Rightarrow> bool" where
  "key_pat_match s \<longleftrightarrow> list_ex (\<lambda>body. body \<noteq> [] \<and> list_all hash_key_char body) (dollar_bodies s)"

definition val_pat_match :: "string \<Rightarrow> bool" where
  "val_pat_match s \<longleftrightarrow> list_ex (\<lambda>body. length body = 64 \<and> list_all lower_hex_char body) (dollar_bodies s)"

fun check_hash_items :: "(string, string) dict \<Rightarrow> py_error + unit" where
  "check_hash_items [] = Inr ()"
| "check_hash_items ((key, val) # items) =
     (if \<not> key_pat_match key then Inl (ValueError ''canary_hashes key contains invalid characters'')
      else if \<not> val_pat_match val
      then Inl (ValueError ''canary_hashes value is not a 64-character lowercase hex SHA-256 digest'')
      else check_hash_items items)"

definition check_canary_hash_format :: "inbound_batch \<Rightarrow> py_error + inbound_batch" where
  "check_canary_hash_format b = sum_bind (check_hash_items (ib_canary_hashes b)) (\<lambda>_. Inr b)"

text \<open>Pydantic's order: the fields, then the validators as the class declares them.\<close>

definition validate_batch :: "inbound_batch \<Rightarrow> py_error + inbound_batch" where
  "validate_batch b =
     (if \<not> field_constraints b then Inl (ValueError ''field constraint'')
      else sum_bind (check_window_order b)
             (\<lambda>b. sum_bind (check_metrics_keys b) check_canary_hash_format))"

definition model_validate_json ::
  "('raw \<Rightarrow> inbound_batch option) \<Rightarrow> 'raw \<Rightarrow> py_error + inbound_batch" where
  "model_validate_json parse raw =
     (case parse raw of None \<Rightarrow> Inl (ValueError ''invalid JSON or field types'')
      | Some b \<Rightarrow> validate_batch b)"

subsection \<open>The weather response and the webhook registration\<close>

record weather_response =
  wr_model_tuple :: string
  wr_status :: string
  wr_last_alert_timestamp :: "py_datetime option"
  wr_recent_avg_output_length :: "real option"
  wr_recent_json_success_rate :: "real option"
  wr_sample_count :: int
  wr_json_sample_count :: int
  wr_length_sample_count :: int
  wr_window_start :: "py_datetime option"
  wr_window_end :: "py_datetime option"
  wr_window_age_hours :: "real option"

definition weather_post_init :: "weather_response \<Rightarrow> py_error + weather_response" where
  "weather_post_init w =
     (if wr_status w \<notin> {''STABLE'', ''DRIFTING'', ''STALE''}
      then Inl (ValueError ''status must be STABLE, DRIFTING or STALE'') else Inr w)"

record webhook_registration =
  wh_fleet_id :: string
  wh_target_url :: string
  wh_auth_token :: "string option"

definition validate_webhook :: "webhook_registration \<Rightarrow> py_error + webhook_registration" where
  "validate_webhook w =
     (if 1 \<le> length (wh_fleet_id w) \<and> 1 \<le> length (wh_target_url w) then Inr w
      else Inl (ValueError ''field constraint''))"

subsection \<open>Which batches are accepted\<close>

lemma check_hash_items_ok:
  "check_hash_items items = Inr u \<longleftrightarrow>
     (\<forall>(key, val)\<in>set items. key_pat_match key \<and> val_pat_match val)"
  by (induction items rule: check_hash_items.induct) auto

lemma check_hash_items_error: "check_hash_items items = Inl e \<Longrightarrow> \<exists>m. e = ValueError m"
  by (induction items rule: check_hash_items.induct) (auto split: if_splits)

lemma check_window_order_ok:
  "check_window_order b = Inr b' \<longleftrightarrow> b' = b
     \<and> (dt_offset (ib_window_start b) = None) = (dt_offset (ib_window_end b) = None)
     \<and> dt_utc (ib_window_start b) < dt_utc (ib_window_end b)"
  by (auto simp: check_window_order_def dt_ge_def)

lemma check_metrics_keys_ok:
  "check_metrics_keys b = Inr b' \<longleftrightarrow> b' = b \<and> fst ` set (ib_metrics b) \<subseteq> set allowed_metric_keys"
  by (auto simp: check_metrics_keys_def Let_def)

lemma check_canary_hash_format_ok:
  "check_canary_hash_format b = Inr b' \<longleftrightarrow> b' = b
     \<and> (\<forall>(key, val)\<in>set (ib_canary_hashes b). key_pat_match key \<and> val_pat_match val)"
  by (auto simp: check_canary_hash_format_def sum_bind_Inr_iff check_hash_items_ok)

lemma validate_batch_same: "validate_batch b = Inr b' \<Longrightarrow> b' = b"
  by (auto simp: validate_batch_def sum_bind_Inr_iff check_window_order_ok check_metrics_keys_ok
      check_canary_hash_format_ok split: if_splits)

lemma model_validate_json_ok:
  "model_validate_json parse raw = Inr b \<longleftrightarrow> parse raw = Some b \<and> validate_batch b = Inr b"
  by (auto simp: model_validate_json_def dest: validate_batch_same split: option.splits)

lemma last_newline_not_hex: "\<not> lower_hex_char newline"
  by (simp add: lower_hex_char_def is_digit_def newline_def)

lemma val_pat_match_iff:
  "val_pat_match s \<longleftrightarrow> (\<exists>d. length d = 64 \<and> list_all lower_hex_char d \<and> (s = d \<or> s = d @ [newline]))"
proof -
  have "s \<noteq> [] \<and> last s = newline \<longleftrightarrow> (\<exists>d. s = d @ [newline])"
    by (metis append_butlast_last_id last_snoc snoc_eq_iff_butlast)
  then show ?thesis by (auto simp: val_pat_match_def dollar_bodies_def)
qed

text \<open>A batch for concrete runs, public or of a fleet.\<close>

definition example_batch :: "string \<Rightarrow> string option \<Rightarrow> inbound_batch" where
  "example_batch i fleet =
     \<lparr>ib_batch_id = i, ib_client_id = ''c'', ib_window_start = naive 0, ib_window_end = naive 1,
      ib_model_tuple = ''m'', ib_suite_version = ''v2.0.0'', ib_metrics = [(''json_success_rate'', 9 / 50)],
      ib_canary_hashes = [], ib_result_count = 50, ib_fleet_id = fleet\<rparr>"

subsection \<open>Properties\<close>

text \<open>Which batches the schema accepts. A batch passes validation, unchanged, exactly when its
  identifiers are not empty and it counts at least one result, its window is not empty and
  its two bounds are both naive or both aware, every metric is one of the six allowed keys,
  and every canary hash has an identifier as key and 64 lowercase hexadecimal digits as value
  (one final newline is also let through).\<close>

theorem schema_accepts_exactly:
  "validate_batch b = Inr b' \<longleftrightarrow>
     b' = b \<and> ib_model_tuple b \<noteq> [] \<and> ib_suite_version b \<noteq> [] \<and> 1 \<le> ib_result_count b
     \<and> (dt_offset (ib_window_start b) = None) = (dt_offset (ib_window_end b) = None)
     \<and> dt_utc (ib_window_start b) < dt_utc (ib_window_end b)
     \<and> fst ` set (ib_metrics b) \<subseteq> set allowed_metric_keys
     \<and> set (ib_canary_hashes b) \<subseteq>
         {(key, val). key_pat_match key
            \<and> (\<exists>d. length d = 64 \<and> list_all lower_hex_char d \<and> (val = d \<or> val = d @ [newline]))}"
proof -
  have ne: "Suc 0 \<le> length s \<longleftrightarrow> s \<noteq> []" for s :: string by (cases s) simp_all
  show ?thesis
    by (auto simp: validate_batch_def field_constraints_def ne sum_bind_Inr_iff check_window_order_ok
        check_metrics_keys_ok check_canary_hash_format_ok val_pat_match_iff)
qed

text \<open>A window with one naive and one aware bound is not a validation error. Whatever else the
  batch holds, the validators raise \<open>TypeError\<close> exactly when the plain fields are acceptable and
  only one of the two bounds carries an offset.\<close>

theorem mixed_window_bounds_type_error:
  "(\<exists>m. validate_batch b = Inl (TypeError m)) \<longleftrightarrow>
     field_constraints b
     \<and> (dt_offset (ib_window_start b) = None) \<noteq> (dt_offset (ib_window_end b) = None)"
  by (auto simp: validate_batch_def check_window_order_def dt_ge_def check_metrics_keys_def
      check_canary_hash_format_def Let_def sum_bind_def dest: check_hash_items_error split: sum.splits)

end
