(* ===== verification/Repository.thy ===== *)
theory Repository
  imports Schema Detector "HOL-Library.List_Lexorder" "HOL-Library.Char_ord" "HOL-Library.Multiset"
begin

section \<open>Persistence: tables, the SQLite backend and the repository interface\<close>

text \<open>
  The tables of engine/models.py as records, \<open>sqlite_db\<close> as four lists of rows in insertion
  order, and one function per method of \<^verbatim>\<open>SignalRepository\<close> (engine/repository.py), each
  SQL statement written as the list function it denotes. Stored timestamps are naive UTC
  microseconds; \<open>now\<close> is the reading of \<^verbatim>\<open>datetime.now(timezone.utc)\<close>. SQL leaves rows that
  agree on the \<^verbatim>\<open>ORDER BY\<close> column in any order; the model keeps insertion order, and no
  property depends on it.

  \<open>repo_ops\<close> is the abstract class \<^verbatim>\<open>BaseRepository\<close>: one field per abstract method, so the
  gateway's functions take the backend as an argument, as its code does. The locale
  \<open>signal_store\<close> states the laws the gateway relies on; this theory interprets it on the
  SQLite backend, \<^verbatim>\<open>Clickhouse\<close> on the other.
\<close>

subsection \<open>Rows\<close>

record telemetry_signal =
  tl_id :: int
  tl_batch_id :: string
  tl_timestamp :: int
  tl_model_tuple :: string
  tl_avg_output_length :: "real option"
  tl_json_success_rate :: "real option"
  tl_result_count :: real
  tl_fleet_id :: "string option"
  tl_suite_version :: "string option"

record local_drift_alert =
  la_id :: int
  la_timestamp :: int
  la_model_tuple :: string
  la_metric_name :: string
  la_alert_value :: real
  la_client_id :: string
  la_fleet_id :: "string option"

record public_drift_alert =
  pa_id :: int
  pa_timestamp :: int
  pa_model_tuple :: string
  pa_metric_name :: string
  pa_contributing_org_count :: int

record webhook_config =
  wc_id :: int
  wc_fleet_id :: string
  wc_target_url :: string
  wc_auth_token :: "string option"

text \<open>What the gateway reads of a signal or an alert, whatever the backend.\<close>

record signal_row =
  sr_batch_id :: string
  sr_model_tuple :: string
  sr_timestamp :: int
  sr_avg_output_length :: "real option"
  sr_json_success_rate :: "real option"
  sr_result_count :: real
  sr_suite_version :: "string option"

record alert_row =
  ar_timestamp :: int
  ar_model_tuple :: string
  ar_metric_name :: string
  ar_contributing_org_count :: int

definition row_of_signal :: "telemetry_signal \<Rightarrow> signal_row" where
  "row_of_signal s =
     \<lparr>sr_batch_id = tl_batch_id s, sr_model_tuple = tl_model_tuple s, sr_timestamp = tl_timestamp s,
      sr_avg_output_length = tl_avg_output_length s, sr_json_success_rate = tl_json_success_rate s,
      sr_result_count = tl_result_count s, sr_suite_version = tl_suite_version s\<rparr>"

definition row_of_alert :: "public_drift_alert \<Rightarrow> alert_row" where
  "row_of_alert a =
     \<lparr>ar_timestamp = pa_timestamp a, ar_model_tuple = pa_model_tuple a,
      ar_metric_name = pa_metric_name a, ar_contributing_org_count = pa_contributing_org_count a\<rparr>"

subsection \<open>The SQLite database\<close>

record sqlite_db =
  db_signals :: "telemetry_signal list"
  db_local :: "local_drift_alert list"
  db_public :: "public_drift_alert list"
  db_webhooks :: "webhook_config list"

definition empty_db :: sqlite_db where
  "empty_db = \<lparr>db_signals = [], db_local = [], db_public = [], db_webhooks = []\<rparr>"

text \<open>SQLite gives a new row one more than the largest id of its table.\<close>

definition next_id :: "int list \<Rightarrow> int" where
  "next_id ids = fold max ids 0 + 1"

definition order_desc :: "('a \<Rightarrow> int) \<Rightarrow> 'a list \<Rightarrow> 'a list" where
  "order_desc f xs = sort_key (\<lambda>x. - f x) xs"

definition save_batch :: "sqlite_db \<Rightarrow> int \<Rightarrow> inbound_batch \<Rightarrow> sqlite_db" where
  "save_batch db now b =
     (let metrics = ib_metrics b;
          signal =
            \<lparr>tl_id = next_id (map tl_id (db_signals db)), tl_batch_id = ib_batch_id b,
             tl_timestamp = now, tl_model_tuple = ib_model_tuple b,
             tl_avg_output_length = map_of metrics ''avg_output_length'',
             tl_json_success_rate = map_of metrics ''json_success_rate'',
             tl_result_count = dict_get metrics ''result_count'' (real_of_int (ib_result_count b)),
             tl_fleet_id = ib_fleet_id b, tl_suite_version = Some (ib_suite_version b)\<rparr>
      in db\<lparr>db_signals := db_signals db @ [signal]\<rparr>)"

definition save_local_alert ::
  "sqlite_db \<Rightarrow> int \<Rightarrow> drift_alert \<Rightarrow> string \<Rightarrow> string option \<Rightarrow> sqlite_db" where
  "save_local_alert db now alert client_id fleet_id =
     db\<lparr>db_local := db_local db @
          [\<lparr>la_id = next_id (map la_id (db_local db)), la_timestamp = now,
            la_model_tuple = da_model_tuple alert, la_metric_name = da_metric_name alert,
            la_alert_value = da_cusum_score alert, la_client_id = client_id, la_fleet_id = fleet_id\<rparr>]\<rparr>"

definition save_public_alert ::
  "sqlite_db \<Rightarrow> int \<Rightarrow> string \<Rightarrow> string \<Rightarrow> int \<Rightarrow> sqlite_db" where
  "save_public_alert db now model_tuple metric_name org_count =
     db\<lparr>db_public := db_public db @
          [\<lparr>pa_id = next_id (map pa_id (db_public db)), pa_timestamp = now,
            pa_model_tuple = model_tuple, pa_metric_name = metric_name,
            pa_contributing_org_count = org_count\<rparr>]\<rparr>"

definition has_batch :: "sqlite_db \<Rightarrow> string \<Rightarrow> bool" where
  "has_batch db batch_id = (take 1 (filter (\<lambda>s. tl_batch_id s = batch_id) (db_signals db)) \<noteq> [])"

definition get_recent_signals :: "sqlite_db \<Rightarrow> string \<Rightarrow> nat \<Rightarrow> telemetry_signal list" where
  "get_recent_signals db model_tuple limit =
     take limit (order_desc tl_id (filter (\<lambda>s. tl_model_tuple s = model_tuple) (db_signals db)))"

definition get_all_model_tuples :: "sqlite_db \<Rightarrow> string list" where
  "get_all_model_tuples db = sort (remdups (map tl_model_tuple (db_signals db)))"

definition hours_us :: "int \<Rightarrow> int" where
  "hours_us h = h * 3600 * 1000000"

definition get_recent_alerts :: "sqlite_db \<Rightarrow> int \<Rightarrow> string \<Rightarrow> int \<Rightarrow> public_drift_alert list" where
  "get_recent_alerts db now model_tuple hours_back =
     (let cutoff = now - hours_us hours_back
      in order_desc pa_timestamp
           (filter (\<lambda>a. cutoff \<le> pa_timestamp a)
             (filter (\<lambda>a. pa_model_tuple a = model_tuple) (db_public db))))"

definition register_webhook :: "sqlite_db \<Rightarrow> string \<Rightarrow> string \<Rightarrow> string option \<Rightarrow> sqlite_db" where
  "register_webhook db fleet_id target_url auth_token =
     (let kept = filter (\<lambda>w. wc_fleet_id w \<noteq> fleet_id) (db_webhooks db)
      in db\<lparr>db_webhooks := kept @
              [\<lparr>wc_id = next_id (map wc_id kept), wc_fleet_id = fleet_id,
                wc_target_url = target_url, wc_auth_token = auth_token\<rparr>]\<rparr>)"

definition first_row :: "'a list \<Rightarrow> 'a option" where
  "first_row xs = (case xs of [] \<Rightarrow> None | x # _ \<Rightarrow> Some x)"

definition get_webhook :: "sqlite_db \<Rightarrow> string \<Rightarrow> webhook_config option" where
  "get_webhook db fleet_id = first_row (filter (\<lambda>w. wc_fleet_id w = fleet_id) (db_webhooks db))"

definition get_local_alert_by_id :: "sqlite_db \<Rightarrow> int \<Rightarrow> local_drift_alert option" where
  "get_local_alert_by_id db alert_id = first_row (filter (\<lambda>a. la_id a = alert_id) (db_local db))"

definition get_public_alert_by_id :: "sqlite_db \<Rightarrow> int \<Rightarrow> public_drift_alert option" where
  "get_public_alert_by_id db alert_id = first_row (filter (\<lambda>a. pa_id a = alert_id) (db_public db))"

definition get_signals_before_timestamp ::
  "sqlite_db \<Rightarrow> string \<Rightarrow> int \<Rightarrow> string option \<Rightarrow> nat \<Rightarrow> telemetry_signal list" where
  "get_signals_before_timestamp db model_tuple timestamp fleet_id limit =
     (let rows = filter (\<lambda>s. tl_timestamp s < timestamp)
                   (filter (\<lambda>s. tl_model_tuple s = model_tuple) (db_signals db));
          rows = (case fleet_id of None \<Rightarrow> rows
                  | Some f \<Rightarrow> filter (\<lambda>s. tl_fleet_id s = Some f) rows)
      in take limit (order_desc tl_timestamp rows))"

subsection \<open>Engine options and the additive migration\<close>

text \<open>\<^verbatim>\<open>str.startswith\<close> and the substring test \<^verbatim>\<open>in\<close>.\<close>

definition starts_with :: "string \<Rightarrow> string \<Rightarrow> bool" where
  "starts_with s p \<longleftrightarrow> take (length p) s = p"

fun contains :: "string \<Rightarrow> string \<Rightarrow> bool" where
  "contains [] p = (p = [])"
| "contains (c # s) p = (starts_with (c # s) p \<or> contains s p)"

datatype engine_option = CheckSameThreadOff | UseStaticPool | PoolPrePing

definition engine_kwargs :: "string \<Rightarrow> engine_option list" where
  "engine_kwargs db_url =
     (if starts_with db_url ''sqlite''
      then if contains db_url '':memory:'' then [CheckSameThreadOff, UseStaticPool]
           else [CheckSameThreadOff]
      else [PoolPrePing])"

text \<open>A database schema: the columns of each table. \<^verbatim>\<open>ALTER TABLE\<close> appends one.\<close>

type_synonym db_schema = "(string, string list) dict"

definition additive_columns :: "(string, string list) dict" where
  "additive_columns = [(''telemetry_signals'', [''suite_version''])]"

fun add_columns :: "string \<Rightarrow> string list \<Rightarrow> string list \<Rightarrow> db_schema \<Rightarrow> db_schema \<times> (string \<times> string) list" where
  "add_columns table present [] sch = (sch, [])"
| "add_columns table present (c # cs) sch =
     (if c \<in> set present then add_columns table present cs sch
      else let (sch', added) = add_columns table present cs
                 (AList.update table (dict_get sch table [] @ [c]) sch)
           in (sch', (table, c) # added))"

fun apply_additive_columns :: "(string, string list) dict \<Rightarrow> db_schema \<Rightarrow> db_schema \<times> (string \<times> string) list" where
  "apply_additive_columns [] sch = (sch, [])"
| "apply_additive_columns ((table, columns) # rest) sch =
     (case map_of sch table of
        None \<Rightarrow> apply_additive_columns rest sch
      | Some present \<Rightarrow>
          let (sch1, added) = add_columns table present columns sch;
              (sch2, more) = apply_additive_columns rest sch1
          in (sch2, added @ more))"

subsection \<open>The interface: BaseRepository\<close>

record 'r repo_ops =
  ro_save_batch :: "'r \<Rightarrow> int \<Rightarrow> inbound_batch \<Rightarrow> 'r"
  ro_has_batch :: "'r \<Rightarrow> string \<Rightarrow> bool"
  ro_save_local_alert :: "'r \<Rightarrow> int \<Rightarrow> drift_alert \<Rightarrow> string \<Rightarrow> string option \<Rightarrow> 'r"
  ro_save_public_alert :: "'r \<Rightarrow> int \<Rightarrow> string \<Rightarrow> string \<Rightarrow> int \<Rightarrow> 'r"
  ro_get_recent_signals :: "'r \<Rightarrow> string \<Rightarrow> nat \<Rightarrow> signal_row list"
  ro_get_all_model_tuples :: "'r \<Rightarrow> string list"
  ro_get_recent_alerts :: "'r \<Rightarrow> int \<Rightarrow> string \<Rightarrow> int \<Rightarrow> alert_row list"
  ro_register_webhook :: "'r \<Rightarrow> string \<Rightarrow> string \<Rightarrow> string option \<Rightarrow> py_error + 'r"
  ro_get_webhook :: "'r \<Rightarrow> string \<Rightarrow> webhook_config option"
  ro_get_local_alert_by_id :: "'r \<Rightarrow> int \<Rightarrow> py_error + local_drift_alert option"
  ro_get_public_alert_by_id :: "'r \<Rightarrow> int \<Rightarrow> py_error + public_drift_alert option"
  ro_get_signals_before_timestamp :: "'r \<Rightarrow> string \<Rightarrow> int \<Rightarrow> string option \<Rightarrow> nat \<Rightarrow> signal_row list"

definition sqlite_ops :: "sqlite_db repo_ops" where
  "sqlite_ops =
     \<lparr>ro_save_batch = save_batch, ro_has_batch = has_batch,
      ro_save_local_alert = save_local_alert, ro_save_public_alert = save_public_alert,
      ro_get_recent_signals = (\<lambda>db mt n. map row_of_signal (get_recent_signals db mt n)),
      ro_get_all_model_tuples = get_all_model_tuples,
      ro_get_recent_alerts = (\<lambda>db now mt h. map row_of_alert (get_recent_alerts db now mt h)),
      ro_register_webhook = (\<lambda>db f u t. Inr (register_webhook db f u t)),
      ro_get_webhook = get_webhook,
      ro_get_local_alert_by_id = (\<lambda>db i. Inr (get_local_alert_by_id db i)),
      ro_get_public_alert_by_id = (\<lambda>db i. Inr (get_public_alert_by_id db i)),
      ro_get_signals_before_timestamp =
        (\<lambda>db mt t f n. map row_of_signal (get_signals_before_timestamp db mt t f n))\<rparr>"

text \<open>The row of an accepted batch, stored at time \<open>t\<close>.\<close>

definition batch_row :: "int \<Rightarrow> inbound_batch \<Rightarrow> signal_row" where
  "batch_row t b =
     \<lparr>sr_batch_id = ib_batch_id b, sr_model_tuple = ib_model_tuple b, sr_timestamp = t,
      sr_avg_output_length = map_of (ib_metrics b) ''avg_output_length'',
      sr_json_success_rate = map_of (ib_metrics b) ''json_success_rate'',
      sr_result_count = dict_get (ib_metrics b) ''result_count'' (real_of_int (ib_result_count b)),
      sr_suite_version = Some (ib_suite_version b)\<rparr>"

text \<open>
  The laws. \<open>stored\<close>, \<open>publics\<close> and \<open>locals\<close> abstract a repository to its signals (with the
  fleet each came from), its public alerts and its local alerts (client, model, metric and
  fleet), in insertion order; \<open>stamp\<close> is the resolution the backend stores and compares times
  with.
\<close>

locale signal_store =
  fixes ops :: "'r repo_ops"
    and stored :: "'r \<Rightarrow> (string option \<times> signal_row) list"
    and publics :: "'r \<Rightarrow> alert_row list"
    and locals :: "'r \<Rightarrow> (string \<times> string \<times> string \<times> string option) list"
    and stamp :: "int \<Rightarrow> int"
  assumes stored_save_batch:
      "stored (ro_save_batch ops r now b) = stored r @ [(ib_fleet_id b, batch_row (stamp now) b)]"
    and stored_save_local: "stored (ro_save_local_alert ops r now a c f) = stored r"
    and stored_save_public: "stored (ro_save_public_alert ops r now mt mn n) = stored r"
    and publics_save_batch: "publics (ro_save_batch ops r now b) = publics r"
    and publics_save_local: "publics (ro_save_local_alert ops r now a c f) = publics r"
    and publics_save_public:
      "publics (ro_save_public_alert ops r now mt mn n) =
         publics r @ [\<lparr>ar_timestamp = stamp now, ar_model_tuple = mt, ar_metric_name = mn,
                       ar_contributing_org_count = n\<rparr>]"
    and locals_save_batch: "locals (ro_save_batch ops r now b) = locals r"
    and locals_save_local:
      "locals (ro_save_local_alert ops r now a c f) =
         locals r @ [(c, da_model_tuple a, da_metric_name a, f)]"
    and locals_save_public: "locals (ro_save_public_alert ops r now mt mn n) = locals r"
    and register_frame:
      "ro_register_webhook ops r fl u t = Inr r' \<Longrightarrow>
         stored r' = stored r \<and> publics r' = publics r \<and> locals r' = locals r"
    and webhook_fleet: "ro_get_webhook ops r fl = Some w \<Longrightarrow> wc_fleet_id w = fl"
    and has_batch_iff: "ro_has_batch ops r i \<longleftrightarrow> (\<exists>s\<in>set (stored r). sr_batch_id (snd s) = i)"
    and recent_signals_subset:
      "s \<in> set (ro_get_recent_signals ops r mt n) \<Longrightarrow> s \<in> snd ` set (stored r) \<and> sr_model_tuple s = mt"
    and recent_signals_length:
      "length (ro_get_recent_signals ops r mt n) =
         min n (length (filter (\<lambda>s. sr_model_tuple (snd s) = mt) (stored r)))"
    and model_tuples_set: "set (ro_get_all_model_tuples ops r) = sr_model_tuple ` snd ` set (stored r)"
    and model_tuples_distinct: "distinct (ro_get_all_model_tuples ops r)"
    and recent_alerts_set:
      "set (ro_get_recent_alerts ops r now mt h) =
         {a \<in> set (publics r). ar_model_tuple a = mt \<and> stamp (now - hours_us h) \<le> ar_timestamp a}"
begin

lemma has_batch_saved: "ro_has_batch ops (ro_save_batch ops r now b) (ib_batch_id b)"
  by (simp add: has_batch_iff stored_save_batch batch_row_def)

lemma has_batch_save_other:
  "ro_has_batch ops (ro_save_batch ops r now b) i \<longleftrightarrow> i = ib_batch_id b \<or> ro_has_batch ops r i"
  by (auto simp: has_batch_iff stored_save_batch batch_row_def)

lemma has_batch_cong: "stored r = stored r' \<Longrightarrow> ro_has_batch ops r i = ro_has_batch ops r' i"
  by (simp add: has_batch_iff)

lemma recent_signals_bound: "length (ro_get_recent_signals ops r mt n) \<le> n"
  by (simp add: recent_signals_length)

lemma recent_signals_Nil_iff:
  "ro_get_recent_signals ops r mt (Suc n) = [] \<longleftrightarrow> mt \<notin> set (ro_get_all_model_tuples ops r)"
proof -
  let ?mine = "filter (\<lambda>s. sr_model_tuple (snd s) = mt) (stored r)"
  have "ro_get_recent_signals ops r mt (Suc n) = [] \<longleftrightarrow> ?mine = []"
    using recent_signals_length [of r mt "Suc n"] by (metis length_0_conv min_0R min_def nat.distinct(1))
  also have "\<dots> \<longleftrightarrow> mt \<notin> set (ro_get_all_model_tuples ops r)"
    by (auto simp: model_tuples_set filter_empty_conv)
  finally show ?thesis .
qed

lemma no_alert_for_unknown: "(\<And>a. a \<in> set (publics r) \<Longrightarrow> ar_model_tuple a \<noteq> mt)
    \<Longrightarrow> ro_get_recent_alerts ops r now mt h = []"
  using recent_alerts_set [of r now mt h] by (metis (mono_tags, lifting) empty_Collect_eq set_empty)

end

subsection \<open>SQLite provides it\<close>

lemma set_order_desc [simp]: "set (order_desc f xs) = set xs"
  by (simp add: order_desc_def)

lemma length_order_desc [simp]: "length (order_desc f xs) = length xs"
  by (simp add: order_desc_def)

lemma first_row_Some: "first_row (filter P xs) = Some x \<Longrightarrow> x \<in> set xs \<and> P x"
  by (cases "filter P xs") (auto simp: first_row_def filter_eq_Cons_iff)

lemma first_row_None: "first_row (filter P xs) = None \<longleftrightarrow> (\<forall>x\<in>set xs. \<not> P x)"
  by (cases "filter P xs") (auto simp: first_row_def filter_empty_conv filter_eq_Cons_iff)

definition sqlite_stored :: "sqlite_db \<Rightarrow> (string option \<times> signal_row) list" where
  "sqlite_stored db = map (\<lambda>s. (tl_fleet_id s, row_of_signal s)) (db_signals db)"

definition sqlite_publics :: "sqlite_db \<Rightarrow> alert_row list" where
  "sqlite_publics db = map row_of_alert (db_public db)"

definition sqlite_locals :: "sqlite_db \<Rightarrow> (string \<times> string \<times> string \<times> string option) list" where
  "sqlite_locals db = map (\<lambda>a. (la_client_id a, la_model_tuple a, la_metric_name a, la_fleet_id a)) (db_local db)"

lemmas sqlite_defs = sqlite_ops_def sqlite_stored_def sqlite_publics_def sqlite_locals_def save_batch_def
  save_local_alert_def save_public_alert_def register_webhook_def Let_def

interpretation sqlite: signal_store sqlite_ops sqlite_stored sqlite_publics sqlite_locals "\<lambda>t. t"
proof unfold_locales
  fix db mt n s
  show "s \<in> set (ro_get_recent_signals sqlite_ops db mt n) \<Longrightarrow>
      s \<in> snd ` set (sqlite_stored db) \<and> sr_model_tuple s = mt"
    by (force simp: sqlite_ops_def get_recent_signals_def sqlite_stored_def row_of_signal_def
        dest!: in_set_takeD)
  show "length (ro_get_recent_signals sqlite_ops db mt n) =
      min n (length (filter (\<lambda>s. sr_model_tuple (snd s) = mt) (sqlite_stored db)))"
    by (simp add: sqlite_ops_def get_recent_signals_def sqlite_stored_def filter_map o_def row_of_signal_def min.commute)
  fix now h
  show "set (ro_get_recent_alerts sqlite_ops db now mt h) =
      {a \<in> set (sqlite_publics db). ar_model_tuple a = mt \<and> now - hours_us h \<le> ar_timestamp a}"
    by (auto simp: sqlite_ops_def get_recent_alerts_def sqlite_publics_def row_of_alert_def Let_def)
qed (auto simp: sqlite_defs batch_row_def row_of_signal_def row_of_alert_def has_batch_def
    get_all_model_tuples_def get_webhook_def filter_empty_conv image_image dest: first_row_Some)

lemma sqlite_reads:
  "ro_get_recent_signals sqlite_ops db mt n = map row_of_signal (get_recent_signals db mt n)"
  "ro_get_recent_alerts sqlite_ops db now mt h = map row_of_alert (get_recent_alerts db now mt h)"
  "ro_get_all_model_tuples sqlite_ops db = get_all_model_tuples db"
  "ro_get_webhook sqlite_ops db fl = get_webhook db fl"
  "ro_has_batch sqlite_ops db i = has_batch db i"
  by (simp_all add: sqlite_ops_def)

lemma sqlite_writes:
  "ro_save_batch sqlite_ops db now b = save_batch db now b"
  "ro_save_local_alert sqlite_ops db now a c f = save_local_alert db now a c f"
  "ro_save_public_alert sqlite_ops db now mt mn n = save_public_alert db now mt mn n"
  "ro_register_webhook sqlite_ops db fl u t = Inr (register_webhook db fl u t)"
  by (simp_all add: sqlite_ops_def)

subsection \<open>Row identities\<close>

lemma next_id_greater: "i \<in> set ids \<Longrightarrow> i < next_id ids"
proof -
  have "fold max ids 0 = Max (insert 0 (set ids))" using Max.set_eq_fold [of 0 ids] by simp
  then show "i \<in> set ids \<Longrightarrow> i < next_id ids" by (simp add: next_id_def)
qed

lemma ids_grow: "sorted_wrt (<) ids \<Longrightarrow> sorted_wrt (<) (ids @ [next_id ids])"
  by (simp add: sorted_wrt_append next_id_greater)

definition db_ok :: "sqlite_db \<Rightarrow> bool" where
  "db_ok db \<longleftrightarrow> sorted_wrt (<) (map tl_id (db_signals db)) \<and> sorted_wrt (<) (map la_id (db_local db))
     \<and> sorted_wrt (<) (map pa_id (db_public db)) \<and> sorted_wrt (<) (map wc_id (db_webhooks db))
     \<and> distinct (map wc_fleet_id (db_webhooks db))"

datatype db_op =
    SaveBatch int inbound_batch
  | SaveLocal int drift_alert string "string option"
  | SavePublic int string string int
  | RegisterWebhook string string "string option"

fun db_step :: "db_op \<Rightarrow> sqlite_db \<Rightarrow> sqlite_db" where
  "db_step (SaveBatch now b) db = save_batch db now b"
| "db_step (SaveLocal now a c f) db = save_local_alert db now a c f"
| "db_step (SavePublic now mt mn n) db = save_public_alert db now mt mn n"
| "db_step (RegisterWebhook f u t) db = register_webhook db f u t"

lemma sorted_wrt_map_filter: "sorted_wrt P (map f xs) \<Longrightarrow> sorted_wrt P (map f (filter Q xs))"
  by (induction xs) auto

lemma db_step_ok: "db_ok db \<Longrightarrow> db_ok (db_step op db)"
proof (cases op)
  case (RegisterWebhook f u t)
  then show "db_ok db \<Longrightarrow> db_ok (db_step op db)"
    using ids_grow [OF sorted_wrt_map_filter [of "(<)" wc_id "db_webhooks db" "\<lambda>w. wc_fleet_id w \<noteq> f"]]
    by (auto simp: db_ok_def register_webhook_def Let_def distinct_map_filter)
qed (auto simp: db_ok_def save_batch_def save_local_alert_def save_public_alert_def Let_def dest: ids_grow)

lemma empty_db_ok: "db_ok empty_db"
  by (simp add: db_ok_def empty_db_def)

lemma db_run_ok: "db_ok db \<Longrightarrow> db_ok (fold db_step ops db)"
  by (induction ops arbitrary: db) (simp_all add: db_step_ok)

lemma order_desc_ascending:
  assumes "sorted_wrt (<) (map f xs)"
  shows "order_desc f xs = rev xs"
  unfolding order_desc_def
proof (rule sort_key_inj_key_eq)
  have "distinct (map f xs)" using assms by (simp add: strict_sorted_iff)
  then show "inj_on (\<lambda>x. - f x) (set xs)" by (auto simp: distinct_map inj_on_def)
  show "sorted (map (\<lambda>x. - f x) (rev xs))"
    using assms by (induction xs) (auto simp: sorted_append less_imp_le)
qed simp

lemma recent_signals_ascending:
  assumes "db_ok db"
  shows "get_recent_signals db mt n = take n (rev (filter (\<lambda>s. tl_model_tuple s = mt) (db_signals db)))"
proof -
  have "sorted_wrt (<) (map tl_id (filter (\<lambda>s. tl_model_tuple s = mt) (db_signals db)))"
    using assms by (simp add: db_ok_def sorted_wrt_map_filter)
  then show ?thesis by (simp add: get_recent_signals_def order_desc_ascending)
qed

subsection \<open>Properties\<close>

text \<open>A saved batch is the most recent signal of its model. After any history of writes, saving a
  batch puts its row (fresh id, its own metrics, fleet and suite, the time of the write) in front
  of what the newest-first read of that model returned before, and leaves the reads of every
  other model as they were.\<close>

theorem save_batch_then_read:
  "let db = fold db_step ops empty_db in
     map row_of_signal (get_recent_signals (save_batch db now b) mt (Suc n)) =
       (if ib_model_tuple b = mt
        then batch_row now b # map row_of_signal (get_recent_signals db mt n)
        else map row_of_signal (get_recent_signals db mt (Suc n)))
     \<and> tl_id (last (db_signals (save_batch db now b))) \<notin> set (map tl_id (db_signals db))"
proof -
  let ?db = "fold db_step ops empty_db"
  have ok: "db_ok ?db" by (simp add: db_run_ok empty_db_ok)
  then have ok': "db_ok (save_batch ?db now b)" using db_step_ok [of ?db "SaveBatch now b"] by simp
  have "next_id (map tl_id (db_signals ?db)) \<notin> set (map tl_id (db_signals ?db))"
    using next_id_greater by blast
  then have "tl_id (last (db_signals (save_batch ?db now b))) \<notin> set (map tl_id (db_signals ?db))"
    by (simp add: save_batch_def Let_def)
  then show ?thesis
    unfolding Let_def recent_signals_ascending [OF ok] recent_signals_ascending [OF ok']
    by (simp add: save_batch_def Let_def row_of_signal_def batch_row_def)
qed

text \<open>Registering a webhook is an upsert. After any history of writes and a registration for a
  fleet, the fleet has exactly one row, the lookup returns the URL and token just registered,
  and every other fleet's lookup is unchanged.\<close>

theorem register_webhook_upserts:
  "let db = fold db_step ops empty_db; db' = register_webhook db fleet url token in
     map_option (\<lambda>w. (wc_target_url w, wc_auth_token w)) (get_webhook db' fleet) = Some (url, token)
     \<and> length (filter (\<lambda>w. wc_fleet_id w = fleet) (db_webhooks db')) = 1
     \<and> distinct (map wc_fleet_id (db_webhooks db'))
     \<and> (other = fleet \<or> get_webhook db' other = get_webhook db other)"
proof -
  let ?db = "fold db_step ops empty_db" and ?db' = "register_webhook (fold db_step ops empty_db) fleet url token"
  have "db_ok ?db'"
    using db_step_ok [OF db_run_ok [OF empty_db_ok, of ops], of "RegisterWebhook fleet url token"] by simp
  then have "distinct (map wc_fleet_id (db_webhooks ?db'))" by (simp add: db_ok_def)
  moreover have "filter (\<lambda>w. wc_fleet_id w = fleet) (filter (\<lambda>w. wc_fleet_id w \<noteq> fleet) ws) = []" for ws :: "webhook_config list"
    by (simp add: filter_empty_conv)
  moreover have "filter (\<lambda>w. wc_fleet_id w \<noteq> fleet \<and> wc_fleet_id w = other) ws =
      filter (\<lambda>w. wc_fleet_id w = other) ws" if "fleet \<noteq> other" for ws :: "webhook_config list"
    using that by (intro filter_cong) auto
  ultimately show ?thesis
    by (auto simp: Let_def register_webhook_def get_webhook_def first_row_def)
qed

text \<open>Local alerts resolve by id. After any history of writes, the id of a newly saved local alert
  resolves to that alert and no other id changes its meaning.\<close>

theorem saved_local_alert_resolves:
  "let db = fold db_step ops empty_db; db' = save_local_alert db now alert client fleet;
       i = la_id (last (db_local db'))
   in map_option (\<lambda>a. (la_timestamp a, la_model_tuple a, la_metric_name a, la_alert_value a, la_client_id a, la_fleet_id a))
        (get_local_alert_by_id db' i) =
        Some (now, da_model_tuple alert, da_metric_name alert, da_cusum_score alert, client, fleet)
    \<and> get_local_alert_by_id db i = None
    \<and> (j = i \<or> get_local_alert_by_id db' j = get_local_alert_by_id db j)"
proof -
  let ?db = "fold db_step ops empty_db"
  let ?i = "next_id (map la_id (db_local ?db))"
  have "la_id a \<noteq> ?i" if "a \<in> set (db_local ?db)" for a
    using next_id_greater [of "la_id a" "map la_id (db_local ?db)"] that by auto
  then have "filter (\<lambda>a. la_id a = ?i) (db_local ?db) = []" by (simp add: filter_empty_conv)
  then show ?thesis by (auto simp: Let_def save_local_alert_def get_local_alert_by_id_def first_row_def)
qed

text \<open>The additive migration completes and is idempotent. On a database that has the signal table,
  with or without the column, the migration leaves the column present, reports it exactly when
  it was missing, removes no column of any table, and a second start changes nothing.\<close>

theorem migration_idempotent:
  assumes "map_of sch ''telemetry_signals'' = Some present"
  shows "let (sch', added) = apply_additive_columns additive_columns sch in
      ''suite_version'' \<in> set (dict_get sch' ''telemetry_signals'' [])
      \<and> added = (if ''suite_version'' \<in> set present then [] else [(''telemetry_signals'', ''suite_version'')])
      \<and> set (dict_get sch t []) \<subseteq> set (dict_get sch' t [])
      \<and> apply_additive_columns additive_columns sch' = (sch', [])"
  using assms by (auto simp: additive_columns_def Let_def dict_get_Some)

theorem migration_idempotent_witness:
  "apply_additive_columns additive_columns
     (fst (apply_additive_columns additive_columns [(''telemetry_signals'', [''id''])])) =
   ([(''telemetry_signals'', [''id'', ''suite_version''])], [])"
  using migration_idempotent [of "[(''telemetry_signals'', [''id''])]" "[''id'']"]
  by (simp add: Let_def additive_columns_def dict_get_def)

end
