(* ===== verification/Clickhouse.thy ===== *)
theory Clickhouse
  imports Repository
begin

section \<open>The ClickHouse backend (engine/clickhouse.py)\<close>

text \<open>
  \<open>clickhouse_db\<close> holds the rows of the three tables, without ids (ClickHouse generates
  UUIDs nothing reads). Each method of \<^verbatim>\<open>ClickHouseRepository\<close> is the list function its SQL
  denotes; the server is not under src/, so what its \<^verbatim>\<open>DateTime\<close> columns and parameters keep
  of a time is the argument \<open>res\<close> (one second in a stock server), about which nothing is
  assumed. The two webhook and the two alert-by-id methods raise or return nothing, as the
  code does. The backend is a second instance of \<open>signal_store\<close>.
\<close>

subsection \<open>Tables\<close>

record ch_local_row =
  cl_timestamp :: int
  cl_model_tuple :: string
  cl_metric_name :: string
  cl_alert_value :: real
  cl_client_id :: string
  cl_fleet_id :: "string option"

record ch_signal =
  cs_batch_id :: string
  cs_timestamp :: int
  cs_model_tuple :: string
  cs_avg_output_length :: "real option"
  cs_json_success_rate :: "real option"
  cs_result_count :: real
  cs_fleet_id :: "string option"
  cs_suite_version :: string

record clickhouse_db =
  ch_signals :: "ch_signal list"
  ch_local :: "ch_local_row list"
  ch_public :: "alert_row list"

definition empty_ch :: clickhouse_db where
  "empty_ch = \<lparr>ch_signals = [], ch_local = [], ch_public = []\<rparr>"

text \<open>
  One result tuple: six columns, then \<^verbatim>\<open>suite_version\<close> (itself possibly NULL) when the
  projection has it.
\<close>

type_synonym ch_tuple =
  "string \<times> string \<times> int \<times> real option \<times> real option \<times> real \<times> string option option"

fun to_signal_row :: "ch_tuple \<Rightarrow> signal_row" where
  "to_signal_row (batch_id, model_tuple, timestamp, avg_len, rate, n, suite) =
     \<lparr>sr_batch_id = batch_id, sr_model_tuple = model_tuple, sr_timestamp = timestamp,
      sr_avg_output_length = avg_len, sr_json_success_rate = rate, sr_result_count = n,
      sr_suite_version = Some (case suite of Some (Some s) \<Rightarrow> s | _ \<Rightarrow> [])\<rparr>"

definition select_columns :: "ch_signal \<Rightarrow> ch_tuple" where
  "select_columns s =
     (cs_batch_id s, cs_model_tuple s, cs_timestamp s, cs_avg_output_length s,
      cs_json_success_rate s, cs_result_count s, Some (Some (cs_suite_version s)))"

subsection \<open>Operations\<close>

text \<open>\<^verbatim>\<open>CREATE TABLE IF NOT EXISTS\<close> and \<^verbatim>\<open>ADD COLUMN IF NOT EXISTS\<close>.\<close>

definition create_table :: "string \<Rightarrow> string list \<Rightarrow> db_schema \<Rightarrow> db_schema" where
  "create_table table columns sch =
     (if map_of sch table = None then AList.update table columns sch else sch)"

definition add_column :: "string \<Rightarrow> string \<Rightarrow> db_schema \<Rightarrow> db_schema" where
  "add_column table c sch =
     (let present = dict_get sch table []
      in if c \<in> set present then sch else AList.update table (present @ [c]) sch)"

definition ch_setup_tables :: "db_schema \<Rightarrow> db_schema" where
  "ch_setup_tables sch =
     create_table ''public_drift_alerts''
       [''id'', ''timestamp'', ''model_tuple'', ''metric_name'', ''contributing_org_count'']
    (create_table ''local_drift_alerts''
       [''id'', ''timestamp'', ''model_tuple'', ''metric_name'', ''alert_value'', ''client_id'', ''fleet_id'']
    (add_column ''telemetry_signals'' ''suite_version''
    (create_table ''telemetry_signals''
       [''id'', ''batch_id'', ''timestamp'', ''model_tuple'', ''avg_output_length'',
        ''json_success_rate'', ''result_count'', ''fleet_id'', ''suite_version''] sch)))"

definition ch_save_batch :: "(int \<Rightarrow> int) \<Rightarrow> clickhouse_db \<Rightarrow> int \<Rightarrow> inbound_batch \<Rightarrow> clickhouse_db" where
  "ch_save_batch res db now b =
     (let metrics = ib_metrics b
      in db\<lparr>ch_signals := ch_signals db @
              [\<lparr>cs_batch_id = ib_batch_id b, cs_timestamp = res now, cs_model_tuple = ib_model_tuple b,
                cs_avg_output_length = map_of metrics ''avg_output_length'',
                cs_json_success_rate = map_of metrics ''json_success_rate'',
                cs_result_count = dict_get metrics ''result_count'' (real_of_int (ib_result_count b)),
                cs_fleet_id = ib_fleet_id b, cs_suite_version = ib_suite_version b\<rparr>]\<rparr>)"

definition ch_has_batch :: "clickhouse_db \<Rightarrow> string \<Rightarrow> bool" where
  "ch_has_batch db batch_id = (0 < length (filter (\<lambda>s. cs_batch_id s = batch_id) (ch_signals db)))"

definition ch_save_local_alert ::
  "(int \<Rightarrow> int) \<Rightarrow> clickhouse_db \<Rightarrow> int \<Rightarrow> drift_alert \<Rightarrow> string \<Rightarrow> string option \<Rightarrow> clickhouse_db" where
  "ch_save_local_alert res db now alert client_id fleet_id =
     db\<lparr>ch_local := ch_local db @
          [\<lparr>cl_timestamp = res now, cl_model_tuple = da_model_tuple alert,
            cl_metric_name = da_metric_name alert, cl_alert_value = da_cusum_score alert,
            cl_client_id = client_id, cl_fleet_id = fleet_id\<rparr>]\<rparr>"

definition ch_save_public_alert ::
  "(int \<Rightarrow> int) \<Rightarrow> clickhouse_db \<Rightarrow> int \<Rightarrow> string \<Rightarrow> string \<Rightarrow> int \<Rightarrow> clickhouse_db" where
  "ch_save_public_alert res db now model_tuple metric_name org_count =
     db\<lparr>ch_public := ch_public db @
          [\<lparr>ar_timestamp = res now, ar_model_tuple = model_tuple, ar_metric_name = metric_name,
            ar_contributing_org_count = org_count\<rparr>]\<rparr>"

definition ch_get_recent_signals :: "clickhouse_db \<Rightarrow> string \<Rightarrow> nat \<Rightarrow> signal_row list" where
  "ch_get_recent_signals db model_tuple limit =
     map (\<lambda>s. to_signal_row (select_columns s))
       (take limit (order_desc cs_timestamp
         (filter (\<lambda>s. cs_model_tuple s = model_tuple) (ch_signals db))))"

definition ch_get_all_model_tuples :: "clickhouse_db \<Rightarrow> string list" where
  "ch_get_all_model_tuples db = sort (remdups (map cs_model_tuple (ch_signals db)))"

definition ch_get_recent_alerts :: "(int \<Rightarrow> int) \<Rightarrow> clickhouse_db \<Rightarrow> int \<Rightarrow> string \<Rightarrow> int \<Rightarrow> alert_row list" where
  "ch_get_recent_alerts res db now model_tuple hours_back =
     (let cutoff = res (now - hours_us hours_back)
      in order_desc ar_timestamp
           (filter (\<lambda>a. ar_model_tuple a = model_tuple \<and> cutoff \<le> ar_timestamp a) (ch_public db)))"

definition ch_register_webhook ::
  "clickhouse_db \<Rightarrow> string \<Rightarrow> string \<Rightarrow> string option \<Rightarrow> py_error + clickhouse_db" where
  "ch_register_webhook db fleet_id target_url auth_token =
     Inl (NotImplementedError ''register_webhook requires STORAGE_BACKEND=sqlite'')"

definition ch_get_webhook :: "clickhouse_db \<Rightarrow> string \<Rightarrow> webhook_config option" where
  "ch_get_webhook db fleet_id = None"

definition ch_get_local_alert_by_id :: "clickhouse_db \<Rightarrow> int \<Rightarrow> py_error + local_drift_alert option" where
  "ch_get_local_alert_by_id db alert_id =
     Inl (NotImplementedError ''get_local_alert_by_id requires STORAGE_BACKEND=sqlite'')"

definition ch_get_public_alert_by_id :: "clickhouse_db \<Rightarrow> int \<Rightarrow> py_error + public_drift_alert option" where
  "ch_get_public_alert_by_id db alert_id =
     Inl (NotImplementedError ''get_public_alert_by_id requires STORAGE_BACKEND=sqlite'')"

definition ch_get_signals_before_timestamp ::
  "(int \<Rightarrow> int) \<Rightarrow> clickhouse_db \<Rightarrow> string \<Rightarrow> int \<Rightarrow> string option \<Rightarrow> nat \<Rightarrow> signal_row list" where
  "ch_get_signals_before_timestamp res db model_tuple timestamp fleet_id limit =
     (let wanted = (\<lambda>s. cs_model_tuple s = model_tuple \<and> cs_timestamp s < res timestamp
            \<and> (case fleet_id of None \<Rightarrow> True | Some f \<Rightarrow> cs_fleet_id s = Some f))
      in map (\<lambda>s. to_signal_row (select_columns s))
           (take limit (order_desc cs_timestamp (filter wanted (ch_signals db)))))"

definition clickhouse_ops :: "(int \<Rightarrow> int) \<Rightarrow> clickhouse_db repo_ops" where
  "clickhouse_ops res =
     \<lparr>ro_save_batch = ch_save_batch res, ro_has_batch = ch_has_batch,
      ro_save_local_alert = ch_save_local_alert res, ro_save_public_alert = ch_save_public_alert res,
      ro_get_recent_signals = ch_get_recent_signals, ro_get_all_model_tuples = ch_get_all_model_tuples,
      ro_get_recent_alerts = ch_get_recent_alerts res, ro_register_webhook = ch_register_webhook,
      ro_get_webhook = ch_get_webhook, ro_get_local_alert_by_id = ch_get_local_alert_by_id,
      ro_get_public_alert_by_id = ch_get_public_alert_by_id,
      ro_get_signals_before_timestamp = ch_get_signals_before_timestamp res\<rparr>"

subsection \<open>The interface\<close>

definition ch_stored :: "clickhouse_db \<Rightarrow> (string option \<times> signal_row) list" where
  "ch_stored db = map (\<lambda>s. (cs_fleet_id s, to_signal_row (select_columns s))) (ch_signals db)"

definition ch_locals :: "clickhouse_db \<Rightarrow> (string \<times> string \<times> string \<times> string option) list" where
  "ch_locals db = map (\<lambda>a. (cl_client_id a, cl_model_tuple a, cl_metric_name a, cl_fleet_id a)) (ch_local db)"

lemma select_columns_row [simp]:
  "sr_batch_id (to_signal_row (select_columns s)) = cs_batch_id s"
  "sr_model_tuple (to_signal_row (select_columns s)) = cs_model_tuple s"
  "sr_timestamp (to_signal_row (select_columns s)) = cs_timestamp s"
  by (simp_all add: select_columns_def)

lemmas clickhouse_defs = clickhouse_ops_def ch_stored_def ch_locals_def ch_save_batch_def ch_save_local_alert_def
  ch_save_public_alert_def ch_register_webhook_def Let_def

interpretation clickhouse: signal_store "clickhouse_ops res" ch_stored ch_public ch_locals res for res
proof unfold_locales
  fix db mt n s
  show "s \<in> set (ro_get_recent_signals (clickhouse_ops res) db mt n) \<Longrightarrow>
      s \<in> snd ` set (ch_stored db) \<and> sr_model_tuple s = mt"
    by (force simp: clickhouse_ops_def ch_get_recent_signals_def ch_stored_def dest!: in_set_takeD)
  show "length (ro_get_recent_signals (clickhouse_ops res) db mt n) =
      min n (length (filter (\<lambda>s. sr_model_tuple (snd s) = mt) (ch_stored db)))"
    by (simp add: clickhouse_ops_def ch_get_recent_signals_def ch_stored_def filter_map o_def min.commute)
  fix now h
  show "set (ro_get_recent_alerts (clickhouse_ops res) db now mt h) =
      {a \<in> set (ch_public db). ar_model_tuple a = mt \<and> res (now - hours_us h) \<le> ar_timestamp a}"
    by (auto simp: clickhouse_ops_def ch_get_recent_alerts_def Let_def)
qed (auto simp: clickhouse_defs batch_row_def select_columns_def ch_has_batch_def ch_get_webhook_def
    ch_get_all_model_tuples_def filter_empty_conv image_image)

lemma clickhouse_reads:
  "ro_get_recent_signals (clickhouse_ops res) ch mt n = ch_get_recent_signals ch mt n"
  "ro_get_recent_alerts (clickhouse_ops res) ch now mt h = ch_get_recent_alerts res ch now mt h"
  "ro_get_all_model_tuples (clickhouse_ops res) ch = ch_get_all_model_tuples ch"
  "ro_get_webhook (clickhouse_ops res) ch fl = None"
  "ro_has_batch (clickhouse_ops res) ch i = ch_has_batch ch i"
  by (simp_all add: clickhouse_ops_def ch_get_webhook_def)

subsection \<open>Agreement with SQLite\<close>

fun ch_step :: "(int \<Rightarrow> int) \<Rightarrow> db_op \<Rightarrow> clickhouse_db \<Rightarrow> clickhouse_db" where
  "ch_step res (SaveBatch now b) db = ch_save_batch res db now b"
| "ch_step res (SaveLocal now a c f) db = ch_save_local_alert res db now a c f"
| "ch_step res (SavePublic now mt mn n) db = ch_save_public_alert res db now mt mn n"
| "ch_step res (RegisterWebhook f u t) db = (case ch_register_webhook db f u t of Inl e \<Rightarrow> db | Inr db' \<Rightarrow> db')"

text \<open>The times at which a history saves batches, and the rows both backends store.\<close>

fun save_times :: "db_op list \<Rightarrow> int list" where
  "save_times [] = []"
| "save_times (SaveBatch now b # ops) = now # save_times ops"
| "save_times (_ # ops) = save_times ops"

definition stamp_row :: "(int \<Rightarrow> int) \<Rightarrow> signal_row \<Rightarrow> signal_row" where
  "stamp_row res s = s\<lparr>sr_timestamp := res (sr_timestamp s)\<rparr>"

lemma stored_agree_step:
  assumes "map (\<lambda>s. to_signal_row (select_columns s)) (ch_signals ch) =
           map (\<lambda>s. stamp_row res (row_of_signal s)) (db_signals db)"
  shows "map (\<lambda>s. to_signal_row (select_columns s)) (ch_signals (ch_step res op ch)) =
         map (\<lambda>s. stamp_row res (row_of_signal s)) (db_signals (db_step op db))"
  using assms
  by (cases op) (simp_all add: ch_save_batch_def save_batch_def Let_def stamp_row_def row_of_signal_def
      select_columns_def ch_save_local_alert_def save_local_alert_def ch_save_public_alert_def
      save_public_alert_def ch_register_webhook_def register_webhook_def)

lemma stored_agree:
  assumes "map (\<lambda>s. to_signal_row (select_columns s)) (ch_signals ch) =
           map (\<lambda>s. stamp_row res (row_of_signal s)) (db_signals db)"
  shows "map (\<lambda>s. to_signal_row (select_columns s)) (ch_signals (fold (ch_step res) ops ch)) =
         map (\<lambda>s. stamp_row res (row_of_signal s)) (db_signals (fold db_step ops db))"
  using assms by (induction ops arbitrary: ch db) (simp_all add: stored_agree_step)

lemma timestamps_run:
  "map tl_timestamp (db_signals (fold db_step ops db)) = map tl_timestamp (db_signals db) @ save_times ops"
  by (induction ops arbitrary: db rule: save_times.induct)
     (simp_all add: save_batch_def save_local_alert_def save_public_alert_def register_webhook_def Let_def)

lemma map_filter_by: "map f (filter (\<lambda>x. P (f x)) xs) = filter P (map f xs)"
  by (simp add: filter_map o_def)

lemma order_desc_map: "map f (order_desc (\<lambda>x. g (f x)) xs) = order_desc g (map f xs)"
proof -
  have "map f (insort_key (\<lambda>x. - g (f x)) a ys) = insort_key (\<lambda>x. - g x) (f a) (map f ys)" for a ys
    by (induction ys) auto
  then show ?thesis unfolding order_desc_def by (induction xs) simp_all
qed

subsection \<open>Table creation\<close>

lemma map_of_create_table:
  "map_of (create_table table cols sch) t =
     (if t = table \<and> map_of sch table = None then Some cols else map_of sch t)"
  by (simp add: create_table_def)

lemma get_create_table:
  "dict_get (create_table table cols sch) t [] =
     (if t = table \<and> map_of sch table = None then cols else dict_get sch t [])"
  by (simp add: dict_get_def map_of_create_table)

lemma map_of_add_column:
  "map_of (add_column table c sch) t =
     (if t = table \<and> c \<notin> set (dict_get sch table []) then Some (dict_get sch table [] @ [c])
      else map_of sch t)"
  by (simp add: add_column_def Let_def)

lemma get_add_column:
  "set (dict_get (add_column table c sch) t []) = set (dict_get sch t []) \<union> (if t = table then {c} else {})"
  by (auto simp: add_column_def Let_def)

lemma create_table_present: "map_of sch table \<noteq> None \<Longrightarrow> create_table table cols sch = sch"
  by (auto simp: create_table_def)

lemma add_column_present: "c \<in> set (dict_get sch table []) \<Longrightarrow> add_column table c sch = sch"
  by (simp add: add_column_def)

text \<open>Two creations, a column and another creation, on three different tables.\<close>

lemma set_up_present:
  assumes "a \<noteq> b" "a \<noteq> c" "b \<noteq> c"
  shows "map_of (create_table c cc (create_table b bc (add_column a x (create_table a ac sch)))) t \<noteq> None
      \<longleftrightarrow> t \<in> {a, b, c} \<or> map_of sch t \<noteq> None"
    and "x \<in> set (dict_get (create_table c cc (create_table b bc (add_column a x (create_table a ac sch)))) a [])"
proof -
  show "map_of (create_table c cc (create_table b bc (add_column a x (create_table a ac sch)))) t \<noteq> None
      \<longleftrightarrow> t \<in> {a, b, c} \<or> map_of sch t \<noteq> None"
    using assms by (simp add: map_of_create_table map_of_add_column) blast
  show "x \<in> set (dict_get (create_table c cc (create_table b bc (add_column a x (create_table a ac sch)))) a [])"
    using assms by (simp add: get_create_table get_add_column)
qed

lemma set_up_idempotent:
  assumes "a \<noteq> b" "a \<noteq> c" "b \<noteq> c"
    and up: "\<And>sch. up sch = create_table c cc (create_table b bc (add_column a x (create_table a ac sch)))"
  shows "up (up sch) = up sch"
proof -
  have "map_of (up sch) t \<noteq> None" if "t \<in> {a, b, c}" for t
    using set_up_present(1) [OF assms(1-3)] that unfolding up by blast
  moreover have "x \<in> set (dict_get (up sch) a [])"
    using set_up_present(2) [OF assms(1-3)] unfolding up .
  ultimately show ?thesis
    by (subst (1) up) (simp add: create_table_present add_column_present)
qed

lemma create_table_avoids:
  "bad \<inter> set cols = {} \<Longrightarrow>
   set (dict_get (create_table table cols sch) t []) \<inter> bad = set (dict_get sch t []) \<inter> bad"
  by (auto simp: get_create_table dict_get_None)

lemma add_column_avoids:
  "x \<notin> bad \<Longrightarrow> set (dict_get (add_column table x sch) t []) \<inter> bad = set (dict_get sch t []) \<inter> bad"
  by (auto simp: get_add_column)

subsection \<open>Properties\<close>

text \<open>C19: Both backends serve the same telemetry. Run one history of writes on an empty SQLite and an
  empty ClickHouse database. When the save times the server stores are strictly increasing,
  the newest-first read of every model returns the same rows on both, up to the stored
  resolution of the timestamp, so the gateway computes the same weather and baselines.\<close>

theorem backends_serve_same_signals:
  assumes "sorted_wrt (<) (map res (save_times ops))"
  shows "ch_get_recent_signals (fold (ch_step res) ops empty_ch) mt n =
         map (\<lambda>s. stamp_row res (row_of_signal s)) (get_recent_signals (fold db_step ops empty_db) mt n)"
proof -
  let ?ch = "fold (ch_step res) ops empty_ch" and ?db = "fold db_step ops empty_db"
  let ?f = "\<lambda>s. to_signal_row (select_columns s)" and ?g = "\<lambda>s. stamp_row res (row_of_signal s)"
  let ?mine = "filter (\<lambda>s. tl_model_tuple s = mt) (db_signals ?db)"
  have "map ?f (ch_signals ?ch) = map ?g (db_signals ?db)"
    by (rule stored_agree) (simp add: empty_ch_def empty_db_def)
  then have rows: "map ?f (filter (\<lambda>s. cs_model_tuple s = mt) (ch_signals ?ch)) = map ?g ?mine"
    using map_filter_by [of ?f "\<lambda>r. sr_model_tuple r = mt" "ch_signals ?ch"]
      map_filter_by [of ?g "\<lambda>r. sr_model_tuple r = mt" "db_signals ?db"]
    by (simp add: stamp_row_def row_of_signal_def)
  have "sorted_wrt (<) (map (\<lambda>s. res (tl_timestamp s)) (db_signals ?db))"
  proof -
    have "map (\<lambda>s. res (tl_timestamp s)) (db_signals ?db) = map res (map tl_timestamp (db_signals ?db))"
      by simp
    also have "\<dots> = map res (save_times ops)" by (simp only: timestamps_run) (simp add: empty_db_def)
    finally show ?thesis using assms by simp
  qed
  then have "sorted_wrt (<) (map (\<lambda>s. res (tl_timestamp s)) ?mine)" by (rule sorted_wrt_map_filter)
  then have "order_desc sr_timestamp (map ?g ?mine) = rev (map ?g ?mine)"
    by (intro order_desc_ascending) (simp add: o_def stamp_row_def row_of_signal_def)
  then have "map ?f (order_desc cs_timestamp (filter (\<lambda>s. cs_model_tuple s = mt) (ch_signals ?ch))) =
      rev (map ?g ?mine)"
    using order_desc_map [of ?f sr_timestamp "filter (\<lambda>s. cs_model_tuple s = mt) (ch_signals ?ch)"] rows
    by simp
  then show ?thesis
    using recent_signals_ascending [OF db_run_ok [OF empty_db_ok], of ops mt n]
    by (simp only: ch_get_recent_signals_def take_map [symmetric] rev_map)
qed

theorem backends_serve_same_signals_witness:
  "ch_get_recent_signals
     (fold (ch_step (\<lambda>t. t div 1000))
        [SaveBatch 1500 (example_batch ''a'' None), SaveBatch 3200 (example_batch ''b'' (Some ''f''))] empty_ch) ''m'' 10 =
   map (\<lambda>s. stamp_row (\<lambda>t. t div 1000) (row_of_signal s))
     (get_recent_signals
        (fold db_step
           [SaveBatch 1500 (example_batch ''a'' None), SaveBatch 3200 (example_batch ''b'' (Some ''f''))] empty_db) ''m'' 10)"
  by (rule backends_serve_same_signals) simp

text \<open>Creating the tables is idempotent and stores no raw text. On any schema, the set-up leaves all
  three tables in place (adding the suite column to an old one), introduces no raw-text column
  in any table, and repeating it changes nothing.\<close>

theorem setup_tables_idempotent:
  "let sch' = ch_setup_tables sch in
     ch_setup_tables sch' = sch'
     \<and> map_of sch' ''local_drift_alerts'' \<noteq> None \<and> map_of sch' ''public_drift_alerts'' \<noteq> None
     \<and> ''suite_version'' \<in> set (dict_get sch' ''telemetry_signals'' [])
     \<and> set (dict_get sch' t []) \<inter> {''raw_prompt'', ''raw_output''} =
       set (dict_get sch t []) \<inter> {''raw_prompt'', ''raw_output''}"
proof -
  let ?sch' = "ch_setup_tables sch"
  have ne: "''telemetry_signals'' \<noteq> ''local_drift_alerts''" "''telemetry_signals'' \<noteq> ''public_drift_alerts''"
    "''local_drift_alerts'' \<noteq> ''public_drift_alerts''"
    by simp_all
  have "set (dict_get ?sch' t []) \<inter> {''raw_prompt'', ''raw_output''} =
      set (dict_get sch t []) \<inter> {''raw_prompt'', ''raw_output''}"
    by (simp add: ch_setup_tables_def create_table_avoids add_column_avoids)
  then show ?thesis
    using set_up_idempotent [OF ne ch_setup_tables_def] set_up_present [OF ne]
    unfolding Let_def by (simp only: ch_setup_tables_def) blast
qed

end
