(* ===== verification/Weather.thy ===== *)
theory Weather
  imports Clickhouse
begin

section \<open>The published drift weather (gateway/main.py)\<close>

text \<open>
  The read side of the gateway: the rescaled JSON rate, timestamps made aware for publication,
  the age of the read window, the status of one model and the whole report. Every function
  takes the repository operations as its first argument, so it runs on both backends; \<open>now\<close>
  is the reading of the UTC clock in microseconds. The lemmas of \<open>signal_store\<close> below hold
  for every backend; the properties state them for both.
\<close>

subsection \<open>The JSON rate\<close>

definition json_base_by_suite :: "(string, int \<times> int) dict" where
  "json_base_by_suite = [(''v1.0.0'', (3, 1)), (''v1.1.0'', (4, 1)), (''v2.0.0'', (50, 9))]"

text \<open>\<^verbatim>\<open>int(result_count)\<close> of a positive float is its floor.\<close>

definition scorable_json_rate :: "real option \<Rightarrow> real option \<Rightarrow> string \<Rightarrow> real option" where
  "scorable_json_rate raw_rate result_count suite =
     (case (raw_rate, result_count) of
        (Some rate, Some n) \<Rightarrow>
          if n \<le> 0 then None
          else (case map_of json_base_by_suite suite of
                  None \<Rightarrow> None
                | Some (full, scorable) \<Rightarrow>
                    if \<lfloor>n\<rfloor> \<noteq> full then None
                    else Some (max 0 (min 1 (rate * of_int full / of_int scorable))))
      | _ \<Rightarrow> None)"

subsection \<open>Times\<close>

definition as_published_utc :: "py_datetime option \<Rightarrow> py_datetime option" where
  "as_published_utc ts =
     (case ts of None \<Rightarrow> None
      | Some d \<Rightarrow> Some (case dt_offset d of
                         None \<Rightarrow> d\<lparr>dt_offset := Some 0\<rparr>
                       | Some off \<Rightarrow> \<lparr>dt_wall = dt_wall d - off, dt_offset = Some 0\<rparr>))"

definition stale_after_hours :: real where
  "stale_after_hours = 30"

text \<open>\<open>supplied\<close> is the optional \<^verbatim>\<open>now\<close> argument, \<open>clock\<close> the UTC clock read when it is absent.\<close>

definition window_age_hours :: "py_datetime option \<Rightarrow> py_datetime option \<Rightarrow> int \<Rightarrow> real option" where
  "window_age_hours window_end supplied clock =
     (case as_published_utc window_end of None \<Rightarrow> None
      | Some e \<Rightarrow>
          let current = (case supplied of Some d \<Rightarrow> d | None \<Rightarrow> \<lparr>dt_wall = clock, dt_offset = Some 0\<rparr>);
              current = (if dt_offset current = None then current\<lparr>dt_offset := Some 0\<rparr> else current)
          in Some (of_int (dt_utc current - dt_utc e) / (3600 * 1000000)))"

subsection \<open>One model and the report\<close>

definition mean_of :: "real list \<Rightarrow> real option" where
  "mean_of xs = (if xs = [] then None else Some (sum_list xs / real (length xs)))"

definition row_rate :: "signal_row \<Rightarrow> real option" where
  "row_rate s =
     scorable_json_rate (sr_json_success_rate s) (Some (sr_result_count s))
       (case sr_suite_version s of None \<Rightarrow> [] | Some v \<Rightarrow> v)"

definition compute_model_weather ::
  "'r repo_ops \<Rightarrow> 'r \<Rightarrow> int \<Rightarrow> string \<Rightarrow> py_error + weather_response" where
  "compute_model_weather ops r now model_tuple =
     (let signals = ro_get_recent_signals ops r model_tuple 10;
          lengths = List.map_filter sr_avg_output_length signals;
          rates = List.map_filter row_rate signals;
          stamps = map sr_timestamp signals;
          recent_alerts = ro_get_recent_alerts ops r now model_tuple 24;
          last_ts = (case recent_alerts of [] \<Rightarrow> None | a # _ \<Rightarrow> Some (naive (ar_timestamp a)));
          window_end = (if stamps = [] then None
                        else as_published_utc (Some (naive (Max (set stamps)))));
          age_hours = window_age_hours window_end None now;
          status = (if recent_alerts \<noteq> [] then ''DRIFTING''
                    else case age_hours of
                           None \<Rightarrow> ''STALE''
                         | Some age \<Rightarrow> if age > stale_after_hours then ''STALE'' else ''STABLE'')
      in weather_post_init
           \<lparr>wr_model_tuple = model_tuple, wr_status = status, wr_last_alert_timestamp = last_ts,
            wr_recent_avg_output_length = mean_of lengths, wr_recent_json_success_rate = mean_of rates,
            wr_sample_count = int (length signals), wr_json_sample_count = int (length rates),
            wr_length_sample_count = int (length lengths),
            wr_window_start = (if stamps = [] then None
                               else as_published_utc (Some (naive (Min (set stamps))))),
            wr_window_end = window_end, wr_window_age_hours = age_hours\<rparr>)"

fun collect_results :: "('e + 'a) list \<Rightarrow> 'e + 'a list" where
  "collect_results [] = Inr []"
| "collect_results (r # rs) = sum_bind r (\<lambda>x. map_sum id ((#) x) (collect_results rs))"

definition model_weather :: "'r repo_ops \<Rightarrow> 'r \<Rightarrow> int \<Rightarrow> py_error + weather_response list" where
  "model_weather ops r now =
     collect_results (map (compute_model_weather ops r now) (ro_get_all_model_tuples ops r))"

subsection \<open>Lemmas\<close>

lemma json_base_pos:
  "map_of json_base_by_suite suite = Some (full, scorable) \<Longrightarrow> 0 < scorable \<and> scorable < full"
  by (auto simp: json_base_by_suite_def split: if_splits)

lemma scorable_json_rate_Some:
  "scorable_json_rate raw n suite = Some x \<Longrightarrow> 0 \<le> x \<and> x \<le> 1"
  by (auto simp: scorable_json_rate_def split: option.splits prod.splits if_splits)

lemma set_map_filter: "set (List.map_filter f xs) = {y. \<exists>x\<in>set xs. f x = Some y}"
  by (induction xs) (auto simp: List.map_filter_def split: option.splits)

lemma length_map_filter: "length (List.map_filter f xs) \<le> length xs"
  by (simp add: List.map_filter_def)

lemma mean_of_bounds:
  assumes "mean_of xs = Some m" and "\<And>x. x \<in> set xs \<Longrightarrow> lo \<le> x \<and> x \<le> hi"
  shows "lo \<le> m \<and> m \<le> hi"
proof -
  have ne: "0 < real (length xs)" and m: "m = sum_list xs / real (length xs)"
    using assms(1) by (auto simp: mean_of_def split: if_splits)
  have "real (length xs) * lo \<le> sum_list xs" "sum_list xs \<le> real (length xs) * hi"
    using sum_list_ge_const [of xs lo] sum_list_le_const [of xs hi] assms(2) by auto
  then show ?thesis unfolding m using ne by (simp add: field_simps)
qed

lemma published_naive [simp]: "as_published_utc (Some (naive t)) = Some \<lparr>dt_wall = t, dt_offset = Some 0\<rparr>"
  by (simp add: as_published_utc_def naive_def)

lemma window_age_of_aware [simp]:
  "window_age_hours (Some \<lparr>dt_wall = t, dt_offset = Some 0\<rparr>) None now = Some (of_int (now - t) / 3600000000)"
  by (simp add: window_age_hours_def as_published_utc_def dt_utc_def)

lemma window_age_None [simp]: "window_age_hours None s now = None"
  by (simp add: window_age_hours_def as_published_utc_def)

definition weather_status :: "alert_row list \<Rightarrow> int list \<Rightarrow> int \<Rightarrow> string" where
  "weather_status alerts stamps now =
     (if alerts \<noteq> [] then ''DRIFTING''
      else if stamps = [] \<or> now - Max (set stamps) > hours_us 30 then ''STALE'' else ''STABLE'')"

lemma age_threshold:
  "stale_after_hours * 3600000000 < real_of_int (now - t) \<longleftrightarrow> hours_us 30 < now - t"
proof -
  have "stale_after_hours * 3600000000 = real_of_int (hours_us 30)"
    by (simp add: stale_after_hours_def hours_us_def)
  then show ?thesis by (simp only: of_int_less_iff)
qed

text \<open>The response of any repository, in terms of its two reads.\<close>

lemma compute_model_weather_eq:
  fixes ops r now mt
  defines "signals \<equiv> ro_get_recent_signals ops r mt 10" and "alerts \<equiv> ro_get_recent_alerts ops r now mt 24"
  shows "\<exists>w. compute_model_weather ops r now mt = Inr w \<and> wr_model_tuple w = mt
    \<and> wr_status w = weather_status alerts (map sr_timestamp signals) now
    \<and> wr_recent_json_success_rate w = mean_of (List.map_filter row_rate signals)
    \<and> wr_recent_avg_output_length w = mean_of (List.map_filter sr_avg_output_length signals)
    \<and> wr_sample_count w = int (length signals)
    \<and> wr_json_sample_count w = int (length (List.map_filter row_rate signals))
    \<and> wr_length_sample_count w = int (length (List.map_filter sr_avg_output_length signals))"
proof -
  have status: "(if alerts \<noteq> [] then ''DRIFTING''
      else case window_age_hours (if map sr_timestamp signals = [] then None
             else as_published_utc (Some (naive (Max (set (map sr_timestamp signals)))))) None now of
             None \<Rightarrow> ''STALE'' | Some age \<Rightarrow> if age > stale_after_hours then ''STALE'' else ''STABLE'')
      = weather_status alerts (map sr_timestamp signals) now"
    by (simp add: weather_status_def age_threshold del: of_int_diff)
  have ok: "weather_status alerts (map sr_timestamp signals) now \<in> {''STABLE'', ''DRIFTING'', ''STALE''}"
    by (simp add: weather_status_def)
  show ?thesis
    unfolding compute_model_weather_def Let_def signals_def [symmetric] alerts_def [symmetric] status
    by (simp only: weather_post_init_def weather_response.simps ok not_not if_False simp_thms) simp
qed

text \<open>The two reads of any backend that keeps the laws.\<close>

context signal_store
begin

lemma weather_status_from_reads:
  "\<exists>w. compute_model_weather ops r now mt = Inr w
     \<and> wr_status w =
        (if \<exists>a\<in>set (publics r). ar_model_tuple a = mt \<and> stamp (now - hours_us 24) \<le> ar_timestamp a
         then ''DRIFTING''
         else if ro_get_recent_signals ops r mt 10 = []
              \<or> now - Max (sr_timestamp ` set (ro_get_recent_signals ops r mt 10)) > hours_us 30
         then ''STALE'' else ''STABLE'')"
proof -
  have "ro_get_recent_alerts ops r now mt 24 \<noteq> [] \<longleftrightarrow> set (ro_get_recent_alerts ops r now mt 24) \<noteq> {}"
    by simp
  then have "ro_get_recent_alerts ops r now mt 24 \<noteq> [] \<longleftrightarrow>
      (\<exists>a\<in>set (publics r). ar_model_tuple a = mt \<and> stamp (now - hours_us 24) \<le> ar_timestamp a)"
    unfolding recent_alerts_set by blast
  then show ?thesis
    using compute_model_weather_eq [of ops r now mt] by (auto simp: weather_status_def)
qed

lemma weather_unknown_model:
  "compute_model_weather ops r now mt = Inr w \<Longrightarrow> mt \<notin> set (ro_get_all_model_tuples ops r)
   \<Longrightarrow> wr_status w \<noteq> ''STABLE'' \<and> wr_sample_count w = 0"
proof -
  assume "compute_model_weather ops r now mt = Inr w" "mt \<notin> set (ro_get_all_model_tuples ops r)"
  moreover have "ro_get_recent_signals ops r mt 10 = []"
    using recent_signals_Nil_iff [of r mt 9] calculation(2) by (simp add: eval_nat_numeral)
  ultimately show ?thesis
    using compute_model_weather_eq [of ops r now mt] by (auto simp: weather_status_def)
qed

lemma weather_counts_bounded:
  "compute_model_weather ops r now mt = Inr w \<Longrightarrow>
   wr_json_sample_count w \<le> wr_sample_count w \<and> wr_length_sample_count w \<le> wr_sample_count w
   \<and> wr_sample_count w = int (min 10 (length (filter (\<lambda>s. sr_model_tuple (snd s) = mt) (stored r))))"
  using compute_model_weather_eq [of ops r now mt] recent_signals_length [of r mt 10]
    length_map_filter [of row_rate "ro_get_recent_signals ops r mt 10"]
    length_map_filter [of sr_avg_output_length "ro_get_recent_signals ops r mt 10"]
  by fastforce

lemma report_covers_models:
  "\<exists>ws. model_weather ops r now = Inr ws \<and> map wr_model_tuple ws = ro_get_all_model_tuples ops r
     \<and> distinct (map wr_model_tuple ws)"
proof -
  have "\<exists>ws. collect_results (map (compute_model_weather ops r now) mts) = Inr ws \<and> map wr_model_tuple ws = mts"
    for mts
  proof (induction mts)
    case (Cons mt mts)
    obtain w where "compute_model_weather ops r now mt = Inr w" "wr_model_tuple w = mt"
      using compute_model_weather_eq [of ops r now mt] by blast
    with Cons show ?case by auto
  qed simp
  then show ?thesis unfolding model_weather_def using model_tuples_distinct by metis
qed

end

subsection \<open>Properties\<close>

text \<open>C22: The status tells what the data supports. On both backends, a report is always computed; its
  status is DRIFTING exactly when a quorum-verified alert for the model is stored within the
  last 24 hours, otherwise STALE exactly when the read window is empty or its newest sample is
  more than 30 hours old, and STABLE only otherwise.\<close>

theorem weather_status_follows_evidence:
  "(\<exists>w. compute_model_weather sqlite_ops db now mt = Inr w
     \<and> wr_status w =
        (if \<exists>a\<in>set (db_public db). pa_model_tuple a = mt \<and> now - hours_us 24 \<le> pa_timestamp a
         then ''DRIFTING''
         else if get_recent_signals db mt 10 = []
              \<or> now - Max (tl_timestamp ` set (get_recent_signals db mt 10)) > hours_us 30
         then ''STALE'' else ''STABLE''))
   \<and> (\<exists>w. compute_model_weather (clickhouse_ops res) ch now mt = Inr w
     \<and> wr_status w =
        (if \<exists>a\<in>set (ch_public ch). ar_model_tuple a = mt \<and> res (now - hours_us 24) \<le> ar_timestamp a
         then ''DRIFTING''
         else if ch_get_recent_signals ch mt 10 = []
              \<or> now - Max (sr_timestamp ` set (ch_get_recent_signals ch mt 10)) > hours_us 30
         then ''STALE'' else ''STABLE''))"
  using sqlite.weather_status_from_reads [of db now mt] clickhouse.weather_status_from_reads [of res ch now mt]
  by (simp add: sqlite_publics_def row_of_alert_def sqlite_reads row_of_signal_def clickhouse_reads image_image
      cong: if_cong split del: if_split)

text \<open>The published JSON rate is a rate. On any repository, a published rate and every batch rate
  behind it lie between 0 and 1, and the counts beside the numbers are those of the rows that
  contributed: never more than the window, which holds at most ten.\<close>

theorem published_rate_is_rate:
  "\<exists>w. compute_model_weather ops r now mt = Inr w
     \<and> set_option (wr_recent_json_success_rate w) \<subseteq> {0..1}
     \<and> (wr_recent_json_success_rate w = None \<longleftrightarrow> wr_json_sample_count w = 0)
     \<and> (wr_recent_avg_output_length w = None \<longleftrightarrow> wr_length_sample_count w = 0)
     \<and> wr_json_sample_count w \<le> wr_sample_count w \<and> wr_length_sample_count w \<le> wr_sample_count w"
proof -
  let ?signals = "ro_get_recent_signals ops r mt 10"
  have "0 \<le> m \<and> m \<le> 1" if "mean_of (List.map_filter row_rate ?signals) = Some m" for m
    using mean_of_bounds [OF that, of 0 1]
    by (auto simp: set_map_filter row_rate_def dest: scorable_json_rate_Some)
  moreover have "mean_of xs = None \<longleftrightarrow> length xs = 0" for xs by (simp add: mean_of_def)
  ultimately show ?thesis
    using compute_model_weather_eq [of ops r now mt]
      length_map_filter [of row_rate ?signals] length_map_filter [of sr_avg_output_length ?signals]
    by (auto simp: subset_eq elem_set)
qed

text \<open>Rescaling is exact on complete runs and silent on everything else. For a known suite, a batch
  of exactly its prompts of which \<open>valid\<close> scorable ones parsed publishes \<open>valid / scorable\<close>; a
  batch of an unknown suite or with any other count publishes nothing.\<close>

theorem scorable_rate_exact:
  assumes "map_of json_base_by_suite suite = Some (full, scorable)" and "0 \<le> valid" and "valid \<le> scorable"
  shows "scorable_json_rate (Some (of_int valid / of_int full)) (Some (of_int n)) suite =
    (if n = full then Some (of_int valid / of_int scorable) else None)"
proof -
  have pos: "0 < scorable" "scorable < full" using json_base_pos [OF assms(1)] by simp_all
  have "of_int valid / of_int full * of_int full / of_int scorable = (of_int valid / of_int scorable :: real)"
    using pos by simp
  moreover have "max 0 (min 1 (of_int valid / of_int scorable)) = (of_int valid / of_int scorable :: real)"
    using pos assms(2,3) by simp
  ultimately show ?thesis using pos assms(1) by (simp add: scorable_json_rate_def)
qed

theorem scorable_rate_exact_witness:
  "scorable_json_rate (Some (of_int 9 / of_int 50)) (Some (of_int 50)) ''v2.0.0'' = Some 1"
  using scorable_rate_exact [of "''v2.0.0''" 50 9 9 50] by (simp add: json_base_by_suite_def)

text \<open>Any fresh batch turns a silent model STABLE, even one of a private fleet. After any history of
  writes without a recent alert for the model, storing a batch (public or private) and reading
  the weather within 30 hours publishes STABLE.\<close>

theorem fresh_batch_publishes_stable:
  assumes "db = fold db_step ops empty_db" and "ib_model_tuple b = mt"
    and "\<forall>a\<in>set (db_public db). pa_model_tuple a \<noteq> mt \<or> pa_timestamp a < now - hours_us 24"
    and "now - saved \<le> hours_us 30"
  shows "\<exists>w. compute_model_weather sqlite_ops (save_batch db saved b) now mt = Inr w \<and> wr_status w = ''STABLE''"
proof -
  let ?db' = "save_batch db saved b"
  have "db_ok ?db'"
    using db_step_ok [OF db_run_ok [OF empty_db_ok, of ops], of "SaveBatch saved b"] assms(1) by simp
  then have mine: "get_recent_signals ?db' mt 10 =
      take 10 (rev (filter (\<lambda>s. tl_model_tuple s = mt) (db_signals ?db')))"
    by (rule recent_signals_ascending)
  have "\<exists>s\<in>set (get_recent_signals ?db' mt 10). tl_timestamp s = saved"
    unfolding mine using assms(2) by (simp add: save_batch_def Let_def)
  then obtain s where s: "s \<in> set (get_recent_signals ?db' mt 10)" "tl_timestamp s = saved" by blast
  then have "saved \<le> Max (tl_timestamp ` set (get_recent_signals ?db' mt 10))" by (auto intro: Max_ge)
  then have "\<not> now - Max (tl_timestamp ` set (get_recent_signals ?db' mt 10)) > hours_us 30"
    using assms(4) by linarith
  moreover have "\<not> (\<exists>a\<in>set (db_public ?db'). pa_model_tuple a = mt \<and> now - hours_us 24 \<le> pa_timestamp a)"
    using assms(3) by (auto simp: save_batch_def Let_def)
  ultimately show ?thesis
    using sqlite.weather_status_from_reads [of ?db' now mt] s(1)
    by (auto simp: sqlite_publics_def row_of_alert_def sqlite_reads row_of_signal_def image_image)
qed

theorem fresh_batch_publishes_stable_witness:
  "\<exists>w. compute_model_weather sqlite_ops (save_batch (save_batch empty_db 0 (example_batch ''a'' None))
          (hours_us 100) (example_batch ''b'' (Some ''acme''))) (hours_us 101) ''m'' = Inr w
     \<and> wr_status w = ''STABLE''"
  by (rule fresh_batch_publishes_stable
      [where ops = "[SaveBatch 0 (example_batch ''a'' None)]"])
     (simp_all add: example_batch_def hours_us_def save_batch_def empty_db_def Let_def)

end
