(* ===== verification/Auth.thy ===== *)
theory Auth
  imports Schema "HOL-Library.Word" "HOL-Library.Sublist"
begin

section \<open>Identity, signatures and the Phase 0 ingestion gate\<close>

text \<open>
  probe/crypto.py (canonical JSON, key file, signing), gateway/auth.py (verification and log
  sanitising), gateway/ingest.py (\<^verbatim>\<open>receive_batch\<close>) and gateway/ingestion.py
  (\<^verbatim>\<open>IngestionGateway\<close>). The Ed25519 library and \<^verbatim>\<open>json.dumps\<close> are arguments; what a theorem
  needs of them (a key loads from its own bytes, a signature made with a key verifies under its
  public key) is a named hypothesis of it. Hexadecimal coding of bytes is Python's own and is
  modelled. The lemmas say that what the probe signs the gateway verifies, that a key file
  gives the same identity for ever, that a sanitised log value holds only printable
  characters, and which batches the gate accepts.
\<close>

subsection \<open>Bytes and hexadecimal\<close>

type_synonym bytes = "8 word list"

definition hex_digit :: "nat \<Rightarrow> char" where
  "hex_digit n = char_of (if n < 10 then 48 + n else 87 + n)"

definition byte_hex :: "8 word \<Rightarrow> string" where
  "byte_hex w = [hex_digit (unat w div 16), hex_digit (unat w mod 16)]"

definition bytes_hex :: "bytes \<Rightarrow> string" where
  "bytes_hex bs = concat (map byte_hex bs)"

definition hex_value :: "char \<Rightarrow> nat option" where
  "hex_value c =
     (let n = of_char c :: nat
      in if 48 \<le> n \<and> n \<le> 57 then Some (n - 48)
         else if 97 \<le> n \<and> n \<le> 102 then Some (n - 87)
         else if 65 \<le> n \<and> n \<le> 70 then Some (n - 55) else None)"

definition ascii_space :: "char \<Rightarrow> bool" where
  "ascii_space c \<longleftrightarrow> (of_char c :: nat) \<in> {9, 10, 11, 12, 13, 32}"

text \<open>\<^verbatim>\<open>bytes.fromhex\<close>: pairs of digits, with white space allowed between the pairs.\<close>

fun bytes_fromhex :: "string \<Rightarrow> bytes option" where
  "bytes_fromhex [] = Some []"
| "bytes_fromhex [c] = (if ascii_space c then Some [] else None)"
| "bytes_fromhex (c # d # s) =
     (if ascii_space c then bytes_fromhex (d # s)
      else case (hex_value c, hex_value d) of
             (Some hi, Some lo) \<Rightarrow> map_option ((#) (of_nat (16 * hi + lo))) (bytes_fromhex s)
           | _ \<Rightarrow> None)"

lemma hex_value_digit: "n < 16 \<Longrightarrow> hex_value (hex_digit n) = Some n"
  by (auto simp: hex_value_def hex_digit_def Let_def)

lemma hex_digit_not_space: "n < 16 \<Longrightarrow> \<not> ascii_space (hex_digit n)"
  by (auto simp: ascii_space_def hex_digit_def)

lemma bytes_fromhex_hex: "bytes_fromhex (bytes_hex bs) = Some bs"
proof (induction bs)
  case (Cons w ws)
  have "unat w < 256" using unsigned_less [of w] by simp
  then have "unat w div 16 < 16" "unat w mod 16 < 16" by auto
  then show ?case
    using Cons by (simp add: bytes_hex_def byte_hex_def hex_value_digit hex_digit_not_space)
qed (simp add: bytes_hex_def)

lemma bytes_hex_Nil: "bytes_hex bs = [] \<longleftrightarrow> bs = []"
  by (cases bs) (simp_all add: bytes_hex_def byte_hex_def)

subsection \<open>Signing (probe/crypto.py)\<close>

text \<open>\<^verbatim>\<open>str.encode\<close> of ASCII text, and the canonical JSON bytes for a given \<^verbatim>\<open>json.dumps\<close>.\<close>

definition encode_ascii :: "string \<Rightarrow> bytes" where
  "encode_ascii s = map of_char s"

definition canonical_json :: "('payload \<Rightarrow> string) \<Rightarrow> 'payload \<Rightarrow> bytes" where
  "canonical_json dumps payload = encode_ascii (dumps payload)"

text \<open>
  \<^verbatim>\<open>_load_or_generate\<close> over the content of the key file: \<open>load\<close> is \<^verbatim>\<open>from_private_bytes\<close>,
  \<open>raw\<close> is \<^verbatim>\<open>private_bytes\<close> and \<open>fresh\<close> the key a generation would give.
\<close>

definition load_or_generate ::
  "(bytes \<Rightarrow> 'sk option) \<Rightarrow> ('sk \<Rightarrow> bytes) \<Rightarrow> 'sk \<Rightarrow> bytes option \<Rightarrow> py_error + 'sk \<times> bytes option" where
  "load_or_generate load raw fresh stored =
     (case stored of
        Some content \<Rightarrow>
          (case load content of None \<Rightarrow> Inl (ValueError ''invalid key file'')
           | Some sk \<Rightarrow> Inr (sk, stored))
      | None \<Rightarrow> Inr (fresh, Some (raw fresh)))"

definition public_key_hex :: "('sk \<Rightarrow> bytes) \<Rightarrow> 'sk \<Rightarrow> string" where
  "public_key_hex public_bytes sk = bytes_hex (public_bytes sk)"

definition sign_payload ::
  "('payload \<Rightarrow> string) \<Rightarrow> ('sk \<Rightarrow> bytes \<Rightarrow> bytes) \<Rightarrow> 'payload \<Rightarrow> 'sk \<Rightarrow> string" where
  "sign_payload dumps sign payload sk = bytes_hex (sign sk (canonical_json dumps payload))"

subsection \<open>Verification (gateway/auth.py)\<close>

text \<open>
  \<open>load_pub\<close> is \<^verbatim>\<open>from_public_bytes\<close> (\<open>None\<close> when it raises) and \<open>verify\<close> tells whether
  \<^verbatim>\<open>verify\<close> returns without \<^verbatim>\<open>InvalidSignature\<close>. Every exception ends in \<^verbatim>\<open>False\<close>.
\<close>

definition verify_signature ::
  "(bytes \<Rightarrow> 'pk option) \<Rightarrow> ('pk \<Rightarrow> bytes \<Rightarrow> bytes \<Rightarrow> bool) \<Rightarrow> bytes \<Rightarrow> string \<Rightarrow> string \<Rightarrow> bool" where
  "verify_signature load_pub verify payload_bytes signature_hex public_hex =
     (if signature_hex = [] \<or> public_hex = [] then False
      else case bytes_fromhex public_hex of
             None \<Rightarrow> False
           | Some pub_bytes \<Rightarrow>
               (case load_pub pub_bytes of
                  None \<Rightarrow> False
                | Some pub_key \<Rightarrow>
                    (case bytes_fromhex signature_hex of
                       None \<Rightarrow> False
                     | Some sig_bytes \<Rightarrow> verify pub_key sig_bytes payload_bytes)))"

definition printable :: "char \<Rightarrow> bool" where
  "printable c \<longleftrightarrow> 0x20 \<le> (of_char c :: nat) \<and> (of_char c :: nat) < 0x7F"

definition escape_char :: "char \<Rightarrow> string" where
  "escape_char c =
     (if printable c then [c]
      else CHR 0x5C # CHR ''x'' # byte_hex (of_char c))"

definition sanitize_for_log :: "string \<Rightarrow> nat \<Rightarrow> string" where
  "sanitize_for_log s max_len =
     (let escaped = concat (map escape_char s)
      in if length escaped > max_len then take max_len escaped @ ''...'' else escaped)"

subsection \<open>The mock ingest endpoint (gateway/ingest.py)\<close>

datatype ingest_body =
    JsonParseFailure
  | SchemaValidationFailure
  | SignatureVerificationFailed
  | Accepted string int

text \<open>
  \<open>loads\<close> is \<^verbatim>\<open>json.loads\<close>, \<open>parse\<close> pydantic's field decoding and \<open>is_dict\<close> whether the
  decoded value is a JSON object. The handler of a validation error calls
  \<^verbatim>\<open>raw_dict.get\<close>, which only an object has.
\<close>

definition receive_batch ::
  "(string \<Rightarrow> 'json option) \<Rightarrow> ('json \<Rightarrow> bool) \<Rightarrow> ('json \<Rightarrow> inbound_batch option)
    \<Rightarrow> (bytes \<Rightarrow> string \<Rightarrow> string \<Rightarrow> bool) \<Rightarrow> string \<Rightarrow> string \<Rightarrow> string
    \<Rightarrow> py_error + int \<times> ingest_body" where
  "receive_batch loads is_dict parse verified json_str signature_hex public_hex =
     (case loads json_str of
        None \<Rightarrow> Inr (400, JsonParseFailure)
      | Some raw_dict \<Rightarrow>
          (case model_validate_json parse raw_dict of
             Inl (ValueError m) \<Rightarrow>
               (if is_dict raw_dict then Inr (400, SchemaValidationFailure)
                else Inl (AttributeError ''get''))
           | Inl e \<Rightarrow> Inl e
           | Inr batch \<Rightarrow>
               if \<not> verified (encode_ascii json_str) signature_hex public_hex
               then Inr (401, SignatureVerificationFailed)
               else Inr (202, Accepted (ib_batch_id batch) (ib_result_count batch))))"

subsection \<open>The Phase 0 gate (gateway/ingestion.py)\<close>

text \<open>A feature vector is represented by its field names, all that the gate inspects.\<close>

record probe_batch =
  pb_batch_id :: string
  pb_org_id :: string
  pb_suite_version_hash :: string
  pb_feature_vectors :: "string list list"
  pb_signature :: string
  pb_schema_version :: string

record ingestion_gateway =
  ig_key_registry :: "(string, bytes) dict"
  ig_accepted_count :: int
  ig_rejected_count :: int

definition init_ingestion :: ingestion_gateway where
  "init_ingestion = \<lparr>ig_key_registry = [], ig_accepted_count = 0, ig_rejected_count = 0\<rparr>"

definition register_key :: "ingestion_gateway \<Rightarrow> string \<Rightarrow> bytes \<Rightarrow> ingestion_gateway" where
  "register_key g org_id key = g\<lparr>ig_key_registry := AList.update org_id key (ig_key_registry g)\<rparr>"

definition banned_field_substrings :: "string list" where
  "banned_field_substrings = [''raw_prompt'', ''raw_output'', ''prompt_text'', ''output_text'']"

definition lower_char :: "char \<Rightarrow> char" where
  "lower_char c = (if is_upper c then char_of ((of_char c :: nat) + 32) else c)"

definition validate_probe_schema :: "probe_batch \<Rightarrow> py_error + unit" where
  "validate_probe_schema b =
     (if pb_batch_id b = [] then Inl (ValueError ''batch_id is empty'')
      else if pb_org_id b = [] then Inl (ValueError ''org_id is empty'')
      else if pb_suite_version_hash b = [] then Inl (ValueError ''suite_version_hash is empty'')
      else if pb_signature b = [] then Inl (ValueError ''signature is missing -- batch unsigned'')
      else Inr ())"

definition check_no_raw_fields :: "probe_batch \<Rightarrow> py_error + unit" where
  "check_no_raw_fields b =
     (if list_ex (list_ex (\<lambda>key. list_ex (\<lambda>banned. sublist banned (map lower_char key))
                              banned_field_substrings)) (pb_feature_vectors b)
      then Inl (ValueError ''feature vector contains banned field'') else Inr ())"

definition verify_registered :: "ingestion_gateway \<Rightarrow> probe_batch \<Rightarrow> py_error + unit" where
  "verify_registered g b =
     (if map_of (ig_key_registry g) (pb_org_id b) = None
      then Inl (ValueError ''org_id not in key registry -- unknown probe'') else Inr ())"

definition gate_ingest :: "ingestion_gateway \<Rightarrow> probe_batch \<Rightarrow> ingestion_gateway \<times> bool" where
  "gate_ingest g b =
     (case sum_bind (validate_probe_schema b)
             (\<lambda>_. sum_bind (check_no_raw_fields b) (\<lambda>_. verify_registered g b)) of
        Inl e \<Rightarrow> (g\<lparr>ig_rejected_count := ig_rejected_count g + 1\<rparr>, False)
      | Inr u \<Rightarrow> (g\<lparr>ig_accepted_count := ig_accepted_count g + 1\<rparr>, True))"

definition gate_stats :: "ingestion_gateway \<Rightarrow> (string, int) dict" where
  "gate_stats g = [(''accepted'', ig_accepted_count g), (''rejected'', ig_rejected_count g)]"

subsection \<open>Lemmas\<close>

lemma hex_digit_printable: "n < 16 \<Longrightarrow> printable (hex_digit n)"
  by (auto simp: printable_def hex_digit_def)

lemma escape_char_printable: "d \<in> set (escape_char c) \<Longrightarrow> printable d"
proof -
  have "unat (w :: 8 word) < 256" for w using unsigned_less [of w] by simp
  then have "unat (w :: 8 word) div 16 < 16" "unat (w :: 8 word) mod 16 < 16" for w
    by (auto simp: less_mult_imp_div_less)
  then show "d \<in> set (escape_char c) \<Longrightarrow> printable d"
    by (auto simp: escape_char_def byte_hex_def hex_digit_printable split: if_splits)
       (simp_all add: printable_def)
qed

lemma concat_escape_printable: "d \<in> set (concat (map escape_char s)) \<Longrightarrow> printable d"
  using escape_char_printable by auto

lemma concat_escape_id: "list_all printable s \<Longrightarrow> concat (map escape_char s) = s"
  by (induction s) (simp_all add: escape_char_def)

definition field_banned :: "string \<Rightarrow> bool" where
  "field_banned key \<longleftrightarrow> (\<exists>banned\<in>set banned_field_substrings. sublist banned (map lower_char key))"

lemma check_no_raw_fields_ok:
  "check_no_raw_fields b = Inr () \<longleftrightarrow> (\<forall>vec\<in>set (pb_feature_vectors b). \<forall>key\<in>set vec. \<not> field_banned key)"
  by (auto simp: check_no_raw_fields_def field_banned_def list_ex_iff)

lemma gate_ingest_snd:
  "snd (gate_ingest g b) \<longleftrightarrow>
     validate_probe_schema b = Inr () \<and> check_no_raw_fields b = Inr () \<and> verify_registered g b = Inr ()"
  by (auto simp: gate_ingest_def sum_bind_def split: sum.splits)

lemma gate_ingest_fst:
  "fst (gate_ingest g b) =
     (if snd (gate_ingest g b) then g\<lparr>ig_accepted_count := ig_accepted_count g + 1\<rparr>
      else g\<lparr>ig_rejected_count := ig_rejected_count g + 1\<rparr>)"
  by (simp add: gate_ingest_def split: sum.splits)

subsection \<open>Properties\<close>

text \<open>What the probe signs, the gateway verifies. For a probe that just created or loaded its key,
  the signature and public key it sends with the canonical JSON of any payload pass the
  gateway's verification of those very bytes, whatever the Ed25519 library, as long as a key's
  public bytes load back to it and its signatures verify under it.\<close>

theorem signed_payload_verifies:
  assumes pub_loads: "\<And>sk. load_pub (public_bytes sk) = Some (public_key sk)"
    and sig_verifies: "\<And>sk m. verify (public_key sk) (sign sk m) m"
    and sizes: "\<And>sk m. public_bytes sk \<noteq> [] \<and> sign sk m \<noteq> []"
    and "load_or_generate load raw fresh stored = Inr (sk, stored')"
  shows "verify_signature load_pub verify (canonical_json dumps payload)
           (sign_payload dumps sign payload sk) (public_key_hex public_bytes sk)"
  using sizes by (simp add: verify_signature_def sign_payload_def public_key_hex_def bytes_fromhex_hex
      bytes_hex_Nil pub_loads sig_verifies)

theorem signed_payload_verifies_witness:
  "verify_signature Some (\<lambda>pk sig m. sig = 1 # pk @ m) (canonical_json (\<lambda>p. p) ''{}'')
     (sign_payload (\<lambda>p. p) (\<lambda>sk m. 1 # (0 # sk) @ m) ''{}'' [7]) (public_key_hex (\<lambda>sk. 0 # sk) [7])"
  by (rule signed_payload_verifies [where public_key = "\<lambda>sk. 0 # sk" and load = Some and raw = "\<lambda>sk. sk"
        and fresh = "[7]" and stored = None and stored' = "Some [7]"])
     (simp_all add: load_or_generate_def)

text \<open>A probe keeps one identity. Whatever the key file held, once a key manager was constructed,
  constructing another over the same file gives the same key and leaves the file alone, even if
  a generation would now give another key.\<close>

theorem key_identity_is_stable:
  assumes "\<And>sk. load (raw sk) = Some sk"
    and "load_or_generate load raw fresh stored = Inr (sk, stored')"
  shows "load_or_generate load raw other stored' = Inr (sk, stored')"
  using assms by (auto simp: load_or_generate_def split: option.splits)

theorem key_identity_is_stable_witness:
  "load_or_generate Some (\<lambda>sk. sk) [9] (Some [7]) = Inr ([7], Some [7])"
  by (rule key_identity_is_stable [where fresh = "[7]" and stored = None]) (simp_all add: load_or_generate_def)

text \<open>Log values cannot forge lines. A sanitised value contains only printable ASCII characters,
  is at most three characters longer than the bound, and is the text itself when that is
  printable and within the bound.\<close>

theorem sanitized_log_is_printable:
  "list_all printable (sanitize_for_log s max_len)
   \<and> length (sanitize_for_log s max_len) \<le> max_len + 3
   \<and> (list_all printable s \<and> length s \<le> max_len \<longrightarrow> sanitize_for_log s max_len = s)"
proof -
  let ?e = "concat (map escape_char s)"
  have "list_all printable ?e" using concat_escape_printable [of _ s] by (auto simp only: list_all_iff)
  moreover from this have "list_all printable (take max_len ?e)"
    by (metis append_take_drop_id list_all_append)
  moreover have "list_all printable ''...''" by (simp add: printable_def)
  ultimately have "list_all printable (sanitize_for_log s max_len)"
    by (simp only: sanitize_for_log_def Let_def list_all_append split: if_splits) simp
  moreover have "length (sanitize_for_log s max_len) \<le> max_len + 3"
    by (simp add: sanitize_for_log_def Let_def min_def)
  moreover have "sanitize_for_log s max_len = s" if "list_all printable s" "length s \<le> max_len"
    using that concat_escape_id [of s] by (simp add: sanitize_for_log_def Let_def)
  ultimately show ?thesis by blast
qed

theorem sanitized_log_is_printable_witness:
  "sanitize_for_log ''batch-7'' 64 = ''batch-7''"
  using sanitized_log_is_printable [of "''batch-7''" 64] by (simp add: printable_def)

text \<open>The cut can fall inside an escape: of a final newline after 63 characters only the backslash is left.\<close>

lemma truncation_splits_escape:
  "sanitize_for_log (replicate 63 (CHR ''a'') @ [CHR 0x0A]) 64 =
     replicate 63 (CHR ''a'') @ CHR 0x5C # ''...''"
proof -
  have "concat (map escape_char (replicate n (CHR ''a''))) = replicate n (CHR ''a'')" for n
    by (induction n) (simp_all add: escape_char_def printable_def)
  moreover have "escape_char (CHR 0x0A) = [CHR 0x5C, CHR ''x'', CHR ''0'', CHR ''a'']"
    by (simp add: escape_char_def printable_def byte_hex_def hex_digit_def char_of_def bit_simps)
  ultimately show ?thesis
    by (simp only: sanitize_for_log_def map_append concat_append list.map concat.simps Let_def) simp
qed

text \<open>The gate accepts exactly the well-formed, raw-text-free batches of known organisations, and
  counts every batch once: acceptance and rejection change one counter by one and nothing else.\<close>

theorem gate_accepts_exactly:
  "let (g', ok) = gate_ingest g b in
     (ok \<longleftrightarrow> pb_batch_id b \<noteq> [] \<and> pb_org_id b \<noteq> [] \<and> pb_suite_version_hash b \<noteq> [] \<and> pb_signature b \<noteq> []
        \<and> pb_org_id b \<in> fst ` set (ig_key_registry g)
        \<and> \<not> (\<exists>vec\<in>set (pb_feature_vectors b). \<exists>key\<in>set vec. field_banned key))
     \<and> ig_key_registry g' = ig_key_registry g
     \<and> ig_accepted_count g' = ig_accepted_count g + of_bool ok
     \<and> ig_rejected_count g' = ig_rejected_count g + of_bool (\<not> ok)"
proof -
  have "map_of (ig_key_registry g) (pb_org_id b) = None \<longleftrightarrow> pb_org_id b \<notin> fst ` set (ig_key_registry g)"
    by (rule map_of_eq_None_iff)
  then show ?thesis
    using gate_ingest_snd [of g b] gate_ingest_fst [of g b]
    by (auto simp: Let_def split_beta check_no_raw_fields_ok validate_probe_schema_def verify_registered_def)
qed

end
