(* ===== verification/Gateway.thy ===== *)
theory Gateway
  imports Weather Correlation Auth
begin

section \<open>The gateway's write side (gateway/main.py, engine/webhooks.py)\<close>

text \<open>
  \<open>gateway_state\<close> is \<^verbatim>\<open>app.state\<close> with the in-memory quorum backend: the public detector,
  the agreement scorer, the repository (of any backend, through \<open>repo_ops\<close>), the detectors of
  the private fleets, and the webhook tasks scheduled so far (\<^verbatim>\<open>asyncio.create_task\<close>). A handler
  takes the state and returns the response with the next state, every branch included: an
  exception that nothing catches is \<open>ServerError\<close>, with the state it leaves behind.

  Arguments stand for what the code calls outside src/: \<open>verified\<close> is \<open>verify_signature\<close> with its
  library, \<open>parse\<close> is pydantic's decoding, \<open>isoformat\<close> the calendar text of a UTC time. The readings
  of the three clocks by one request are one \<open>clocks\<close> record.
\<close>

subsection \<open>Webhook dispatch (engine/webhooks.py)\<close>

record drift_notification =
  dn_model_tuple :: string
  dn_metric_name :: string
  dn_alert_value :: real
  dn_timestamp :: string
  dn_fleet_id :: string

record webhook_request =
  rq_url :: string
  rq_headers :: "(string, string) dict"
  rq_payload :: "string \<times> string \<times> real \<times> string \<times> string"

definition dispatch_request :: "drift_notification \<Rightarrow> webhook_config \<Rightarrow> webhook_request" where
  "dispatch_request n config =
     (let headers = [(''Content-Type'', ''application/json'')];
          headers = (case wc_auth_token config of None \<Rightarrow> headers
                     | Some token \<Rightarrow> AList.update ''Authorization'' (''Bearer '' @ token) headers)
      in \<lparr>rq_url = wc_target_url config, rq_headers = headers,
          rq_payload = (dn_model_tuple n, dn_metric_name n, dn_alert_value n, dn_timestamp n, dn_fleet_id n)\<rparr>)"

text \<open>
  \<open>post\<close> sends a request and gives a status or an exception; \<open>is_error\<close> is when
  \<^verbatim>\<open>raise_for_status\<close> raises. Both ends are logged, none is re-raised.
\<close>

datatype dispatch_log = Delivered int | DispatchFailed

definition dispatch ::
  "(webhook_request \<Rightarrow> py_error + int) \<Rightarrow> (int \<Rightarrow> bool) \<Rightarrow> drift_notification \<Rightarrow> webhook_config
    \<Rightarrow> dispatch_log" where
  "dispatch post is_error n config =
     (case post (dispatch_request n config) of
        Inl e \<Rightarrow> DispatchFailed
      | Inr code \<Rightarrow> if is_error code then DispatchFailed else Delivered code)"

subsection \<open>State, clocks and responses\<close>

record 'r gateway_state =
  gw_detector :: cusum_detector
  gw_scorer :: scorer
  gw_repo :: 'r
  gw_private :: "(string, cusum_detector) dict"
  gw_tasks :: "(drift_notification \<times> webhook_config) list"

record clocks =
  ck_mono_ns :: int
  ck_time_ns :: int
  ck_utc_us :: int

record alert_body =
  ab_model_tuple :: string
  ab_metric_name :: string
  ab_direction :: string
  ab_cusum_score :: real
  ab_threshold :: real
  ab_window_count :: int

datatype response =
    Ingested string int "alert_body list"
  | Rejected nat string
  | ServerError py_error
  | Registered string

definition alert_to_body :: "drift_alert \<Rightarrow> alert_body" where
  "alert_to_body a =
     \<lparr>ab_model_tuple = da_model_tuple a, ab_metric_name = da_metric_name a,
      ab_direction = da_direction a, ab_cusum_score = py_round 6 (da_cusum_score a),
      ab_threshold = da_threshold a, ab_window_count = da_window_count a\<rparr>"

subsection \<open>Start-up: re-warming the detector\<close>

definition bootstrap_metrics :: "string list" where
  "bootstrap_metrics = [''json_success_rate'', ''avg_output_length'']"

definition row_metric :: "signal_row \<Rightarrow> string \<Rightarrow> real option" where
  "row_metric s name =
     (if name = ''json_success_rate'' then sr_json_success_rate s
      else if name = ''avg_output_length'' then sr_avg_output_length s else None)"

definition row_suite :: "signal_row \<Rightarrow> string" where
  "row_suite s = (case sr_suite_version s of None \<Rightarrow> [] | Some v \<Rightarrow> v)"

definition bootstrap_signal ::
  "string \<Rightarrow> nat \<Rightarrow> signal_row \<Rightarrow> cusum_detector \<times> nat \<Rightarrow> cusum_detector \<times> nat" where
  "bootstrap_signal model_tuple i s acc =
     fold (\<lambda>name (d, n).
             case row_metric s name of
               None \<Rightarrow> (d, n)
             | Some v \<Rightarrow> (fst (detector_update d 0 model_tuple name v (Some (int i * 1000000)) (row_suite s)), n + 1))
       bootstrap_metrics acc"

definition bootstrap_model ::
  "'r repo_ops \<Rightarrow> 'r \<Rightarrow> string \<Rightarrow> cusum_detector \<times> nat \<Rightarrow> cusum_detector \<times> nat" where
  "bootstrap_model ops r model_tuple acc =
     fold (\<lambda>(i, s). bootstrap_signal model_tuple i s)
       (enumerate 0 (rev (ro_get_recent_signals ops r model_tuple 50))) acc"

definition bootstrap_detector :: "'r repo_ops \<Rightarrow> cusum_detector \<Rightarrow> 'r \<Rightarrow> cusum_detector \<times> nat" where
  "bootstrap_detector ops d r = fold (bootstrap_model ops r) (ro_get_all_model_tuples ops r) (d, 0)"

text \<open>The state \<^verbatim>\<open>lifespan\<close> builds on a repository.\<close>

definition gateway_detector :: cusum_detector where
  "gateway_detector = init_detector 5 (1 / 2) (Some 30)"

definition gateway_start :: "'r repo_ops \<Rightarrow> 'r \<Rightarrow> 'r gateway_state" where
  "gateway_start ops r =
     \<lparr>gw_detector = fst (bootstrap_detector ops gateway_detector r), gw_scorer = default_scorer,
      gw_repo = r, gw_private = [], gw_tasks = []\<rparr>"

subsection \<open>POST /v1/signals\<close>

text \<open>The loop body of the private path, for one metric of a batch of fleet \<open>f\<close>.\<close>

definition private_metric ::
  "'r repo_ops \<Rightarrow> (int \<Rightarrow> string) \<Rightarrow> clocks \<Rightarrow> inbound_batch \<Rightarrow> string \<Rightarrow> string \<times> real
    \<Rightarrow> 'r gateway_state \<times> alert_body list \<Rightarrow> 'r gateway_state \<times> alert_body list" where
  "private_metric ops isoformat clk b f mv acc =
     (case (mv, acc) of ((metric_name, value), (st, alerts)) \<Rightarrow>
       let (d, alert) = detector_update (dict_get (gw_private st) f gateway_detector) (ck_mono_ns clk)
                          (ib_model_tuple b) metric_name value (Some (ck_mono_ns clk)) (ib_suite_version b);
           st = st\<lparr>gw_private := AList.update f d (gw_private st)\<rparr>
       in case alert of
            None \<Rightarrow> (st, alerts)
          | Some a \<Rightarrow>
              (let st = st\<lparr>gw_repo := ro_save_local_alert ops (gw_repo st) (ck_utc_us clk) a
                                        (ib_client_id b) (Some f)\<rparr>;
                   st = (case ro_get_webhook ops (gw_repo st) f of
                           None \<Rightarrow> st
                         | Some config \<Rightarrow>
                             st\<lparr>gw_tasks := gw_tasks st @
                                  [(\<lparr>dn_model_tuple = da_model_tuple a, dn_metric_name = da_metric_name a,
                                     dn_alert_value = da_cusum_score a,
                                     dn_timestamp = isoformat (ck_utc_us clk) @ ''Z'', dn_fleet_id = f\<rparr>,
                                    config)]\<rparr>)
               in (st, alerts @ [alert_to_body a])))"

definition private_path ::
  "'r repo_ops \<Rightarrow> (int \<Rightarrow> string) \<Rightarrow> clocks \<Rightarrow> inbound_batch \<Rightarrow> string \<Rightarrow> 'r gateway_state
    \<Rightarrow> 'r gateway_state \<times> alert_body list" where
  "private_path ops isoformat clk b f st =
     (let st = (if map_of (gw_private st) f = None
                then st\<lparr>gw_private := AList.update f gateway_detector (gw_private st)\<rparr> else st)
      in fold (private_metric ops isoformat clk b f) (ib_metrics b) (st, []))"

text \<open>The candidate a local alert becomes; its time is left unset.\<close>

definition candidate_of :: "drift_alert \<Rightarrow> string \<Rightarrow> change_point_result" where
  "candidate_of a client_id =
     \<lparr>cp_model_tuple = da_model_tuple a, cp_change_detected = True, cp_score = da_cusum_score a,
      cp_threshold = da_threshold a, cp_contributing_orgs = [client_id],
      cp_metric_name = da_metric_name a, cp_timestamp_ns = 0, cp_suite_version = da_suite_version a\<rparr>"

text \<open>The quorum check of one local alert, once its candidate is recorded.\<close>

definition quorum_check ::
  "'r repo_ops \<Rightarrow> clocks \<Rightarrow> drift_alert \<Rightarrow> 'r gateway_state \<Rightarrow> py_error + 'r gateway_state" where
  "quorum_check ops clk a st =
     (case promote_to_public_alert (gw_scorer st) (ck_time_ns clk) (da_model_tuple a) (da_metric_name a)
             (da_suite_version a) of
        Inl e \<Rightarrow> Inl e
      | Inr (sc, None) \<Rightarrow> Inr (st\<lparr>gw_scorer := sc\<rparr>)
      | Inr (sc, Some org_count) \<Rightarrow>
          Inr (st\<lparr>gw_scorer := scorer_clear sc (da_model_tuple a) (da_metric_name a) (da_suite_version a),
                  gw_repo := ro_save_public_alert ops (gw_repo st) (ck_utc_us clk) (da_model_tuple a)
                               (da_metric_name a) (int org_count)\<rparr>))"

text \<open>The loop body of the public path; after an exception the loop is over.\<close>

definition public_metric ::
  "'r repo_ops \<Rightarrow> clocks \<Rightarrow> inbound_batch \<Rightarrow> string \<times> real
    \<Rightarrow> 'r gateway_state \<times> (py_error + alert_body list) \<Rightarrow> 'r gateway_state \<times> (py_error + alert_body list)" where
  "public_metric ops clk b mv acc =
     (case (mv, acc) of
        (_, (st, Inl e)) \<Rightarrow> (st, Inl e)
      | ((metric_name, value), (st, Inr alerts)) \<Rightarrow>
       let st = st\<lparr>gw_scorer := scorer_observe (gw_scorer st) (ck_time_ns clk) (ib_model_tuple b)
                                  metric_name (ib_client_id b) None (ib_suite_version b)\<rparr>;
           (d, alert) = detector_update (gw_detector st) (ck_mono_ns clk) (ib_model_tuple b) metric_name value
                          (Some (ck_mono_ns clk)) (ib_suite_version b);
           st = st\<lparr>gw_detector := d\<rparr>
       in case alert of
            None \<Rightarrow> (st, Inr alerts)
          | Some a \<Rightarrow>
              (let st = st\<lparr>gw_repo := ro_save_local_alert ops (gw_repo st) (ck_utc_us clk) a (ib_client_id b) None\<rparr>;
                   st = st\<lparr>gw_scorer := scorer_ingest (gw_scorer st) (ck_time_ns clk)
                                          (candidate_of a (ib_client_id b))\<rparr>
               in case quorum_check ops clk a st of
                    Inl e \<Rightarrow> (st, Inl e)
                  | Inr st \<Rightarrow> (st, Inr (alerts @ [alert_to_body a]))))"

definition public_path ::
  "'r repo_ops \<Rightarrow> clocks \<Rightarrow> inbound_batch \<Rightarrow> 'r gateway_state \<Rightarrow> 'r gateway_state \<times> (py_error + alert_body list)" where
  "public_path ops clk b st = fold (public_metric ops clk b) (ib_metrics b) (st, Inr [])"

definition accept_batch ::
  "'r repo_ops \<Rightarrow> (int \<Rightarrow> string) \<Rightarrow> clocks \<Rightarrow> inbound_batch \<Rightarrow> 'r gateway_state
    \<Rightarrow> 'r gateway_state \<times> (py_error + alert_body list)" where
  "accept_batch ops isoformat clk b st =
     (let st = st\<lparr>gw_repo := ro_save_batch ops (gw_repo st) (ck_utc_us clk) b\<rparr>
      in case ib_fleet_id b of
           Some f \<Rightarrow> (let (st, alerts) = private_path ops isoformat clk b f st in (st, Inr alerts))
         | None \<Rightarrow> public_path ops clk b st)"

definition ingest_signals ::
  "'r repo_ops \<Rightarrow> (int \<Rightarrow> string) \<Rightarrow> (bytes \<Rightarrow> string \<Rightarrow> string \<Rightarrow> bool) \<Rightarrow> (bytes \<Rightarrow> inbound_batch option)
    \<Rightarrow> clocks \<Rightarrow> bytes \<Rightarrow> string \<Rightarrow> string \<Rightarrow> 'r gateway_state \<Rightarrow> response \<times> 'r gateway_state" where
  "ingest_signals ops isoformat verified parse clk raw_bytes x_signature x_public_key st =
     (if \<not> verified raw_bytes x_signature x_public_key
      then (Rejected 401 ''signature_verification_failed'', st)
      else case model_validate_json parse raw_bytes of
             Inl (ValueError m) \<Rightarrow> (Rejected 422 ''schema_validation_failed'', st)
           | Inl e \<Rightarrow> (ServerError e, st)
           | Inr b \<Rightarrow>
               if ro_has_batch ops (gw_repo st) (ib_batch_id b)
               then (Rejected 409 ''duplicate_batch'', st)
               else (case accept_batch ops isoformat clk b st of
                       (st, Inl e) \<Rightarrow> (ServerError e, st)
                     | (st, Inr alerts) \<Rightarrow> (Ingested (ib_batch_id b) (ib_result_count b) alerts, st)))"

subsection \<open>POST /v1/webhooks\<close>

definition register_webhook_endpoint ::
  "'r repo_ops \<Rightarrow> string option \<Rightarrow> (bytes \<Rightarrow> webhook_registration option) \<Rightarrow> string \<Rightarrow> bytes
    \<Rightarrow> 'r gateway_state \<Rightarrow> response \<times> 'r gateway_state" where
  "register_webhook_endpoint ops env_token parse x_admin_token raw_bytes st =
     (let admin_token = (case env_token of Some t \<Rightarrow> t | None \<Rightarrow> ''seismograph-admin'')
      in if x_admin_token \<noteq> admin_token then (Rejected 401 ''unauthorized'', st)
         else case (case parse raw_bytes of None \<Rightarrow> Inl (ValueError ''invalid JSON or field types'')
                    | Some w \<Rightarrow> validate_webhook w) of
                Inl e \<Rightarrow> (Rejected 422 ''schema_validation_failed'', st)
              | Inr w \<Rightarrow>
                  (case ro_register_webhook ops (gw_repo st) (wh_fleet_id w) (wh_target_url w) (wh_auth_token w) of
                     Inl e \<Rightarrow> (ServerError e, st)
                   | Inr r \<Rightarrow> (Registered (wh_fleet_id w), st\<lparr>gw_repo := r\<rparr>)))"

subsection \<open>Requests\<close>

datatype request =
    PostSignals clocks bytes string string
  | PostWebhook "string option" string bytes

fun gateway_step ::
  "'r repo_ops \<Rightarrow> (int \<Rightarrow> string) \<Rightarrow> (bytes \<Rightarrow> string \<Rightarrow> string \<Rightarrow> bool) \<Rightarrow> (bytes \<Rightarrow> inbound_batch option)
    \<Rightarrow> (bytes \<Rightarrow> webhook_registration option) \<Rightarrow> request \<Rightarrow> 'r gateway_state \<Rightarrow> 'r gateway_state" where
  "gateway_step ops isoformat verified parse parse_wh (PostSignals clk raw sig pk) st =
     snd (ingest_signals ops isoformat verified parse clk raw sig pk st)"
| "gateway_step ops isoformat verified parse parse_wh (PostWebhook env token raw) st =
     snd (register_webhook_endpoint ops env parse_wh token raw st)"

subsection \<open>Frames of the two paths\<close>

lemma alert_labels:
  assumes "detector_update d clk mt mn v ts sv = (d', Some a)"
  shows "da_model_tuple a = mt \<and> da_metric_name a = mn \<and> da_suite_version a = sv"
  using assms
  by (auto simp: detector_update_def update_stream_def make_alert_def Let_def
      split: option.splits prod.splits if_splits)

text \<open>What the private path of fleet \<open>f\<close> may change, and what the public path may not.\<close>

definition private_frame :: "string \<Rightarrow> 'r gateway_state \<Rightarrow> 'r gateway_state \<Rightarrow> bool" where
  "private_frame f st st' \<longleftrightarrow>
     gw_detector st' = gw_detector st \<and> gw_scorer st' = gw_scorer st
     \<and> (\<forall>g. g \<noteq> f \<longrightarrow> map_of (gw_private st') g = map_of (gw_private st) g)"

lemma private_metric_frame: "private_frame f st (fst (private_metric ops isoformat clk b f mv (st, alerts)))"
  by (auto simp: private_frame_def private_metric_def Let_def split: prod.splits option.splits)

lemma private_frame_trans: "private_frame f a b \<Longrightarrow> private_frame f b c \<Longrightarrow> private_frame f a c"
  by (auto simp: private_frame_def)

lemma private_fold_frame:
  "private_frame f st (fst (fold (private_metric ops isoformat clk b f) mvs (st, alerts)))"
proof (induction mvs arbitrary: st alerts)
  case (Cons mv mvs)
  obtain st1 al1 where step: "private_metric ops isoformat clk b f mv (st, alerts) = (st1, al1)" by fastforce
  with private_metric_frame [of f st ops isoformat clk b mv alerts] have "private_frame f st st1" by simp
  with Cons [of st1 al1] show ?case by (auto simp: step intro: private_frame_trans)
qed (simp add: private_frame_def)

lemma private_path_frame: "private_frame f st (fst (private_path ops isoformat clk b f st))"
proof -
  have "private_frame f st (if map_of (gw_private st) f = None
      then st\<lparr>gw_private := AList.update f gateway_detector (gw_private st)\<rparr> else st)"
    by (auto simp: private_frame_def)
  then show ?thesis unfolding private_path_def Let_def by (rule private_frame_trans [OF _ private_fold_frame])
qed

lemma public_metric_frame:
  "gw_private (fst (public_metric ops clk b mv acc)) = gw_private (fst acc)
   \<and> gw_tasks (fst (public_metric ops clk b mv acc)) = gw_tasks (fst acc)"
  by (auto simp: public_metric_def quorum_check_def Let_def
      split: prod.splits option.splits sum.splits)

lemma public_path_frame:
  "gw_private (fst (public_path ops clk b st)) = gw_private st
   \<and> gw_tasks (fst (public_path ops clk b st)) = gw_tasks st"
proof -
  have "gw_private (fst (fold (public_metric ops clk b) mvs acc)) = gw_private (fst acc)
      \<and> gw_tasks (fst (fold (public_metric ops clk b) mvs acc)) = gw_tasks (fst acc)" for mvs acc
    by (induction mvs arbitrary: acc) (simp_all add: public_metric_frame)
  then show ?thesis by (simp add: public_path_def)
qed

subsection \<open>What every backend guarantees\<close>

context signal_store
begin

text \<open>The repository after one metric: only alerts are written, and on the private path no public one.\<close>

lemma private_metric_repo:
  "stored (gw_repo (fst (private_metric ops isoformat clk b f mv acc))) = stored (gw_repo (fst acc))
   \<and> publics (gw_repo (fst (private_metric ops isoformat clk b f mv acc))) = publics (gw_repo (fst acc))"
  by (auto simp: private_metric_def Let_def stored_save_local publics_save_local
      split: prod.splits option.splits)

lemma private_path_repo:
  "stored (gw_repo (fst (private_path ops isoformat clk b f st))) = stored (gw_repo st)
   \<and> publics (gw_repo (fst (private_path ops isoformat clk b f st))) = publics (gw_repo st)"
proof -
  have "stored (gw_repo (fst (fold (private_metric ops isoformat clk b f) mvs acc))) = stored (gw_repo (fst acc))
    \<and> publics (gw_repo (fst (fold (private_metric ops isoformat clk b f) mvs acc))) = publics (gw_repo (fst acc))"
    for mvs acc
    by (induction mvs arbitrary: acc) (simp_all add: private_metric_repo)
  then show ?thesis by (simp add: private_path_def Let_def)
qed

lemma public_metric_stored:
  "stored (gw_repo (fst (public_metric ops clk b mv acc))) = stored (gw_repo (fst acc))"
  by (auto simp: public_metric_def quorum_check_def Let_def stored_save_local stored_save_public
      split: prod.splits option.splits sum.splits)

lemma public_path_stored: "stored (gw_repo (fst (public_path ops clk b st))) = stored (gw_repo st)"
proof -
  have "stored (gw_repo (fst (fold (public_metric ops clk b) mvs acc))) = stored (gw_repo (fst acc))" for mvs acc
    by (induction mvs arbitrary: acc) (simp_all add: public_metric_stored)
  then show ?thesis by (simp add: public_path_def)
qed

lemma accept_batch_stored:
  "stored (gw_repo (fst (accept_batch ops isoformat clk b st))) =
     stored (gw_repo st) @ [(ib_fleet_id b, batch_row (stamp (ck_utc_us clk)) b)]"
proof (cases "ib_fleet_id b")
  case None
  then show ?thesis by (simp add: accept_batch_def Let_def public_path_stored stored_save_batch)
next
  case (Some f)
  let ?st = "st\<lparr>gw_repo := ro_save_batch ops (gw_repo st) (ck_utc_us clk) b\<rparr>"
  have "stored (gw_repo (fst (private_path ops isoformat clk b f ?st))) = stored (gw_repo ?st)"
    using private_path_repo by blast
  with Some show ?thesis
    by (simp add: accept_batch_def Let_def split_beta stored_save_batch)
qed

text \<open>A request either changes nothing it stores or appends one new batch.\<close>

lemma ingest_stored:
  assumes "ingest_signals ops isoformat verified parse clk raw sig pk st = (resp, st')"
  shows "st' = st \<or> (\<exists>b. parse raw = Some b \<and> verified raw sig pk
      \<and> \<not> ro_has_batch ops (gw_repo st) (ib_batch_id b)
      \<and> stored (gw_repo st') = stored (gw_repo st) @ [(ib_fleet_id b, batch_row (stamp (ck_utc_us clk)) b)])"
  using assms accept_batch_stored [of isoformat clk _ st]
  by (auto simp: ingest_signals_def model_validate_json_ok split: if_splits sum.splits py_error.splits prod.splits)
     (metis fst_conv)+

lemma step_stored:
  "stored (gw_repo (gateway_step ops isoformat verified parse parse_wh rq st)) = stored (gw_repo st)
   \<or> (\<exists>s. stored (gw_repo (gateway_step ops isoformat verified parse parse_wh rq st)) = stored (gw_repo st) @ [s]
        \<and> \<not> ro_has_batch ops (gw_repo st) (sr_batch_id (snd s)))"
proof (cases rq)
  case (PostSignals clk raw sig pk)
  then show ?thesis
    using ingest_stored [of isoformat verified parse clk raw sig pk st]
    by (cases "ingest_signals ops isoformat verified parse clk raw sig pk st") (force simp: batch_row_def)
next
  case (PostWebhook env token raw)
  then show ?thesis
    by (auto simp: register_webhook_endpoint_def Let_def split: sum.splits option.splits if_splits
        dest: register_frame)
qed

lemma ids_stay_distinct:
  assumes "distinct (map (\<lambda>s. sr_batch_id (snd s)) (stored (gw_repo st)))"
  shows "distinct (map (\<lambda>s. sr_batch_id (snd s))
           (stored (gw_repo (fold (gateway_step ops isoformat verified parse parse_wh) rqs st))))"
  using assms
proof (induction rqs arbitrary: st)
  case (Cons rq rqs)
  have "distinct (map (\<lambda>s. sr_batch_id (snd s)) (stored (gw_repo (gateway_step ops isoformat verified parse parse_wh rq st))))"
    using step_stored [of isoformat verified parse parse_wh rq st] Cons.prems by (fastforce simp: has_batch_iff)
  with Cons.IH show ?case by simp
qed simp

lemma has_batch_persists:
  "ro_has_batch ops (gw_repo st) i \<Longrightarrow>
   ro_has_batch ops (gw_repo (fold (gateway_step ops isoformat verified parse parse_wh) rqs st)) i"
proof (induction rqs arbitrary: st)
  case (Cons rq rqs)
  have "ro_has_batch ops (gw_repo (gateway_step ops isoformat verified parse parse_wh rq st)) i"
    using step_stored [of isoformat verified parse parse_wh rq st] Cons.prems by (auto simp: has_batch_iff)
  with Cons.IH show ?case by simp
qed simp

lemma replay_rejected:
  assumes "ingest_signals ops isoformat verified parse clk raw sig pk st = (Ingested i n alerts, st1)"
    and "st2 = fold (gateway_step ops isoformat verified parse parse_wh) rqs st1"
  shows "ingest_signals ops isoformat verified parse clk' raw sig' pk' st2 =
    (if verified raw sig' pk' then Rejected 409 ''duplicate_batch'' else Rejected 401 ''signature_verification_failed'',
     st2)"
proof -
  obtain b where b: "model_validate_json parse raw = Inr b"
    and acc: "accept_batch ops isoformat clk b st = (st1, Inr alerts)"
    using assms(1) by (auto simp: ingest_signals_def split: if_splits sum.splits py_error.splits prod.splits)
  have "ro_has_batch ops (gw_repo st1) (ib_batch_id b)"
    using accept_batch_stored [of isoformat clk b st] by (simp add: acc has_batch_iff batch_row_def)
  then have "ro_has_batch ops (gw_repo st2) (ib_batch_id b)"
    unfolding assms(2) by (rule has_batch_persists)
  with b show ?thesis by (simp add: ingest_signals_def)
qed

end

subsection \<open>Public alerts are backed by stored local alerts\<close>

text \<open>
  Every candidate the scorer holds has a public-path local alert of the same client, model and
  metric in the repository, and so has each organisation a public alert counts.
\<close>

definition candidates_backed :: "(string \<times> string \<times> string \<times> string option) list \<Rightarrow> scorer \<Rightarrow> bool" where
  "candidates_backed locals sc \<longleftrightarrow>
     (\<forall>mt sv mn org. org \<in> fst ` set (agree_table sc (mt, sv, mn)) \<longrightarrow> (org, mt, mn, None) \<in> set locals)"

definition alert_backed :: "(string \<times> string \<times> string \<times> string option) list \<Rightarrow> alert_row \<Rightarrow> bool" where
  "alert_backed locals a \<longleftrightarrow>
     (\<exists>orgs. ar_contributing_org_count a = int (card orgs) \<and> 3 \<le> card orgs
       \<and> (\<lambda>org. (org, ar_model_tuple a, ar_metric_name a, None)) ` orgs \<subseteq> set locals)"

definition default_policy :: "scorer \<Rightarrow> bool" where
  "default_policy sc \<longleftrightarrow> sc_floor sc = 3 \<and> sc_frac_num sc = 1 \<and> sc_frac_den sc = 3"

lemma candidates_backed_mono:
  "candidates_backed locals sc \<Longrightarrow> set locals \<subseteq> set locals' \<Longrightarrow> candidates_backed locals' sc"
  by (fastforce simp: candidates_backed_def)

lemma alert_backed_mono: "alert_backed locals a \<Longrightarrow> set locals \<subseteq> set locals' \<Longrightarrow> alert_backed locals' a"
  by (fastforce simp: alert_backed_def)

lemma candidates_backed_observe [simp]:
  "candidates_backed locals (scorer_observe sc now mt mn org ts sv) = candidates_backed locals sc"
  by (simp add: candidates_backed_def)

lemma candidates_backed_ingest:
  assumes "candidates_backed locals sc" and "(c, da_model_tuple a, da_metric_name a, None) \<in> set locals"
  shows "candidates_backed locals (scorer_ingest sc now (candidate_of a c))"
  unfolding candidates_backed_def
proof (intro allI impI)
  fix mt sv mn org
  assume "org \<in> fst ` set (agree_table (scorer_ingest sc now (candidate_of a c)) (mt, sv, mn))"
  then have "org \<in> fst ` set (agree_table sc (mt, sv, mn)) \<or>
      (org = c \<and> mt = da_model_tuple a \<and> mn = da_metric_name a)"
    using agree_step [of "Ingest (candidate_of a c) now" sc "(mt, sv, mn)"]
    by (auto simp: candidate_of_def cp_key_def split: if_splits)
  then show "(org, mt, mn, None) \<in> set locals" using assms unfolding candidates_backed_def by blast
qed

lemma candidates_backed_clear: "candidates_backed locals sc \<Longrightarrow> candidates_backed locals (scorer_clear sc mt mn sv)"
  by (auto simp: candidates_backed_def)

lemma candidates_backed_promote:
  "candidates_backed locals sc \<Longrightarrow> promote_to_public_alert sc now mt mn sv = Inr (sc', c) \<Longrightarrow>
   candidates_backed locals sc'"
  using candidates_backed_clear by (auto dest!: promote_cases)

lemma default_policy_simps [simp]:
  "default_policy (scorer_observe sc now mt mn org ts sv) = default_policy sc"
  "default_policy (scorer_ingest sc now r) = default_policy sc"
  "default_policy (scorer_clear sc mt mn sv) = default_policy sc"
  by (simp_all add: default_policy_def scorer_ingest_eq)

lemma promote_alert_backed:
  assumes "candidates_backed locals sc" and "default_policy sc"
    and "promote_to_public_alert sc now mt mn sv = Inr (sc', Some c)"
  shows "alert_backed locals \<lparr>ar_timestamp = t, ar_model_tuple = mt, ar_metric_name = mn,
           ar_contributing_org_count = int c\<rparr>"
proof -
  let ?orgs = "live_orgs sc (agree_table sc (mt, sv, mn)) now"
  have "card ?orgs = c" "3 \<le> c"
    using promote_Some [OF assms(3)] assms(2) by (simp_all add: default_policy_def)
  moreover have "(org, mt, mn, None) \<in> set locals" if "org \<in> ?orgs" for org
    using that assms(1) by (force simp: live_orgs_iff candidates_backed_def)
  ultimately show ?thesis unfolding alert_backed_def by (intro exI [of _ ?orgs]) (simp add: image_subset_iff)
qed

text \<open>Every scheduled webhook task goes to the registration of the fleet it is about.\<close>

definition tasks_addressed :: "'r gateway_state \<Rightarrow> bool" where
  "tasks_addressed st \<longleftrightarrow> (\<forall>(n, config)\<in>set (gw_tasks st). wc_fleet_id config = dn_fleet_id n)"

context signal_store
begin

definition gateway_inv :: "'r gateway_state \<Rightarrow> bool" where
  "gateway_inv st \<longleftrightarrow> default_policy (gw_scorer st) \<and> candidates_backed (locals (gw_repo st)) (gw_scorer st)
     \<and> (\<forall>a\<in>set (publics (gw_repo st)). alert_backed (locals (gw_repo st)) a) \<and> tasks_addressed st"

lemma gateway_inv_save_batch:
  "gateway_inv st \<Longrightarrow> gateway_inv (st\<lparr>gw_repo := ro_save_batch ops (gw_repo st) now b\<rparr>)"
  by (simp add: gateway_inv_def locals_save_batch publics_save_batch tasks_addressed_def)

lemma gateway_inv_save_local:
  assumes "gateway_inv st"
  shows "gateway_inv (st\<lparr>gw_repo := ro_save_local_alert ops (gw_repo st) now a c f\<rparr>)"
proof -
  have more: "set (locals (gw_repo st)) \<subseteq> set (locals (ro_save_local_alert ops (gw_repo st) now a c f))"
    by (auto simp: locals_save_local)
  show ?thesis
    using assms candidates_backed_mono [OF _ more] alert_backed_mono [OF _ more]
    by (simp add: gateway_inv_def publics_save_local tasks_addressed_def)
qed

lemma gateway_inv_add_task:
  "gateway_inv st \<Longrightarrow> wc_fleet_id config = dn_fleet_id n \<Longrightarrow>
   gateway_inv (st\<lparr>gw_tasks := gw_tasks st @ [(n, config)]\<rparr>)"
  by (auto simp: gateway_inv_def tasks_addressed_def)

lemma private_metric_inv:
  assumes "gateway_inv (fst acc)"
  shows "gateway_inv (fst (private_metric ops isoformat clk b f mv acc))"
proof -
  obtain st alerts where acc: "acc = (st, alerts)" by (cases acc)
  obtain mn v where mv: "mv = (mn, v)" by (cases mv)
  obtain d alert where upd: "detector_update (dict_get (gw_private st) f gateway_detector) (ck_mono_ns clk)
      (ib_model_tuple b) mn v (Some (ck_mono_ns clk)) (ib_suite_version b) = (d, alert)" by fastforce
  let ?st1 = "st\<lparr>gw_private := AList.update f d (gw_private st)\<rparr>"
  have inv1: "gateway_inv ?st1" using assms acc by (simp add: gateway_inv_def tasks_addressed_def)
  show ?thesis
  proof (cases alert)
    case None
    then show ?thesis using inv1 by (simp add: private_metric_def acc mv upd)
  next
    case (Some a)
    let ?st2 = "?st1\<lparr>gw_repo := ro_save_local_alert ops (gw_repo ?st1) (ck_utc_us clk) a (ib_client_id b) (Some f)\<rparr>"
    have inv2: "gateway_inv ?st2" by (rule gateway_inv_save_local [OF inv1])
    show ?thesis
    proof (cases "ro_get_webhook ops (gw_repo ?st2) f")
      case None
      then show ?thesis using inv2 Some by (simp add: private_metric_def acc mv upd Let_def)
    next
      case config: (Some config)
      then have "wc_fleet_id config = f" by (rule webhook_fleet)
      then have "gateway_inv (?st2\<lparr>gw_tasks := gw_tasks ?st2 @
          [(\<lparr>dn_model_tuple = da_model_tuple a, dn_metric_name = da_metric_name a,
             dn_alert_value = da_cusum_score a, dn_timestamp = isoformat (ck_utc_us clk) @ ''Z'',
             dn_fleet_id = f\<rparr>, config)]\<rparr>)"
        by (intro gateway_inv_add_task inv2) simp
      then show ?thesis using Some config by (simp add: private_metric_def acc mv upd Let_def)
    qed
  qed
qed

lemma quorum_check_inv:
  assumes "gateway_inv st" and "quorum_check ops clk a st = Inr st'"
  shows "gateway_inv st'"
proof -
  let ?promote = "promote_to_public_alert (gw_scorer st) (ck_time_ns clk) (da_model_tuple a)
      (da_metric_name a) (da_suite_version a)"
  obtain sc c where p: "?promote = Inr (sc, c)" using assms(2) by (auto simp: quorum_check_def split: sum.splits)
  have sc: "candidates_backed (locals (gw_repo st)) sc" "default_policy sc"
    using assms(1) candidates_backed_promote [OF _ p] promote_cases [OF p] by (auto simp: gateway_inv_def)
  show ?thesis
  proof (cases c)
    case None
    with assms p sc show ?thesis by (auto simp: quorum_check_def gateway_inv_def tasks_addressed_def)
  next
    case (Some n)
    have "alert_backed (locals (gw_repo st)) \<lparr>ar_timestamp = stamp (ck_utc_us clk),
        ar_model_tuple = da_model_tuple a, ar_metric_name = da_metric_name a, ar_contributing_org_count = int n\<rparr>"
      using assms(1) p Some by (intro promote_alert_backed) (auto simp: gateway_inv_def)
    with Some assms p sc show ?thesis
      by (auto simp: quorum_check_def gateway_inv_def tasks_addressed_def publics_save_public locals_save_public
          candidates_backed_clear)
  qed
qed

lemma public_metric_inv:
  assumes "gateway_inv (fst acc)"
  shows "gateway_inv (fst (public_metric ops clk b mv acc))"
proof (cases "snd acc")
  case (Inl e)
  then show ?thesis using assms by (cases mv; cases acc) (simp add: public_metric_def)
next
  case (Inr alerts)
  obtain st where acc: "acc = (st, Inr alerts)" using Inr by (cases acc) simp
  obtain mn v where mv: "mv = (mn, v)" by (cases mv)
  let ?st1 = "st\<lparr>gw_scorer := scorer_observe (gw_scorer st) (ck_time_ns clk) (ib_model_tuple b) mn
      (ib_client_id b) None (ib_suite_version b)\<rparr>"
  obtain d alert where upd: "detector_update (gw_detector st) (ck_mono_ns clk) (ib_model_tuple b) mn v
      (Some (ck_mono_ns clk)) (ib_suite_version b) = (d, alert)" by fastforce
  let ?st2 = "?st1\<lparr>gw_detector := d\<rparr>"
  have inv2: "gateway_inv ?st2" using assms acc by (simp add: gateway_inv_def tasks_addressed_def)
  show ?thesis
  proof (cases alert)
    case None
    then show ?thesis using inv2 by (simp add: public_metric_def acc mv upd)
  next
    case (Some a)
    let ?st3 = "?st2\<lparr>gw_repo := ro_save_local_alert ops (gw_repo ?st2) (ck_utc_us clk) a (ib_client_id b) None\<rparr>"
    let ?st4 = "?st3\<lparr>gw_scorer := scorer_ingest (gw_scorer ?st3) (ck_time_ns clk)
        (candidate_of a (ib_client_id b))\<rparr>"
    have "gateway_inv ?st3" using gateway_inv_save_local [OF inv2] .
    moreover have "(ib_client_id b, da_model_tuple a, da_metric_name a, None) \<in> set (locals (gw_repo ?st3))"
      by (simp add: locals_save_local)
    ultimately have inv4: "gateway_inv ?st4"
      by (simp add: gateway_inv_def tasks_addressed_def candidates_backed_ingest)
    show ?thesis
    proof (cases "quorum_check ops clk a ?st4")
      case (Inl e)
      then show ?thesis using inv4 Some by (simp add: public_metric_def acc mv upd Let_def)
    next
      case (Inr st5)
      then have "gateway_inv st5" by (rule quorum_check_inv [OF inv4])
      then show ?thesis using Inr Some by (simp add: public_metric_def acc mv upd Let_def)
    qed
  qed
qed

lemma accept_batch_inv: "gateway_inv st \<Longrightarrow> gateway_inv (fst (accept_batch ops isoformat clk b st))"
proof -
  assume inv: "gateway_inv st"
  let ?st = "st\<lparr>gw_repo := ro_save_batch ops (gw_repo st) (ck_utc_us clk) b\<rparr>"
  have inv1: "gateway_inv ?st" by (rule gateway_inv_save_batch [OF inv])
  have pub: "gateway_inv (fst acc) \<Longrightarrow> gateway_inv (fst (fold (public_metric ops clk b) mvs acc))" for mvs acc
    by (induction mvs arbitrary: acc) (simp_all add: public_metric_inv)
  have priv: "gateway_inv (fst acc) \<Longrightarrow> gateway_inv (fst (fold (private_metric ops isoformat clk b f) mvs acc))"
    for mvs acc f
    by (induction mvs arbitrary: acc) (simp_all add: private_metric_inv)
  have "gateway_inv (fst (private_path ops isoformat clk b f ?st))" for f
    unfolding private_path_def Let_def using inv1
    by (intro priv) (auto simp: gateway_inv_def tasks_addressed_def)
  then show ?thesis
    using inv1 pub by (auto simp: accept_batch_def Let_def public_path_def split_beta split: option.splits)
qed

lemma step_inv:
  "gateway_inv st \<Longrightarrow> gateway_inv (gateway_step ops isoformat verified parse parse_wh rq st)"
proof (cases rq)
  case (PostSignals clk raw sig pk)
  assume inv: "gateway_inv st"
  have "fst (accept_batch ops isoformat clk b st) = st' \<Longrightarrow> gateway_inv st'" for b st'
    using accept_batch_inv [OF inv] by blast
  with inv PostSignals show ?thesis
    by (auto simp: ingest_signals_def split: sum.splits py_error.splits prod.splits) (metis fst_conv)+
next
  case (PostWebhook env token raw)
  assume "gateway_inv st"
  with PostWebhook show ?thesis
    by (auto simp: register_webhook_endpoint_def Let_def gateway_inv_def tasks_addressed_def
        split: sum.splits option.splits dest: register_frame)
qed

lemma run_inv: "gateway_inv st \<Longrightarrow> gateway_inv (fold (gateway_step ops isoformat verified parse parse_wh) rqs st)"
  by (induction rqs arbitrary: st) (simp_all add: step_inv)

lemma start_inv: "publics r = [] \<Longrightarrow> gateway_inv (gateway_start ops r)"
  by (simp add: gateway_inv_def gateway_start_def default_policy_def default_scorer_def init_scorer_def
      QUORUM_FLOOR_def QUORUM_FRAC_NUM_def QUORUM_FRAC_DEN_def candidates_backed_def agree_table_def
      dict_get_def tasks_addressed_def)

end

subsection \<open>Properties\<close>

text \<open>C3: Each signed batch is ingested at most once. Whatever requests a gateway started on an empty
  database has served, the stored batch ids are distinct; and once a body was ingested, sending
  it again, after any further requests and under any signature, is refused (409, or 401 when
  the signature is bad) and changes no detector, scorer, table or task.\<close>

theorem batch_ingested_at_most_once:
  assumes "st = fold (gateway_step sqlite_ops isoformat verified parse parse_wh) rqs (gateway_start sqlite_ops empty_db)"
    and "ingest_signals sqlite_ops isoformat verified parse clk raw sig pk st = (Ingested i n alerts, st1)"
    and "st2 = fold (gateway_step sqlite_ops isoformat verified parse parse_wh) later st1"
  shows "distinct (map tl_batch_id (db_signals (gw_repo st2)))
    \<and> ingest_signals sqlite_ops isoformat verified parse clk' raw sig' pk' st2 =
       (if verified raw sig' pk' then Rejected 409 ''duplicate_batch''
        else Rejected 401 ''signature_verification_failed'', st2)"
proof -
  have "st1 = gateway_step sqlite_ops isoformat verified parse parse_wh (PostSignals clk raw sig pk) st"
    using assms(2) by simp
  then have st2: "st2 = fold (gateway_step sqlite_ops isoformat verified parse parse_wh)
      (rqs @ PostSignals clk raw sig pk # later) (gateway_start sqlite_ops empty_db)"
    using assms(1,3) by simp
  have "distinct (map (\<lambda>s. sr_batch_id (snd s)) (sqlite_stored (gw_repo (gateway_start sqlite_ops empty_db))))"
    by (simp add: gateway_start_def sqlite_stored_def empty_db_def)
  then have "distinct (map (\<lambda>s. sr_batch_id (snd s)) (sqlite_stored (gw_repo st2)))"
    unfolding st2 by (rule sqlite.ids_stay_distinct)
  then have "distinct (map tl_batch_id (db_signals (gw_repo st2)))"
    by (simp add: sqlite_stored_def o_def row_of_signal_def)
  then show ?thesis using sqlite.replay_rejected [OF assms(2,3)] by blast
qed

text \<open>A gateway that accepts every signature and decodes every body to one public batch.\<close>

definition example_clocks :: clocks where
  "example_clocks = \<lparr>ck_mono_ns = 5, ck_time_ns = 6, ck_utc_us = 7\<rparr>"

lemma example_batch_valid: "validate_batch (example_batch i fleet) = Inr (example_batch i fleet)"
  by (simp add: validate_batch_def field_constraints_def check_window_order_def dt_ge_def dt_utc_def naive_def
      check_metrics_keys_def check_canary_hash_format_def allowed_metric_keys_def example_batch_def)

lemma example_ingested:
  "\<exists>st1. ingest_signals sqlite_ops (\<lambda>t. []) (\<lambda>raw sig pk. True) (\<lambda>raw. Some (example_batch ''a'' None)) example_clocks
           [1] ''s'' ''k'' (gateway_start sqlite_ops empty_db) = (Ingested ''a'' 50 [], st1)"
  by (simp add: ingest_signals_def model_validate_json_def example_batch_valid sqlite_reads)
     (simp add: gateway_start_def empty_db_def has_batch_def accept_batch_def public_path_def example_batch_def
      public_metric_def gateway_detector_def bootstrap_detector_def sqlite_reads get_all_model_tuples_def
      detector_update_def init_detector_def fresh_stream_def init_metric_state_def update_stream_def Let_def)

theorem batch_ingested_at_most_once_witness:
  "\<exists>st1. ingest_signals sqlite_ops (\<lambda>t. []) (\<lambda>raw sig pk. True) (\<lambda>raw. Some (example_batch ''a'' None)) example_clocks
           [1] ''s2'' ''k2'' st1 = (Rejected 409 ''duplicate_batch'', st1)"
  using batch_ingested_at_most_once [of _ "\<lambda>t. []" "\<lambda>raw sig pk. True" "\<lambda>raw. Some (example_batch ''a'' None)"
      "\<lambda>raw. None" "[]" example_clocks "[1]" "''s''" "''k''" _ _ _ _ _ "[]"] example_ingested
  by fastforce

text \<open>C2: Private fleets are isolated. Accepting a batch of fleet \<open>f\<close> leaves the public detector, the
  agreement scorer, the public alerts and every other fleet's detector as they were; accepting
  a public batch leaves every fleet's detector and the webhook tasks as they were.\<close>

theorem private_fleets_isolated:
  "case ib_fleet_id b of
     Some f \<Rightarrow>
       (let st' = fst (accept_batch sqlite_ops isoformat clk b st) in
          gw_detector st' = gw_detector st \<and> gw_scorer st' = gw_scorer st
          \<and> map row_of_alert (db_public (gw_repo st')) = map row_of_alert (db_public (gw_repo st))
          \<and> (g = f \<or> map_of (gw_private st') g = map_of (gw_private st) g))
   | None \<Rightarrow>
       (let st' = fst (accept_batch sqlite_ops isoformat clk b st) in
          gw_private st' = gw_private st \<and> gw_tasks st' = gw_tasks st)"
proof (cases "ib_fleet_id b")
  case None
  then show ?thesis using public_path_frame [of sqlite_ops clk b] by (simp add: accept_batch_def Let_def)
next
  case (Some f)
  let ?st = "st\<lparr>gw_repo := ro_save_batch sqlite_ops (gw_repo st) (ck_utc_us clk) b\<rparr>"
  have "private_frame f ?st (fst (private_path sqlite_ops isoformat clk b f ?st))" by (rule private_path_frame)
  moreover have "sqlite_publics (gw_repo (fst (private_path sqlite_ops isoformat clk b f ?st))) = sqlite_publics (gw_repo ?st)"
    using sqlite.private_path_repo by blast
  ultimately show ?thesis
    using Some sqlite.publics_save_batch [of "gw_repo st" "ck_utc_us clk" b]
    by (auto simp: accept_batch_def Let_def split_beta private_frame_def sqlite_publics_def)
qed

text \<open>C1: No public alert without a quorum of stored evidence. Whatever requests a gateway started on
  an empty database has served, every public alert it stored counts \<open>c\<close> organisations, \<open>c\<close> is
  at least 3, and there are \<open>c\<close> distinct clients each with a stored public-path local alert on
  that model and metric. On both backends.\<close>

theorem public_alerts_have_quorum:
  "let db = gw_repo (fold (gateway_step sqlite_ops isoformat verified parse parse_wh) rqs
                       (gateway_start sqlite_ops empty_db));
       ch = gw_repo (fold (gateway_step (clickhouse_ops res) isoformat verified parse parse_wh) rqs
                       (gateway_start (clickhouse_ops res) empty_ch))
   in set (map row_of_alert (db_public db)) \<subseteq>
        {a. \<exists>orgs. ar_contributing_org_count a = int (card orgs) \<and> 3 \<le> card orgs
              \<and> (\<lambda>org. (org, ar_model_tuple a, ar_metric_name a, None)) ` orgs \<subseteq> set (sqlite_locals db)}
    \<and> set (ch_public ch) \<subseteq>
        {a. \<exists>orgs. ar_contributing_org_count a = int (card orgs) \<and> 3 \<le> card orgs
              \<and> (\<lambda>org. (org, ar_model_tuple a, ar_metric_name a, None)) ` orgs \<subseteq> set (ch_locals ch)}"
proof -
  let ?st = "fold (gateway_step sqlite_ops isoformat verified parse parse_wh) rqs (gateway_start sqlite_ops empty_db)"
  let ?ch = "fold (gateway_step (clickhouse_ops res) isoformat verified parse parse_wh) rqs
      (gateway_start (clickhouse_ops res) empty_ch)"
  have "sqlite.gateway_inv ?st"
    by (intro sqlite.run_inv sqlite.start_inv) (simp add: sqlite_publics_def empty_db_def)
  moreover have "clickhouse.gateway_inv ?ch"
    by (intro clickhouse.run_inv clickhouse.start_inv) (simp add: empty_ch_def)
  ultimately show ?thesis
    unfolding sqlite.gateway_inv_def clickhouse.gateway_inv_def alert_backed_def Let_def
    by (auto simp: sqlite_publics_def)
qed

text \<open>Webhook notifications never cross fleets. Whatever requests the gateway has served, every
  dispatch it scheduled is addressed to the registration of the very fleet the notification is
  about.\<close>

theorem webhook_tasks_addressed:
  "set (gw_tasks (fold (gateway_step sqlite_ops isoformat verified parse parse_wh) rqs
                   (gateway_start sqlite_ops empty_db))) \<subseteq>
     {(n, config). wc_fleet_id config = dn_fleet_id n}"
proof -
  have "sqlite.gateway_inv (fold (gateway_step sqlite_ops isoformat verified parse parse_wh) rqs
      (gateway_start sqlite_ops empty_db))"
    by (intro sqlite.run_inv sqlite.start_inv) (simp add: sqlite_publics_def empty_db_def)
  then show ?thesis by (auto simp: sqlite.gateway_inv_def tasks_addressed_def)
qed

end
