(* ===== verification/Restart.thy ===== *)
theory Restart
  imports Gateway
begin

section \<open>Restarting the gateway (bootstrap_detector)\<close>

text \<open>
  What a restart does to the public detector. \<open>bootstrap_detector\<close> replays, per model, the 50
  newest stored rows oldest first; the lemmas compute the state of every stream after it, and
  show that it is the state the gateway had before, as long as no more rows were stored and
  none of them came from a private fleet.
\<close>

subsection \<open>Re-warming replays the stored history\<close>

text \<open>The values of one metric that rows (oldest first) hold for one suite.\<close>

definition replay_values :: "signal_row list \<Rightarrow> string \<Rightarrow> string \<Rightarrow> real list" where
  "replay_values rows sv mn =
     List.map_filter (\<lambda>s. if row_suite s = sv \<and> mn \<in> set bootstrap_metrics then row_metric s mn else None) rows"

lemma replay_values_Cons:
  "replay_values (s # rows) sv mn =
     (case (if row_suite s = sv \<and> mn \<in> set bootstrap_metrics then row_metric s mn else None) of
        None \<Rightarrow> replay_values rows sv mn | Some v \<Rightarrow> v # replay_values rows sv mn)"
  by (simp add: replay_values_def map_filter_simps split: option.split)

lemma replay_values_Nil [simp]: "replay_values [] sv mn = []"
  by (simp add: replay_values_def map_filter_simps)

lemma replay_values_append: "replay_values (xs @ ys) sv mn = replay_values xs sv mn @ replay_values ys sv mn"
  by (induction xs) (auto simp: replay_values_Cons replay_values_def map_filter_simps split: option.splits)

lemma stream_of_bootstrap_signal:
  "stream_of (fst (bootstrap_signal mt i s acc)) (mt', sv, mn) =
     (if mt' = mt then fold stream_next (replay_values [s] sv mn) (stream_of (fst acc) (mt', sv, mn))
      else stream_of (fst acc) (mt', sv, mn))"
  by (cases acc; cases "row_metric s ''json_success_rate''"; cases "row_metric s ''avg_output_length''")
     (auto simp: bootstrap_signal_def bootstrap_metrics_def replay_values_def map_filter_simps
        stream_of_detector_update row_metric_def)

lemma stream_of_bootstrap_rows:
  "stream_of (fst (fold (\<lambda>(i, s). bootstrap_signal mt i s) (enumerate n rows) acc)) (mt', sv, mn) =
     (if mt' = mt then fold stream_next (replay_values rows sv mn) (stream_of (fst acc) (mt', sv, mn))
      else stream_of (fst acc) (mt', sv, mn))"
proof (induction rows arbitrary: n acc)
  case Nil
  then show ?case by (simp add: replay_values_def map_filter_simps)
next
  case (Cons s rows)
  then show ?case
    using replay_values_append [of "[s]" rows sv mn] by (simp add: stream_of_bootstrap_signal)
qed

lemma stream_of_bootstrap_models:
  "distinct mts \<Longrightarrow>
   stream_of (fst (fold (bootstrap_model ops r) mts acc)) (mt, sv, mn) =
     (if mt \<in> set mts
      then fold stream_next (replay_values (rev (ro_get_recent_signals ops r mt 50)) sv mn)
             (stream_of (fst acc) (mt, sv, mn))
      else stream_of (fst acc) (mt, sv, mn))"
  by (induction mts arbitrary: acc) (auto simp: bootstrap_model_def stream_of_bootstrap_rows)


lemma default_policy_promote:
  "default_policy sc \<Longrightarrow> \<exists>sc' c. promote_to_public_alert sc now mt mn sv = Inr (sc', c) \<and> default_policy sc'"
  using promote_no_error [of sc now mt mn sv]
  by (force simp: default_policy_def dest: promote_cases)

text \<open>The public path under the default policy: no exception, and one detector step per metric.\<close>

lemma public_metric_step:
  assumes "default_policy (gw_scorer st)"
  shows "\<exists>st' alerts'. public_metric ops clk b (mn, v) (st, Inr alerts) = (st', Inr alerts')
    \<and> default_policy (gw_scorer st')
    \<and> gw_detector st' = fst (detector_update (gw_detector st) (ck_mono_ns clk) (ib_model_tuple b) mn v
                               (Some (ck_mono_ns clk)) (ib_suite_version b))"
proof -
  obtain d alert where upd: "detector_update (gw_detector st) (ck_mono_ns clk) (ib_model_tuple b) mn v
      (Some (ck_mono_ns clk)) (ib_suite_version b) = (d, alert)" by fastforce
  show ?thesis
  proof (cases alert)
    case None
    then show ?thesis using assms by (simp add: public_metric_def upd)
  next
    case (Some a)
    let ?sc = "scorer_ingest (scorer_observe (gw_scorer st) (ck_time_ns clk) (ib_model_tuple b) mn
        (ib_client_id b) None (ib_suite_version b)) (ck_time_ns clk) (candidate_of a (ib_client_id b))"
    obtain sc' c where "promote_to_public_alert ?sc (ck_time_ns clk) (da_model_tuple a) (da_metric_name a)
        (da_suite_version a) = Inr (sc', c)" "default_policy sc'"
      using default_policy_promote [of ?sc "ck_time_ns clk" "da_model_tuple a" "da_metric_name a"
          "da_suite_version a"] assms by auto
    then show ?thesis
      using Some by (cases c) (simp_all add: public_metric_def upd Let_def quorum_check_def)
  qed
qed

lemma public_path_steps:
  assumes "default_policy (gw_scorer st)"
  shows "\<exists>st' alerts'. fold (public_metric ops clk b) mvs (st, Inr alerts) = (st', Inr alerts')
    \<and> default_policy (gw_scorer st')
    \<and> stream_of (gw_detector st') (mt, sv, mn) =
        (if ib_model_tuple b = mt \<and> ib_suite_version b = sv
         then fold stream_next (map snd (filter (\<lambda>(n, v). n = mn) mvs)) (stream_of (gw_detector st) (mt, sv, mn))
         else stream_of (gw_detector st) (mt, sv, mn))"
  using assms
proof (induction mvs arbitrary: st alerts)
  case (Cons mv mvs)
  obtain n v where mv: "mv = (n, v)" by (cases mv)
  obtain st1 al1 where step: "public_metric ops clk b (n, v) (st, Inr alerts) = (st1, Inr al1)"
    and pol: "default_policy (gw_scorer st1)"
    and d: "gw_detector st1 = fst (detector_update (gw_detector st) (ck_mono_ns clk) (ib_model_tuple b) n v
                               (Some (ck_mono_ns clk)) (ib_suite_version b))"
    using public_metric_step [OF Cons.prems, of ops clk b n v alerts] by blast
  show ?case
    using Cons.IH [OF pol, of al1] by (auto simp: mv step d stream_of_detector_update)
qed simp

lemma filter_key_map_of:
  "dict_wf d \<Longrightarrow> map snd (filter (\<lambda>(n, v). n = k) d) = (case map_of d k of None \<Rightarrow> [] | Some v \<Rightarrow> [v])"
proof (induction d)
  case (Cons p d)
  obtain n v where p: "p = (n, v)" by (cases p)
  show ?case
  proof (cases "n = k")
    case True
    then have "map_of d k = None" using Cons.prems p by (simp add: map_of_eq_None_iff)
    then show ?thesis using Cons True p by simp
  qed (use Cons p in simp)
qed simp

lemma replay_values_batch:
  "mn \<in> set bootstrap_metrics \<Longrightarrow>
   replay_values [batch_row t b] sv mn =
     (if ib_suite_version b = sv then (case map_of (ib_metrics b) mn of None \<Rightarrow> [] | Some v \<Rightarrow> [v]) else [])"
  by (auto simp: replay_values_def map_filter_simps batch_row_def row_suite_def row_metric_def
      bootstrap_metrics_def split: option.splits)

text \<open>A property of the repository that every write keeps is kept by every request.\<close>

lemma gateway_step_repo:
  assumes "\<And>r now b. P r \<Longrightarrow> P (ro_save_batch ops r now b)"
    and "\<And>r now a c f. P r \<Longrightarrow> P (ro_save_local_alert ops r now a c f)"
    and "\<And>r now mt mn n. P r \<Longrightarrow> P (ro_save_public_alert ops r now mt mn n)"
    and "\<And>r r' fl u t. P r \<Longrightarrow> ro_register_webhook ops r fl u t = Inr r' \<Longrightarrow> P r'"
    and "P (gw_repo st)"
  shows "P (gw_repo (fst (accept_batch ops isoformat clk b st)))"
    and "P (gw_repo (gateway_step ops isoformat verified parse parse_wh rq st))"
proof -
  have "P (gw_repo (fst acc)) \<Longrightarrow> P (gw_repo (fst (private_metric ops isoformat clk b f mv acc)))" for clk b f mv acc
    using assms(2) by (auto simp: private_metric_def Let_def split: prod.splits option.splits)
  then have priv: "P (gw_repo (fst acc)) \<Longrightarrow> P (gw_repo (fst (fold (private_metric ops isoformat clk b f) mvs acc)))"
    for clk b f mvs acc
    by (induction mvs arbitrary: acc) simp_all
  have "P (gw_repo (fst acc)) \<Longrightarrow> P (gw_repo (fst (public_metric ops clk b mv acc)))" for clk b mv acc
    using assms(2,3) by (auto simp: public_metric_def quorum_check_def Let_def
        split: prod.splits option.splits sum.splits)
  then have pub: "P (gw_repo (fst acc)) \<Longrightarrow> P (gw_repo (fst (fold (public_metric ops clk b) mvs acc)))"
    for clk b mvs acc
    by (induction mvs arbitrary: acc) simp_all
  have acc: "P (gw_repo (fst (accept_batch ops isoformat clk b st)))" for clk b
    using assms(1,5) priv pub
    by (auto simp: accept_batch_def private_path_def public_path_def Let_def split_beta split: option.splits)
  show "P (gw_repo (fst (accept_batch ops isoformat clk b st)))" by (rule acc)
  show "P (gw_repo (gateway_step ops isoformat verified parse parse_wh rq st))"
  proof (cases rq)
    case (PostSignals clk raw sig pk)
    have "fst (accept_batch ops isoformat clk b st) = st' \<Longrightarrow> P (gw_repo st')" for b st'
      using acc by blast
    with assms(5) PostSignals show ?thesis
      by (auto simp: ingest_signals_def split: sum.splits py_error.splits prod.splits) (metis fst_conv)+
  next
    case (PostWebhook env token raw)
    with assms(4,5) show ?thesis
      by (auto simp: register_webhook_endpoint_def Let_def split: sum.splits option.splits)
  qed
qed

lemma sqlite_writes_ok:
  "db_ok r \<Longrightarrow> db_ok (ro_save_batch sqlite_ops r now b)"
  "db_ok r \<Longrightarrow> db_ok (ro_save_local_alert sqlite_ops r now a c f)"
  "db_ok r \<Longrightarrow> db_ok (ro_save_public_alert sqlite_ops r now mt mn n)"
  "db_ok r \<Longrightarrow> ro_register_webhook sqlite_ops r fl u t = Inr r' \<Longrightarrow> db_ok r'"
  using db_step_ok [of r "SaveBatch now b"] db_step_ok [of r "SaveLocal now a c f"]
    db_step_ok [of r "SavePublic now mt mn n"] db_step_ok [of r "RegisterWebhook fl u t"]
  by (auto simp: sqlite_writes)

lemma accept_batch_db_ok: "db_ok (gw_repo st) \<Longrightarrow> db_ok (gw_repo (fst (accept_batch sqlite_ops isoformat clk b st)))"
  by (rule gateway_step_repo(1) [where P = db_ok]) (auto intro: sqlite_writes_ok)

lemma gateway_step_db_ok:
  "db_ok (gw_repo st) \<Longrightarrow> db_ok (gw_repo (gateway_step sqlite_ops isoformat verified parse parse_wh rq st))"
  by (rule gateway_step_repo(2) [where P = db_ok]) (auto intro: sqlite_writes_ok)

lemma gateway_run_db_ok:
  "db_ok (gw_repo st) \<Longrightarrow> db_ok (gw_repo (fold (gateway_step sqlite_ops isoformat verified parse parse_wh) rqs st))"
proof (induction rqs arbitrary: st)
  case (Cons rq rqs)
  have "db_ok (gw_repo (gateway_step sqlite_ops isoformat verified parse parse_wh rq st))"
    by (rule gateway_step_db_ok [OF Cons.prems])
  with Cons.IH show ?case by simp
qed simp

subsection \<open>The invariant of a running gateway\<close>

text \<open>The rows of one model, oldest first, and what the streams of its two replayed metrics hold.\<close>

definition model_rows :: "sqlite_db \<Rightarrow> string \<Rightarrow> signal_row list" where
  "model_rows db mt = map row_of_signal (filter (\<lambda>s. tl_model_tuple s = mt) (db_signals db))"

definition streams_replayed :: "string \<Rightarrow> string \<Rightarrow> string \<Rightarrow> sqlite_db gateway_state \<Rightarrow> bool" where
  "streams_replayed mt sv mn st \<longleftrightarrow>
     stream_of (gw_detector st) (mt, sv, mn) =
       fold stream_next (replay_values (model_rows (gw_repo st) mt) sv mn) (stream_of gateway_detector (mt, sv, mn))"

lemma model_rows_stored: "model_rows db mt = map snd (filter (\<lambda>s. sr_model_tuple (snd s) = mt) (sqlite_stored db))"
  by (simp add: model_rows_def sqlite_stored_def filter_map o_def row_of_signal_def)

lemma accept_batch_replayed:
  assumes "streams_replayed mt sv mn st" and "default_policy (gw_scorer st)" and "dict_wf (ib_metrics b)"
    and "ib_model_tuple b = mt \<Longrightarrow> ib_fleet_id b = None" and "mn \<in> set bootstrap_metrics"
  shows "streams_replayed mt sv mn (fst (accept_batch sqlite_ops isoformat clk b st))"
proof -
  let ?st = "st\<lparr>gw_repo := ro_save_batch sqlite_ops (gw_repo st) (ck_utc_us clk) b\<rparr>"
  let ?st' = "fst (accept_batch sqlite_ops isoformat clk b st)"
  have stored: "sqlite_stored (gw_repo ?st') =
      sqlite_stored (gw_repo st) @ [(ib_fleet_id b, batch_row (ck_utc_us clk) b)]"
    by (rule sqlite.accept_batch_stored)
  show ?thesis
  proof (cases "ib_fleet_id b")
    case (Some f)
    then have other: "ib_model_tuple b \<noteq> mt" using assms(4) by auto
    have "gw_detector ?st' = gw_detector st"
      using Some private_path_frame [of f ?st sqlite_ops isoformat clk b]
      by (simp add: accept_batch_def Let_def split_beta private_frame_def)
    with assms(1) other stored show ?thesis
      by (simp add: streams_replayed_def model_rows_stored batch_row_def)
  next
    case None
    obtain st' alerts where run: "fold (public_metric sqlite_ops clk b) (ib_metrics b) (?st, Inr []) = (st', Inr alerts)"
      and d: "stream_of (gw_detector st') (mt, sv, mn) =
        (if ib_model_tuple b = mt \<and> ib_suite_version b = sv
         then fold stream_next (map snd (filter (\<lambda>(n, v). n = mn) (ib_metrics b))) (stream_of (gw_detector ?st) (mt, sv, mn))
         else stream_of (gw_detector ?st) (mt, sv, mn))"
      using public_path_steps [of ?st sqlite_ops clk b "ib_metrics b" "[]" mt sv mn] assms(2) by auto
    have st': "?st' = st'" using None run by (simp add: accept_batch_def public_path_def Let_def)
    have rows: "model_rows (gw_repo ?st') mt = model_rows (gw_repo st) mt
        @ (if ib_model_tuple b = mt then [batch_row (ck_utc_us clk) b] else [])"
      using stored by (simp add: model_rows_stored batch_row_def)
    show ?thesis
      using assms(1) d rows
      by (auto simp: streams_replayed_def st' replay_values_append replay_values_batch [OF assms(5)]
          filter_key_map_of [OF assms(3)] split: option.splits)
  qed
qed

lemma register_replayed:
  assumes "streams_replayed mt sv mn st"
  shows "streams_replayed mt sv mn (snd (register_webhook_endpoint sqlite_ops env parse_wh token raw st))"
  using assms
  by (auto simp: register_webhook_endpoint_def Let_def sqlite_writes streams_replayed_def model_rows_def
      register_webhook_def split: sum.splits option.splits)

lemma gateway_run_replayed:
  assumes "streams_replayed mt sv mn st" and "sqlite.gateway_inv st"
    and "\<And>raw b. parse raw = Some b \<Longrightarrow> dict_wf (ib_metrics b)"
    and "\<And>raw b. parse raw = Some b \<Longrightarrow> ib_model_tuple b = mt \<Longrightarrow> ib_fleet_id b = None"
    and "mn \<in> set bootstrap_metrics"
  shows "streams_replayed mt sv mn (fold (gateway_step sqlite_ops isoformat verified parse parse_wh) rqs st)"
  using assms(1,2)
proof (induction rqs arbitrary: st)
  case (Cons rq rqs)
  let ?st1 = "gateway_step sqlite_ops isoformat verified parse parse_wh rq st"
  have "streams_replayed mt sv mn ?st1"
  proof (cases rq)
    case (PostSignals clk raw sig pk)
    have "streams_replayed mt sv mn (fst (accept_batch sqlite_ops isoformat clk b st))" if "parse raw = Some b" for b
      using Cons.prems assms(3-5) that by (intro accept_batch_replayed) (auto simp: sqlite.gateway_inv_def)
    then have "fst (accept_batch sqlite_ops isoformat clk b st) = st' \<Longrightarrow> parse raw = Some b
        \<Longrightarrow> streams_replayed mt sv mn st'" for b st' by blast
    with PostSignals Cons.prems(1) show ?thesis
      by (auto simp: ingest_signals_def model_validate_json_ok split: sum.splits py_error.splits prod.splits)
  qed (simp add: register_replayed Cons.prems(1))
  moreover have "sqlite.gateway_inv ?st1" by (rule sqlite.step_inv [OF Cons.prems(2)])
  ultimately show ?case using Cons.IH by simp
qed simp

lemma bootstrap_stream:
  assumes "db_ok db" and "length (model_rows db mt) \<le> 50"
  shows "stream_of (fst (bootstrap_detector sqlite_ops d db)) (mt, sv, mn) =
         fold stream_next (replay_values (model_rows db mt) sv mn) (stream_of d (mt, sv, mn))"
proof -
  have "rev (ro_get_recent_signals sqlite_ops db mt 50) = model_rows db mt"
    using assms by (simp add: sqlite_reads recent_signals_ascending model_rows_def rev_map)
  moreover have "distinct (get_all_model_tuples db)" by (simp add: get_all_model_tuples_def)
  moreover have "model_rows db mt = []" if "mt \<notin> set (get_all_model_tuples db)"
    using that by (auto simp: model_rows_def get_all_model_tuples_def filter_empty_conv)
  ultimately show ?thesis
    by (simp add: bootstrap_detector_def stream_of_bootstrap_models sqlite_reads replay_values_def map_filter_simps)
qed

subsection \<open>Properties\<close>

text \<open>C10: A restart on SQLite is transparent for a model with public traffic only, up to 50 batches. Let a gateway start on an empty
  SQLite database and serve any requests
  in which the batches of one model are all public, while it stores at most 50 of them. A
  gateway started on its database then holds, for the two re-warmed metrics of that model and every suite, exactly
  the stream state (baseline, accumulators, count) the first one had. Beyond 50 batches the replay is cut, other metrics start afresh, and private
  history would enter (\<open>private_history_enters_public_baseline\<close>). (Decoded metrics have
  unique keys, as any JSON object read into a \<^verbatim>\<open>dict\<close> has.)\<close>

theorem restart_is_transparent:
  assumes unique_keys: "\<And>raw b. parse raw = Some b \<Longrightarrow> dict_wf (ib_metrics b)"
    and all_public: "\<And>raw b. parse raw = Some b \<Longrightarrow> ib_model_tuple b = mt \<Longrightarrow> ib_fleet_id b = None"
    and "st = fold (gateway_step sqlite_ops isoformat verified parse parse_wh) rqs (gateway_start sqlite_ops empty_db)"
    and "length (model_rows (gw_repo st) mt) \<le> 50" and "mn \<in> set bootstrap_metrics"
  shows "stream_of (gw_detector (gateway_start sqlite_ops (gw_repo st))) (mt, sv, mn) =
         stream_of (gw_detector st) (mt, sv, mn)"
proof -
  let ?st0 = "gateway_start sqlite_ops empty_db"
  have "db_ok (gw_repo st)"
    unfolding assms(3) by (rule gateway_run_db_ok) (simp add: gateway_start_def empty_db_ok)
  then have "stream_of (gw_detector (gateway_start sqlite_ops (gw_repo st))) (mt, sv, mn) =
      fold stream_next (replay_values (model_rows (gw_repo st) mt) sv mn) (stream_of gateway_detector (mt, sv, mn))"
    using bootstrap_stream assms(4) by (simp add: gateway_start_def)
  moreover have "streams_replayed mt sv mn st"
    unfolding assms(3)
  proof (rule gateway_run_replayed)
    show "streams_replayed mt sv mn ?st0"
      by (simp add: streams_replayed_def gateway_start_def model_rows_def empty_db_def bootstrap_detector_def
          sqlite_reads get_all_model_tuples_def replay_values_def map_filter_simps)
    show "sqlite.gateway_inv ?st0" by (rule sqlite.start_inv) (simp add: sqlite_publics_def empty_db_def)
  qed (use unique_keys all_public assms(5) in auto)
  ultimately show ?thesis by (simp add: streams_replayed_def)
qed

theorem restart_is_transparent_witness:
  "let st = gateway_step sqlite_ops (\<lambda>t. []) (\<lambda>raw sig pk. True) (\<lambda>raw. Some (example_batch ''a'' None)) (\<lambda>raw. None)
              (PostSignals example_clocks [1] ''s'' ''k'') (gateway_start sqlite_ops empty_db)
   in stream_of (gw_detector (gateway_start sqlite_ops (gw_repo st))) (''m'', ''v2.0.0'', ''json_success_rate'') =
      stream_of (gw_detector st) (''m'', ''v2.0.0'', ''json_success_rate'')"
proof -
  let ?rq = "PostSignals example_clocks [1] ''s'' ''k''"
  let ?step = "gateway_step sqlite_ops (\<lambda>t. []) (\<lambda>raw sig pk. True) (\<lambda>raw. Some (example_batch ''a'' None)) (\<lambda>raw. None)"
  have "length (sqlite_stored (gw_repo (?step ?rq (gateway_start sqlite_ops empty_db)))) \<le> 1"
    using sqlite.step_stored [of "\<lambda>t. []" "\<lambda>raw sig pk. True" "\<lambda>raw. Some (example_batch ''a'' None)" "\<lambda>raw. None"
        ?rq "gateway_start sqlite_ops empty_db"]
    by (auto simp: gateway_start_def sqlite_stored_def empty_db_def)
  then have "length (model_rows (gw_repo (?step ?rq (gateway_start sqlite_ops empty_db))) ''m'') \<le> 50"
    unfolding model_rows_stored by (metis (no_types, lifting) length_filter_le length_map le_trans numeral_le_iff one_le_numeral)
  then show ?thesis
    using restart_is_transparent [of "\<lambda>raw. Some (example_batch ''a'' None)" "''m''" _ "\<lambda>t. []" "\<lambda>raw sig pk. True"
        "\<lambda>raw. None" "[?rq]" "''json_success_rate''" "''v2.0.0''"]
    by (simp add: Let_def bootstrap_metrics_def example_batch_def del: gateway_step.simps)
qed

text \<open>A restart pours private history into the public baseline. Storing one batch of a private
  fleet leaves the public detector's stream for its model fresh, yet a gateway restarted on that
  database has already counted the fleet's value in it.\<close>

theorem private_history_enters_public_baseline:
  "let st = gateway_start sqlite_ops empty_db;
       st' = fst (accept_batch sqlite_ops isoformat clk (example_batch i (Some f)) st);
       key = (''m'', ''v2.0.0'', ''json_success_rate'')
   in ms_n (stream_of (gw_detector st') key) = 0
    \<and> ms_n (stream_of (gw_detector (gateway_start sqlite_ops (gw_repo st'))) key) = 1"
proof -
  let ?b = "example_batch i (Some f)" and ?st = "gateway_start sqlite_ops empty_db"
  let ?st' = "fst (accept_batch sqlite_ops isoformat clk ?b ?st)" and ?key = "(''m'', ''v2.0.0'', ''json_success_rate'')"
  have fresh: "ms_n (stream_of gateway_detector ?key) = 0"
    by (simp add: gateway_detector_def stream_of_init init_metric_state_def)
  let ?saved = "?st\<lparr>gw_repo := ro_save_batch sqlite_ops (gw_repo ?st) (ck_utc_us clk) ?b\<rparr>"
  have "ib_fleet_id ?b = Some f" by (simp add: example_batch_def)
  then have "gw_detector ?st' = gateway_detector"
    using private_path_frame [of f ?saved sqlite_ops isoformat clk ?b]
    by (simp add: accept_batch_def Let_def split_beta private_frame_def gateway_start_def bootstrap_detector_def
        sqlite_reads get_all_model_tuples_def empty_db_def)
  moreover have rows: "model_rows (gw_repo ?st') ''m'' = [batch_row (ck_utc_us clk) ?b]"
    using sqlite.accept_batch_stored [of isoformat clk ?b ?st]
    by (simp add: model_rows_stored) (simp add: sqlite_stored_def gateway_start_def empty_db_def batch_row_def example_batch_def)
  moreover have "db_ok (gw_repo ?st')"
    by (rule accept_batch_db_ok) (simp add: gateway_start_def empty_db_ok)
  ultimately have "ms_n (stream_of (gw_detector (gateway_start sqlite_ops (gw_repo ?st'))) ?key) = 1"
    using bootstrap_stream [of "gw_repo ?st'" "''m''" gateway_detector "''v2.0.0''" "''json_success_rate''"] fresh
    by (simp add: gateway_start_def replay_values_batch bootstrap_metrics_def example_batch_def)
  then show ?thesis
    using fresh \<open>gw_detector ?st' = gateway_detector\<close> by (simp add: Let_def)
qed

end
