(* ===== verification/Reports.thy ===== *)
theory Reports
  imports Restart
begin

section \<open>The audit export (engine/audit.py, GET /v1/alerts/{id}/export)\<close>

text \<open>
  \<open>generate_report\<close> is \<^verbatim>\<open>AuditReportGenerator.generate\<close> and \<open>export_audit_report\<close> the
  endpoint with its bearer token. \<open>dumps\<close> is \<^verbatim>\<open>json.dumps(..., sort_keys=True)\<close> of a report
  body, \<open>sha256\<close> the hexadecimal digest of a string, \<open>isoformat\<close> the calendar text of a time.
  The lemmas say what the evidence of a report is, who gets one, and which alerts an id of a
  running gateway can resolve to.
\<close>

subsection \<open>Reports\<close>

datatype alert_details =
    LocalDetails int string string string real string "string option"
  | PublicDetails int string string string int

record evidence_row =
  ev_batch_id :: string
  ev_timestamp :: string
  ev_model_tuple :: string
  ev_avg_output_length :: "real option"
  ev_json_success_rate :: "real option"
  ev_result_count :: real

record report_body =
  rb_export_timestamp :: string
  rb_alert_details :: alert_details
  rb_baseline_evidence :: "evidence_row list"

datatype audit_error = AlertNotFound int | AuditRaised py_error

definition evidence_of :: "(int \<Rightarrow> string) \<Rightarrow> signal_row \<Rightarrow> evidence_row" where
  "evidence_of isoformat s =
     \<lparr>ev_batch_id = sr_batch_id s, ev_timestamp = isoformat (sr_timestamp s),
      ev_model_tuple = sr_model_tuple s, ev_avg_output_length = sr_avg_output_length s,
      ev_json_success_rate = sr_json_success_rate s, ev_result_count = sr_result_count s\<rparr>"

text \<open>The alert an id resolves to: its details, model, fleet and time. Local alerts come first.\<close>

definition resolve_alert ::
  "'r repo_ops \<Rightarrow> (int \<Rightarrow> string) \<Rightarrow> 'r \<Rightarrow> int
    \<Rightarrow> audit_error + alert_details \<times> string \<times> string option \<times> int" where
  "resolve_alert ops isoformat r alert_id =
     (case ro_get_local_alert_by_id ops r alert_id of
        Inl e \<Rightarrow> Inl (AuditRaised e)
      | Inr (Some a) \<Rightarrow>
          Inr (LocalDetails (la_id a) (isoformat (la_timestamp a)) (la_model_tuple a) (la_metric_name a)
                 (la_alert_value a) (la_client_id a) (la_fleet_id a),
               la_model_tuple a, la_fleet_id a, la_timestamp a)
      | Inr None \<Rightarrow>
          (case ro_get_public_alert_by_id ops r alert_id of
             Inl e \<Rightarrow> Inl (AuditRaised e)
           | Inr None \<Rightarrow> Inl (AlertNotFound alert_id)
           | Inr (Some a) \<Rightarrow>
               Inr (PublicDetails (pa_id a) (isoformat (pa_timestamp a)) (pa_model_tuple a) (pa_metric_name a)
                      (pa_contributing_org_count a),
                    pa_model_tuple a, None, pa_timestamp a)))"

definition generate_report ::
  "'r repo_ops \<Rightarrow> (int \<Rightarrow> string) \<Rightarrow> (report_body \<Rightarrow> string) \<Rightarrow> (string \<Rightarrow> string) \<Rightarrow> int \<Rightarrow> 'r \<Rightarrow> int
    \<Rightarrow> audit_error + report_body \<times> string" where
  "generate_report ops isoformat dumps sha256 now r alert_id =
     sum_bind (resolve_alert ops isoformat r alert_id)
       (\<lambda>(details, model_tuple, fleet_id, alert_ts).
          let signals = ro_get_signals_before_timestamp ops r model_tuple alert_ts fleet_id 50;
              body = \<lparr>rb_export_timestamp = isoformat now, rb_alert_details = details,
                      rb_baseline_evidence = map (evidence_of isoformat) signals\<rparr>
          in Inr (body, sha256 (dumps body)))"

subsection \<open>The endpoint\<close>

datatype export_response =
    ExportAttachment string "report_body \<times> string"
  | ExportRefused nat string
  | ExportServerError py_error

definition bearer :: string where "bearer = ''Bearer ''"

definition export_audit_report ::
  "'r repo_ops \<Rightarrow> (int \<Rightarrow> string) \<Rightarrow> (report_body \<Rightarrow> string) \<Rightarrow> (string \<Rightarrow> string) \<Rightarrow> (int \<Rightarrow> string) \<Rightarrow> int
    \<Rightarrow> string option \<Rightarrow> string \<Rightarrow> int \<Rightarrow> 'r \<Rightarrow> export_response" where
  "export_audit_report ops isoformat dumps sha256 str now export_token auth_header alert_id r =
     (if export_token = None \<or> export_token = Some []
      then ExportRefused 503 ''Audit export is disabled: SEISMOGRAPH_EXPORT_TOKEN is not configured.''
      else if \<not> starts_with auth_header bearer
      then ExportRefused 401 ''Authorization header required: Bearer <export-token>''
      else if Some (drop (length bearer) auth_header) \<noteq> export_token
      then ExportRefused 401 ''Invalid export token''
      else case generate_report ops isoformat dumps sha256 now r alert_id of
             Inl (AlertNotFound i) \<Rightarrow> ExportRefused 404 ''Alert not found in local or public tables.''
           | Inl (AuditRaised e) \<Rightarrow> ExportServerError e
           | Inr report \<Rightarrow> ExportAttachment (''seismograph_audit_'' @ str alert_id @ ''.json'') report)"

subsection \<open>Lemmas\<close>

lemma starts_with_append: "starts_with s p \<longleftrightarrow> s = p @ drop (length p) s"
  unfolding starts_with_def by (metis append_eq_conv_conj append_take_drop_id)

text \<open>What the evidence query selects, and in which order.\<close>

lemma signals_before_spec:
  "\<exists>signals. get_signals_before_timestamp db mt t fleet n = take n signals
     \<and> mset signals = filter_mset (\<lambda>s. tl_model_tuple s = mt \<and> tl_timestamp s < t \<and> (fleet = None \<or> tl_fleet_id s = fleet)) (mset (db_signals db))
     \<and> sorted_wrt (\<lambda>s s'. tl_timestamp s' \<le> tl_timestamp s) signals"
proof -
  let ?rows = "filter (\<lambda>s. tl_model_tuple s = mt \<and> tl_timestamp s < t \<and> (fleet = None \<or> tl_fleet_id s = fleet)) (db_signals db)"
  have "get_signals_before_timestamp db mt t fleet n = take n (order_desc tl_timestamp ?rows)"
    by (cases fleet) (simp_all add: get_signals_before_timestamp_def Let_def conj_ac)
  moreover have "sorted_wrt (\<lambda>s s'. tl_timestamp s' \<le> tl_timestamp s) (order_desc tl_timestamp ?rows)"
    using sorted_sort_key [of "\<lambda>s. - tl_timestamp s" ?rows] by (simp add: order_desc_def sorted_map)
  ultimately show ?thesis by (intro exI [of _ "order_desc tl_timestamp ?rows"]) (simp add: order_desc_def)
qed

lemma upto_snoc: "[1..int (Suc n)] = [1..int n] @ [int n + 1]"
  using upto_rec2 [of 1 "int (Suc n)"] by (simp add: add.commute)

lemma next_id_upto: "next_id [1..int n] = int n + 1"
proof -
  have "fold max [1..int n] 0 = int n" by (induction n) (simp_all add: upto_snoc del: of_nat_Suc)
  then show ?thesis by (simp add: next_id_def)
qed

text \<open>Alert ids count from 1 without gaps: no alert is ever deleted.\<close>

definition alert_ids_dense :: "sqlite_db \<Rightarrow> bool" where
  "alert_ids_dense db \<longleftrightarrow> map la_id (db_local db) = [1..int (length (db_local db))]
     \<and> map pa_id (db_public db) = [1..int (length (db_public db))]"

lemma sqlite_writes_dense:
  "alert_ids_dense r \<Longrightarrow> alert_ids_dense (ro_save_batch sqlite_ops r now b)"
  "alert_ids_dense r \<Longrightarrow> alert_ids_dense (ro_save_local_alert sqlite_ops r now a c f)"
  "alert_ids_dense r \<Longrightarrow> alert_ids_dense (ro_save_public_alert sqlite_ops r now mt mn n)"
  "alert_ids_dense r \<Longrightarrow> ro_register_webhook sqlite_ops r fl u t = Inr r' \<Longrightarrow> alert_ids_dense r'"
  by (auto simp: alert_ids_dense_def sqlite_writes save_batch_def save_local_alert_def save_public_alert_def
      register_webhook_def Let_def next_id_upto upto_snoc simp del: of_nat_Suc)

lemma gateway_run_dense:
  "alert_ids_dense (gw_repo st) \<Longrightarrow>
   alert_ids_dense (gw_repo (fold (gateway_step sqlite_ops isoformat verified parse parse_wh) rqs st))"
proof (induction rqs arbitrary: st)
  case (Cons rq rqs)
  have "alert_ids_dense (gw_repo (gateway_step sqlite_ops isoformat verified parse parse_wh rq st))"
    by (rule gateway_step_repo(2) [where P = alert_ids_dense]) (auto intro: sqlite_writes_dense Cons.prems)
  with Cons.IH show ?case by simp
qed simp

text \<open>Every public alert is stored right after a local one.\<close>

context signal_store
begin

definition more_locals :: "'r \<Rightarrow> bool" where
  "more_locals r \<longleftrightarrow> length (publics r) \<le> length (locals r)"

lemma private_metric_more: "more_locals (gw_repo (fst acc)) \<Longrightarrow>
    more_locals (gw_repo (fst (private_metric ops isoformat clk b f mv acc)))"
  by (auto simp: private_metric_def Let_def more_locals_def publics_save_local locals_save_local
      split: prod.splits option.splits)

lemma public_metric_more: "more_locals (gw_repo (fst acc)) \<Longrightarrow>
    more_locals (gw_repo (fst (public_metric ops clk b mv acc)))"
  by (auto simp: public_metric_def quorum_check_def Let_def more_locals_def publics_save_local locals_save_local
      publics_save_public locals_save_public split: prod.splits option.splits sum.splits)

lemma accept_batch_more:
  assumes "more_locals (gw_repo st)"
  shows "more_locals (gw_repo (fst (accept_batch ops isoformat clk b st)))"
proof -
  have "more_locals (gw_repo (fst acc)) \<Longrightarrow> more_locals (gw_repo (fst (fold (private_metric ops isoformat clk b f) mvs acc)))"
    for f mvs acc
    by (induction mvs arbitrary: acc) (simp_all add: private_metric_more)
  moreover have "more_locals (gw_repo (fst acc)) \<Longrightarrow> more_locals (gw_repo (fst (fold (public_metric ops clk b) mvs acc)))"
    for mvs acc
    by (induction mvs arbitrary: acc) (simp_all add: public_metric_more)
  moreover have "more_locals (ro_save_batch ops (gw_repo st) now b)" for now
    using assms by (simp add: more_locals_def publics_save_batch locals_save_batch)
  ultimately show ?thesis
    by (auto simp: accept_batch_def private_path_def public_path_def Let_def split_beta split: option.splits)
qed

lemma run_more:
  "more_locals (gw_repo st) \<Longrightarrow>
   more_locals (gw_repo (fold (gateway_step ops isoformat verified parse parse_wh) rqs st))"
proof (induction rqs arbitrary: st)
  case (Cons rq rqs)
  have "more_locals (gw_repo (gateway_step ops isoformat verified parse parse_wh rq st))"
  proof (cases rq)
    case (PostSignals clk raw sig pk)
    have "fst (accept_batch ops isoformat clk b st) = st' \<Longrightarrow> more_locals (gw_repo st')" for b st'
      using accept_batch_more [OF Cons.prems] by blast
    with PostSignals Cons.prems show ?thesis
      by (auto simp: ingest_signals_def split: sum.splits py_error.splits prod.splits) (metis fst_conv)+
  next
    case (PostWebhook env token raw)
    with Cons.prems show ?thesis
      by (auto simp: register_webhook_endpoint_def Let_def more_locals_def split: sum.splits option.splits
          dest: register_frame)
  qed
  with Cons.IH show ?case by simp
qed simp

end

subsection \<open>Properties\<close>

text \<open>The stored alert with an id: the local one, or the public one when no local alert has the id; its details, model, fleet and time.\<close>

definition stored_alert ::
  "(int \<Rightarrow> string) \<Rightarrow> sqlite_db \<Rightarrow> int \<Rightarrow> alert_details \<Rightarrow> string \<Rightarrow> string option \<Rightarrow> int \<Rightarrow> bool" where
  "stored_alert isoformat db i details mt fleet ts \<longleftrightarrow>
     (\<exists>a \<in> set (db_local db). la_id a = i \<and> mt = la_model_tuple a \<and> fleet = la_fleet_id a \<and> ts = la_timestamp a
        \<and> details = LocalDetails i (isoformat ts) mt (la_metric_name a) (la_alert_value a) (la_client_id a) fleet)
     \<or> i \<notin> la_id ` set (db_local db)
        \<and> (\<exists>a \<in> set (db_public db). pa_id a = i \<and> mt = pa_model_tuple a \<and> fleet = None \<and> ts = pa_timestamp a
             \<and> details = PublicDetails i (isoformat ts) mt (pa_metric_name a) (pa_contributing_org_count a))"

lemma resolve_stored:
  "case resolve_alert sqlite_ops isoformat db i of
     Inl e \<Rightarrow> e = AlertNotFound i \<and> i \<notin> la_id ` set (db_local db) \<union> pa_id ` set (db_public db)
   | Inr (details, mt, fleet, ts) \<Rightarrow> stored_alert isoformat db i details mt fleet ts"
proof (cases "get_local_alert_by_id db i")
  case (Some a)
  note found = first_row_Some [OF Some [unfolded get_local_alert_by_id_def]]
  with Some show ?thesis by (auto simp: resolve_alert_def sqlite_ops_def stored_alert_def)
next
  case None
  then have no_local: "i \<notin> la_id ` set (db_local db)" by (auto simp: get_local_alert_by_id_def first_row_None)
  show ?thesis
  proof (cases "get_public_alert_by_id db i")
    case (Some a)
    note found = first_row_Some [OF Some [unfolded get_public_alert_by_id_def]]
    with None Some no_local show ?thesis by (auto simp: resolve_alert_def sqlite_ops_def stored_alert_def)
  next
    case none: None
    then have "i \<notin> pa_id ` set (db_public db)" by (auto simp: get_public_alert_by_id_def first_row_None)
    with None none no_local show ?thesis by (simp add: resolve_alert_def sqlite_ops_def)
  qed
qed

text \<open>C27: What a report contains. An id gets a report exactly when a stored alert has it, the local one when both tables do. Its details, model,
  fleet and time are those of that alert; its checksum is the digest of the canonical text of the very body returned with it;
  and its evidence is all stored signals of the alert's model before the alert (of the alert's fleet, if it has one), newest first, or the
  50 newest when there are more.\<close>

theorem report_evidence_precedes_alert:
  "case generate_report sqlite_ops isoformat dumps sha256 now db i of
     Inl e \<Rightarrow> e = AlertNotFound i \<and> i \<notin> la_id ` set (db_local db) \<union> pa_id ` set (db_public db)
   | Inr (body, checksum) \<Rightarrow> checksum = sha256 (dumps body) \<and> rb_export_timestamp body = isoformat now
       \<and> (\<exists>mt fleet ts signals. stored_alert isoformat db i (rb_alert_details body) mt fleet ts
            \<and> rb_baseline_evidence body = map (\<lambda>s. evidence_of isoformat (row_of_signal s)) (take 50 signals)
            \<and> mset signals = filter_mset (\<lambda>s. tl_model_tuple s = mt \<and> tl_timestamp s < ts \<and> (fleet = None \<or> tl_fleet_id s = fleet))
                (mset (db_signals db))
            \<and> sorted_wrt (\<lambda>s s'. tl_timestamp s' \<le> tl_timestamp s) signals)"
proof (cases "resolve_alert sqlite_ops isoformat db i")
  case (Inl e)
  then show ?thesis using resolve_stored [where isoformat = isoformat and db = db and i = i] by (simp add: generate_report_def)
next
  case (Inr p)
  obtain details mt fleet ts where p: "p = (details, mt, fleet, ts)" by (metis prod.exhaust)
  have alert: "stored_alert isoformat db i details mt fleet ts" using resolve_stored [where isoformat = isoformat and db = db and i = i] Inr p by simp
  obtain signals where signals: "get_signals_before_timestamp db mt ts fleet 50 = take 50 signals"
      "mset signals = filter_mset (\<lambda>s. tl_model_tuple s = mt \<and> tl_timestamp s < ts \<and> (fleet = None \<or> tl_fleet_id s = fleet)) (mset (db_signals db))"
      "sorted_wrt (\<lambda>s s'. tl_timestamp s' \<le> tl_timestamp s) signals" using signals_before_spec by blast
  have "ro_get_signals_before_timestamp sqlite_ops db mt ts fleet 50 = map row_of_signal (take 50 signals)"
    using signals(1) by (simp add: sqlite_ops_def)
  then have gen: "generate_report sqlite_ops isoformat dumps sha256 now db i =
      (let body = \<lparr>rb_export_timestamp = isoformat now, rb_alert_details = details,
          rb_baseline_evidence = map (\<lambda>s. evidence_of isoformat (row_of_signal s)) (take 50 signals)\<rparr> in Inr (body, sha256 (dumps body)))"
    using Inr by (simp add: generate_report_def p Let_def comp_def)
  show ?thesis unfolding gen Let_def using alert signals(2,3) by (simp; blast)
qed

text \<open>A database with one signal of a model and then one local alert about it.\<close>

definition example_alert :: drift_alert where
  "example_alert = \<lparr>da_timestamp_ns = 0, da_model_tuple = ''m'', da_metric_name = ''json_success_rate'',
     da_direction = ''negative'', da_cusum_score = 6, da_threshold = 5, da_window_count = 40,
     da_suite_version = ''v2.0.0''\<rparr>"

definition audited_db :: sqlite_db where
  "audited_db = save_local_alert (save_batch empty_db 10 (example_batch ''a'' None)) 20 example_alert ''c'' None"

lemma audited_alert:
  "resolve_alert sqlite_ops (\<lambda>t. ''T'') audited_db 1 =
     Inr (LocalDetails 1 ''T'' ''m'' ''json_success_rate'' 6 ''c'' None, ''m'', None, 20)"
  by (simp add: resolve_alert_def sqlite_ops_def get_local_alert_by_id_def audited_db_def save_local_alert_def
      save_batch_def empty_db_def next_id_def first_row_def example_alert_def Let_def)

theorem report_evidence_precedes_alert_witness:
  "\<exists>body signals. generate_report sqlite_ops (\<lambda>t. ''T'') (\<lambda>b. ''{}'') (\<lambda>s. s) 30 audited_db 1 = Inr (body, ''{}'')
     \<and> mset signals = filter_mset (\<lambda>s. tl_model_tuple s = ''m'' \<and> tl_timestamp s < 20) (mset (db_signals audited_db))
     \<and> rb_baseline_evidence body = map (\<lambda>s. evidence_of (\<lambda>t. ''T'') (row_of_signal s)) (take 50 signals)"
proof -
  obtain body where body: "generate_report sqlite_ops (\<lambda>t. ''T'') (\<lambda>b. ''{}'') (\<lambda>s. s) 30 audited_db 1 = Inr (body, ''{}'')"
    by (simp add: generate_report_def audited_alert Let_def)
  have "stored_alert iso audited_db 1 details mt fleet ts \<Longrightarrow> mt = ''m'' \<and> fleet = None \<and> ts = 20" for iso details mt fleet ts
    by (auto simp: stored_alert_def audited_db_def save_local_alert_def save_batch_def empty_db_def next_id_def example_alert_def Let_def)
  then show ?thesis
    using report_evidence_precedes_alert [where isoformat = "\<lambda>t. ''T''" and dumps = "\<lambda>b. ''{}''" and ?sha256.0 = "\<lambda>s. s" and now = 30 and db = audited_db and i = 1] body by fastforce
qed

text \<open>Who gets a report. The endpoint returns an attachment only when an export token is configured
  and the request carries exactly it as bearer token, and then the attachment is the generated
  report.\<close>

theorem export_needs_exact_token:
  assumes "export_audit_report ops isoformat dumps sha256 str now token header i r = ExportAttachment name report"
  shows "\<exists>t. t \<noteq> [] \<and> token = Some t \<and> header = ''Bearer '' @ t
    \<and> generate_report ops isoformat dumps sha256 now r i = Inr report"
proof -
  have token: "token \<noteq> None" "token \<noteq> Some []" "starts_with header bearer"
    "Some (drop (length bearer) header) = token"
    and gen: "generate_report ops isoformat dumps sha256 now r i = Inr report"
    using assms by (auto simp: export_audit_report_def split: if_splits sum.splits audit_error.splits)
  have "header = ''Bearer '' @ drop (length bearer) header"
    using token(3) unfolding starts_with_append bearer_def .
  then show ?thesis using token gen by metis
qed

theorem export_needs_exact_token_witness:
  "\<exists>t. t \<noteq> [] \<and> ''Bearer key'' = ''Bearer '' @ t"
proof -
  obtain body where gen: "generate_report sqlite_ops (\<lambda>t. ''T'') (\<lambda>b. ''{}'') (\<lambda>s. s) 30 audited_db 1 = Inr body"
    by (simp add: generate_report_def audited_alert Let_def)
  then have "export_audit_report sqlite_ops (\<lambda>t. ''T'') (\<lambda>b. ''{}'') (\<lambda>s. s) (\<lambda>i. ''1'') 30 (Some ''key'')
      ''Bearer key'' 1 audited_db = ExportAttachment ''seismograph_audit_1.json'' body"
    by (simp add: export_audit_report_def starts_with_def bearer_def)
  from export_needs_exact_token [OF this] show ?thesis by blast
qed

text \<open>A public alert is never exported. Public and local alerts have ids of their own, both
  counting from 1, and the local one wins. Whatever requests a gateway started on an empty
  SQLite database has served, every id of a public alert is also the id of a local alert, so no
  id ever resolves to a public alert.\<close>

theorem public_alert_never_exported:
  "let db = gw_repo (fold (gateway_step sqlite_ops isoformat verified parse parse_wh) rqs
                       (gateway_start sqlite_ops empty_db))
   in pa_id ` set (db_public db) \<subseteq> la_id ` set (db_local db)
    \<and> resolve_alert sqlite_ops isoformat db i \<noteq> Inr (PublicDetails k when mt' mn n, mt, fleet, ts)"
proof -
  let ?db = "gw_repo (fold (gateway_step sqlite_ops isoformat verified parse parse_wh) rqs
      (gateway_start sqlite_ops empty_db))"
  have "sqlite.more_locals ?db"
    by (rule sqlite.run_more) (simp add: gateway_start_def sqlite.more_locals_def sqlite_publics_def empty_db_def)
  then have more: "length (db_public ?db) \<le> length (db_local ?db)"
    by (simp add: sqlite.more_locals_def sqlite_publics_def sqlite_locals_def)
  have "alert_ids_dense ?db"
    by (rule gateway_run_dense) (simp add: gateway_start_def alert_ids_dense_def empty_db_def)
  then have "la_id ` set (db_local ?db) = {1..int (length (db_local ?db))}"
    "pa_id ` set (db_public ?db) = {1..int (length (db_public ?db))}"
    unfolding alert_ids_dense_def by (metis set_map set_upto)+
  then have shadow: "pa_id ` set (db_public ?db) \<subseteq> la_id ` set (db_local ?db)" using more by auto
  have "get_public_alert_by_id ?db i = None" if "get_local_alert_by_id ?db i = None"
  proof -
    have "i \<notin> la_id ` set (db_local ?db)"
      using that by (auto simp: get_local_alert_by_id_def first_row_None)
    then show ?thesis using shadow by (auto simp: get_public_alert_by_id_def first_row_None)
  qed
  then have "resolve_alert sqlite_ops isoformat ?db i \<noteq> Inr (PublicDetails k when mt' mn n, mt, fleet, ts)"
    by (auto simp: resolve_alert_def sqlite_ops_def split: option.splits)
  with shadow show ?thesis by (simp add: Let_def)
qed

end
