(* ===== verification/Json.thy ===== *)
theory Json
  imports Prelude
begin

section \<open>JSON values and small string functions\<close>

text \<open>
  What \<^verbatim>\<open>json.loads\<close> returns, as a datatype. Python's decoder also accepts \<^verbatim>\<open>NaN\<close> and the
  infinities, which become floats that are no real number: \<open>JNonFinite\<close>. The parser and
  the serialiser themselves are arguments of the definitions that call them
  (\<open>loads\<close>, with \<open>None\<close> where it raises, and \<open>dumps\<close>).
\<close>

datatype json =
    JNull
  | JBool bool
  | JInt int
  | JFloat real
  | JNonFinite
  | JStr string
  | JArr "json list"
  | JObj "(string \<times> json) list"

text \<open>\<^verbatim>\<open>isinstance(v, dict)\<close> with \<^verbatim>\<open>v.get(k)\<close>: a missing key and a \<^verbatim>\<open>null\<close> both give \<^verbatim>\<open>None\<close>.\<close>

fun is_obj :: "json \<Rightarrow> bool" where
  "is_obj (JObj d) = True"
| "is_obj _ = False"

fun obj_get :: "json \<Rightarrow> string \<Rightarrow> json" where
  "obj_get (JObj d) k = dict_get d k JNull"
| "obj_get _ k = JNull"

text \<open>\<^verbatim>\<open>v.get(k, default)\<close> on any value; what is not an object has no \<^verbatim>\<open>get\<close>.\<close>

fun get_or :: "json \<Rightarrow> string \<Rightarrow> json \<Rightarrow> py_error + json" where
  "get_or (JObj d) k v0 = Inr (dict_get d k v0)"
| "get_or _ k v0 = Inl (AttributeError ''get'')"

text \<open>\<^verbatim>\<open>v[k]\<close> on any value: \<open>None\<close> when Python raises \<open>KeyError\<close> or \<open>TypeError\<close>.\<close>

fun json_item :: "json \<Rightarrow> string \<Rightarrow> json option" where
  "json_item (JObj d) k = map_of d k"
| "json_item _ k = None"

text \<open>\<^verbatim>\<open>v[0]\<close>: a list gives its head and a string its first character.\<close>

fun json_head :: "json \<Rightarrow> json option" where
  "json_head (JArr (x # xs)) = Some x"
| "json_head (JStr (c # cs)) = Some (JStr [c])"
| "json_head _ = None"

lemma obj_get_item: "obj_get j k = (case json_item j k of None \<Rightarrow> JNull | Some v \<Rightarrow> v)"
  by (cases j) (simp_all add: dict_get_def)

text \<open>\<^verbatim>\<open>int(x)\<close> of a finite float truncates toward zero.\<close>

definition py_int :: "real \<Rightarrow> int" where
  "py_int x = (if 0 \<le> x then \<lfloor>x\<rfloor> else \<lceil>x\<rceil>)"

text \<open>\<^verbatim>\<open>str(n)\<close> in decimal.\<close>

fun digits_of :: "nat \<Rightarrow> string" where
  "digits_of n =
     (if n < 10 then [char_of (48 + n)] else digits_of (n div 10) @ [char_of (48 + n mod 10)])"

declare digits_of.simps [simp del]

definition str_of_int :: "int \<Rightarrow> string" where
  "str_of_int i = (if i < 0 then ''-'' @ digits_of (nat (- i)) else digits_of (nat i))"

text \<open>\<^verbatim>\<open>s.split(c, 1)\<close> into what precedes the first \<open>c\<close> and what follows it.\<close>

definition before_char :: "char \<Rightarrow> string \<Rightarrow> string" where
  "before_char c s = takeWhile (\<lambda>x. x \<noteq> c) s"

definition after_char :: "char \<Rightarrow> string \<Rightarrow> string" where
  "after_char c s = tl (dropWhile (\<lambda>x. x \<noteq> c) s)"

definition rstrip_char :: "char \<Rightarrow> string \<Rightarrow> string" where
  "rstrip_char c s = rev (dropWhile (\<lambda>x. x = c) (rev s))"

lemma before_char_append: "c \<notin> set s \<Longrightarrow> before_char c (s @ c # t) = s"
  by (induction s) (auto simp: before_char_def)

lemma before_char_id: "c \<notin> set s \<Longrightarrow> before_char c s = s"
  by (induction s) (auto simp: before_char_def)

lemma after_char_append: "c \<notin> set s \<Longrightarrow> after_char c (s @ c # t) = t"
  by (induction s) (auto simp: after_char_def)

end
