(* ===== verification/Providers.thy ===== *)
theory Providers
  imports Json
begin

section \<open>Model provider clients (probe/providers.py)\<close>

text \<open>
  The chat-completion client of the canaries: its errors, the sanitised error code, token
  counters, the request it builds and the result it reads off a response.

  The network is outside the model. A world of type \<open>'w\<close> stands for it: a transport takes
  URL, headers, body and timeout and gives a decoded response or an exception with the next
  world; \<open>perf\<close> reads the performance counter of a world, in seconds.
\<close>

subsection \<open>Errors and error codes\<close>

record provider_error =
  pe_message :: string
  pe_status_code :: "int option"
  pe_error_code :: "string option"
  pe_failure_kind :: "string option"

definition provider_error :: "string \<Rightarrow> string \<Rightarrow> provider_error" where
  "provider_error message kind =
     \<lparr>pe_message = message, pe_status_code = None, pe_error_code = None, pe_failure_kind = Some kind\<rparr>"

definition error_code_chars :: string where
  "error_code_chars = ''abcdefghijklmnopqrstuvwxyzABCDEFGHIJKLMNOPQRSTUVWXYZ0123456789_.-''"

definition safe_token :: "string \<Rightarrow> string option" where
  "safe_token s =
     (if \<not> (0 < length s \<and> length s \<le> 64) then None
      else if \<not> set s \<subseteq> set error_code_chars then None else Some s)"

fun safe_code :: "json \<Rightarrow> string option" where
  "safe_code (JInt i) = safe_token (str_of_int i)"
| "safe_code (JStr s) = safe_token s"
| "safe_code _ = None"

fun first_code :: "json list \<Rightarrow> string option" where
  "first_code [] = None"
| "first_code (v # vs) = (case safe_code v of Some c \<Rightarrow> Some c | None \<Rightarrow> first_code vs)"

text \<open>\<open>decode\<close> is the lossy UTF-8 decoding of the body followed by \<^verbatim>\<open>json.loads\<close>.\<close>

definition error_code_from_body :: "('raw \<Rightarrow> json option) \<Rightarrow> 'raw \<Rightarrow> string option" where
  "error_code_from_body decode raw =
     (case decode raw of
        None \<Rightarrow> None
      | Some body \<Rightarrow>
          if \<not> is_obj body then None
          else let nested = obj_get body ''error'';
                   candidates = (if is_obj nested then [obj_get nested ''code'', obj_get nested ''type''] else [])
                                @ [obj_get body ''code'', obj_get body ''type'']
               in first_code candidates)"

definition model_name_from_tuple :: "string \<Rightarrow> string" where
  "model_name_from_tuple model_tuple =
     (let s = (if CHR ''/'' \<in> set model_tuple then after_char (CHR ''/'') model_tuple else model_tuple)
      in before_char (CHR ''@'') s)"

subsection \<open>The default transport\<close>

text \<open>
  What \<^verbatim>\<open>urlopen\<close> ends in: a 2xx body, an \<^verbatim>\<open>HTTPError\<close> with the error body (\<open>None\<close> when it
  cannot be read), or an unreachable peer. Decoding a 2xx body may fail as UTF-8 (\<open>Inl\<close> the
  name of an exception nobody catches here) or as JSON (\<open>Inr None\<close>).
\<close>

datatype 'raw http_outcome =
    HttpOk 'raw
  | HttpStatus int "'raw option"
  | Unreachable string bool

datatype transport_error = TransportProvider provider_error | TransportRaised string

definition urllib_transport ::
  "('raw \<Rightarrow> string + json option) \<Rightarrow> ('raw \<Rightarrow> json option) \<Rightarrow> 'raw \<Rightarrow> 'raw http_outcome
    \<Rightarrow> transport_error + json" where
  "urllib_transport decode_strict decode no_body outcome =
     (case outcome of
        HttpOk raw \<Rightarrow>
          (case decode_strict raw of
             Inl exc \<Rightarrow> Inl (TransportRaised exc)
           | Inr None \<Rightarrow> Inl (TransportProvider (provider_error ''provider returned non-JSON body'' ''bad_body''))
           | Inr (Some j) \<Rightarrow> Inr j)
      | HttpStatus code body \<Rightarrow>
          (let raw = (case body of None \<Rightarrow> no_body | Some b \<Rightarrow> b)
           in Inl (TransportProvider
                \<lparr>pe_message = ''provider HTTP '' @ str_of_int code, pe_status_code = Some code,
                 pe_error_code = error_code_from_body decode raw, pe_failure_kind = Some ''http''\<rparr>))
      | Unreachable exc timed_out \<Rightarrow>
          Inl (TransportProvider (provider_error (''provider unreachable: '' @ exc)
                 (if timed_out then ''timeout'' else ''network''))))"

subsection \<open>Completions\<close>

record completion_result =
  cm_text :: string
  cm_tool_calls_json :: "string option"
  cm_output_tokens :: "int option"
  cm_reasoning_tokens :: "int option"
  cm_latency_ms :: int
  cm_finish_reason :: "string option"
  cm_returned_model :: "string option"
  cm_content_null :: bool

text \<open>\<^verbatim>\<open>int()\<close> of a float that is no number raises: \<open>ValueError\<close> or \<open>OverflowError\<close>, one error here.\<close>

fun int_or_none :: "json \<Rightarrow> py_error + int option" where
  "int_or_none (JInt i) = Inr (Some i)"
| "int_or_none (JFloat x) = Inr (Some (py_int x))"
| "int_or_none JNonFinite = Inl (ValueError ''cannot convert float to integer'')"
| "int_or_none _ = Inr None"

definition parse_usage :: "json \<Rightarrow> py_error + int option \<times> int option" where
  "parse_usage data =
     (let usage = obj_get data ''usage''
      in if \<not> is_obj usage then Inr (None, None)
         else sum_bind (int_or_none (obj_get usage ''completion_tokens''))
                (\<lambda>output_tokens.
                   let details = obj_get usage ''completion_tokens_details''
                   in sum_bind (if is_obj details then int_or_none (obj_get details ''reasoning_tokens'') else Inr None)
                        (\<lambda>reasoning_tokens. Inr (output_tokens, reasoning_tokens))))"

fun str_or_none :: "json \<Rightarrow> string option" where
  "str_or_none (JStr s) = Some s"
| "str_or_none _ = None"

record chat_provider =
  cp_base_url :: string
  cp_api_key :: "string option"
  cp_max_tokens :: int
  cp_timeout :: real

definition is_ascii :: "string \<Rightarrow> bool" where
  "is_ascii s \<longleftrightarrow> list_all (\<lambda>c. (of_char c :: nat) < 128) s"

definition init_provider :: "string \<Rightarrow> string option \<Rightarrow> int \<Rightarrow> real \<Rightarrow> provider_error + chat_provider" where
  "init_provider base_url api_key max_tokens timeout =
     (case api_key of
        Some key \<Rightarrow>
          if \<not> is_ascii key
          then Inl \<lparr>pe_message = ''API key contains non-ASCII characters'', pe_status_code = None,
                    pe_error_code = None, pe_failure_kind = None\<rparr>
          else Inr \<lparr>cp_base_url = rstrip_char (CHR ''/'') base_url, cp_api_key = api_key,
                    cp_max_tokens = max_tokens, cp_timeout = timeout\<rparr>
      | None \<Rightarrow> Inr \<lparr>cp_base_url = rstrip_char (CHR ''/'') base_url, cp_api_key = None,
                     cp_max_tokens = max_tokens, cp_timeout = timeout\<rparr>)"

record completion_options =
  co_tools :: "json list option"
  co_max_tokens :: "int option"
  co_send_temperature :: bool
  co_allow_null_content :: bool

definition default_options :: completion_options where
  "default_options = \<lparr>co_tools = None, co_max_tokens = None, co_send_temperature = True, co_allow_null_content = False\<rparr>"

definition chat_message :: "string \<Rightarrow> string \<Rightarrow> json" where
  "chat_message role content = JObj [(''role'', JStr role), (''content'', JStr content)]"

definition request_payload ::
  "chat_provider \<Rightarrow> string \<Rightarrow> string option \<Rightarrow> string \<Rightarrow> completion_options \<Rightarrow> (string, json) dict" where
  "request_payload p model system user opts =
     (let messages = (case system of None \<Rightarrow> [] | Some s \<Rightarrow> [chat_message ''system'' s]) @ [chat_message ''user'' user];
          payload = [(''model'', JStr model), (''temperature'', JInt 0),
                     (''max_tokens'', JInt (case co_max_tokens opts of None \<Rightarrow> cp_max_tokens p | Some n \<Rightarrow> n)),
                     (''messages'', JArr messages)];
          payload = (if \<not> co_send_temperature opts then AList.delete ''temperature'' payload else payload)
      in case co_tools opts of None \<Rightarrow> payload | Some ts \<Rightarrow> AList.update ''tools'' (JArr ts) payload)"

definition request_headers :: "chat_provider \<Rightarrow> (string, string) dict" where
  "request_headers p =
     (let headers = [(''Content-Type'', ''application/json'')]
      in case cp_api_key p of
           None \<Rightarrow> headers
         | Some key \<Rightarrow> if key = [] then headers else AList.update ''Authorization'' (''Bearer '' @ key) headers)"

datatype call_error = CallProvider provider_error | CallRaised py_error

abbreviation bad_schema :: "string \<Rightarrow> call_error" where
  "bad_schema message \<equiv> CallProvider (provider_error message ''bad_schema'')"

definition read_message :: "json \<Rightarrow> (json \<times> json) option" where
  "read_message data =
     (case Option.bind (json_item data ''choices'') json_head of
        None \<Rightarrow> None
      | Some choice \<Rightarrow>
          (case json_item choice ''message'' of
             None \<Rightarrow> None
           | Some message \<Rightarrow> if is_obj message then Some (choice, message) else None))"

fun tool_calls_text :: "(json \<Rightarrow> string) \<Rightarrow> json \<Rightarrow> string option" where
  "tool_calls_text dumps (JArr (c # cs)) = Some (dumps (JArr (c # cs)))"
| "tool_calls_text dumps _ = None"

definition message_text :: "completion_options \<Rightarrow> json \<Rightarrow> (string \<times> bool) option" where
  "message_text opts raw =
     (if raw = JNull \<and> co_allow_null_content opts then Some ([], True)
      else case raw of
             JStr s \<Rightarrow> Some (s, False)
           | _ \<Rightarrow> if co_tools opts = None then None else Some ([], False))"

definition read_completion ::
  "(json \<Rightarrow> string) \<Rightarrow> completion_options \<Rightarrow> int \<Rightarrow> json \<Rightarrow> call_error + completion_result" where
  "read_completion dumps opts latency_ms data =
     (case read_message data of
        None \<Rightarrow> Inl (bad_schema ''unexpected completion schema'')
      | Some (choice, message) \<Rightarrow>
          (case message_text opts (obj_get message ''content'') of
             None \<Rightarrow> Inl (bad_schema ''completion content not a string'')
           | Some (text, content_null) \<Rightarrow>
               (case parse_usage data of
                  Inl e \<Rightarrow> Inl (CallRaised e)
                | Inr (output_tokens, reasoning_tokens) \<Rightarrow>
                    Inr \<lparr>cm_text = text,
                         cm_tool_calls_json = tool_calls_text dumps (obj_get message ''tool_calls''),
                         cm_output_tokens = output_tokens, cm_reasoning_tokens = reasoning_tokens,
                         cm_latency_ms = latency_ms,
                         cm_finish_reason = str_or_none (obj_get choice ''finish_reason''),
                         cm_returned_model = str_or_none (obj_get data ''model''),
                         cm_content_null = content_null\<rparr>)))"

type_synonym 'w transport =
  "string \<Rightarrow> (string, string) dict \<Rightarrow> string \<Rightarrow> real \<Rightarrow> 'w \<Rightarrow> (transport_error + json) \<times> 'w"

definition complete_ex ::
  "(json \<Rightarrow> string) \<Rightarrow> (json \<Rightarrow> string) \<Rightarrow> ('w \<Rightarrow> real) \<Rightarrow> 'w transport \<Rightarrow> chat_provider
    \<Rightarrow> string \<Rightarrow> string option \<Rightarrow> string \<Rightarrow> completion_options \<Rightarrow> 'w \<Rightarrow> (call_error + completion_result) \<times> 'w" where
  "complete_ex dumps dumps_sorted perf transport p model system user opts w =
     (let body = dumps (JObj (request_payload p model system user opts));
          (response, w') = transport (cp_base_url p @ ''/chat/completions'') (request_headers p) body (cp_timeout p) w
      in case response of
           Inl (TransportProvider e) \<Rightarrow> (Inl (CallProvider e), w')
         | Inl (TransportRaised exc) \<Rightarrow>
             (Inl (CallProvider (provider_error (''transport failed: '' @ exc) ''transport'')), w')
         | Inr data \<Rightarrow> (read_completion dumps_sorted opts (py_int ((perf w' - perf w) * 1000)) data, w'))"

definition complete ::
  "(json \<Rightarrow> string) \<Rightarrow> (json \<Rightarrow> string) \<Rightarrow> ('w \<Rightarrow> real) \<Rightarrow> 'w transport \<Rightarrow> chat_provider
    \<Rightarrow> string \<Rightarrow> string \<Rightarrow> string \<Rightarrow> 'w \<Rightarrow> (call_error + string \<times> int) \<times> 'w" where
  "complete dumps dumps_sorted perf transport p model system user w =
     (case complete_ex dumps dumps_sorted perf transport p model (Some system) user default_options w of
        (r, w') \<Rightarrow> (map_sum id (\<lambda>res. (cm_text res, cm_latency_ms res)) r, w'))"

subsection \<open>Lemmas\<close>

definition token_like :: "string \<Rightarrow> bool" where
  "token_like s \<longleftrightarrow> 0 < length s \<and> length s \<le> 64 \<and> set s \<subseteq> set error_code_chars"

lemma safe_token_like: "safe_token s = Some c \<Longrightarrow> token_like c"
  by (simp add: safe_token_def token_like_def split: if_splits)

lemma safe_code_like: "safe_code v = Some c \<Longrightarrow> token_like c"
  by (cases v) (auto dest: safe_token_like)

lemma first_code_like: "first_code vs = Some c \<Longrightarrow> token_like c \<and> (\<exists>v\<in>set vs. safe_code v = Some c)"
  by (induction vs) (auto dest: safe_code_like split: option.splits)

lemma error_code_like: "error_code_from_body decode raw = Some c \<Longrightarrow> token_like c"
  by (auto simp: error_code_from_body_def Let_def split: option.splits if_splits dest: first_code_like safe_code_like)

lemma int_or_none_error: "int_or_none j = Inl e \<longleftrightarrow> j = JNonFinite \<and> e = ValueError ''cannot convert float to integer''"
  by (cases j) auto

lemma parse_usage_error:
  "parse_usage data = Inl e \<Longrightarrow>
     obj_get (obj_get data ''usage'') ''completion_tokens'' = JNonFinite
     \<or> obj_get (obj_get (obj_get data ''usage'') ''completion_tokens_details'') ''reasoning_tokens'' = JNonFinite"
  by (auto simp: parse_usage_def Let_def int_or_none_error sum_bind_def split: if_splits sum.splits)

lemma read_completion_text:
  assumes "read_completion dumps opts latency data = Inr res" and "co_tools opts = None" and "\<not> co_allow_null_content opts"
  shows "\<exists>choice message. read_message data = Some (choice, message) \<and> obj_get message ''content'' = JStr (cm_text res)
     \<and> \<not> cm_content_null res"
  using assms
  by (auto simp: read_completion_def message_text_def split: option.splits prod.splits sum.splits json.splits if_splits)

subsection \<open>Properties\<close>

text \<open>What a provider error may reveal. Whatever the peer answers, a failed call of the default
  transport keeps of the error body at most one token of 1 to 64 characters from a fixed
  alphabet, and it carries a status exactly when the failure was an HTTP status.\<close>

theorem provider_errors_leak_no_text:
  "case urllib_transport decode_strict decode no_body outcome of
     Inl (TransportProvider e) \<Rightarrow>
       set_option (pe_error_code e) \<subseteq> {c. token_like c}
       \<and> set_option (pe_status_code e) = {code. \<exists>body. outcome = HttpStatus code body}
   | _ \<Rightarrow> True"
proof (cases outcome)
  case (HttpOk raw)
  then show ?thesis
    by (auto simp: urllib_transport_def provider_error_def split: sum.splits option.splits)
next
  case (HttpStatus code body)
  then show ?thesis
    by (auto simp: urllib_transport_def Let_def split: option.splits dest!: error_code_like)
next
  case (Unreachable exc timed_out)
  then show ?thesis by (simp add: urllib_transport_def provider_error_def)
qed

text \<open>How a completion can fail. Whatever the transport does, a call ends in a completion, in a
  \<open>ProviderError\<close>, or in a \<open>ValueError\<close>; the last exactly for a well-formed answer one of whose
  token counters is a float that is no number. So the counters are not as harmless as documented.\<close>

theorem completion_failures_classified:
  assumes "fst (complete_ex dumps dumps_sorted perf transport p model system user opts w) = Inl (CallRaised e)"
  shows "\<exists>data w'. transport (cp_base_url p @ ''/chat/completions'') (request_headers p)
       (dumps (JObj (request_payload p model system user opts))) (cp_timeout p) w = (Inr data, w')
     \<and> read_message data \<noteq> None
     \<and> (obj_get (obj_get data ''usage'') ''completion_tokens'' = JNonFinite
        \<or> obj_get (obj_get (obj_get data ''usage'') ''completion_tokens_details'') ''reasoning_tokens'' = JNonFinite)"
  using assms
  by (auto simp: complete_ex_def read_completion_def Let_def split: prod.splits sum.splits transport_error.splits
      option.splits dest!: parse_usage_error)

definition nan_answer :: json where
  "nan_answer =
     JObj [(''choices'', JArr [JObj [(''message'', JObj [(''content'', JStr ''7'')])]]),
           (''usage'', JObj [(''completion_tokens'', JNonFinite)])]"

theorem completion_failures_classified_witness:
  "read_message nan_answer \<noteq> None
   \<and> obj_get (obj_get nan_answer ''usage'') ''completion_tokens'' = JNonFinite"
proof -
  let ?p = "\<lparr>cp_base_url = [], cp_api_key = None, cp_max_tokens = 20, cp_timeout = 30\<rparr>"
  have "fst (complete_ex (\<lambda>_. []) (\<lambda>_. []) (\<lambda>_. 0) (\<lambda>_ _ _ _ w. (Inr nan_answer, w)) ?p ''m'' None ''u''
      default_options ()) = Inl (CallRaised (ValueError ''cannot convert float to integer''))"
    by (simp add: complete_ex_def read_completion_def read_message_def message_text_def parse_usage_def
        nan_answer_def default_options_def dict_get_def)
  from completion_failures_classified [OF this] show ?thesis
    by (auto simp: nan_answer_def dict_get_def)
qed

text \<open>The model name survives the tuple. Building \<open>provider/model@version\<close> and extracting the API
  name gives the model back, with and without a version, also when the model contains slashes.\<close>

theorem model_name_round_trip:
  assumes "CHR ''/'' \<notin> set vendor" and "CHR ''@'' \<notin> set model"
  shows "model_name_from_tuple (vendor @ CHR ''/'' # model @ CHR ''@'' # version) = model
     \<and> model_name_from_tuple (vendor @ CHR ''/'' # model) = model"
  using assms by (simp add: model_name_from_tuple_def after_char_append before_char_append before_char_id)

theorem model_name_round_trip_witness:
  "model_name_from_tuple ''openai/gpt-4o@2025-08'' = ''gpt-4o''"
  using model_name_round_trip [of "''openai''" "''gpt-4o''" "''2025-08''"] by simp

end
