(* ===== verification/Canary.thy ===== *)
theory Canary
  imports Corpus Providers
begin

section \<open>Canary execution (probe/canary.py)\<close>

text \<open>
  The record a canary leaves, the validity predicates, the plain executor and the strict
  runner with its pacing and backoff.

  A world of type \<open>'w\<close> carries whatever changes between calls: the clock, the provider's
  side, the time slept. \<open>env\<close> collects the functions the module takes from outside: the JSON
  parser and serialiser, SHA-256, the clock's ISO text and the white-space and fence
  stripping done with \<^verbatim>\<open>re.sub\<close>.
\<close>

subsection \<open>Results and environments\<close>

record canary_result =
  cr_timestamp :: string
  cr_model_tuple :: string
  cr_suite_version :: string
  cr_prompt_id :: string
  cr_response_hash :: string
  cr_output_length :: int
  cr_json_valid :: bool
  cr_latency_ms :: int
  cr_tool_call_valid :: "bool option"
  cr_output_tokens :: "int option"
  cr_reasoning_tokens :: "int option"

record 'w canary_env =
  ce_loads :: "string \<Rightarrow> json option"
  ce_dumps :: "json \<Rightarrow> string"
  ce_sha256 :: "string \<Rightarrow> string"
  ce_strip_fences :: "string \<Rightarrow> string"
  ce_now :: "'w \<Rightarrow> string"

text \<open>\<open>complete_ex\<close> is absent on a legacy provider. The tool flag selects the tool call's arguments.\<close>

record 'w provider =
  pr_complete_ex :: "(string \<Rightarrow> prompt \<Rightarrow> bool \<Rightarrow> 'w \<Rightarrow> (call_error + completion_result) \<times> 'w) option"
  pr_complete :: "string \<Rightarrow> prompt \<Rightarrow> 'w \<Rightarrow> (call_error + string \<times> int) \<times> 'w"

text \<open>The provider the module's own client gives: tools and the cost cap for tool canaries only.\<close>

definition tool_schema_json :: json where
  "tool_schema_json =
     JObj [(''type'', JStr ''function''),
       (''function'', JObj [(''name'', JStr ''get_weather''),
          (''description'', JStr ''Get the current weather for a location in the given unit.''),
          (''parameters'', JObj [(''type'', JStr ''object''),
             (''properties'', JObj [(''location'', JObj [(''type'', JStr ''string'')]),
                (''unit'', JObj [(''type'', JStr ''string''),
                   (''enum'', JArr [JStr ''celsius'', JStr ''fahrenheit''])])]),
             (''required'', JArr [JStr ''location'', JStr ''unit'']),
             (''additionalProperties'', JBool False)])])]"

definition client_provider ::
  "(json \<Rightarrow> string) \<Rightarrow> (json \<Rightarrow> string) \<Rightarrow> ('w \<Rightarrow> real) \<Rightarrow> 'w transport \<Rightarrow> chat_provider \<Rightarrow> 'w provider" where
  "client_provider dumps dumps_sorted perf transport p =
     \<lparr>pr_complete_ex = Some (\<lambda>model prompt is_tool w.
        complete_ex dumps dumps_sorted perf transport p model (Some (pm_system prompt)) (pm_user prompt)
          (if is_tool then default_options\<lparr>co_tools := Some [tool_schema_json], co_max_tokens := Some TOOL_CANARY_MAX_TOKENS\<rparr>
           else default_options) w),
      pr_complete = (\<lambda>model prompt w.
        complete dumps dumps_sorted perf transport p model (pm_system prompt) (pm_user prompt) w)\<rparr>"

text \<open>The dictionaries of prompts and results, and the content hash of a corpus; \<open>dumps\<close> sorts the keys.\<close>

definition prompt_json :: "prompt \<Rightarrow> json" where
  "prompt_json p =
     JObj ([(''prompt_id'', JStr (pm_prompt_id p))]
       @ (case pm_category p of None \<Rightarrow> [] | Some c \<Rightarrow> [(''category'', JStr c)])
       @ [(''system'', JStr (pm_system p)), (''user'', JStr (pm_user p))])"

definition suite_content_hash ::
  "(json \<Rightarrow> string) \<Rightarrow> (string \<Rightarrow> string) \<Rightarrow> prompt list \<Rightarrow> json list option \<Rightarrow> string" where
  "suite_content_hash dumps sha256 suite tools =
     sha256 (dumps (JObj [(''prompts'', JArr (map prompt_json suite)),
                          (''tools'', JArr (case tools of None \<Rightarrow> [] | Some ts \<Rightarrow> ts))]))"

definition result_to_dict :: "canary_result \<Rightarrow> (string, json) dict" where
  "result_to_dict r =
     (let opt = (\<lambda>f x. case x of None \<Rightarrow> JNull | Some y \<Rightarrow> f y)
      in [(''timestamp'', JStr (cr_timestamp r)), (''model_tuple'', JStr (cr_model_tuple r)),
          (''suite_version'', JStr (cr_suite_version r)), (''prompt_id'', JStr (cr_prompt_id r)),
          (''response_hash'', JStr (cr_response_hash r)), (''output_length'', JInt (cr_output_length r)),
          (''json_valid'', JBool (cr_json_valid r)), (''latency_ms'', JInt (cr_latency_ms r)),
          (''tool_call_valid'', case cr_tool_call_valid r of None \<Rightarrow> JNull | Some b \<Rightarrow> JBool b),
          (''output_tokens'', opt JInt (cr_output_tokens r)), (''reasoning_tokens'', opt JInt (cr_reasoning_tokens r))])"

subsection \<open>Validity predicates\<close>

definition is_json_valid :: "'w canary_env \<Rightarrow> string \<Rightarrow> bool" where
  "is_json_valid env raw \<longleftrightarrow> ce_loads env (ce_strip_fences env raw) \<noteq> None"

fun is_str :: "json \<Rightarrow> bool" where
  "is_str (JStr s) = True"
| "is_str _ = False"

fun items_ok :: "(string, tool_property) dict \<Rightarrow> (string \<times> json) list \<Rightarrow> bool" where
  "items_ok props [] = True"
| "items_ok props ((key, v) # items) =
     (case map_of props key of
        None \<Rightarrow> items_ok props items
      | Some prop \<Rightarrow>
          if tp_type prop = ''string'' \<and> \<not> is_str v then False
          else if (case tp_enum prop of None \<Rightarrow> False | Some allowed \<Rightarrow> v \<notin> JStr ` set allowed) then False
          else items_ok props items)"

fun validate_tool_args :: "json \<Rightarrow> tool_params \<Rightarrow> bool" where
  "validate_tool_args (JObj args) schema =
     (if tq_additional_properties schema = Some False
         \<and> \<not> fst ` set args \<subseteq> fst ` set (tq_properties schema) then False
      else if \<not> list_all (\<lambda>req. req \<in> fst ` set args) (tq_required schema) then False
      else items_ok (tq_properties schema) args)"
| "validate_tool_args _ schema = False"

text \<open>The chain of guards after the text parsed; \<open>calls\<close> is the decoded list.\<close>

definition call_valid :: "(string \<Rightarrow> json option) \<Rightarrow> json \<Rightarrow> tool_schema \<Rightarrow> bool" where
  "call_valid loads calls schema =
     (case calls of
        JArr (call # _) \<Rightarrow>
          (let fn = obj_get call ''function''
           in if \<not> is_obj call \<or> \<not> is_obj fn then False
              else if obj_get fn ''name'' \<noteq> JStr (ts_name schema) then False
              else case obj_get fn ''arguments'' of
                     JStr raw_args \<Rightarrow>
                       (case loads raw_args of None \<Rightarrow> False
                        | Some args \<Rightarrow> validate_tool_args args (ts_parameters schema))
                   | _ \<Rightarrow> False)
      | _ \<Rightarrow> False)"

definition is_tool_call_valid :: "'w canary_env \<Rightarrow> string option \<Rightarrow> tool_schema option \<Rightarrow> bool" where
  "is_tool_call_valid env tool_calls_json tool_schema =
     (let schema = (case tool_schema of None \<Rightarrow> FROZEN_TOOL_SCHEMA_V1 | Some s \<Rightarrow> s)
      in case tool_calls_json of
           None \<Rightarrow> False
         | Some text \<Rightarrow>
             if text = [] then False
             else (case ce_loads env text of None \<Rightarrow> False | Some calls \<Rightarrow> call_valid (ce_loads env) calls schema))"

subsection \<open>The executor\<close>

datatype canary_error =
    CanaryCall call_error
  | PartialSuite nat nat "string list"

abbreviation config_error :: "string \<Rightarrow> canary_error" where
  "config_error message \<equiv> CanaryCall (CallRaised (ValueError message))"

definition is_tool_prompt :: "prompt \<Rightarrow> bool" where
  "is_tool_prompt p \<longleftrightarrow> pm_category p = Some ''tool_calling''"

definition result_of ::
  "'w canary_env \<Rightarrow> string \<Rightarrow> string \<Rightarrow> string \<Rightarrow> prompt \<Rightarrow> string \<Rightarrow> int \<Rightarrow> bool option \<Rightarrow> int option
    \<Rightarrow> int option \<Rightarrow> canary_result" where
  "result_of env ts model_tuple suite_version p raw latency_ms tool_valid output_tokens reasoning_tokens =
     \<lparr>cr_timestamp = ts, cr_model_tuple = model_tuple, cr_suite_version = suite_version,
      cr_prompt_id = pm_prompt_id p, cr_response_hash = ce_sha256 env raw,
      cr_output_length = int (length raw),
      cr_json_valid = (if pm_category p = Some ''structured_output'' then is_json_valid env raw else False),
      cr_latency_ms = latency_ms, cr_tool_call_valid = tool_valid,
      cr_output_tokens = output_tokens, cr_reasoning_tokens = reasoning_tokens\<rparr>"

text \<open>One prompt: the four branches of the loop body.\<close>

definition run_prompt ::
  "'w canary_env \<Rightarrow> bool \<Rightarrow> 'w provider option \<Rightarrow> string \<Rightarrow> string \<Rightarrow> string \<Rightarrow> prompt \<Rightarrow> 'w
    \<Rightarrow> (canary_error + canary_result) \<times> 'w" where
  "run_prompt env mock prov ts model_tuple suite_version p w =
     (let result = result_of env ts model_tuple suite_version p;
          model_name = model_name_from_tuple model_tuple
      in if mock
         then if is_tool_prompt p
              then let raw = mock_tool_calls_for (ce_dumps env) (pm_prompt_id p)
                   in (Inr (result raw (-1)
                        (Some (is_tool_call_valid env (if raw = [] then None else Some raw) None)) None None), w)
              else (Inr (result (mock_text_for (pm_prompt_id p)) (-1) None None None), w)
         else case prov of
                None \<Rightarrow> (Inl (CanaryCall (CallRaised (AttributeError ''complete''))), w)
              | Some pr \<Rightarrow>
                  (case pr_complete_ex pr of
                     Some cex \<Rightarrow>
                       (case cex model_name p (is_tool_prompt p) w of
                          (Inl e, w) \<Rightarrow> (Inl (CanaryCall e), w)
                        | (Inr res, w) \<Rightarrow>
                            if is_tool_prompt p
                            then let raw = (case cm_tool_calls_json res of
                                              Some (c # cs) \<Rightarrow> c # cs | _ \<Rightarrow> cm_text res)
                                 in (Inr (result raw (cm_latency_ms res)
                                      (Some (is_tool_call_valid env (cm_tool_calls_json res) None))
                                      (cm_output_tokens res) (cm_reasoning_tokens res)), w)
                            else (Inr (result (cm_text res) (cm_latency_ms res) None
                                   (cm_output_tokens res) (cm_reasoning_tokens res)), w))
                   | None \<Rightarrow>
                       if is_tool_prompt p
                       then (Inl (config_error ''provider does not expose complete_ex''), w)
                       else (case pr_complete pr model_name p w of
                               (Inl e, w) \<Rightarrow> (Inl (CanaryCall e), w)
                             | (Inr (raw, latency_ms), w) \<Rightarrow> (Inr (result raw latency_ms None None None), w))))"

fun run_prompts ::
  "(prompt \<Rightarrow> 'w \<Rightarrow> (canary_error + canary_result) \<times> 'w) \<Rightarrow> prompt list \<Rightarrow> 'w
    \<Rightarrow> (canary_error + canary_result list) \<times> 'w" where
  "run_prompts run [] w = (Inr [], w)"
| "run_prompts run (p # ps) w =
     (case run p w of
        (Inl e, w) \<Rightarrow> (Inl e, w)
      | (Inr r, w) \<Rightarrow>
          (case run_prompts run ps w of
             (Inl e, w) \<Rightarrow> (Inl e, w)
           | (Inr rs, w) \<Rightarrow> (Inr (r # rs), w)))"

definition execute_canary ::
  "'w canary_env \<Rightarrow> string \<Rightarrow> prompt list option \<Rightarrow> bool \<Rightarrow> 'w provider option \<Rightarrow> string option \<Rightarrow> 'w
    \<Rightarrow> (canary_error + canary_result list) \<times> 'w" where
  "execute_canary env model_tuple suite mock prov suite_version w =
     (let suite = (case suite of None \<Rightarrow> CANARY_SUITE_V1 | Some s \<Rightarrow> s);
          suite_version = (case suite_version of None \<Rightarrow> SUITE_VERSION | Some v \<Rightarrow> v)
      in if \<not> mock \<and> prov = None then (Inl (config_error ''Live execution requires a provider''), w)
         else run_prompts (run_prompt env mock prov (ce_now env w) model_tuple suite_version) suite w)"

subsection \<open>The strict runner\<close>

definition TRANSIENT_STATUS_CODES :: "int list" where
  "TRANSIENT_STATUS_CODES = [429, 503]"

definition DEFAULT_MAX_RETRIES :: int where
  "DEFAULT_MAX_RETRIES = 2"

definition RETRY_BACKOFF_BASE_MS :: int where
  "RETRY_BACKOFF_BASE_MS = 5000"

definition DEFAULT_MAX_TOTAL_BACKOFF_MS :: int where
  "DEFAULT_MAX_TOTAL_BACKOFF_MS = 60000"

fun is_transient :: "canary_error \<Rightarrow> bool" where
  "is_transient (CanaryCall (CallProvider e)) =
     (case pe_status_code e of None \<Rightarrow> False | Some code \<Rightarrow> code \<in> set TRANSIENT_STATUS_CODES)"
| "is_transient _ = False"

definition backoff_ms :: "int \<Rightarrow> int \<Rightarrow> int" where
  "backoff_ms attempt backoff_base_ms = backoff_base_ms * 2 ^ nat (attempt - 1)"

definition pacing_budget_ms :: "int \<Rightarrow> int \<Rightarrow> int \<Rightarrow> int" where
  "pacing_budget_ms prompt_count delay_ms max_total_backoff_ms =
     (let paced = (if prompt_count \<le> 1 then 0 else (prompt_count - 1) * max 0 delay_ms)
      in paced + max 0 max_total_backoff_ms)"

text \<open>Pacing and retry parameters, and the sleep function, which takes seconds.\<close>

record 'w pacing =
  pc_delay_ms :: int
  pc_max_retries :: int
  pc_backoff_base_ms :: int
  pc_max_total_backoff_ms :: int
  pc_sleeper :: "real \<Rightarrow> 'w \<Rightarrow> 'w"

text \<open>
  The retry loop of one prompt, from the number of failed attempts and the backoff spent so
  far: the results of the attempt that succeeded, or \<open>None\<close>. Each retry raises \<open>attempt\<close>,
  and no retry is made beyond \<open>max_retries\<close>.
\<close>

function attempt_prompt ::
  "'w pacing \<Rightarrow> ('w \<Rightarrow> (canary_error + canary_result list) \<times> 'w) \<Rightarrow> int \<Rightarrow> int \<Rightarrow> 'w
    \<Rightarrow> canary_result list option \<times> int \<times> 'w" where
  "attempt_prompt pc run attempt spent w =
     (case run w of
        (Inr rs, w) \<Rightarrow> (Some rs, spent, w)
      | (Inl e, w) \<Rightarrow>
          (let attempt = attempt + 1;
               remaining_ms = pc_max_total_backoff_ms pc - spent;
               wait_ms = min (backoff_ms attempt (pc_backoff_base_ms pc)) remaining_ms
           in if attempt > pc_max_retries pc \<or> wait_ms \<le> 0 \<or> \<not> is_transient e
              then (None, spent, w)
              else attempt_prompt pc run attempt (spent + wait_ms) (pc_sleeper pc (of_int wait_ms / 1000) w)))"
  by pat_completeness auto
termination
  by (relation "measure (\<lambda>(pc, _, attempt, _, _). nat (pc_max_retries pc - attempt))") auto

declare attempt_prompt.simps [simp del]

text \<open>The loop over the suite; \<open>first\<close> is \<open>index == 0\<close>.\<close>

fun strict_loop ::
  "'w pacing \<Rightarrow> (prompt \<Rightarrow> 'w \<Rightarrow> (canary_error + canary_result list) \<times> 'w) \<Rightarrow> bool \<Rightarrow> prompt list
    \<Rightarrow> canary_result list \<times> string list \<times> int \<times> 'w \<Rightarrow> canary_result list \<times> string list \<times> int \<times> 'w" where
  "strict_loop pc run first [] st = st"
| "strict_loop pc run first (p # ps) (results, failed, spent, w) =
     (let w = (if \<not> first \<and> pc_delay_ms pc > 0 then pc_sleeper pc (of_int (pc_delay_ms pc) / 1000) w else w)
      in case attempt_prompt pc (run p) 0 spent w of
           (Some rs, spent, w) \<Rightarrow> strict_loop pc run False ps (results @ rs, failed, spent, w)
         | (None, spent, w) \<Rightarrow> strict_loop pc run False ps (results, failed @ [pm_prompt_id p], spent, w))"

definition execute_canary_strict ::
  "'w canary_env \<Rightarrow> string \<Rightarrow> prompt list option \<Rightarrow> bool \<Rightarrow> 'w provider option \<Rightarrow> string option \<Rightarrow> 'w pacing
    \<Rightarrow> 'w \<Rightarrow> (canary_error + canary_result list) \<times> 'w" where
  "execute_canary_strict env model_tuple suite mock prov suite_version pc w =
     (let suite = (case suite of None \<Rightarrow> CANARY_SUITE_V1 | Some s \<Rightarrow> s)
      in if \<not> mock \<and> prov = None then (Inl (config_error ''Live execution requires a provider''), w)
         else if \<not> mock \<and> list_ex is_tool_prompt suite
                 \<and> (case prov of None \<Rightarrow> True | Some pr \<Rightarrow> pr_complete_ex pr = None)
         then (Inl (config_error ''provider does not expose complete_ex''), w)
         else case strict_loop pc (\<lambda>p. execute_canary env model_tuple (Some [p]) mock prov suite_version)
                     True suite ([], [], 0, w) of
                (results, failed, spent, w) \<Rightarrow>
                  if failed \<noteq> [] \<or> length results \<noteq> length suite
                  then (Inl (PartialSuite (length results) (length suite) failed), w)
                  else (Inr results, w))"

subsection \<open>Lemmas: one prompt\<close>

lemmas run_prompt_splits = prod.splits sum.splits option.splits if_splits list.splits

lemma run_prompt_result:
  assumes "run_prompt env mock prov ts mt v p w = (Inr r, w')"
  shows "cr_prompt_id r = pm_prompt_id p" "cr_model_tuple r = mt" "cr_suite_version r = v" "cr_timestamp r = ts"
  using assms by (auto simp: run_prompt_def result_of_def Let_def split: run_prompt_splits)

text \<open>The time stamp is the only thing a result takes from the start of the call.\<close>

definition untimed :: "canary_result \<Rightarrow> canary_result" where
  "untimed r = r\<lparr>cr_timestamp := []\<rparr>"

lemma untimed_stamp: "untimed (r\<lparr>cr_timestamp := ts\<rparr>) = untimed r"
  by (simp add: untimed_def)

lemma run_prompt_stamp:
  "run_prompt env mock prov ts' mt v p w =
     (case run_prompt env mock prov ts mt v p w of (r, w') \<Rightarrow> (map_sum id (\<lambda>r. r\<lparr>cr_timestamp := ts'\<rparr>) r, w'))"
  by (auto simp: run_prompt_def result_of_def Let_def split: prod.split sum.split option.split list.split)

lemma run_prompts_ids:
  "run_prompts run ps w = (Inr rs, w') \<Longrightarrow> (\<And>p w r w'. run p w = (Inr r, w') \<Longrightarrow> cr_prompt_id r = pm_prompt_id p)
   \<Longrightarrow> map cr_prompt_id rs = map pm_prompt_id ps"
proof (induction ps arbitrary: w rs)
  case (Cons p ps)
  then show ?case by (fastforce split: prod.splits sum.splits)
qed simp

lemma execute_one:
  "execute_canary env mt (Some [p]) mock prov ver w =
     (if \<not> mock \<and> prov = None then (Inl (config_error ''Live execution requires a provider''), w)
      else case run_prompt env mock prov (ce_now env w) mt (case ver of None \<Rightarrow> SUITE_VERSION | Some v \<Rightarrow> v) p w of
             (Inl e, w') \<Rightarrow> (Inl e, w') | (Inr r, w') \<Rightarrow> (Inr [r], w'))"
  by (simp add: execute_canary_def split: prod.split sum.split)

definition version_of :: "string option \<Rightarrow> string" where
  "version_of ver = (case ver of None \<Rightarrow> SUITE_VERSION | Some v \<Rightarrow> v)"

lemma execute_one_result:
  assumes "execute_canary env mt (Some [p]) mock prov ver w = (Inr rs, w')"
  shows "\<exists>r. rs = [r] \<and> cr_prompt_id r = pm_prompt_id p \<and> cr_model_tuple r = mt \<and> cr_suite_version r = version_of ver"
  using assms
  by (auto simp: execute_one version_of_def dest: run_prompt_result split: prod.splits sum.splits if_splits)

subsection \<open>Lemmas: the retry loop\<close>

lemma attempt_prompt_success:
  assumes "attempt_prompt pc run attempt spent w = (Some rs, spent', w')"
  shows "\<exists>v v'. run v = (Inr rs, v')"
  using assms
proof (induction pc run attempt spent w rule: attempt_prompt.induct)
  case (1 pc run attempt spent w)
  show ?case
  proof (cases "run w")
    case (Pair r v)
    with 1 show ?thesis
      by (cases r) (auto simp: attempt_prompt.simps [of pc run attempt spent w] Let_def split: if_splits)
  qed
qed

text \<open>
  The backoff spent stays within the ceiling, and is what the sleeper was called for. \<open>slept\<close>
  is any measure of the world that the sleeper advances and the calls leave alone.
\<close>

lemma attempt_prompt_backoff:
  assumes "attempt_prompt pc run attempt spent w = (r, spent', w')"
    and "\<And>s w. slept (pc_sleeper pc s w) = slept w + s" and "\<And>w. slept (snd (run w)) = (slept w :: real)"
    and "spent \<le> max 0 (pc_max_total_backoff_ms pc)"
  shows "spent \<le> spent' \<and> spent' \<le> max 0 (pc_max_total_backoff_ms pc)
     \<and> slept w' = slept w + of_int (spent' - spent) / 1000"
  using assms
proof (induction pc run attempt spent w rule: attempt_prompt.induct)
  case (1 pc run attempt spent w)
  obtain res v where run: "run w = (res, v)" by fastforce
  have v: "slept v = slept w" using 1(4) [of w] run by simp
  let ?wait = "min (backoff_ms (attempt + 1) (pc_backoff_base_ms pc)) (pc_max_total_backoff_ms pc - spent)"
  show ?case
  proof (cases "\<exists>e. res = Inl e \<and> \<not> (attempt + 1 > pc_max_retries pc \<or> ?wait \<le> 0 \<or> \<not> is_transient e)")
    case True
    then obtain e where e: "res = Inl e"
      "\<not> (attempt + 1 > pc_max_retries pc \<or> ?wait \<le> 0 \<or> \<not> is_transient e)" by blast
    then have step: "attempt_prompt pc run attempt spent w =
        attempt_prompt pc run (attempt + 1) (spent + ?wait) (pc_sleeper pc (of_int ?wait / 1000) v)"
      using run by (simp add: attempt_prompt.simps [of pc run attempt spent w] Let_def)
    have "spent + ?wait \<le> spent' \<and> spent' \<le> max 0 (pc_max_total_backoff_ms pc)
        \<and> slept w' = slept (pc_sleeper pc (of_int ?wait / 1000) v) + of_int (spent' - (spent + ?wait)) / 1000"
      using "1.IH" [OF run [symmetric] e(1) refl refl refl e(2)] step "1.prems" by simp
    with e(2) "1.prems"(2) v show ?thesis by (simp add: field_simps)
  next
    case False
    then have "spent' = spent \<and> w' = v"
      using run "1.prems"(1)
      by (cases res) (auto simp: attempt_prompt.simps [of pc run attempt spent w] Let_def split: if_splits)
    with v "1.prems"(4) show ?thesis by simp
  qed
qed

subsection \<open>Lemmas: the strict loop\<close>

definition stamped_for :: "string \<Rightarrow> string \<Rightarrow> canary_result list \<Rightarrow> bool" where
  "stamped_for mt v rs \<longleftrightarrow> list_all (\<lambda>r. cr_model_tuple r = mt \<and> cr_suite_version r = v) rs"

text \<open>Every prompt ends either in a result or among the failed ids, in suite order.\<close>

lemma strict_loop_partition:
  assumes "strict_loop pc (\<lambda>p. execute_canary env mt (Some [p]) mock prov ver) first ps (results, failed, spent, w) =
      (results', failed', spent', w')"
  shows "\<exists>rs fs. results' = results @ rs \<and> failed' = failed @ fs \<and> stamped_for mt (version_of ver) rs
     \<and> map pm_prompt_id ps \<in> shuffles (map cr_prompt_id rs) fs"
  using assms
proof (induction ps arbitrary: first results failed spent w)
  case Nil
  then show ?case by (simp add: stamped_for_def)
next
  case (Cons p ps)
  let ?run = "\<lambda>p. execute_canary env mt (Some [p]) mock prov ver"
  let ?w = "if \<not> first \<and> pc_delay_ms pc > 0 then pc_sleeper pc (of_int (pc_delay_ms pc) / 1000) w else w"
  obtain a spent1 w1 where a: "attempt_prompt pc (?run p) 0 spent ?w = (a, spent1, w1)" by (metis prod_cases3)
  show ?case
  proof (cases a)
    case None
    with Cons.prems a have "strict_loop pc ?run False ps (results, failed @ [pm_prompt_id p], spent1, w1) =
        (results', failed', spent', w')"
      by (simp add: Let_def)
    from Cons.IH [OF this] obtain rs fs where
      "results' = results @ rs" "failed' = failed @ pm_prompt_id p # fs" "stamped_for mt (version_of ver) rs"
      "map pm_prompt_id ps \<in> shuffles (map cr_prompt_id rs) fs" by auto
    then show ?thesis by (fastforce intro: Cons_in_shuffles_rightI)
  next
    case (Some one)
    then obtain r where r: "one = [r]" "cr_prompt_id r = pm_prompt_id p" "cr_model_tuple r = mt"
      "cr_suite_version r = version_of ver"
      using attempt_prompt_success a execute_one_result by metis
    with Cons.prems a Some have "strict_loop pc ?run False ps (results @ [r], failed, spent1, w1) =
        (results', failed', spent', w')"
      by (simp add: Let_def)
    from Cons.IH [OF this] obtain rs fs where
      "results' = results @ r # rs" "failed' = failed @ fs" "stamped_for mt (version_of ver) rs"
      "map pm_prompt_id ps \<in> shuffles (map cr_prompt_id rs) fs" by auto
    with r show ?thesis
      by (intro exI [of _ "r # rs"] exI [of _ fs]) (simp add: stamped_for_def Cons_in_shuffles_leftI)
  qed
qed

text \<open>What a result may hold: the identity of its prompt, a stamp of the clock, a digest, and JSON validity of structured prompts only.\<close>

definition result_for :: "'w canary_env \<Rightarrow> string \<Rightarrow> string \<Rightarrow> prompt \<Rightarrow> canary_result \<Rightarrow> bool" where
  "result_for env mt v p r \<longleftrightarrow> cr_prompt_id r = pm_prompt_id p \<and> cr_model_tuple r = mt \<and> cr_suite_version r = v
     \<and> cr_timestamp r \<in> range (ce_now env) \<and> cr_response_hash r \<in> range (ce_sha256 env)
     \<and> (cr_json_valid r \<longrightarrow> pm_category p = Some ''structured_output'')"

lemma run_prompt_for:
  "run_prompt env mock prov (ce_now env v0) mt v p w = (Inr r, w') \<Longrightarrow> result_for env mt v p r"
  by (auto simp: run_prompt_def result_of_def result_for_def Let_def split: run_prompt_splits)

lemma execute_one_for:
  "execute_canary env mt (Some [p]) mock prov ver w = (Inr rs, w') \<Longrightarrow> \<exists>r. rs = [r] \<and> result_for env mt (version_of ver) p r"
  by (auto simp: execute_one version_of_def dest: run_prompt_for split: prod.splits sum.splits if_splits)

lemma strict_loop_results:
  assumes "strict_loop pc (\<lambda>p. execute_canary env mt (Some [p]) mock prov ver) first ps (results, failed, spent, w) =
      (results', failed', spent', w')"
  shows "\<exists>rs. results' = results @ rs \<and> length rs \<le> length ps
     \<and> (length rs = length ps \<longrightarrow> list_all2 (result_for env mt (version_of ver)) ps rs)"
  using assms
proof (induction ps arbitrary: first results failed spent w)
  case (Cons p ps)
  let ?run = "\<lambda>p. execute_canary env mt (Some [p]) mock prov ver"
  let ?w = "if \<not> first \<and> pc_delay_ms pc > 0 then pc_sleeper pc (of_int (pc_delay_ms pc) / 1000) w else w"
  obtain a spent1 w1 where a: "attempt_prompt pc (?run p) 0 spent ?w = (a, spent1, w1)" by (metis prod_cases3)
  show ?case
  proof (cases a)
    case None
    with Cons.prems a have "strict_loop pc ?run False ps (results, failed @ [pm_prompt_id p], spent1, w1) =
        (results', failed', spent', w')"
      by (simp add: Let_def)
    from Cons.IH [OF this] show ?thesis by (auto simp: le_Suc_eq)
  next
    case (Some one)
    then obtain r where r: "one = [r]" "result_for env mt (version_of ver) p r"
      using attempt_prompt_success a execute_one_for by metis
    with Cons.prems a Some have "strict_loop pc ?run False ps (results @ [r], failed, spent1, w1) =
        (results', failed', spent', w')"
      by (simp add: Let_def)
    from Cons.IH [OF this] obtain rs where "results' = (results @ [r]) @ rs" "length rs \<le> length ps"
      "length rs = length ps \<longrightarrow> list_all2 (result_for env mt (version_of ver)) ps rs" by blast
    with r show ?thesis by (intro exI [of _ "r # rs"]) simp
  qed
qed simp

lemma strict_run_results:
  assumes "execute_canary_strict env mt (Some suite) mock prov ver pc w = (Inr rs, w')"
  shows "list_all2 (result_for env mt (version_of ver)) suite rs"
proof -
  obtain rs1 failed spent w1 where loop: "strict_loop pc (\<lambda>p. execute_canary env mt (Some [p]) mock prov ver) True
      suite ([], [], 0, w) = (rs1, failed, spent, w1)" by (metis prod_cases4)
  with assms have "rs1 = rs" "length rs = length suite"
    by (auto simp: execute_canary_strict_def Let_def split: if_splits)
  with strict_loop_results [OF loop] show ?thesis by auto
qed

text \<open>The time slept in the loop: the pacing, and a backoff within what the ceiling has left.\<close>

lemma strict_loop_slept:
  assumes "strict_loop pc run first ps (results, failed, spent, w) = (results', failed', spent', w')"
    and sleeper: "\<And>s w. slept (pc_sleeper pc s w) = slept w + s" and calls: "\<And>p w. slept (snd (run p w)) = (slept w :: real)"
    and "spent \<le> max 0 (pc_max_total_backoff_ms pc)"
  shows "spent \<le> spent' \<and> spent' \<le> max 0 (pc_max_total_backoff_ms pc)
     \<and> slept w' = slept w + of_int (spent' - spent) / 1000
         + real (length ps - (if first then 1 else 0)) * of_int (max 0 (pc_delay_ms pc)) / 1000"
  using assms(1,4)
proof (induction ps arbitrary: first results failed spent w)
  case (Cons p ps)
  let ?w = "if \<not> first \<and> pc_delay_ms pc > 0 then pc_sleeper pc (of_int (pc_delay_ms pc) / 1000) w else w"
  obtain a spent1 w1 where a: "attempt_prompt pc (run p) 0 spent ?w = (a, spent1, w1)" by (metis prod_cases3)
  note spend = attempt_prompt_backoff [where slept = slept, OF a sleeper calls Cons.prems(2)]
  have w: "slept ?w = slept w + (if first then 0 else of_int (max 0 (pc_delay_ms pc)) / 1000)"
    by (simp add: sleeper)
  have rest: "\<exists>results1 failed1. strict_loop pc run False ps (results1, failed1, spent1, w1) =
      (results', failed', spent', w')"
    using Cons.prems(1) a by (cases a) (auto simp: Let_def)
  then have "spent1 \<le> spent' \<and> spent' \<le> max 0 (pc_max_total_backoff_ms pc)
     \<and> slept w' = slept w1 + of_int (spent' - spent1) / 1000
         + real (length ps) * of_int (max 0 (pc_delay_ms pc)) / 1000"
    using Cons.IH [where first = False] spend by fastforce
  with spend w show ?case by (cases first) (auto simp: field_simps)
qed simp

subsection \<open>Lemmas: strict against plain\<close>

lemma strict_loop_plain:
  assumes "run_prompts (run_prompt env mock prov ts mt (version_of ver)) ps w = (Inr rs, w')"
    and "mock \<or> prov \<noteq> None" and "pc_delay_ms pc \<le> 0"
  shows "\<exists>rs'. strict_loop pc (\<lambda>p. execute_canary env mt (Some [p]) mock prov ver) first ps (results, [], spent, w) =
       (results @ rs', [], spent, w') \<and> map untimed rs' = map untimed rs"
  using assms(1)
proof (induction ps arbitrary: first results w rs)
  case (Cons p ps)
  then obtain r w1 rs1 where step: "run_prompt env mock prov ts mt (version_of ver) p w = (Inr r, w1)"
    and rest: "run_prompts (run_prompt env mock prov ts mt (version_of ver)) ps w1 = (Inr rs1, w')" "rs = r # rs1"
    by (auto split: prod.splits sum.splits)
  let ?r = "r\<lparr>cr_timestamp := ce_now env w\<rparr>"
  have "execute_canary env mt (Some [p]) mock prov ver w = (Inr [?r], w1)"
    using step assms(2) run_prompt_stamp [of env mock prov "ce_now env w" mt "version_of ver" p w ts]
    by (auto simp: execute_one version_of_def)
  then have "attempt_prompt pc (execute_canary env mt (Some [p]) mock prov ver) 0 spent w = (Some [?r], spent, w1)"
    by (simp add: attempt_prompt.simps [of _ _ 0])
  moreover obtain rs' where "strict_loop pc (\<lambda>p. execute_canary env mt (Some [p]) mock prov ver) False ps
      (results @ [?r], [], spent, w1) = (results @ [?r] @ rs', [], spent, w')" "map untimed rs' = map untimed rs1"
    using Cons.IH [OF rest(1), of False "results @ [?r]"] by auto
  ultimately show ?case
    using assms(3) rest(2)
    by (intro exI [of _ "?r # rs'"]) (simp add: Let_def untimed_stamp)
qed simp

lemma run_prompts_tool_support:
  assumes "run_prompts (run_prompt env False (Some pr) ts mt v) ps w = (Inr rs, w')" and "list_ex is_tool_prompt ps"
  shows "pr_complete_ex pr \<noteq> None"
  using assms
proof (induction ps arbitrary: w rs)
  case (Cons p ps)
  then show ?case
    by (cases "pr_complete_ex pr"; cases "is_tool_prompt p")
       (auto simp: run_prompt_def Let_def split: prod.splits sum.splits)
qed simp

lemma run_prompt_slept:
  assumes "\<And>pr cex model p tool w. prov = Some pr \<Longrightarrow> pr_complete_ex pr = Some cex \<Longrightarrow>
      slept (snd (cex model p tool w)) = slept w"
    and "\<And>pr model p w. prov = Some pr \<Longrightarrow> slept (snd (pr_complete pr model p w)) = slept w"
  shows "slept (snd (run_prompt env mock prov ts mt v p w)) = slept w"
proof (cases prov)
  case (Some pr)
  have "slept w' = slept w" if "pr_complete pr model p w = (r, w')" for model r w'
    using assms(2) [OF Some, of model p w] that by simp
  moreover have "slept w' = slept w" if "pr_complete_ex pr = Some cex" "cex model p tool w = (r, w')"
    for cex model tool r w'
    using assms(1) [OF Some that(1), of model p tool w] that(2) by simp
  ultimately show ?thesis
    using Some by (auto simp: run_prompt_def Let_def split: prod.split sum.split option.split)
qed (simp add: run_prompt_def Let_def)

text \<open>The strict runner on a suite whose plain run succeeds, and on any suite in mock mode.\<close>

lemma strict_run_plain:
  assumes "execute_canary env mt suite mock prov ver w = (Inr rs, w')" and "pc_delay_ms pc \<le> 0"
  shows "\<exists>rs'. execute_canary_strict env mt suite mock prov ver pc w = (Inr rs', w')
     \<and> map untimed rs' = map untimed rs"
proof -
  let ?suite = "case suite of None \<Rightarrow> CANARY_SUITE_V1 | Some s \<Rightarrow> s"
  have live: "mock \<or> prov \<noteq> None"
    and plain: "run_prompts (run_prompt env mock prov (ce_now env w) mt (version_of ver)) ?suite w = (Inr rs, w')"
    using assms(1) by (auto simp: execute_canary_def version_of_def Let_def split: if_splits)
  from strict_loop_plain [OF plain live assms(2), of True "[]" 0] obtain rs' where
    loop: "strict_loop pc (\<lambda>p. execute_canary env mt (Some [p]) mock prov ver) True ?suite ([], [], 0, w) =
       (rs', [], 0, w')" and same: "map untimed rs' = map untimed rs" by auto
  have "map cr_prompt_id rs = map pm_prompt_id ?suite"
    by (rule run_prompts_ids [OF plain]) (rule run_prompt_result(1))
  then have "length rs = length ?suite" by (rule map_eq_imp_length_eq)
  moreover have "length rs' = length rs" using same by (rule map_eq_imp_length_eq)
  ultimately have "length rs' = length ?suite" by simp
  moreover have "mock \<or> \<not> list_ex is_tool_prompt ?suite \<or> (\<exists>pr. prov = Some pr \<and> pr_complete_ex pr \<noteq> None)"
    using live plain run_prompts_tool_support by (cases mock; cases prov) fastforce+
  ultimately show ?thesis
    using loop same live by (auto simp: execute_canary_strict_def Let_def split: option.split)
qed

lemma mock_run_succeeds:
  assumes "pc_delay_ms pc \<le> 0"
  shows "\<exists>rs. execute_canary_strict env mt (Some suite) True None ver pc w = (Inr rs, w)"
proof -
  have "\<exists>rs. run_prompts (run_prompt env True None ts mt v) ps w = (Inr rs, w)" for ts v ps
  proof (induction ps)
    case (Cons p ps)
    moreover have "\<exists>r. run_prompt env True None ts mt v p w = (Inr r, w)" by (simp add: run_prompt_def Let_def)
    ultimately show ?case by auto
  qed simp
  then obtain rs where "run_prompts (run_prompt env True None (ce_now env w) mt (case ver of None \<Rightarrow> SUITE_VERSION | Some v \<Rightarrow> v))
      suite w = (Inr rs, w)" by blast
  then have "execute_canary env mt (Some suite) True None ver w = (Inr rs, w)"
    by (simp add: execute_canary_def Let_def)
  from strict_run_plain [OF this assms] show ?thesis by blast
qed

subsection \<open>Properties\<close>

text \<open>C12: A strict run is all or nothing. It ends in one result per prompt, in suite order, stamped with
  the model and version; or in a partial-suite error whose failed ids, merged in order with those
  of the completed prompts, are the suite; or, in live mode only, in a configuration error.\<close>

theorem strict_run_all_or_nothing:
  "case execute_canary_strict env mt suite mock prov ver pc w of
     (Inr rs, _) \<Rightarrow>
       map cr_prompt_id rs = map pm_prompt_id (case suite of None \<Rightarrow> CANARY_SUITE_V1 | Some s \<Rightarrow> s)
       \<and> stamped_for mt (version_of ver) rs
   | (Inl (PartialSuite completed expected failed), _) \<Rightarrow>
       failed \<noteq> [] \<and> completed + length failed = expected
       \<and> (\<exists>ids. length ids = completed
            \<and> map pm_prompt_id (case suite of None \<Rightarrow> CANARY_SUITE_V1 | Some s \<Rightarrow> s) \<in> shuffles ids failed)
   | (Inl (CanaryCall e), w') \<Rightarrow> \<not> mock \<and> w' = w"
proof -
  let ?suite = "case suite of None \<Rightarrow> CANARY_SUITE_V1 | Some s \<Rightarrow> s"
  obtain rs failed spent w' where loop: "strict_loop pc (\<lambda>p. execute_canary env mt (Some [p]) mock prov ver) True
      ?suite ([], [], 0, w) = (rs, failed, spent, w')" by (metis prod_cases4)
  from strict_loop_partition [OF this] have stamped: "stamped_for mt (version_of ver) rs"
    and shuffle: "map pm_prompt_id ?suite \<in> shuffles (map cr_prompt_id rs) failed" by auto
  have count: "length ?suite = length rs + length failed" using length_shuffles [OF shuffle] by simp
  have "failed = [] \<Longrightarrow> map cr_prompt_id rs = map pm_prompt_id ?suite" using shuffle by simp
  then show ?thesis
    using loop stamped shuffle count
    by (auto simp: execute_canary_strict_def Let_def intro!: exI [of _ "map cr_prompt_id rs"])
qed

text \<open>C25: Waiting is bounded. For a sleeper that sleeps as long as it is told and a provider that does
  not sleep, a strict run sleeps at most the pacing budget, whatever fails and however often.\<close>

theorem strict_run_sleep_bounded:
  assumes "\<And>s w. slept (pc_sleeper pc s w) = slept w + s"
    and "\<And>pr cex model p tool w. prov = Some pr \<Longrightarrow> pr_complete_ex pr = Some cex \<Longrightarrow>
      slept (snd (cex model p tool w)) = (slept w :: real)"
    and "\<And>pr model p w. prov = Some pr \<Longrightarrow> slept (snd (pr_complete pr model p w)) = slept w"
  shows "slept (snd (execute_canary_strict env mt (Some suite) mock prov ver pc w)) - slept w
     \<le> of_int (pacing_budget_ms (int (length suite)) (pc_delay_ms pc) (pc_max_total_backoff_ms pc)) / 1000"
proof -
  let ?run = "\<lambda>p. execute_canary env mt (Some [p]) mock prov ver"
  obtain rs failed spent w' where loop: "strict_loop pc ?run True suite ([], [], 0, w) = (rs, failed, spent, w')"
    by (metis prod_cases4)
  have "slept (snd (?run p v)) = slept v" for p v
  proof -
    obtain r v' where r: "run_prompt env mock prov (ce_now env v) mt (version_of ver) p v = (r, v')" by fastforce
    have "slept (snd (run_prompt env mock prov (ce_now env v) mt (version_of ver) p v)) = slept v"
      by (rule run_prompt_slept) (use assms(2,3) in auto)
    with r show ?thesis by (cases r) (simp_all add: execute_one version_of_def)
  qed
  note bounds = strict_loop_slept [where slept = slept, OF loop assms(1) this]
  from bounds
  have "spent \<le> max 0 (pc_max_total_backoff_ms pc)"
    and "slept w' = slept w + of_int spent / 1000 + real (length suite - 1) * of_int (max 0 (pc_delay_ms pc)) / 1000"
    by simp_all
  then have "slept w' - slept w \<le>
      of_int (pacing_budget_ms (int (length suite)) (pc_delay_ms pc) (pc_max_total_backoff_ms pc)) / 1000"
    by (auto simp: pacing_budget_ms_def Let_def of_nat_diff field_simps)
  moreover have "0 \<le> real_of_int (pacing_budget_ms (int (length suite)) (pc_delay_ms pc) (pc_max_total_backoff_ms pc))"
    by (simp add: pacing_budget_ms_def Let_def)
  moreover have "snd (execute_canary_strict env mt (Some suite) mock prov ver pc w) \<in> {w, w'}"
    by (simp only: execute_canary_strict_def Let_def option.case loop prod.case) simp
  ultimately show ?thesis by auto
qed

text \<open>A provider that is always rate-limited: two retries of five and ten seconds, then one of five that
  the ceiling of 17 seconds cuts to two, and the pacing of one second between the prompts.\<close>

definition busy_provider :: "real provider" where
  "busy_provider =
     (let busy = \<lparr>pe_message = ''provider HTTP 429'', pe_status_code = Some 429, pe_error_code = None,
                  pe_failure_kind = Some ''http''\<rparr>
      in \<lparr>pr_complete_ex = Some (\<lambda>_ _ _ w. (Inl (CallProvider busy), w)),
          pr_complete = (\<lambda>_ _ w. (Inl (CallProvider busy), w))\<rparr>)"

definition busy_pacing :: "real pacing" where
  "busy_pacing = \<lparr>pc_delay_ms = 1000, pc_max_retries = 2, pc_backoff_base_ms = 5000,
                  pc_max_total_backoff_ms = 17000, pc_sleeper = (\<lambda>s w. w + s)\<rparr>"

definition silent_env :: "'w canary_env" where
  "silent_env = \<lparr>ce_loads = (\<lambda>_. None), ce_dumps = (\<lambda>_. []), ce_sha256 = (\<lambda>s. s), ce_strip_fences = (\<lambda>s. s),
                 ce_now = (\<lambda>w. [])\<rparr>"

theorem strict_run_sleep_bounded_witness:
  "snd (execute_canary_strict silent_env ''m'' (Some (take 2 CANARY_SUITE_V1)) False (Some busy_provider) None busy_pacing 0)
     \<le> 18"
proof -
  let ?w1 = "snd (execute_canary_strict silent_env ''m'' (Some (take 2 CANARY_SUITE_V1)) False (Some busy_provider) None
    busy_pacing 0)"
  have "(\<lambda>w. w) ?w1 - (\<lambda>w. w) 0 \<le> of_int (pacing_budget_ms (int (length (take 2 CANARY_SUITE_V1)))
      (pc_delay_ms busy_pacing) (pc_max_total_backoff_ms busy_pacing)) / 1000"
    by (rule strict_run_sleep_bounded) (auto simp: busy_pacing_def busy_provider_def Let_def)
  moreover have "int (length (take 2 CANARY_SUITE_V1)) = 2" by (simp add: CANARY_SUITE_V1_def)
  ultimately show ?thesis by (simp only:) (simp add: busy_pacing_def pacing_budget_ms_def)
qed

text \<open>The strict runner is the plain executor. Where the plain run of a suite succeeds, an unpaced
  strict run from the same world succeeds too, leaves the same world, and returns the same
  results up to their time stamps.\<close>

theorem strict_run_refines_plain_run:
  assumes "execute_canary env mt suite mock prov ver w = (Inr rs, w')" and "pc_delay_ms pc \<le> 0"
  shows "\<exists>rs'. execute_canary_strict env mt suite mock prov ver pc w = (Inr rs', w')
     \<and> map untimed rs' = map untimed rs"
  using assms by (rule strict_run_plain)

theorem strict_run_refines_plain_run_witness:
  "\<exists>rs. execute_canary_strict silent_env ''m'' (Some [tool_canary_prompt]) True None None (busy_pacing\<lparr>pc_delay_ms := 0\<rparr>) 0
     = (Inr rs, 0) \<and> length rs = 1"
proof -
  have "\<exists>r. execute_canary silent_env ''m'' (Some [tool_canary_prompt]) True None None (0 :: real) = (Inr [r], 0)"
    by (cases "is_tool_prompt tool_canary_prompt") (simp_all add: execute_one run_prompt_def Let_def)
  then obtain r where "execute_canary silent_env ''m'' (Some [tool_canary_prompt]) True None None (0 :: real) = (Inr [r], 0)"
    by blast
  from strict_run_refines_plain_run [OF this, of "busy_pacing\<lparr>pc_delay_ms := 0\<rparr>"] obtain rs where
    "execute_canary_strict silent_env ''m'' (Some [tool_canary_prompt]) True None None (busy_pacing\<lparr>pc_delay_ms := 0\<rparr>) 0
     = (Inr rs, 0)" "map untimed rs = map untimed [r]" by (auto simp: busy_pacing_def)
  moreover from this(2) have "length rs = 1" by (auto dest: map_eq_imp_length_eq)
  ultimately show ?thesis by blast
qed

text \<open>What the frozen tool schema accepts. Arguments pass exactly when they are an object with the
  two required members and no other, a string for the location and one of the two units.\<close>

theorem frozen_schema_accepts_exactly:
  "validate_tool_args (JObj args) (ts_parameters FROZEN_TOOL_SCHEMA_V1) \<longleftrightarrow>
     {''location'', ''unit''} \<subseteq> fst ` set args
     \<and> set args \<subseteq> range (\<lambda>s. (''location'', JStr s)) \<union> {(''unit'', JStr ''celsius''), (''unit'', JStr ''fahrenheit'')}"
proof -
  have items: "items_ok (tq_properties (ts_parameters FROZEN_TOOL_SCHEMA_V1)) xs \<longleftrightarrow>
      set xs \<subseteq> range (\<lambda>s. (''location'', JStr s)) \<union> {(''unit'', JStr ''celsius''), (''unit'', JStr ''fahrenheit'')}"
    if "fst ` set xs \<subseteq> {''location'', ''unit''}" for xs
    using that
  proof (induction xs)
    case (Cons x xs)
    obtain k v where "x = (k, v)" by fastforce
    with Cons show ?case by (cases v) (auto simp: FROZEN_TOOL_SCHEMA_V1_def)
  qed simp
  show ?thesis
  proof (cases "fst ` set args \<subseteq> {''location'', ''unit''}")
    case True
    with items [OF True] show ?thesis by (auto simp: FROZEN_TOOL_SCHEMA_V1_def)
  next
    case False
    have "fst ` set args \<subseteq> {''location'', ''unit''}"
      if "set args \<subseteq> range (\<lambda>s. (''location'', JStr s)) \<union> {(''unit'', JStr ''celsius''), (''unit'', JStr ''fahrenheit'')}"
      using that by auto
    moreover have "\<not> validate_tool_args (JObj args) (ts_parameters FROZEN_TOOL_SCHEMA_V1)"
      using False by (simp add: FROZEN_TOOL_SCHEMA_V1_def)
    ultimately show ?thesis using False by blast
  qed
qed

end
