(* ===== verification/Aggregator.thy ===== *)
theory Aggregator
  imports Canary Schema "HOL-Library.List_Lexorder" "HOL-Library.Char_ord"
begin

section \<open>Aggregation and noise (Aggregator and SignalBatch of probe/privacy.py)\<close>

text \<open>
  What crosses the probe perimeter: the noise helpers, the outbound batch and the queue that
  produces it. A random generator of type \<open>'g\<close> is read through \<open>expo\<close>, its
  \<^verbatim>\<open>expovariate\<close>: a rate and a generator give a sample and the next generator. \<open>fromiso\<close> and
  \<open>toiso\<close> are \<^verbatim>\<open>datetime.fromisoformat\<close> (\<open>None\<close> when it raises) and \<^verbatim>\<open>isoformat\<close>, \<open>is_uuid\<close>
  tells whether \<^verbatim>\<open>uuid.UUID\<close> accepts a string, and a fresh \<^verbatim>\<open>uuid4\<close> is an argument.
\<close>

subsection \<open>Constants and noise\<close>

definition EPSILON :: real where
  "EPSILON = 2"

definition MAX_OUTPUT_LENGTH :: int where
  "MAX_OUTPUT_LENGTH = 320"

definition MAX_TOKEN_COUNT :: int where
  "MAX_TOKEN_COUNT = 8192"

definition metric_bases :: "(string, real) dict" where
  "metric_bases =
     [(''avg_output_length'', of_int MAX_OUTPUT_LENGTH), (''json_success_rate'', 1),
      (''tool_call_validity_rate'', 1), (''avg_output_tokens'', of_int MAX_TOKEN_COUNT),
      (''avg_reasoning_tokens'', of_int MAX_TOKEN_COUNT)]"

definition metric_sensitivity :: "string \<Rightarrow> int \<Rightarrow> py_error + real" where
  "metric_sensitivity metric n =
     (if n < 1 then Inl (ValueError ''batch size n must be >= 1'')
      else case map_of metric_bases metric of
             None \<Rightarrow> Inl (KeyError metric)
           | Some base \<Rightarrow> Inr (base / of_int n))"

definition laplace_noise :: "(real \<Rightarrow> 'g \<Rightarrow> real \<times> 'g) \<Rightarrow> real \<Rightarrow> 'g \<Rightarrow> real \<times> 'g" where
  "laplace_noise expo scale g =
     (let lam = 1 / scale;
          (a, g) = expo lam g;
          (b, g) = expo lam g
      in (a - b, g))"

text \<open>A raw metric with its noise.\<close>

definition noised ::
  "(real \<Rightarrow> 'g \<Rightarrow> real \<times> 'g) \<Rightarrow> string \<Rightarrow> int \<Rightarrow> real \<Rightarrow> 'g \<Rightarrow> py_error + real \<times> 'g" where
  "noised expo metric n raw g =
     sum_bind (metric_sensitivity metric n)
       (\<lambda>sens. case laplace_noise expo (sens / EPSILON) g of (x, g) \<Rightarrow> Inr (raw + x, g))"

subsection \<open>The outbound batch\<close>

record signal_batch =
  sb_batch_id :: string
  sb_client_id :: string
  sb_window_start :: string
  sb_window_end :: string
  sb_model_tuple :: string
  sb_suite_version :: string
  sb_metrics :: "(string, real) dict"
  sb_canary_hashes :: "(string, string) dict"
  sb_result_count :: int
  sb_fleet_id :: "string option"

definition batch_metric_keys :: "string list" where
  "batch_metric_keys =
     [''avg_output_length'', ''json_success_rate'', ''result_count'', ''tool_call_validity_rate'',
      ''avg_output_tokens'', ''avg_reasoning_tokens'']"

definition batch_post_init :: "(string \<Rightarrow> bool) \<Rightarrow> signal_batch \<Rightarrow> py_error + signal_batch" where
  "batch_post_init is_uuid sb =
     (if \<not> (is_uuid (sb_batch_id sb) \<and> is_uuid (sb_client_id sb))
      then Inl (ValueError ''batch_id and client_id must be valid UUIDs'')
      else if sb_result_count sb < 1 then Inl (ValueError ''result_count must be >= 1'')
      else if \<not> fst ` set (sb_metrics sb) \<subseteq> set batch_metric_keys
      then Inl (ValueError ''metrics contains unknown keys'')
      else Inr sb)"

subsection \<open>Raw metrics of a batch\<close>

definition clamp_count :: "int \<Rightarrow> int \<Rightarrow> real" where
  "clamp_count bound x = of_int (max 0 (min x bound))"

definition mean_over :: "('a \<Rightarrow> real) \<Rightarrow> 'a list \<Rightarrow> real" where
  "mean_over f xs = sum_list (map f xs) / real (length xs)"

definition length_value :: "canary_result \<Rightarrow> real" where
  "length_value r = clamp_count MAX_OUTPUT_LENGTH (cr_output_length r)"

definition json_value :: "canary_result \<Rightarrow> real" where
  "json_value r = (if cr_json_valid r then 1 else 0)"

definition tool_value :: "canary_result \<Rightarrow> real" where
  "tool_value r = (if cr_tool_call_valid r = Some True then 1 else 0)"

definition token_value :: "int option \<Rightarrow> real" where
  "token_value t = clamp_count MAX_TOKEN_COUNT (case t of None \<Rightarrow> 0 | Some n \<Rightarrow> n)"

subsection \<open>The queue\<close>

record 'g aggregator =
  ag_client_id :: string
  ag_pending :: "(string, canary_result list) dict"
  ag_rng :: 'g

definition init_aggregator :: "string \<Rightarrow> 'g \<Rightarrow> 'g aggregator" where
  "init_aggregator fresh g = \<lparr>ag_client_id = fresh, ag_pending = [], ag_rng = g\<rparr>"

definition add_result :: "'g aggregator \<Rightarrow> canary_result \<Rightarrow> 'g aggregator" where
  "add_result ag r =
     (let key = cr_model_tuple r
      in ag\<lparr>ag_pending := AList.update key (dict_get (ag_pending ag) key [] @ [r]) (ag_pending ag)\<rparr>)"

definition clear_all :: "'g aggregator \<Rightarrow> 'g aggregator" where
  "clear_all ag = ag\<lparr>ag_pending := []\<rparr>"

definition pending_count :: "'g aggregator \<Rightarrow> string \<Rightarrow> nat" where
  "pending_count ag mt = length (dict_get (ag_pending ag) mt [])"

definition model_tuples_pending :: "'g aggregator \<Rightarrow> string list" where
  "model_tuples_pending ag = map fst (filter (\<lambda>(_, v). v \<noteq> []) (ag_pending ag))"

text \<open>The window: earliest and latest stamp as strings; one microsecond is added to a point.\<close>

definition flush_window ::
  "(string \<Rightarrow> py_datetime option) \<Rightarrow> (py_datetime \<Rightarrow> string) \<Rightarrow> canary_result list \<Rightarrow> py_error + string \<times> string" where
  "flush_window fromiso toiso results =
     (let window_start = Min (set (map cr_timestamp results));
          window_end = Max (set (map cr_timestamp results))
      in if window_start = window_end
         then (case fromiso window_start of
                 None \<Rightarrow> Inl (ValueError ''Invalid isoformat string'')
               | Some d \<Rightarrow> Inr (window_start, toiso (d\<lparr>dt_wall := dt_wall d + 1\<rparr>)))
         else Inr (window_start, window_end))"

definition tool_metric ::
  "(real \<Rightarrow> 'g \<Rightarrow> real \<times> 'g) \<Rightarrow> canary_result list \<Rightarrow> (string, real) dict \<times> 'g
    \<Rightarrow> py_error + (string, real) dict \<times> 'g" where
  "tool_metric expo results mg =
     (case mg of (metrics, g) \<Rightarrow>
        if list_ex (\<lambda>r. cr_tool_call_valid r \<noteq> None) results
        then sum_bind (noised expo ''tool_call_validity_rate'' (int (length results)) (mean_over tool_value results) g)
               (\<lambda>(x, g). Inr (AList.update ''tool_call_validity_rate'' (py_round 4 (max 0 (min 1 x))) metrics, g))
        else Inr (metrics, g))"

definition token_metric ::
  "(real \<Rightarrow> 'g \<Rightarrow> real \<times> 'g) \<Rightarrow> canary_result list \<Rightarrow> string \<Rightarrow> (canary_result \<Rightarrow> int option)
    \<Rightarrow> (string, real) dict \<times> 'g \<Rightarrow> py_error + (string, real) dict \<times> 'g" where
  "token_metric expo results key attr mg =
     (case mg of (metrics, g) \<Rightarrow>
        if list_all (\<lambda>r. attr r = None) results then Inr (metrics, g)
        else sum_bind (noised expo key (int (length results)) (mean_over (\<lambda>r. token_value (attr r)) results) g)
               (\<lambda>(x, g). Inr (AList.update key (py_round 4 (max 0 x)) metrics, g)))"

text \<open>The metrics in the order the noise is drawn.\<close>

definition flush_metrics ::
  "(real \<Rightarrow> 'g \<Rightarrow> real \<times> 'g) \<Rightarrow> canary_result list \<Rightarrow> 'g \<Rightarrow> py_error + (string, real) dict \<times> 'g" where
  "flush_metrics expo results g =
     (let n = int (length results)
      in sum_bind (noised expo ''avg_output_length'' n (mean_over length_value results) g)
        (\<lambda>(avg, g). sum_bind (noised expo ''json_success_rate'' n (mean_over json_value results) g)
          (\<lambda>(rate, g). sum_bind
             (tool_metric expo results
               ([(''avg_output_length'', py_round 4 (max 0 avg)),
                 (''json_success_rate'', py_round 4 (max 0 (min 1 rate))),
                 (''result_count'', of_int n)], g))
            (\<lambda>mg. sum_bind (token_metric expo results ''avg_output_tokens'' cr_output_tokens mg)
              (token_metric expo results ''avg_reasoning_tokens'' cr_reasoning_tokens)))))"

definition hashes_of :: "canary_result list \<Rightarrow> (string, string) dict" where
  "hashes_of results = fold (\<lambda>r. AList.update (cr_prompt_id r) (cr_response_hash r)) results []"

text \<open>
  \<^verbatim>\<open>flush\<close> in the order of the source. A failure leaves the queue; once noise was drawn the
  generator has advanced. With at least one result no metric can fail.
\<close>

definition agg_flush ::
  "(real \<Rightarrow> 'g \<Rightarrow> real \<times> 'g) \<Rightarrow> (string \<Rightarrow> py_datetime option) \<Rightarrow> (py_datetime \<Rightarrow> string) \<Rightarrow> (string \<Rightarrow> bool)
    \<Rightarrow> string \<Rightarrow> string \<Rightarrow> string option \<Rightarrow> 'g aggregator \<Rightarrow> (py_error + signal_batch) \<times> 'g aggregator" where
  "agg_flush expo fromiso toiso is_uuid fresh mt fleet ag =
     (let results = dict_get (ag_pending ag) mt []
      in if results = [] then (Inl (ValueError ''No pending results''), ag)
         else case flush_window fromiso toiso results of
                Inl e \<Rightarrow> (Inl e, ag)
              | Inr (window_start, window_end) \<Rightarrow>
                  if card (set (map cr_suite_version results)) > 1
                  then (Inl (ValueError ''Mixed suite versions in batch''), ag)
                  else (case flush_metrics expo results (ag_rng ag) of
                          Inl e \<Rightarrow> (Inl e, ag)
                        | Inr (metrics, g) \<Rightarrow>
                            (case batch_post_init is_uuid
                               \<lparr>sb_batch_id = fresh, sb_client_id = ag_client_id ag,
                                sb_window_start = window_start, sb_window_end = window_end,
                                sb_model_tuple = mt, sb_suite_version = cr_suite_version (hd results),
                                sb_metrics = metrics, sb_canary_hashes = hashes_of results,
                                sb_result_count = int (length results), sb_fleet_id = fleet\<rparr> of
                               Inl e \<Rightarrow> (Inl e, ag\<lparr>ag_rng := g\<rparr>)
                             | Inr sb \<Rightarrow> (Inr sb, ag\<lparr>ag_pending := AList.delete mt (ag_pending ag), ag_rng := g\<rparr>))))"

subsection \<open>Sensitivity and density\<close>

text \<open>The value one record contributes to a metric, whatever the metric.\<close>

definition record_value :: "string \<Rightarrow> canary_result \<Rightarrow> real" where
  "record_value metric r =
     (if metric = ''avg_output_length'' then length_value r
      else if metric = ''json_success_rate'' then json_value r
      else if metric = ''tool_call_validity_rate'' then tool_value r
      else if metric = ''avg_output_tokens'' then token_value (cr_output_tokens r)
      else token_value (cr_reasoning_tokens r))"

lemma clamp_count_range: "0 \<le> bound \<Longrightarrow> 0 \<le> clamp_count bound x \<and> clamp_count bound x \<le> of_int bound"
  by (simp add: clamp_count_def)

lemma record_value_range:
  "map_of metric_bases metric = Some base \<Longrightarrow> 0 \<le> record_value metric r \<and> record_value metric r \<le> base"
  using clamp_count_range [of MAX_OUTPUT_LENGTH] clamp_count_range [of MAX_TOKEN_COUNT]
  by (auto simp: metric_bases_def record_value_def length_value_def json_value_def tool_value_def token_value_def
      MAX_OUTPUT_LENGTH_def MAX_TOKEN_COUNT_def split: if_splits)

lemma metric_bases_pos: "map_of metric_bases metric = Some base \<Longrightarrow> 0 < base"
  by (auto simp: metric_bases_def MAX_OUTPUT_LENGTH_def MAX_TOKEN_COUNT_def split: if_splits)

lemma sum_list_update_real:
  "i < length xs \<Longrightarrow> sum_list (map f (xs[i := r])) = sum_list (map f xs) + (f r - f (xs ! i) :: real)"
proof (induction xs arbitrary: i)
  case (Cons x xs)
  then show ?case by (cases i) auto
qed simp

lemma mean_over_update:
  assumes "i < length xs" and "\<And>r. 0 \<le> f r \<and> f r \<le> base"
  shows "\<bar>mean_over f xs - mean_over f (xs[i := r])\<bar> \<le> base / real (length xs)"
proof -
  have "mean_over f xs - mean_over f (xs[i := r]) = (f (xs ! i) - f r) / real (length xs)"
    using assms(1) by (simp add: mean_over_def sum_list_update_real diff_divide_distrib [symmetric])
  moreover have "\<bar>f (xs ! i) - f r\<bar> \<le> base" using assms(2) [of "xs ! i"] assms(2) [of r] by linarith
  ultimately show ?thesis using assms(1) by (simp add: abs_divide divide_right_mono)
qed

lemma metric_sensitivity_Inr:
  "metric_sensitivity metric n = Inr s \<longleftrightarrow> 1 \<le> n \<and> (\<exists>base. map_of metric_bases metric = Some base \<and> s = base / of_int n)"
  by (auto simp: metric_sensitivity_def split: option.splits)

lemma metric_bases_keys:
  "fst ` set metric_bases = {''avg_output_length'', ''json_success_rate'', ''tool_call_validity_rate'',
     ''avg_output_tokens'', ''avg_reasoning_tokens''}"
  by (simp add: metric_bases_def)

lemma in_metric_bases:
  "''avg_output_length'' \<in> fst ` set metric_bases" "''json_success_rate'' \<in> fst ` set metric_bases"
  "''tool_call_validity_rate'' \<in> fst ` set metric_bases" "''avg_output_tokens'' \<in> fst ` set metric_bases"
  "''avg_reasoning_tokens'' \<in> fst ` set metric_bases"
  by (simp_all add: metric_bases_keys)

lemma length_new_key: "k \<notin> fst ` set d \<Longrightarrow> length (AList.update k v d) = Suc (length d)"
  by (induction d) auto

lemma update_names: "fst ` set (AList.update k v d) = insert k (fst ` set d)"
  by (simp add: dom_map_of_conv_image_fst [symmetric] update_conv' dom_if)

subsection \<open>Lemmas: the same batch from shifted draws\<close>

text \<open>
  A generator that gives recorded exponential samples and keeps the density with which independent exponential variables of the rates
  asked for take these values. The probability space itself is not modelled: a statement about all recorded samples and a fixed
  shift of them carries over to it by integration, as a shift keeps volumes.
\<close>

definition recorded :: "real \<Rightarrow> real list \<times> real \<Rightarrow> real \<times> real list \<times> real" where
  "recorded lam g = (case g of (draws, density) \<Rightarrow> (hd draws, tl draws, density * (lam * exp (- lam * hd draws))))"

text \<open>The metrics a batch adds noise to, in their order.\<close>

definition noised_metrics :: "canary_result list \<Rightarrow> string list" where
  "noised_metrics rs =
     [''avg_output_length'', ''json_success_rate'']
     @ (if list_ex (\<lambda>r. cr_tool_call_valid r \<noteq> None) rs then [''tool_call_validity_rate''] else [])
     @ (if list_all (\<lambda>r. cr_output_tokens r = None) rs then [] else [''avg_output_tokens''])
     @ (if list_all (\<lambda>r. cr_reasoning_tokens r = None) rs then [] else [''avg_reasoning_tokens''])"

text \<open>The shift of the two samples of each metric that makes up for the difference of two batches.\<close>

definition shift_of :: "canary_result list \<Rightarrow> canary_result list \<Rightarrow> string \<Rightarrow> real list" where
  "shift_of xs ys k =
     (let d = mean_over (record_value k) xs - mean_over (record_value k) ys in [max 0 d, max 0 (- d)])"

definition aligned ::
  "canary_result list \<Rightarrow> canary_result list \<Rightarrow> string list \<Rightarrow> real \<Rightarrow> real list \<times> real \<Rightarrow> real list \<times> real \<Rightarrow> bool" where
  "aligned xs ys ks c g g' \<longleftrightarrow>
     length (fst g) = 2 * length ks \<and> fst g' = map2 (+) (fst g) (concat (map (shift_of xs ys) ks)) \<and> 0 \<le> snd g \<and> snd g \<le> exp c * snd g'"

lemma noised_at_rate:
  "metric_sensitivity k n = Inr s \<Longrightarrow> noised recorded k n raw (a # b # ds, l) =
     Inr (raw + (a - b), ds, l * (1 / (s / EPSILON) * exp (- (1 / (s / EPSILON)) * a)) * (1 / (s / EPSILON) * exp (- (1 / (s / EPSILON)) * b)))"
  by (simp add: noised_def laplace_noise_def recorded_def Let_def)

lemma noised_recorded:
  assumes "map_of metric_bases k = Some base" and "xs \<noteq> []" and "lam = EPSILON * real (length xs) / base"
  shows "noised recorded k (int (length xs)) raw (a # b # ds, l) =
    Inr (raw + (a - b), ds, l * (lam * exp (- lam * a)) * (lam * exp (- lam * b)))"
proof -
  have sens: "metric_sensitivity k (int (length xs)) = Inr (base / real (length xs))"
    using assms(1,2) by (cases xs) (simp_all add: metric_sensitivity_def)
  have rate: "1 / (base / real (length xs) / EPSILON) = lam"
    using assms(2,3) metric_bases_pos [OF assms(1)] by (simp add: EPSILON_def)
  show ?thesis using noised_at_rate [OF sens, of raw a b ds l] unfolding rate .
qed

lemma noised_aligned:
  assumes "aligned xs (xs[i := r]) (k # ks) c g g'" and "k \<in> fst ` set metric_bases" and "i < length xs"
  shows "\<exists>x h h'. noised recorded k (int (length xs)) (mean_over (record_value k) xs) g = Inr (x, h)
    \<and> noised recorded k (int (length xs)) (mean_over (record_value k) (xs[i := r])) g' = Inr (x, h')
    \<and> aligned xs (xs[i := r]) ks (c + EPSILON) h h'"
proof -
  let ?ys = "xs[i := r]" and ?n = "real (length xs)"
  obtain base where base: "map_of metric_bases k = Some base" using assms(2) by (metis map_of_eq_None_iff option.exhaust)
  define d where "d = mean_over (record_value k) xs - mean_over (record_value k) ?ys"
  define lam where "lam = EPSILON * ?n / base"
  have ne: "xs \<noteq> []" "0 < ?n" using assms(3) by auto
  have pos: "0 < base" "0 < lam" using metric_bases_pos [OF base] ne(2) by (simp_all add: lam_def EPSILON_def)
  have "\<bar>d\<bar> \<le> base / ?n"
    unfolding d_def using mean_over_update [OF assms(3), of "record_value k" base r] record_value_range [OF base] by blast
  then have "\<bar>d\<bar> * ?n \<le> base" using ne(2) by (simp add: pos_le_divide_eq)
  then have loss: "lam * \<bar>d\<bar> \<le> EPSILON" using pos(1) by (simp add: lam_def EPSILON_def pos_divide_le_eq mult_ac)
  obtain ds0 l where g: "g = (ds0, l)" by fastforce
  have "length ds0 = Suc (Suc (2 * length ks))" using assms(1) by (simp add: aligned_def g)
  then obtain a b ds where ds: "ds0 = a # b # ds" "length ds = 2 * length ks" by (auto simp: length_Suc_conv)
  obtain l' where g': "g' = ((a + max 0 d) # (b + max 0 (- d)) # map2 (+) ds (concat (map (shift_of xs ?ys) ks)), l')"
    and l: "0 \<le> l" "l \<le> exp c * l'"
    using assms(1) by (cases g') (auto simp: aligned_def g ds shift_of_def d_def Let_def)
  let ?l1 = "l * (lam * exp (- lam * a)) * (lam * exp (- lam * b))"
  let ?l2 = "l' * (lam * exp (- lam * (a + max 0 d))) * (lam * exp (- lam * (b + max 0 (- d))))"
  have both: "exp (- lam * a) * exp (- lam * b) = exp (lam * \<bar>d\<bar>) * (exp (- lam * (a + max 0 d)) * exp (- lam * (b + max 0 (- d))))"
  proof -
    have "- lam * a + - lam * b = lam * \<bar>d\<bar> + (- lam * (a + max 0 d) + - lam * (b + max 0 (- d)))"
      by (simp add: abs_real_def max_def algebra_simps)
    then show ?thesis by (simp only: exp_add [symmetric])
  qed
  have l': "0 \<le> l'" using l by (metis exp_gt_zero order_trans zero_le_mult_iff not_exp_le_zero)
  have "?l1 = l * (lam * lam * (exp (- lam * a) * exp (- lam * b)))" by (simp add: mult_ac)
  also have "\<dots> \<le> (exp c * l') * (lam * lam * (exp (- lam * a) * exp (- lam * b)))"
    using l pos by (intro mult_right_mono) simp_all
  also have "\<dots> = exp (c + lam * \<bar>d\<bar>) * ?l2" unfolding both by (simp add: exp_add mult_ac)
  also have "\<dots> \<le> exp (c + EPSILON) * ?l2" using loss l' pos by (intro mult_right_mono) simp_all
  finally have "?l1 \<le> exp (c + EPSILON) * ?l2" .
  moreover have "0 \<le> ?l1" using l(1) pos by simp
  moreover have "mean_over (record_value k) ?ys + ((a + max 0 d) - (b + max 0 (- d))) = mean_over (record_value k) xs + (a - b)"
    by (simp add: d_def max_def)
  moreover have "?ys \<noteq> []" using ne(1) by simp
  ultimately show ?thesis
    using noised_recorded [OF base ne(1) lam_def] noised_recorded [OF base \<open>?ys \<noteq> []\<close>, of lam] ds(2)
    by (simp add: g ds(1) g' aligned_def lam_def [symmetric])
qed

text \<open>Two records that differ in the measured values only: same stamp, suite version and optional fields.\<close>

definition same_shape :: "canary_result \<Rightarrow> canary_result \<Rightarrow> bool" where
  "same_shape r r' \<longleftrightarrow> cr_timestamp r = cr_timestamp r' \<and> cr_suite_version r = cr_suite_version r'
     \<and> (cr_tool_call_valid r = None \<longleftrightarrow> cr_tool_call_valid r' = None)
     \<and> (cr_output_tokens r = None \<longleftrightarrow> cr_output_tokens r' = None) \<and> (cr_reasoning_tokens r = None \<longleftrightarrow> cr_reasoning_tokens r' = None)"

lemma map_same_shape:
  assumes "i < length xs" and "f r = f (xs ! i)"
  shows "map f (xs[i := r]) = map f xs"
  using assms by (simp add: map_update) (metis list_update_id nth_map)

lemma ex_map: "list_ex P xs \<longleftrightarrow> True \<in> set (map P xs)" and all_map: "list_all P xs \<longleftrightarrow> False \<notin> set (map P xs)"
  by (auto simp: list_ex_iff list_all_iff)

lemma same_shape_list:
  assumes "i < length xs" and "same_shape (xs ! i) r"
  shows "list_ex (\<lambda>r. cr_tool_call_valid r \<noteq> None) (xs[i := r]) = list_ex (\<lambda>r. cr_tool_call_valid r \<noteq> None) xs"
    and "list_all (\<lambda>r. cr_output_tokens r = None) (xs[i := r]) = list_all (\<lambda>r. cr_output_tokens r = None) xs"
    and "list_all (\<lambda>r. cr_reasoning_tokens r = None) (xs[i := r]) = list_all (\<lambda>r. cr_reasoning_tokens r = None) xs"
    and "map cr_timestamp (xs[i := r]) = map cr_timestamp xs" and "map cr_suite_version (xs[i := r]) = map cr_suite_version xs"
proof -
  have eqs: "map (\<lambda>r. cr_tool_call_valid r \<noteq> None) (xs[i := r]) = map (\<lambda>r. cr_tool_call_valid r \<noteq> None) xs"
    "map (\<lambda>r. cr_output_tokens r = None) (xs[i := r]) = map (\<lambda>r. cr_output_tokens r = None) xs"
    "map (\<lambda>r. cr_reasoning_tokens r = None) (xs[i := r]) = map (\<lambda>r. cr_reasoning_tokens r = None) xs"
    by (rule map_same_shape [OF assms(1)]; use assms(2) in \<open>simp add: same_shape_def\<close>)+
  show "list_ex (\<lambda>r. cr_tool_call_valid r \<noteq> None) (xs[i := r]) = list_ex (\<lambda>r. cr_tool_call_valid r \<noteq> None) xs"
    "list_all (\<lambda>r. cr_output_tokens r = None) (xs[i := r]) = list_all (\<lambda>r. cr_output_tokens r = None) xs"
    "list_all (\<lambda>r. cr_reasoning_tokens r = None) (xs[i := r]) = list_all (\<lambda>r. cr_reasoning_tokens r = None) xs"
    unfolding ex_map all_map eqs by (rule refl)+
  show "map cr_timestamp (xs[i := r]) = map cr_timestamp xs" "map cr_suite_version (xs[i := r]) = map cr_suite_version xs"
    by (rule map_same_shape [OF assms(1)]; use assms(2) in \<open>simp add: same_shape_def\<close>)+
qed

lemma record_value_names:
  "record_value ''avg_output_length'' = length_value" "record_value ''json_success_rate'' = json_value"
  "record_value ''tool_call_validity_rate'' = tool_value" "record_value ''avg_output_tokens'' = (\<lambda>r. token_value (cr_output_tokens r))"
  "record_value ''avg_reasoning_tokens'' = (\<lambda>r. token_value (cr_reasoning_tokens r))"
  by (simp_all add: record_value_def fun_eq_iff)

lemma tool_metric_aligned:
  assumes "i < length xs" and "same_shape (xs ! i) r"
    and "aligned xs (xs[i := r]) ((if list_ex (\<lambda>r. cr_tool_call_valid r \<noteq> None) xs then [''tool_call_validity_rate''] else []) @ ks) (real m * EPSILON) g g'"
    and "length ms = Suc m" and "''tool_call_validity_rate'' \<notin> fst ` set ms"
  shows "\<exists>ms' h h' m'. tool_metric recorded xs (ms, g) = Inr (ms', h) \<and> tool_metric recorded (xs[i := r]) (ms, g') = Inr (ms', h')
    \<and> aligned xs (xs[i := r]) ks (real m' * EPSILON) h h' \<and> length ms' = Suc m' \<and> fst ` set ms' \<subseteq> insert ''tool_call_validity_rate'' (fst ` set ms)
    \<and> m' = m + length (if list_ex (\<lambda>r. cr_tool_call_valid r \<noteq> None) xs then [''tool_call_validity_rate''] else [])"
proof (cases "list_ex (\<lambda>r. cr_tool_call_valid r \<noteq> None) xs")
  case True
  have next_cost: "real m * EPSILON + EPSILON = real (Suc m) * EPSILON" by (simp add: distrib_right)
  have "aligned xs (xs[i := r]) (''tool_call_validity_rate'' # ks) (real m * EPSILON) g g'" using assms(3) True by simp
  from noised_aligned [OF this in_metric_bases(3) assms(1), unfolded record_value_names next_cost]
  obtain x h h' where "noised recorded ''tool_call_validity_rate'' (int (length xs)) (mean_over tool_value xs) g = Inr (x, h)"
    "noised recorded ''tool_call_validity_rate'' (int (length xs)) (mean_over tool_value (xs[i := r])) g' = Inr (x, h')"
    "aligned xs (xs[i := r]) ks (real (Suc m) * EPSILON) h h'" by blast
  with True assms(4,5) show ?thesis
    by - (rule exI [of _ "AList.update ''tool_call_validity_rate'' (py_round 4 (max 0 (min 1 x))) ms"], rule exI [of _ h], rule exI [of _ h'],
        rule exI [of _ "Suc m"],
      simp add: tool_metric_def same_shape_list(1) [OF assms(1,2), simplified] length_new_key update_names)
next
  case False
  with assms show ?thesis by (auto simp: tool_metric_def same_shape_list(1) [OF assms(1,2), simplified])
qed

lemma token_metric_aligned:
  assumes "i < length xs" and "list_all (\<lambda>r. attr r = None) (xs[i := r]) = list_all (\<lambda>r. attr r = None) xs"
    and "key \<in> fst ` set metric_bases" and "record_value key = (\<lambda>r. token_value (attr r))"
    and "aligned xs (xs[i := r]) ((if list_all (\<lambda>r. attr r = None) xs then [] else [key]) @ ks) (real m * EPSILON) g g'"
    and "length ms = Suc m" and "key \<notin> fst ` set ms"
  shows "\<exists>ms' h h' m'. token_metric recorded xs key attr (ms, g) = Inr (ms', h) \<and> token_metric recorded (xs[i := r]) key attr (ms, g') = Inr (ms', h')
    \<and> aligned xs (xs[i := r]) ks (real m' * EPSILON) h h' \<and> length ms' = Suc m' \<and> fst ` set ms' \<subseteq> insert key (fst ` set ms)
    \<and> m' = m + length (if list_all (\<lambda>r. attr r = None) xs then [] else [key])"
proof (cases "list_all (\<lambda>r. attr r = None) xs")
  case False
  have next_cost: "real m * EPSILON + EPSILON = real (Suc m) * EPSILON" by (simp add: distrib_right)
  have "aligned xs (xs[i := r]) (key # ks) (real m * EPSILON) g g'" using assms(5) False by simp
  from noised_aligned [OF this assms(3,1), unfolded assms(4) next_cost]
  obtain x h h' where "noised recorded key (int (length xs)) (mean_over (\<lambda>r. token_value (attr r)) xs) g = Inr (x, h)"
    "noised recorded key (int (length xs)) (mean_over (\<lambda>r. token_value (attr r)) (xs[i := r])) g' = Inr (x, h')"
    "aligned xs (xs[i := r]) ks (real (Suc m) * EPSILON) h h'" by blast
  with False assms(2,6,7) show ?thesis
    by - (rule exI [of _ "AList.update key (py_round 4 (max 0 x)) ms"], rule exI [of _ h], rule exI [of _ h'], rule exI [of _ "Suc m"],
      simp add: token_metric_def length_new_key update_names)
next
  case True
  with assms show ?thesis by (auto simp: token_metric_def)
qed

lemma flush_metrics_aligned:
  assumes "i < length xs" and "same_shape (xs ! i) r" and "aligned xs (xs[i := r]) (noised_metrics xs) 0 g g'"
  shows "\<exists>ms h h'. flush_metrics recorded xs g = Inr (ms, h) \<and> flush_metrics recorded (xs[i := r]) g' = Inr (ms, h')
    \<and> aligned xs (xs[i := r]) [] (real (length ms - 1) * EPSILON) h h' \<and> length ms = Suc (length (noised_metrics xs))"
proof -
  let ?ys = "xs[i := r]" and ?n = "int (length xs)"
  let ?reasoning = "(if list_all (\<lambda>r. cr_reasoning_tokens r = None) xs then [] else [''avg_reasoning_tokens'']) @ []"
  let ?tokens = "(if list_all (\<lambda>r. cr_output_tokens r = None) xs then [] else [''avg_output_tokens'']) @ ?reasoning"
  let ?tool = "(if list_ex (\<lambda>r. cr_tool_call_valid r \<noteq> None) xs then [''tool_call_validity_rate''] else []) @ ?tokens"
  have ks: "noised_metrics xs = ''avg_output_length'' # ''json_success_rate'' # ?tool" by (simp only: noised_metrics_def append_Cons append_Nil append_assoc append_Nil2)
  from noised_aligned [OF assms(3) [unfolded ks] in_metric_bases(1) assms(1), unfolded record_value_names]
  obtain a g1 g1' where 1: "noised recorded ''avg_output_length'' ?n (mean_over length_value xs) g = Inr (a, g1)"
    "noised recorded ''avg_output_length'' ?n (mean_over length_value ?ys) g' = Inr (a, g1')"
    "aligned xs ?ys (''json_success_rate'' # ?tool) (0 + EPSILON) g1 g1'" by blast
  from noised_aligned [OF 1(3) in_metric_bases(2) assms(1), unfolded record_value_names]
  obtain j g2 g2' where 2: "noised recorded ''json_success_rate'' ?n (mean_over json_value xs) g1 = Inr (j, g2)"
    "noised recorded ''json_success_rate'' ?n (mean_over json_value ?ys) g1' = Inr (j, g2')"
    "aligned xs ?ys ?tool (0 + EPSILON + EPSILON) g2 g2'" by blast
  let ?ms = "[(''avg_output_length'', py_round 4 (max 0 a)), (''json_success_rate'', py_round 4 (max 0 (min 1 j))), (''result_count'', real_of_int ?n)]"
  have start: "aligned xs ?ys ?tool (real 2 * EPSILON) g2 g2'" "length ?ms = Suc 2" using 2(3) by simp_all
  from tool_metric_aligned [OF assms(1,2) start] obtain ms1 g3 g3' m1 where 3: "tool_metric recorded xs (?ms, g2) = Inr (ms1, g3)"
    "tool_metric recorded ?ys (?ms, g2') = Inr (ms1, g3')" "aligned xs ?ys ?tokens (real m1 * EPSILON) g3 g3'" "length ms1 = Suc m1"
    "fst ` set ms1 \<subseteq> insert ''tool_call_validity_rate'' (fst ` set ?ms)"
    "m1 = 2 + length (if list_ex (\<lambda>r. cr_tool_call_valid r \<noteq> None) xs then [''tool_call_validity_rate''] else [])" by auto
  have fresh: "''avg_output_tokens'' \<notin> fst ` set ms1" using 3(5) by auto
  from token_metric_aligned [OF assms(1) same_shape_list(2) [OF assms(1,2)] in_metric_bases(4) record_value_names(4) 3(3,4) fresh]
  obtain ms2 g4 g4' m2 where 4: "token_metric recorded xs ''avg_output_tokens'' cr_output_tokens (ms1, g3) = Inr (ms2, g4)"
    "token_metric recorded ?ys ''avg_output_tokens'' cr_output_tokens (ms1, g3') = Inr (ms2, g4')"
    "aligned xs ?ys ?reasoning (real m2 * EPSILON) g4 g4'" "length ms2 = Suc m2" "fst ` set ms2 \<subseteq> insert ''avg_output_tokens'' (fst ` set ms1)"
    "m2 = m1 + length (if list_all (\<lambda>r. cr_output_tokens r = None) xs then [] else [''avg_output_tokens''])" by blast
  have "fst ` set ms2 \<subseteq> insert ''avg_output_tokens'' (insert ''tool_call_validity_rate'' (fst ` set ?ms))" using 3(5) 4(5) by blast
  then have fresh: "''avg_reasoning_tokens'' \<notin> fst ` set ms2" by (rule contra_subsetD) simp
  from token_metric_aligned [OF assms(1) same_shape_list(3) [OF assms(1,2)] in_metric_bases(5) record_value_names(5) 4(3,4) fresh]
  obtain ms3 g5 g5' m3 where 5: "token_metric recorded xs ''avg_reasoning_tokens'' cr_reasoning_tokens (ms2, g4) = Inr (ms3, g5)"
    "token_metric recorded ?ys ''avg_reasoning_tokens'' cr_reasoning_tokens (ms2, g4') = Inr (ms3, g5')"
    "aligned xs ?ys [] (real m3 * EPSILON) g5 g5'" "length ms3 = Suc m3"
    "m3 = m2 + length (if list_all (\<lambda>r. cr_reasoning_tokens r = None) xs then [] else [''avg_reasoning_tokens''])" by blast
  have m3: "m3 = length (noised_metrics xs)" using 3(6) 4(6) 5(5) by (simp only: noised_metrics_def length_append) simp
  show ?thesis
    by (rule exI [of _ ms3], rule exI [of _ g5], rule exI [of _ g5']) (use 1(1,2) 2(1,2) 3(1,2) 4(1,2) 5(1-4) m3 in \<open>simp add: flush_metrics_def Let_def\<close>)
qed

subsection \<open>What a flush emits\<close>

lemma noised_known:
  "xs \<noteq> [] \<Longrightarrow> metric \<in> fst ` set metric_bases \<Longrightarrow> \<exists>x g'. noised expo metric (int (length xs)) raw g = Inr (x, g')"
  by (cases xs)
     (auto simp: noised_def metric_sensitivity_def metric_bases_def split: prod.split)

definition metrics_sound :: "(string, real) dict \<Rightarrow> bool" where
  "metrics_sound ms \<longleftrightarrow> dict_wf ms \<and> fst ` set ms \<subseteq> set batch_metric_keys \<and> snd ` set ms \<subseteq> {0..}
     \<and> set_option (map_of ms ''json_success_rate'') \<subseteq> {0..1}
     \<and> set_option (map_of ms ''tool_call_validity_rate'') \<subseteq> {0..1}"

lemma subset_insert_trans: "A \<subseteq> insert k B \<Longrightarrow> B \<subseteq> C \<Longrightarrow> k \<in> C \<Longrightarrow> A \<subseteq> C"
  by blast

lemma metrics_sound_update:
  assumes "metrics_sound ms" and "k \<in> set batch_metric_keys" and "0 \<le> x"
    and "k \<in> {''json_success_rate'', ''tool_call_validity_rate''} \<Longrightarrow> x \<le> 1"
  shows "metrics_sound (AList.update k x ms)"
proof -
  have "set (AList.update k x ms) \<subseteq> insert (k, x) (set ms)" by (induction ms) auto
  then have new: "fst ` set (AList.update k x ms) \<subseteq> insert k (fst ` set ms)"
    "snd ` set (AList.update k x ms) \<subseteq> insert x (snd ` set ms)" by auto
  have old: "fst ` set ms \<subseteq> set batch_metric_keys" "snd ` set ms \<subseteq> {0..}" "x \<in> {0..}"
    using assms(1,3) by (simp_all add: metrics_sound_def)
  have "fst ` set (AList.update k x ms) \<subseteq> set batch_metric_keys" "snd ` set (AList.update k x ms) \<subseteq> {0..}"
    by (rule subset_insert_trans [OF new(1) old(1) assms(2)], rule subset_insert_trans [OF new(2) old(2,3)])
  moreover have "set_option (map_of (AList.update k x ms) k') \<subseteq> {0..1}"
    if "k' \<in> {''json_success_rate'', ''tool_call_validity_rate''}" "set_option (map_of ms k') \<subseteq> {0..1}" for k'
  proof -
    have "k' = k \<Longrightarrow> x \<le> 1" using that(1) assms(4) by blast
    then show ?thesis using that(2) assms(3) by simp
  qed
  ultimately show ?thesis using assms(1) by (simp add: metrics_sound_def)
qed

lemma rate_rounds: "0 \<le> py_round 4 (max 0 (min 1 x)) \<and> py_round 4 (max 0 (min 1 x)) \<le> 1"
  using py_round_between [of 0 "max 0 (min 1 x)" 1 4] by simp

lemma tool_metric_sound:
  assumes "results \<noteq> []" and "metrics_sound ms"
  shows "\<exists>ms' g'. tool_metric expo results (ms, g) = Inr (ms', g') \<and> metrics_sound ms'"
proof (cases "list_ex (\<lambda>r. cr_tool_call_valid r \<noteq> None) results")
  case True
  obtain x g' where "noised expo ''tool_call_validity_rate'' (int (length results)) (mean_over tool_value results) g = Inr (x, g')"
    using noised_known [where expo = expo, OF assms(1) in_metric_bases(3)] by blast
  with True assms(2) rate_rounds [of x] show ?thesis
    by (auto simp: tool_metric_def batch_metric_keys_def intro!: metrics_sound_update)
qed (use assms in \<open>simp add: tool_metric_def\<close>)

lemma token_metric_sound:
  assumes "results \<noteq> []" and "metrics_sound ms" and "key \<in> {''avg_output_tokens'', ''avg_reasoning_tokens''}"
  shows "\<exists>ms' g'. token_metric expo results key attr (ms, g) = Inr (ms', g') \<and> metrics_sound ms'"
proof (cases "list_all (\<lambda>r. attr r = None) results")
  case False
  obtain x g' where "noised expo key (int (length results)) (mean_over (\<lambda>r. token_value (attr r)) results) g = Inr (x, g')"
    using noised_known [where expo = expo, OF assms(1), of key] assms(3) in_metric_bases(4,5) by blast
  with False assms(2,3) show ?thesis
    by (auto simp: token_metric_def batch_metric_keys_def py_round_nonneg intro!: metrics_sound_update)
qed (use assms in \<open>simp add: token_metric_def\<close>)

lemma flush_metrics_sound:
  assumes "results \<noteq> []"
  shows "\<exists>ms g'. flush_metrics expo results g = Inr (ms, g') \<and> metrics_sound ms"
proof -
  obtain a g1 where 1: "noised expo ''avg_output_length'' (int (length results)) (mean_over length_value results) g = Inr (a, g1)"
    using noised_known [where expo = expo, OF assms in_metric_bases(1)] by blast
  obtain j g2 where 2: "noised expo ''json_success_rate'' (int (length results)) (mean_over json_value results) g1 = Inr (j, g2)"
    using noised_known [where expo = expo, OF assms in_metric_bases(2)] by blast
  let ?ms = "[(''avg_output_length'', py_round 4 (max 0 a)), (''json_success_rate'', py_round 4 (max 0 (min 1 j))),
      (''result_count'', real_of_int (int (length results)))]"
  have "metrics_sound ?ms"
    using rate_rounds [of j] by (simp add: metrics_sound_def batch_metric_keys_def py_round_nonneg)
  then obtain ms1 g3 where 3: "tool_metric expo results (?ms, g2) = Inr (ms1, g3)" "metrics_sound ms1"
    using tool_metric_sound [where expo = expo, OF assms] by blast
  then obtain ms2 g4 where 4: "token_metric expo results ''avg_output_tokens'' cr_output_tokens (ms1, g3) = Inr (ms2, g4)"
    "metrics_sound ms2" using token_metric_sound [where expo = expo, OF assms] by blast
  then obtain ms3 g5 where "token_metric expo results ''avg_reasoning_tokens'' cr_reasoning_tokens (ms2, g4) = Inr (ms3, g5)"
    "metrics_sound ms3" using token_metric_sound [where expo = expo, OF assms] by blast
  with 1 2 3 4 show ?thesis by (simp add: flush_metrics_def Let_def)
qed

text \<open>The whole of a flush, by its two outcomes.\<close>

lemma agg_flush_Inr:
  assumes "agg_flush expo fromiso toiso is_uuid fresh mt fleet ag = (Inr sb, ag')"
  shows "dict_get (ag_pending ag) mt [] \<noteq> []"
    and "flush_window fromiso toiso (dict_get (ag_pending ag) mt []) = Inr (sb_window_start sb, sb_window_end sb)"
    and "card (set (map cr_suite_version (dict_get (ag_pending ag) mt []))) \<le> 1"
    and "metrics_sound (sb_metrics sb)"
    and "sb_model_tuple sb = mt" "sb_fleet_id sb = fleet" "sb_client_id sb = ag_client_id ag" "sb_batch_id sb = fresh"
    and "sb_result_count sb = int (length (dict_get (ag_pending ag) mt []))"
    and "sb_canary_hashes sb = hashes_of (dict_get (ag_pending ag) mt [])"
    and "sb_suite_version sb = cr_suite_version (hd (dict_get (ag_pending ag) mt []))"
    and "ag_pending ag' = AList.delete mt (ag_pending ag)" "ag_client_id ag' = ag_client_id ag"
proof -
  let ?rs = "dict_get (ag_pending ag) mt []"
  show ne: "?rs \<noteq> []" using assms by (auto simp: agg_flush_def Let_def)
  obtain ms g where ms: "flush_metrics expo ?rs (ag_rng ag) = Inr (ms, g)" "metrics_sound ms"
    using flush_metrics_sound [where expo = expo, OF ne] by blast
  obtain ws we where w: "flush_window fromiso toiso ?rs = Inr (ws, we)" and "card (set (map cr_suite_version ?rs)) \<le> 1"
    using assms ne by (auto simp: agg_flush_def Let_def split: sum.splits if_splits)
  then have "sb = \<lparr>sb_batch_id = fresh, sb_client_id = ag_client_id ag, sb_window_start = ws, sb_window_end = we,
      sb_model_tuple = mt, sb_suite_version = cr_suite_version (hd ?rs), sb_metrics = ms,
      sb_canary_hashes = hashes_of ?rs, sb_result_count = int (length ?rs), sb_fleet_id = fleet\<rparr>
    \<and> ag' = ag\<lparr>ag_pending := AList.delete mt (ag_pending ag), ag_rng := g\<rparr>"
    using assms ne ms(1) by (auto simp: agg_flush_def Let_def batch_post_init_def split: if_splits)
  with w ms(2) \<open>card (set (map cr_suite_version ?rs)) \<le> 1\<close>
  show "flush_window fromiso toiso ?rs = Inr (sb_window_start sb, sb_window_end sb)"
    "card (set (map cr_suite_version ?rs)) \<le> 1" "metrics_sound (sb_metrics sb)"
    "sb_model_tuple sb = mt" "sb_fleet_id sb = fleet" "sb_client_id sb = ag_client_id ag" "sb_batch_id sb = fresh"
    "sb_result_count sb = int (length ?rs)" "sb_canary_hashes sb = hashes_of ?rs"
    "sb_suite_version sb = cr_suite_version (hd ?rs)"
    "ag_pending ag' = AList.delete mt (ag_pending ag)" "ag_client_id ag' = ag_client_id ag"
    by simp_all
qed

lemma batch_post_init_same: "batch_post_init is_uuid sb = Inr sb' \<Longrightarrow> batch_post_init is_uuid sb' = Inr sb'"
  by (auto simp: batch_post_init_def split: if_splits)

lemma agg_flush_post:
  "agg_flush expo fromiso toiso is_uuid fresh mt fleet ag = (Inr sb, ag') \<Longrightarrow> batch_post_init is_uuid sb = Inr sb"
  by (auto simp: agg_flush_def Let_def split: if_splits sum.splits prod.splits dest: batch_post_init_same)

lemma agg_flush_Inl:
  "agg_flush expo fromiso toiso is_uuid fresh mt fleet ag = (Inl e, ag') \<Longrightarrow>
     ag_pending ag' = ag_pending ag \<and> ag_client_id ag' = ag_client_id ag"
  by (auto simp: agg_flush_def Let_def split: if_splits sum.splits prod.splits)

text \<open>A flush cannot fail for a single version, parsable stamps and generated identifiers.\<close>

lemma agg_flush_total:
  assumes "dict_get (ag_pending ag) mt [] \<noteq> []" and "is_uuid fresh" "is_uuid (ag_client_id ag)"
    and "card (set (map cr_suite_version (dict_get (ag_pending ag) mt []))) \<le> 1"
    and "flush_window fromiso toiso (dict_get (ag_pending ag) mt []) = Inr w"
  shows "\<exists>sb ag'. agg_flush expo fromiso toiso is_uuid fresh mt fleet ag = (Inr sb, ag')"
proof -
  let ?rs = "dict_get (ag_pending ag) mt []"
  obtain ms g where ms: "flush_metrics expo ?rs (ag_rng ag) = Inr (ms, g)" "metrics_sound ms"
    using flush_metrics_sound [where expo = expo, OF assms(1)] by blast
  moreover have "1 \<le> int (length ?rs)" using assms(1) by (cases ?rs) simp_all
  ultimately show ?thesis
    using assms by (cases w) (simp add: agg_flush_def Let_def batch_post_init_def metrics_sound_def)
qed

lemma hashes_of_sub: "set (hashes_of rs) \<subseteq> (\<lambda>r. (cr_prompt_id r, cr_response_hash r)) ` set rs"
proof -
  have "set (fold (\<lambda>r. AList.update (cr_prompt_id r) (cr_response_hash r)) rs d) \<subseteq>
      set d \<union> (\<lambda>r. (cr_prompt_id r, cr_response_hash r)) ` set rs" for d
  proof (induction rs arbitrary: d)
    case (Cons r rs)
    have "set (AList.update (cr_prompt_id r) (cr_response_hash r) d) \<subseteq> insert (cr_prompt_id r, cr_response_hash r) (set d)"
      by (induction d) auto
    with Cons [of "AList.update (cr_prompt_id r) (cr_response_hash r) d"] show ?case by auto
  qed simp
  from this [of "[]"] show ?thesis by (simp add: hashes_of_def)
qed

subsection \<open>Histories of the queue\<close>

datatype agg_op = Stage canary_result | Emit string string "string option"

text \<open>A history of stagings and flushes, with the batches it emitted.\<close>

fun agg_run ::
  "(real \<Rightarrow> 'g \<Rightarrow> real \<times> 'g) \<Rightarrow> (string \<Rightarrow> py_datetime option) \<Rightarrow> (py_datetime \<Rightarrow> string) \<Rightarrow> (string \<Rightarrow> bool)
    \<Rightarrow> agg_op list \<Rightarrow> 'g aggregator \<Rightarrow> signal_batch list \<times> 'g aggregator" where
  "agg_run expo fromiso toiso is_uuid [] ag = ([], ag)"
| "agg_run expo fromiso toiso is_uuid (Stage r # ops) ag = agg_run expo fromiso toiso is_uuid ops (add_result ag r)"
| "agg_run expo fromiso toiso is_uuid (Emit fresh mt fleet # ops) ag =
     (case agg_flush expo fromiso toiso is_uuid fresh mt fleet ag of
        (Inl e, ag) \<Rightarrow> agg_run expo fromiso toiso is_uuid ops ag
      | (Inr sb, ag) \<Rightarrow> (case agg_run expo fromiso toiso is_uuid ops ag of (sbs, ag) \<Rightarrow> (sb # sbs, ag)))"

definition staged_for :: "string \<Rightarrow> agg_op list \<Rightarrow> nat" where
  "staged_for mt ops = length (filter (\<lambda>op. case op of Stage r \<Rightarrow> cr_model_tuple r = mt | Emit _ _ _ \<Rightarrow> False) ops)"

definition emitted_for :: "string \<Rightarrow> signal_batch list \<Rightarrow> int" where
  "emitted_for mt sbs = sum_list (map sb_result_count (filter (\<lambda>sb. sb_model_tuple sb = mt) sbs))"

lemma pending_count_add:
  "pending_count (add_result ag r) mt = pending_count ag mt + (if cr_model_tuple r = mt then 1 else 0)"
  by (simp add: pending_count_def add_result_def Let_def)

lemma dict_get_delete: "dict_get (AList.delete k d) k' v0 = (if k' = k then v0 else dict_get d k' v0)"
  by (simp add: dict_get_def)

lemma agg_run_balance:
  "agg_run expo fromiso toiso is_uuid ops ag = (sbs, ag') \<Longrightarrow>
     int (pending_count ag' mt) + emitted_for mt sbs = int (pending_count ag mt) + int (staged_for mt ops)"
proof (induction expo fromiso toiso is_uuid ops ag arbitrary: sbs rule: agg_run.induct)
  case (3 expo fromiso toiso is_uuid fresh mt' fleet ops ag)
  obtain r ag1 where r: "agg_flush expo fromiso toiso is_uuid fresh mt' fleet ag = (r, ag1)" by fastforce
  show ?case
  proof (cases r)
    case (Inl e)
    with r have "agg_run expo fromiso toiso is_uuid ops ag1 = (sbs, ag')" using "3.prems" by simp
    from "3.IH"(1) [OF r [symmetric] Inl this] agg_flush_Inl [OF r [unfolded Inl]] show ?thesis
      by (simp add: pending_count_def staged_for_def)
  next
    case (Inr sb)
    then obtain sbs1 where sbs1: "agg_run expo fromiso toiso is_uuid ops ag1 = (sbs1, ag')" "sbs = sb # sbs1"
      using r "3.prems" by (auto split: prod.splits)
    from "3.IH"(2) [OF r [symmetric] Inr sbs1(1)] agg_flush_Inr [OF r [unfolded Inr]] sbs1(2) show ?thesis
      by (auto simp: pending_count_def staged_for_def emitted_for_def dict_get_delete)
  qed
qed (auto simp: pending_count_add staged_for_def emitted_for_def)

subsection \<open>The gateway's reading of a batch\<close>

text \<open>How the JSON of a batch is decoded on the other side: the two window bounds as datetimes.\<close>

definition wire_batch :: "(string \<Rightarrow> py_datetime option) \<Rightarrow> signal_batch \<Rightarrow> inbound_batch option" where
  "wire_batch fromiso sb =
     (case (fromiso (sb_window_start sb), fromiso (sb_window_end sb)) of
        (Some ws, Some we) \<Rightarrow>
          Some \<lparr>ib_batch_id = sb_batch_id sb, ib_client_id = sb_client_id sb, ib_window_start = ws,
                ib_window_end = we, ib_model_tuple = sb_model_tuple sb, ib_suite_version = sb_suite_version sb,
                ib_metrics = sb_metrics sb, ib_canary_hashes = sb_canary_hashes sb,
                ib_result_count = sb_result_count sb, ib_fleet_id = sb_fleet_id sb\<rparr>
      | _ \<Rightarrow> None)"

definition utc :: "int \<Rightarrow> py_datetime" where
  "utc t = \<lparr>dt_wall = t, dt_offset = Some 0\<rparr>"

text \<open>A window over UTC stamps is a proper interval on the gateway's side.\<close>

lemma flush_window_proper:
  assumes "flush_window fromiso toiso rs = Inr (ws, we)" and "rs \<noteq> []"
    and stamps: "cr_timestamp ` set rs \<subseteq> (\<lambda>t. toiso (utc t)) ` {lo..<hi}"
    and parse: "\<And>t. t \<in> {lo..hi} \<Longrightarrow> fromiso (toiso (utc t)) = Some (utc t)"
    and incr: "\<And>s t. s \<in> {lo..hi} \<Longrightarrow> t \<in> {lo..hi} \<Longrightarrow> s < t \<Longrightarrow> toiso (utc s) < toiso (utc t)"
  shows "\<exists>s t. fromiso ws = Some (utc s) \<and> fromiso we = Some (utc t) \<and> s < t"
proof -
  let ?S = "set (map cr_timestamp rs)"
  have fin: "finite ?S" "?S \<noteq> {}" using assms(2) by simp_all
  note ends = Min_in [OF fin] Max_in [OF fin]
  have le: "Min ?S \<le> Max ?S" by (rule Min_le [OF fin(1) ends(2)])
  have "?S \<subseteq> (\<lambda>t. toiso (utc t)) ` {lo..<hi}" using stamps by simp
  from subsetD [OF this ends(1)] subsetD [OF this ends(2)]
  obtain s t where s: "Min ?S = toiso (utc s)" "s \<in> {lo..<hi}" and t: "Max ?S = toiso (utc t)" "t \<in> {lo..<hi}"
    by blast
  show ?thesis
  proof (cases "Min ?S = Max ?S")
    case True
    then have "ws = toiso (utc s)" "we = toiso (utc (s + 1))"
      using assms(1) s parse [of s] by (auto simp: flush_window_def Let_def utc_def)
    then show ?thesis using s parse [of s] parse [of "s + 1"] by (intro exI [of _ s] exI [of _ "s + 1"]) auto
  next
    case False
    then have "ws = toiso (utc s)" "we = toiso (utc t)"
      using assms(1) s t by (auto simp: flush_window_def Let_def)
    moreover have "s < t"
    proof (rule ccontr)
      assume "\<not> s < t"
      then consider "s = t" | "t < s" by linarith
      then show False
      proof cases
        case 2
        then have "toiso (utc t) < toiso (utc s)" using s t incr [of t s] by simp
        with le s t show False by simp
      qed (use False s t in simp)
    qed
    ultimately show ?thesis using s t parse [of s] parse [of t] by auto
  qed
qed

subsection \<open>Properties\<close>

text \<open>One record moves a metric by at most its sensitivity. Replacing any record of a batch by any
  other changes the raw mean of every metric by no more than the sensitivity the noise is scaled to.\<close>

theorem substitution_sensitivity:
  assumes "metric_sensitivity metric (int (length xs)) = Inr s" and "i < length xs"
  shows "\<bar>mean_over (record_value metric) xs - mean_over (record_value metric) (xs[i := r])\<bar> \<le> s"
proof -
  obtain base where base: "map_of metric_bases metric = Some base" "s = base / real (length xs)"
    using assms(1) by (auto simp: metric_sensitivity_Inr)
  show ?thesis
    using mean_over_update [OF assms(2), of "record_value metric" base r] record_value_range [OF base(1)]
    by (simp add: base(2))
qed

definition example_result :: "int \<Rightarrow> bool \<Rightarrow> canary_result" where
  "example_result len ok =
     \<lparr>cr_timestamp = ''t'', cr_model_tuple = ''m'', cr_suite_version = ''v2.0.0'', cr_prompt_id = ''p'',
      cr_response_hash = replicate 64 (CHR ''0''), cr_output_length = len, cr_json_valid = ok, cr_latency_ms = -1,
      cr_tool_call_valid = None, cr_output_tokens = None, cr_reasoning_tokens = None\<rparr>"

theorem substitution_sensitivity_witness:
  "\<bar>mean_over (record_value ''avg_output_length'') [example_result 320 True, example_result 0 True]
    - mean_over (record_value ''avg_output_length'') [example_result 0 True, example_result 0 True]\<bar> \<le> 160"
  using substitution_sensitivity [of "''avg_output_length''" "[example_result 320 True, example_result 0 True]" 160 0
      "example_result 0 True"]
  by (simp add: metric_sensitivity_def metric_bases_def MAX_OUTPUT_LENGTH_def)

text \<open>C24: What a flush costs. Take two aggregators whose batches for a model differ in the measured values of one record. There is one fixed shift of the
  exponential samples behind the noise such that, whatever the samples are, the second flush on the shifted samples emits the batch of the first up to the
  response hashes, which carry no noise; both flushes draw two samples for each noised metric; and the density of the samples drops by at most a factor
  \<open>exp EPSILON\<close> for each noised metric. So a flush of the two legacy metrics is private with \<open>2 * EPSILON\<close> and one of all five with \<open>5 * EPSILON\<close>, while
  the probe charges \<open>EPSILON\<close> for either.\<close>

theorem flush_privacy_loss:
  assumes "i < length xs" and "same_shape (xs ! i) r" and "ag_client_id ag2 = ag_client_id ag1"
    and "dict_get (ag_pending ag1) mt [] = xs" and "dict_get (ag_pending ag2) mt [] = xs[i := r]"
  shows "\<exists>shift. list_all (\<lambda>s. 0 \<le> s) shift \<and> (\<forall>draws sb ag1'. length draws = length shift
      \<and> agg_flush recorded fromiso toiso is_uuid fresh mt fleet (ag1\<lparr>ag_rng := (draws, 1)\<rparr>) = (Inr sb, ag1') \<longrightarrow>
      (\<exists>ag2'. agg_flush recorded fromiso toiso is_uuid fresh mt fleet (ag2\<lparr>ag_rng := (map2 (+) draws shift, 1)\<rparr>)
          = (Inr (sb\<lparr>sb_canary_hashes := hashes_of (xs[i := r])\<rparr>), ag2')
        \<and> length draws = 2 * (length (sb_metrics sb) - 1) \<and> fst (ag_rng ag1') = [] \<and> fst (ag_rng ag2') = []
        \<and> snd (ag_rng ag1') \<le> exp (real (length (sb_metrics sb) - 1) * EPSILON) * snd (ag_rng ag2')))"
proof -
  let ?ys = "xs[i := r]"
  define shift where "shift = concat (map (shift_of xs ?ys) (noised_metrics xs))"
  have pos: "list_all (\<lambda>s. 0 \<le> s) shift" by (simp add: shift_def list_all_iff shift_of_def Let_def)
  have len: "length shift = 2 * length (noised_metrics xs)"
  proof -
    have "length (concat (map (shift_of xs ?ys) ks)) = 2 * length ks" for ks by (induction ks) (simp_all add: shift_of_def Let_def)
    then show ?thesis by (simp add: shift_def)
  qed
  have ne: "xs \<noteq> []" "?ys \<noteq> []" using assms(1) by auto
  note same = same_shape_list [OF assms(1,2)]
  have window: "flush_window fromiso toiso ?ys = flush_window fromiso toiso xs" by (simp only: flush_window_def same(4))
  have version: "cr_suite_version (hd ?ys) = cr_suite_version (hd xs)" "card (set (map cr_suite_version ?ys)) = card (set (map cr_suite_version xs))"
    by (metis same(5) hd_map ne) (simp only: same(5))
  show ?thesis
  proof (intro exI [of _ shift] conjI pos allI impI, elim conjE)
    fix draws sb ag1'
    assume draws: "length draws = length shift"
      and run: "agg_flush recorded fromiso toiso is_uuid fresh mt fleet (ag1\<lparr>ag_rng := (draws, 1)\<rparr>) = (Inr sb, ag1')"
    have "aligned xs ?ys (noised_metrics xs) 0 (draws, 1) (map2 (+) draws shift, 1)" by (simp add: aligned_def draws len) (simp add: shift_def)
    from flush_metrics_aligned [OF assms(1,2) this] obtain ms h h' where ms: "flush_metrics recorded xs (draws, 1) = Inr (ms, h)"
      "flush_metrics recorded ?ys (map2 (+) draws shift, 1) = Inr (ms, h')" and ended: "aligned xs ?ys [] (real (length ms - 1) * EPSILON) h h'"
      and count: "length ms = Suc (length (noised_metrics xs))" by blast
    let ?sb = "\<lambda>ws we. \<lparr>sb_batch_id = fresh, sb_client_id = ag_client_id ag1, sb_window_start = ws, sb_window_end = we, sb_model_tuple = mt,
      sb_suite_version = cr_suite_version (hd xs), sb_metrics = ms, sb_canary_hashes = hashes_of xs, sb_result_count = int (length xs), sb_fleet_id = fleet\<rparr>"
    obtain ws we where w: "flush_window fromiso toiso xs = Inr (ws, we)" and one: "\<not> 1 < card (set (map cr_suite_version xs))"
      and post: "batch_post_init is_uuid (?sb ws we) = Inr sb" and ag1': "ag1' = ag1\<lparr>ag_pending := AList.delete mt (ag_pending ag1), ag_rng := h\<rparr>"
      using run ms(1) ne(1) assms(4) by (auto simp: agg_flush_def Let_def split: sum.splits if_splits)
    have sb: "sb = ?sb ws we" using post by (simp add: batch_post_init_def split: if_splits)
    have "batch_post_init is_uuid (sb\<lparr>sb_canary_hashes := hashes_of ?ys\<rparr>) = Inr (sb\<lparr>sb_canary_hashes := hashes_of ?ys\<rparr>)"
      using post unfolding sb by (simp add: batch_post_init_def split: if_splits)
    then have second: "agg_flush recorded fromiso toiso is_uuid fresh mt fleet (ag2\<lparr>ag_rng := (map2 (+) draws shift, 1)\<rparr>)
        = (Inr (sb\<lparr>sb_canary_hashes := hashes_of ?ys\<rparr>), ag2\<lparr>ag_pending := AList.delete mt (ag_pending ag2), ag_rng := h'\<rparr>)"
      using ms(2) ne(2) window w one version assms(3,5) sb by (simp add: agg_flush_def)
    show "\<exists>ag2'. agg_flush recorded fromiso toiso is_uuid fresh mt fleet (ag2\<lparr>ag_rng := (map2 (+) draws shift, 1)\<rparr>)
          = (Inr (sb\<lparr>sb_canary_hashes := hashes_of ?ys\<rparr>), ag2')
        \<and> length draws = 2 * (length (sb_metrics sb) - 1) \<and> fst (ag_rng ag1') = [] \<and> fst (ag_rng ag2') = []
        \<and> snd (ag_rng ag1') \<le> exp (real (length (sb_metrics sb) - 1) * EPSILON) * snd (ag_rng ag2')"
      by (rule exI, rule conjI, rule second) (use ended count draws len in \<open>simp add: aligned_def ag1' sb\<close>)
  qed
qed

theorem flush_privacy_loss_witness:
  "\<exists>shift. list_all (\<lambda>s. 0 \<le> s) shift \<and> (\<forall>draws sb ag'. length draws = length shift
      \<and> agg_flush recorded (\<lambda>s. Some (utc 0)) (\<lambda>d. ''u'') (\<lambda>_. True) ''b'' ''m'' None
          \<lparr>ag_client_id = ''c'', ag_pending = [(''m'', [example_result 320 True])], ag_rng = (draws, 1)\<rparr> = (Inr sb, ag') \<longrightarrow>
      (\<exists>ag''. snd (ag_rng ag') \<le> exp (real (length (sb_metrics sb) - 1) * EPSILON) * snd (ag_rng ag'')
         \<and> agg_flush recorded (\<lambda>s. Some (utc 0)) (\<lambda>d. ''u'') (\<lambda>_. True) ''b'' ''m'' None
          \<lparr>ag_client_id = ''c'', ag_pending = [(''m'', [example_result 0 False])], ag_rng = (map2 (+) draws shift, 1)\<rparr>
            = (Inr (sb\<lparr>sb_canary_hashes := hashes_of [example_result 0 False]\<rparr>), ag'')))"
  using flush_privacy_loss [where xs = "[example_result 320 True]" and i = 0 and r = "example_result 0 False" and mt = "''m''"
      and ?ag1.0 = "\<lparr>ag_client_id = ''c'', ag_pending = [(''m'', [example_result 320 True])], ag_rng = ([], 1)\<rparr>"
      and ?ag2.0 = "\<lparr>ag_client_id = ''c'', ag_pending = [(''m'', [example_result 0 False])], ag_rng = ([], 1)\<rparr>"
      and fromiso = "\<lambda>s. Some (utc 0)" and toiso = "\<lambda>d. ''u''" and is_uuid = "\<lambda>_. True" and fresh = "''b''" and fleet = None]
  by (simp add: same_shape_def example_result_def dict_get_def) blast

text \<open>What the probe emits, the gateway accepts. A batch flushed from canary results with UTC stamps,
  a model and suite name, and well-formed prompt ids and hashes decodes into one that passes every
  validator, whatever the noise; provided \<open>isoformat\<close> parses back and sorts like time on the
  range of the stamps, as it does for the years 1 to 9999.\<close>

theorem flushed_batch_accepted:
  assumes "agg_flush expo fromiso toiso is_uuid fresh mt fleet ag = (Inr sb, ag')"
    and "rs = dict_get (ag_pending ag) mt []" and "mt \<noteq> []" and "[] \<notin> cr_suite_version ` set rs"
    and "(\<lambda>r. (cr_prompt_id r, cr_response_hash r)) ` set rs \<subseteq> {(k, v). key_pat_match k \<and> val_pat_match v}"
    and "cr_timestamp ` set rs \<subseteq> (\<lambda>t. toiso (utc t)) ` {lo..<hi}"
    and "\<And>t. t \<in> {lo..hi} \<Longrightarrow> fromiso (toiso (utc t)) = Some (utc t)"
    and "\<And>s t. s \<in> {lo..hi} \<Longrightarrow> t \<in> {lo..hi} \<Longrightarrow> s < t \<Longrightarrow> toiso (utc s) < toiso (utc t)"
  shows "\<exists>b. wire_batch fromiso sb = Some b \<and> validate_batch b = Inr b \<and> ib_fleet_id b = fleet"
proof -
  note sb = agg_flush_Inr [OF assms(1), folded assms(2)]
  obtain s t where "fromiso (sb_window_start sb) = Some (utc s)" "fromiso (sb_window_end sb) = Some (utc t)" "s < t"
    using flush_window_proper [OF sb(2,1) assms(6-8)] by blast
  then obtain b where b: "wire_batch fromiso sb = Some b" and fields: "ib_window_start b = utc s" "ib_window_end b = utc t"
    "ib_model_tuple b = mt" "ib_suite_version b = cr_suite_version (hd rs)" "ib_metrics b = sb_metrics sb"
    "ib_canary_hashes b = hashes_of rs" "ib_result_count b = int (length rs)" "ib_fleet_id b = fleet"
    using sb by (simp add: wire_batch_def)
  have "cr_suite_version (hd rs) \<noteq> []" using assms(4) hd_in_set [OF sb(1)] by (metis imageI)
  then have "field_constraints b"
    using assms(3) sb(1) fields by (cases mt; cases "cr_suite_version (hd rs)"; cases rs) (simp_all add: field_constraints_def)
  moreover have "check_window_order b = Inr b"
    using \<open>s < t\<close> fields by (simp add: check_window_order_ok dt_utc_def utc_def)
  moreover have "check_metrics_keys b = Inr b"
    using sb(4) fields by (simp add: check_metrics_keys_ok metrics_sound_def batch_metric_keys_def allowed_metric_keys_def)
  moreover have "check_canary_hash_format b = Inr b"
    using hashes_of_sub [of rs] assms(5) fields by (fastforce simp: check_canary_hash_format_ok)
  ultimately show ?thesis using b fields(8) by (simp add: validate_batch_def)
qed

text \<open>Unary stamps: they parse back and sort like time.\<close>

lemma replicate_less: "m < n \<Longrightarrow> replicate m (CHR ''a'') < replicate n (CHR ''a'')"
proof (induction m arbitrary: n)
  case 0
  then show ?case by (cases n) simp_all
next
  case (Suc m)
  then show ?case by (cases n) simp_all
qed

definition unary_stamp :: "py_datetime \<Rightarrow> string" where
  "unary_stamp d = replicate (nat (dt_wall d)) (CHR ''a'')"

definition unary_parse :: "string \<Rightarrow> py_datetime option" where
  "unary_parse s = Some (utc (int (length s)))"

definition full_aggregator :: "unit aggregator" where
  "full_aggregator = add_result (init_aggregator ''c'' ()) ((example_result 5 True)\<lparr>cr_timestamp := ''aaa''\<rparr>)"

theorem flushed_batch_accepted_witness:
  "\<exists>sb ag' b. agg_flush (\<lambda>_ g. (0, g)) unary_parse unary_stamp (\<lambda>_. True) ''b'' ''m'' None full_aggregator = (Inr sb, ag')
     \<and> wire_batch unary_parse sb = Some b \<and> validate_batch b = Inr b"
proof -
  let ?rs = "[(example_result 5 True)\<lparr>cr_timestamp := ''aaa''\<rparr>]"
  have rs: "dict_get (ag_pending full_aggregator) ''m'' [] = ?rs"
    by (simp add: full_aggregator_def add_result_def init_aggregator_def example_result_def dict_get_def)
  have "flush_window unary_parse unary_stamp ?rs = Inr (''aaa'', unary_stamp (utc 4))"
    by (simp add: flush_window_def unary_parse_def utc_def)
  then obtain sb ag' where run: "agg_flush (\<lambda>_ g. (0, g)) unary_parse unary_stamp (\<lambda>_. True) ''b'' ''m'' None full_aggregator
      = (Inr sb, ag')"
    using agg_flush_total [of full_aggregator "''m''" "\<lambda>_. True" "''b''" unary_parse unary_stamp _ "\<lambda>_ g. (0, g)" None]
    by (auto simp: rs)
  have stamp: "''aaa'' = unary_stamp (utc 3)" by (simp add: unary_stamp_def utc_def numeral_eq_Suc)
  have hex: "val_pat_match (replicate 64 (CHR ''0''))"
    by (simp add: val_pat_match_def dollar_bodies_def lower_hex_char_def is_digit_def newline_def list_all_iff)
  have "\<exists>b. wire_batch unary_parse sb = Some b \<and> validate_batch b = Inr b \<and> ib_fleet_id b = None"
    by (rule flushed_batch_accepted [OF run refl, where lo = 0 and hi = 9])
       (auto simp: rs stamp hex example_result_def key_pat_match_def dollar_bodies_def hash_key_char_def is_lower_def
         unary_parse_def unary_stamp_def utc_def newline_def intro: replicate_less intro!: rev_image_eqI [of 3])
  with run show ?thesis by blast
qed

text \<open>No result is lost and none is counted twice. Over any history of stagings and flushes, failed
  ones included, what was emitted for a model plus what is still staged is what was staged.\<close>

theorem queue_conserves_results:
  "let (sbs, ag) = agg_run expo fromiso toiso is_uuid ops (init_aggregator fresh g)
   in int (pending_count ag mt) + emitted_for mt sbs = int (staged_for mt ops)"
  using agg_run_balance [of expo fromiso toiso is_uuid ops "init_aggregator fresh g" _ _ mt]
  by (auto simp: init_aggregator_def pending_count_def dict_get_def split: prod.split)

end
