(* ===== verification/Spool.thy ===== *)
theory Spool
  imports Aggregator Auth "HOL-Library.Multiset"
begin

section \<open>The delivery buffer (probe/spool.py)\<close>

text \<open>
  The directory of signed batches that wait for delivery. A directory maps file names to
  contents; a content is the JSON value of the file, \<open>None\<close> when its bytes are not UTF-8
  JSON. Writing goes through a temporary file and an atomic rename, so a file is there with
  its full content or not at all.

  \<open>codec\<close> collects what the module takes from the standard library: the JSON parser and
  serialiser on bytes, base64, \<^verbatim>\<open>float\<close> of a string and \<^verbatim>\<open>uuid.UUID\<close>. Three values only a
  tampered file has are read more coarsely than Python does: a header value that is a JSON
  list of one-character strings counts as malformed, a creation time of minus infinity does
  not count as old, and one beyond the range of a float is a number.
\<close>

record spool_codec =
  sc_loads :: "bytes \<Rightarrow> json option"
  sc_canonical :: "json \<Rightarrow> bytes"
  sc_b64encode :: "bytes \<Rightarrow> string"
  sc_b64decode :: "string \<Rightarrow> bytes option"
  sc_float :: "string \<Rightarrow> real option"
  sc_is_uuid :: "string \<Rightarrow> bool"

subsection \<open>Validation\<close>

definition batch_fields :: "string list" where
  "batch_fields =
     [''batch_id'', ''client_id'', ''window_start'', ''window_end'', ''model_tuple'', ''suite_version'',
      ''metrics'', ''canary_hashes'', ''result_count'']"

text \<open>\<^verbatim>\<open>uuid.UUID(v)\<close>: the constructor calls a string method on whatever is not \<^verbatim>\<open>None\<close>.\<close>

fun uuid_check :: "(string \<Rightarrow> bool) \<Rightarrow> json \<Rightarrow> py_error + unit" where
  "uuid_check is_uuid (JStr s) = (if is_uuid s then Inr () else Inl (ValueError ''badly formed UUID''))"
| "uuid_check is_uuid JNull = Inl (TypeError ''one of the hex arguments must be given'')"
| "uuid_check is_uuid _ = Inl (AttributeError ''replace'')"

fun count_check :: "json \<Rightarrow> py_error + unit" where
  "count_check (JInt i) = (if i < 1 then Inl (ValueError ''result_count must be >= 1'') else Inr ())"
| "count_check (JFloat x) = (if x < 1 then Inl (ValueError ''result_count must be >= 1'') else Inr ())"
| "count_check (JBool b) = (if b then Inr () else Inl (ValueError ''result_count must be >= 1''))"
| "count_check JNonFinite = Inr ()"
| "count_check _ = Inl (TypeError ''not comparable'')"

text \<open>\<^verbatim>\<open>set(self.metrics)\<close>: the keys of an object, the elements of a list of strings, the characters of a string.\<close>

fun json_set :: "json \<Rightarrow> string list option" where
  "json_set (JObj d) = Some (map fst d)"
| "json_set (JArr js) = (if list_all (\<lambda>j. case j of JStr _ \<Rightarrow> True | _ \<Rightarrow> False) js
                         then Some (map (\<lambda>j. case j of JStr s \<Rightarrow> s | _ \<Rightarrow> []) js) else None)"
| "json_set (JStr s) = Some (map (\<lambda>c. [c]) s)"
| "json_set _ = None"

definition metrics_check :: "json \<Rightarrow> py_error + unit" where
  "metrics_check v =
     (case json_set v of
        None \<Rightarrow> Inl (TypeError ''metrics'')
      | Some keys \<Rightarrow> if set keys \<subseteq> set batch_metric_keys then Inr () else Inl (ValueError ''metrics contains unknown keys''))"

text \<open>\<^verbatim>\<open>SignalBatch(**payload)\<close> on a decoded object: the keyword check, then \<^verbatim>\<open>__post_init__\<close>.\<close>

definition rebuild_batch :: "(string \<Rightarrow> bool) \<Rightarrow> (string, json) dict \<Rightarrow> py_error + unit" where
  "rebuild_batch is_uuid payload =
     (if \<not> (set batch_fields \<subseteq> fst ` set payload \<and> fst ` set payload \<subseteq> set (''fleet_id'' # batch_fields))
      then Inl (TypeError ''unexpected or missing keyword argument'')
      else sum_bind (uuid_check is_uuid (dict_get payload ''batch_id'' JNull))
        (\<lambda>_. sum_bind (uuid_check is_uuid (dict_get payload ''client_id'' JNull))
          (\<lambda>_. sum_bind (count_check (dict_get payload ''result_count'' JNull))
            (\<lambda>_. metrics_check (dict_get payload ''metrics'' JNull)))))"

definition hex_text :: "nat \<Rightarrow> string \<Rightarrow> bool" where
  "hex_text n s \<longleftrightarrow> length s = n \<and> set s \<subseteq> set ''0123456789abcdef''"

fun hashes_sound :: "json \<Rightarrow> bool" where
  "hashes_sound (JObj d) = list_all (\<lambda>(_, v). case v of JStr h \<Rightarrow> hex_text 64 h | _ \<Rightarrow> False) d"
| "hashes_sound _ = False"

text \<open>\<open>TypeError\<close> and \<open>ValueError\<close> of the reconstruction become \<open>ValueError\<close>; anything else goes through.\<close>

fun as_value_error :: "py_error + 'a \<Rightarrow> py_error + 'a" where
  "as_value_error (Inl (TypeError m)) = Inl (ValueError m)"
| "as_value_error r = r"

definition validate_body :: "spool_codec \<Rightarrow> bytes \<Rightarrow> py_error + string" where
  "validate_body codec body =
     (case sc_loads codec body of
        None \<Rightarrow> Inl (ValueError ''body is not UTF-8 JSON'')
      | Some (JObj payload) \<Rightarrow>
          if sc_canonical codec (JObj payload) \<noteq> body then Inl (ValueError ''body is not in canonical JSON form'')
          else sum_bind (as_value_error (rebuild_batch (sc_is_uuid codec) payload))
                 (\<lambda>_. if hashes_sound (dict_get payload ''canary_hashes'' JNull)
                      then Inr (case dict_get payload ''batch_id'' JNull of JStr s \<Rightarrow> s | _ \<Rightarrow> [])
                      else Inl (ValueError ''canary_hashes must be 64-char lowercase hex''))
      | Some _ \<Rightarrow> Inl (ValueError ''body is not a JSON object''))"

definition check_headers :: "(string, string) dict \<Rightarrow> py_error + (string, string) dict" where
  "check_headers headers =
     (let lowered = fold (\<lambda>(k, v). AList.update (map lower_char k) v) headers [];
          sig = dict_get lowered ''x-signature'' [];
          pub = dict_get lowered ''x-public-key'' []
      in if \<not> hex_text 128 sig then Inl (ValueError ''x-signature must be 128 lowercase hex chars'')
         else if \<not> hex_text 64 pub then Inl (ValueError ''x-public-key must be 64 lowercase hex chars'')
         else Inr [(''x-signature'', sig), (''x-public-key'', pub)])"

subsection \<open>The directory\<close>

type_synonym directory = "(string, json option) dict"

record spool =
  sp_max_age_seconds :: real
  sp_max_files :: int
  sp_files :: directory
  sp_quarantine :: directory

definition init_spool :: "real \<Rightarrow> int \<Rightarrow> directory \<Rightarrow> directory \<Rightarrow> py_error + spool" where
  "init_spool max_age_hours max_files files quarantine =
     (if max_age_hours \<le> 0 then Inl (ValueError ''max_age_hours must be > 0'')
      else if max_files < 1 then Inl (ValueError ''max_files must be >= 1'')
      else Inr \<lparr>sp_max_age_seconds = max_age_hours * 3600, sp_max_files = max_files,
                sp_files = files, sp_quarantine = quarantine\<rparr>)"

definition DEFAULT_MAX_AGE_HOURS :: real where
  "DEFAULT_MAX_AGE_HOURS = 30"

definition DEFAULT_MAX_FILES :: int where
  "DEFAULT_MAX_FILES = 100"

definition batch_suffix :: string where
  "batch_suffix = ''.batch.json''"

definition ends_with :: "string \<Rightarrow> string \<Rightarrow> bool" where
  "ends_with s suf \<longleftrightarrow> length suf \<le> length s \<and> drop (length s - length suf) s = suf"

definition waiting :: "spool \<Rightarrow> string list" where
  "waiting sp = sort (filter (\<lambda>n. ends_with n batch_suffix) (map fst (sp_files sp)))"

definition unlink :: "string \<Rightarrow> spool \<Rightarrow> spool" where
  "unlink name sp = sp\<lparr>sp_files := AList.delete name (sp_files sp)\<rparr>"

definition quarantine :: "string \<Rightarrow> spool \<Rightarrow> spool" where
  "quarantine name sp =
     (case map_of (sp_files sp) name of
        None \<Rightarrow> sp
      | Some content \<Rightarrow>
          (unlink name sp)\<lparr>sp_quarantine := AList.update name content (sp_quarantine sp)\<rparr>)"

definition enforce_cap :: "spool \<Rightarrow> spool" where
  "enforce_cap sp =
     (let files = waiting sp;
          excess = int (length files) - sp_max_files sp
      in fold unlink (take (nat (max excess 0)) files) sp)"

text \<open>\<^verbatim>\<open>f"{int(now * 1000):015d}-{batch_id}{_SUFFIX}"\<close> for a clock after 1970.\<close>

definition pad15 :: "nat \<Rightarrow> string" where
  "pad15 n = (let d = digits_of n in replicate (15 - length d) (CHR ''0'') @ d)"

definition file_name :: "real \<Rightarrow> string \<Rightarrow> string" where
  "file_name now batch_id = pad15 (nat (py_int (now * 1000))) @ ''-'' @ batch_id @ batch_suffix"

definition file_record :: "spool_codec \<Rightarrow> real \<Rightarrow> string \<Rightarrow> bytes \<Rightarrow> (string, string) dict \<Rightarrow> json" where
  "file_record codec now batch_id body sign =
     JObj [(''format'', JInt 1), (''batch_id'', JStr batch_id), (''created_at'', JFloat now),
           (''body_b64'', JStr (sc_b64encode codec body)),
           (''x-signature'', JStr (dict_get sign ''x-signature'' [])),
           (''x-public-key'', JStr (dict_get sign ''x-public-key'' []))]"

definition spool_put ::
  "spool_codec \<Rightarrow> real \<Rightarrow> bytes \<Rightarrow> (string, string) dict \<Rightarrow> spool \<Rightarrow> py_error + string \<times> spool" where
  "spool_put codec now body headers sp =
     sum_bind (validate_body codec body)
       (\<lambda>batch_id. sum_bind (check_headers headers)
         (\<lambda>sign. let name = file_name now batch_id;
                     sp = sp\<lparr>sp_files := AList.update name (Some (file_record codec now batch_id body sign)) (sp_files sp)\<rparr>
                 in Inr (name, enforce_cap sp)))"

subsection \<open>Reading\<close>

record spool_entry =
  se_path :: string
  se_batch_id :: string
  se_created_at :: "real option"
  se_body :: bytes
  se_headers :: "(string, string) dict"

text \<open>\<^verbatim>\<open>v == 1\<close>, and \<^verbatim>\<open>float(v)\<close> (\<open>None\<close> inside when the result is no real number).\<close>

fun equals_one :: "json \<Rightarrow> bool" where
  "equals_one (JInt i) = (i = 1)"
| "equals_one (JFloat x) = (x = 1)"
| "equals_one (JBool b) = b"
| "equals_one _ = False"

fun json_float :: "(string \<Rightarrow> real option) \<Rightarrow> json \<Rightarrow> py_error + real option" where
  "json_float of_str (JInt i) = Inr (Some (of_int i))"
| "json_float of_str (JFloat x) = Inr (Some x)"
| "json_float of_str (JBool b) = Inr (Some (if b then 1 else 0))"
| "json_float of_str JNonFinite = Inr None"
| "json_float of_str (JStr s) = (case of_str s of None \<Rightarrow> Inl (ValueError ''could not convert string to float'') | Some x \<Rightarrow> Inr (Some x))"
| "json_float of_str _ = Inl (ValueError ''unreadable spool file'')"

fun json_text :: "json \<Rightarrow> string option" where
  "json_text (JStr s) = Some s"
| "json_text _ = None"

abbreviation unreadable :: py_error where
  "unreadable \<equiv> ValueError ''unreadable spool file''"

definition or_unreadable :: "'a option \<Rightarrow> py_error + 'a" where
  "or_unreadable x = (case x of None \<Rightarrow> Inl unreadable | Some v \<Rightarrow> Inr v)"

definition load_record :: "spool_codec \<Rightarrow> string \<Rightarrow> (string, json) dict \<Rightarrow> py_error + spool_entry" where
  "load_record codec path rec =
     (if \<not> equals_one (dict_get rec ''format'' JNull) then Inl (ValueError ''unknown format'')
      else sum_bind (or_unreadable (Option.bind (Option.bind (map_of rec ''body_b64'') json_text) (sc_b64decode codec)))
        (\<lambda>body. sum_bind (case map_of rec ''created_at'' of None \<Rightarrow> Inl unreadable | Some v \<Rightarrow> json_float (sc_float codec) v)
          (\<lambda>created_at. sum_bind (or_unreadable (Option.bind (map_of rec ''x-signature'') json_text))
            (\<lambda>sig. sum_bind (or_unreadable (Option.bind (map_of rec ''x-public-key'') json_text))
              (\<lambda>pub. sum_bind (check_headers [(''x-signature'', sig), (''x-public-key'', pub)])
                (\<lambda>headers. sum_bind (validate_body codec body)
                  (\<lambda>batch_id. if dict_get rec ''batch_id'' JNull \<noteq> JStr batch_id
                               then Inl (ValueError ''batch_id in file does not match body'')
                               else Inr \<lparr>se_path = path, se_batch_id = batch_id, se_created_at = created_at,
                                          se_body = body,
                                          se_headers = AList.update ''Content-Type'' ''application/json'' headers\<rparr>)))))))"

definition spool_load :: "spool_codec \<Rightarrow> string \<Rightarrow> json option \<Rightarrow> py_error + spool_entry" where
  "spool_load codec path content =
     (case content of
        None \<Rightarrow> Inl unreadable
      | Some (JObj rec) \<Rightarrow> load_record codec path rec
      | Some _ \<Rightarrow> Inl (AttributeError ''get''))"

record drain_report =
  dr_delivered :: "string list"
  dr_duplicate :: "string list"
  dr_quarantined :: "string list"
  dr_expired :: "string list"
  dr_remaining :: nat
  dr_stopped_on :: "string option"

definition empty_report :: drain_report where
  "empty_report = \<lparr>dr_delivered = [], dr_duplicate = [], dr_quarantined = [], dr_expired = [], dr_remaining = 0,
                   dr_stopped_on = None\<rparr>"

definition drain_summary :: "drain_report \<Rightarrow> string" where
  "drain_summary r =
     ''spool: delivered='' @ digits_of (length (dr_delivered r)) @
     '' duplicate='' @ digits_of (length (dr_duplicate r)) @
     '' quarantined='' @ digits_of (length (dr_quarantined r)) @
     '' expired='' @ digits_of (length (dr_expired r)) @
     '' remaining='' @ digits_of (dr_remaining r) @
     (case dr_stopped_on r of
        None \<Rightarrow> []
      | Some s \<Rightarrow> if s = [] then [] else '' (stopped: '' @ s @ '')'')"

text \<open>
  The scan over the names found at its start. An exception other than \<open>ValueError\<close> ends it
  where it stands; what was done before remains.
\<close>

definition expired :: "real \<Rightarrow> spool \<Rightarrow> spool_entry \<Rightarrow> bool" where
  "expired now sp e \<longleftrightarrow> (case se_created_at e of None \<Rightarrow> False | Some t \<Rightarrow> now - t > sp_max_age_seconds sp)"

fun scan_files ::
  "spool_codec \<Rightarrow> real \<Rightarrow> string list \<Rightarrow> drain_report \<times> spool_entry list \<times> spool
    \<Rightarrow> (py_error + drain_report \<times> spool_entry list) \<times> spool" where
  "scan_files codec now [] (report, entries, sp) = (Inr (report, entries), sp)"
| "scan_files codec now (path # paths) (report, entries, sp) =
     (case spool_load codec path (dict_get (sp_files sp) path None) of
        Inl (ValueError m) \<Rightarrow>
          scan_files codec now paths
            (report\<lparr>dr_quarantined := dr_quarantined report @ [path]\<rparr>, entries, quarantine path sp)
      | Inl e \<Rightarrow> (Inl e, sp)
      | Inr e \<Rightarrow>
          if expired now sp e
          then scan_files codec now paths
                 (report\<lparr>dr_expired := dr_expired report @ [se_batch_id e]\<rparr>, entries, unlink path sp)
          else scan_files codec now paths (report, entries @ [e], sp))"

definition spool_scan :: "spool_codec \<Rightarrow> real \<Rightarrow> spool \<Rightarrow> (py_error + drain_report \<times> spool_entry list) \<times> spool" where
  "spool_scan codec now sp = scan_files codec now (waiting sp) (empty_report, [], sp)"

definition spool_pending :: "spool_codec \<Rightarrow> real \<Rightarrow> spool \<Rightarrow> (py_error + spool_entry list) \<times> spool" where
  "spool_pending codec now sp = (case spool_scan codec now sp of (r, sp) \<Rightarrow> (map_sum id snd r, sp))"

subsection \<open>Delivery\<close>

text \<open>A sender gives a status or the text of an exception, and the next world.\<close>

type_synonym 'w sender = "bytes \<Rightarrow> (string, string) dict \<Rightarrow> 'w \<Rightarrow> (string + int) \<times> 'w"

fun drain_entries ::
  "'w sender \<Rightarrow> spool_entry list \<Rightarrow> drain_report \<times> spool \<times> 'w \<Rightarrow> drain_report \<times> spool \<times> 'w" where
  "drain_entries send [] (report, sp, w) = (report\<lparr>dr_remaining := 0\<rparr>, sp, w)"
| "drain_entries send (e # es) (report, sp, w) =
     (case send (se_body e) (se_headers e) w of
        (Inl exc, w) \<Rightarrow>
          (report\<lparr>dr_stopped_on := Some (take 200 exc), dr_remaining := length (e # es)\<rparr>, sp, w)
      | (Inr status, w) \<Rightarrow>
          if status = 202
          then drain_entries send es
                 (report\<lparr>dr_delivered := dr_delivered report @ [se_batch_id e]\<rparr>, unlink (se_path e) sp, w)
          else if status = 409
          then drain_entries send es
                 (report\<lparr>dr_duplicate := dr_duplicate report @ [se_batch_id e]\<rparr>, unlink (se_path e) sp, w)
          else if 400 \<le> status \<and> status < 500
          then drain_entries send es
                 (report\<lparr>dr_quarantined := dr_quarantined report @ [se_batch_id e]\<rparr>, quarantine (se_path e) sp, w)
          else (report\<lparr>dr_stopped_on := Some (''gateway HTTP '' @ str_of_int status),
                        dr_remaining := length (e # es)\<rparr>, sp, w))"

definition spool_drain ::
  "spool_codec \<Rightarrow> real \<Rightarrow> 'w sender \<Rightarrow> spool \<Rightarrow> 'w \<Rightarrow> (py_error + drain_report) \<times> spool \<times> 'w" where
  "spool_drain codec now send sp w =
     (case spool_scan codec now sp of
        (Inl e, sp) \<Rightarrow> (Inl e, sp, w)
      | (Inr (report, entries), sp) \<Rightarrow>
          (case drain_entries send entries (report, sp, w) of (report, sp, w) \<Rightarrow> (Inr report, sp, w)))"

subsection \<open>Lemmas: the directory\<close>

text \<open>The names that wait, as a set, and the contents of one directory inside another.\<close>

definition spool_ok :: "spool \<Rightarrow> bool" where
  "spool_ok sp \<longleftrightarrow> dict_wf (sp_files sp) \<and> 0 < sp_max_files sp"

definition files_within :: "spool \<Rightarrow> spool \<Rightarrow> bool" where
  "files_within sp' sp \<longleftrightarrow> map_of (sp_files sp') \<subseteq>\<^sub>m map_of (sp_files sp)"

lemma unlink_simps [simp]:
  "sp_files (unlink n sp) = AList.delete n (sp_files sp)" "sp_max_files (unlink n sp) = sp_max_files sp"
  "sp_max_age_seconds (unlink n sp) = sp_max_age_seconds sp" "sp_quarantine (unlink n sp) = sp_quarantine sp"
  by (simp_all add: unlink_def)

lemma quarantine_files: "sp_files (quarantine n sp) = AList.delete n (sp_files sp)"
  by (auto simp: quarantine_def map_of_eq_None_iff delete_id split: option.split)

lemma quarantine_simps [simp]:
  "sp_max_files (quarantine n sp) = sp_max_files sp" "sp_max_age_seconds (quarantine n sp) = sp_max_age_seconds sp"
  by (simp_all add: quarantine_def split: option.split)

lemma set_waiting: "set (waiting sp) = {n. ends_with n batch_suffix \<and> map_of (sp_files sp) n \<noteq> None}"
  by (auto simp: waiting_def map_of_eq_None_iff)

lemma distinct_waiting: "dict_wf (sp_files sp) \<Longrightarrow> distinct (waiting sp)"
  by (simp add: waiting_def)

lemma length_waiting: "dict_wf (sp_files sp) \<Longrightarrow> length (waiting sp) = card (set (waiting sp))"
  by (simp add: distinct_card [OF distinct_waiting])

text \<open>Removing names one after the other.\<close>

lemma fold_unlink_files: "sp_files (fold unlink ns sp) = fold AList.delete ns (sp_files sp)"
  by (induction ns arbitrary: sp) simp_all

lemma fold_unlink_max: "sp_max_files (fold unlink ns sp) = sp_max_files sp"
  by (induction ns arbitrary: sp) simp_all

lemma dict_wf_fold_delete: "dict_wf d \<Longrightarrow> dict_wf (fold AList.delete ns d)"
  by (induction ns arbitrary: d) simp_all

lemma waiting_fold_unlink: "waiting (fold unlink ns sp) = filter (\<lambda>n. n \<notin> set ns) (waiting sp)"
proof -
  have "map fst (fold AList.delete ns d) = filter (\<lambda>n. n \<notin> set ns) (map fst d)" for d :: directory
  proof (induction ns arbitrary: d)
    case (Cons n ns)
    have "map fst (AList.delete n d) = filter (\<lambda>m. m \<noteq> n) (map fst d)"
      by (induction d) (auto simp: AList.delete_eq)
    with Cons [of "AList.delete n d"] show ?case by (auto intro!: filter_cong)
  qed simp
  then show ?thesis by (simp add: waiting_def fold_unlink_files filter_sort conj_commute)
qed

lemma filter_out_take: "distinct xs \<Longrightarrow> filter (\<lambda>x. x \<notin> set (take k xs)) xs = drop k xs"
proof (induction xs arbitrary: k)
  case (Cons x xs)
  show ?case
  proof (cases k)
    case (Suc m)
    have "filter (\<lambda>y. y \<noteq> x \<and> y \<notin> set (take m xs)) xs = filter (\<lambda>y. y \<notin> set (take m xs)) xs"
      using Cons.prems by (intro filter_cong) auto
    with Suc Cons show ?thesis by simp
  qed simp
qed simp

text \<open>The cap keeps the newest names.\<close>

lemma enforce_cap_waiting:
  assumes "dict_wf (sp_files sp)"
  shows "waiting (enforce_cap sp) = drop (nat (int (length (waiting sp)) - sp_max_files sp)) (waiting sp)"
  using filter_out_take [OF distinct_waiting [OF assms]]
  by (simp add: enforce_cap_def Let_def waiting_fold_unlink max_def)

lemma enforce_cap_count:
  assumes "spool_ok sp"
  shows "int (length (waiting (enforce_cap sp))) \<le> sp_max_files sp" and "files_within (enforce_cap sp) sp"
    and "spool_ok (enforce_cap sp)"
proof -
  show "int (length (waiting (enforce_cap sp))) \<le> sp_max_files sp"
    using assms by (simp add: enforce_cap_waiting spool_ok_def) linarith
  show "files_within (enforce_cap sp) sp"
    by (auto simp: files_within_def map_le_def enforce_cap_def Let_def fold_unlink_files map_of_fold_delete dom_def)
  show "spool_ok (enforce_cap sp)"
    using assms
    by (simp add: enforce_cap_def Let_def fold_unlink_files fold_unlink_max dict_wf_fold_delete spool_ok_def)
qed

subsection \<open>Lemmas: every file in one bucket\<close>

definition settled :: "drain_report \<Rightarrow> nat" where
  "settled r = length (dr_delivered r) + length (dr_duplicate r) + length (dr_quarantined r) + length (dr_expired r)"

lemma waiting_delete:
  "dict_wf (sp_files sp) \<Longrightarrow> sp_files sp' = AList.delete n (sp_files sp) \<Longrightarrow> n \<in> set (waiting sp) \<Longrightarrow>
     Suc (length (waiting sp')) = length (waiting sp)"
proof -
  assume a: "dict_wf (sp_files sp)" "sp_files sp' = AList.delete n (sp_files sp)" "n \<in> set (waiting sp)"
  have "set (waiting sp') = set (waiting sp) - {n}" by (auto simp: set_waiting a(2))
  moreover have "dict_wf (sp_files sp')" using a by simp
  ultimately show ?thesis
    using length_waiting [OF a(1)] length_waiting [of sp'] a(3) card_Suc_Diff1 [of "set (waiting sp)" n] by simp
qed

lemma spool_load_path: "spool_load codec path content = Inr e \<Longrightarrow> se_path e = path"
  by (auto simp: spool_load_def load_record_def sum_bind_Inr_iff split: option.splits json.splits if_splits)

lemma scan_files_counts:
  assumes "scan_files codec now paths (report, entries, sp) = (Inr (report', entries'), sp')"
    and "dict_wf (sp_files sp)" and "distinct paths" and "set paths \<subseteq> set (waiting sp)"
    and "set (map se_path entries) \<subseteq> set (waiting sp) - set paths" and "distinct (map se_path entries)"
  shows "settled report' + length (waiting sp') = settled report + length (waiting sp)
     \<and> length entries' + settled report' = length entries + settled report + length paths
     \<and> set (map se_path entries') \<subseteq> set (waiting sp') \<and> distinct (map se_path entries')
     \<and> dict_wf (sp_files sp') \<and> files_within sp' sp"
  using assms
proof (induction paths arbitrary: report entries sp)
  case Nil
  then show ?case by (simp add: files_within_def)
next
  case (Cons path paths)
  have w: "path \<in> set (waiting sp)" "path \<notin> set paths" using Cons.prems by auto
  have removed: "Suc (length (waiting sp1)) = length (waiting sp)"
    "set paths \<subseteq> set (waiting sp1)" "set (map se_path entries) \<subseteq> set (waiting sp1) - set paths"
    "files_within sp1 sp" "dict_wf (sp_files sp1)"
    if "sp_files sp1 = AList.delete path (sp_files sp)" for sp1
  proof -
    show "Suc (length (waiting sp1)) = length (waiting sp)"
      by (rule waiting_delete [OF Cons.prems(2) that w(1)])
    show "set paths \<subseteq> set (waiting sp1)" "set (map se_path entries) \<subseteq> set (waiting sp1) - set paths"
      using Cons.prems(4,5) w(2) by (auto simp: set_waiting that)
    show "files_within sp1 sp" "dict_wf (sp_files sp1)"
      using Cons.prems(2) by (auto simp: files_within_def map_le_def that)
  qed
  have trans: "files_within a c" if "files_within a b" "files_within b c" for a b c
    using that unfolding files_within_def by (rule map_le_trans)
  show ?case
  proof (cases "spool_load codec path (dict_get (sp_files sp) path None)")
    case (Inl e)
    then obtain m where "e = ValueError m" and
      rest: "scan_files codec now paths (report\<lparr>dr_quarantined := dr_quarantined report @ [path]\<rparr>, entries, quarantine path sp)
        = (Inr (report', entries'), sp')"
      using Cons.prems(1) by (cases e) simp_all
    from Cons.IH [OF rest] removed [OF quarantine_files] Cons.prems(3,6) show ?thesis
      by (auto simp: settled_def intro: trans)
  next
    case (Inr e)
    have path: "se_path e = path" by (rule spool_load_path [OF Inr])
    show ?thesis
    proof (cases "expired now sp e")
      case True
      with Inr Cons.prems(1) have
        rest: "scan_files codec now paths (report\<lparr>dr_expired := dr_expired report @ [se_batch_id e]\<rparr>, entries, unlink path sp)
          = (Inr (report', entries'), sp')" by simp
      from Cons.IH [OF rest] removed [of "unlink path sp"] Cons.prems(3,6) show ?thesis
        by (auto simp: settled_def intro: trans)
    next
      case False
      with Inr Cons.prems(1) have
        rest: "scan_files codec now paths (report, entries @ [e], sp) = (Inr (report', entries'), sp')" by simp
      from Cons.IH [OF rest Cons.prems(2)] Cons.prems(3-6) path show ?thesis by auto
    qed
  qed
qed

lemma drain_entries_counts:
  assumes "drain_entries send es (report, sp, w) = (report', sp', w')"
    and "dict_wf (sp_files sp)" and "distinct (map se_path es)" and "set (map se_path es) \<subseteq> set (waiting sp)"
    and "length es = length (waiting sp)"
  shows "settled report' + dr_remaining report' = settled report + length es
     \<and> dr_remaining report' = length (waiting sp') \<and> files_within sp' sp"
  using assms
proof (induction es arbitrary: report sp w)
  case Nil
  then show ?case by (auto simp: settled_def files_within_def)
next
  case (Cons e es)
  have removed: "Suc (length (waiting sp1)) = length (waiting sp)" "set (map se_path es) \<subseteq> set (waiting sp1)"
    "files_within sp1 sp" "dict_wf (sp_files sp1)"
    if "sp_files sp1 = AList.delete (se_path e) (sp_files sp)" for sp1
  proof -
    show "Suc (length (waiting sp1)) = length (waiting sp)"
      by (rule waiting_delete [OF Cons.prems(2) that]) (use Cons.prems(4) in simp)
    show "set (map se_path es) \<subseteq> set (waiting sp1)"
    proof -
      have "se_path e \<notin> set (map se_path es)" using Cons.prems(3) by simp
      moreover have "set (waiting sp1) = set (waiting sp) - {se_path e}" by (auto simp: set_waiting that)
      moreover have "set (map se_path es) \<subseteq> set (waiting sp)" using Cons.prems(4) by simp
      ultimately show ?thesis by (simp only: subset_Diff_insert Diff_empty) simp
    qed
    show "files_within sp1 sp" "dict_wf (sp_files sp1)"
      using Cons.prems(2) by (auto simp: files_within_def map_le_def that)
  qed
  have trans: "files_within a c" if "files_within a b" "files_within b c" for a b c
    using that unfolding files_within_def by (rule map_le_trans)
  have dist: "distinct (map se_path es)" using Cons.prems(3) by simp
  obtain r w1 where send: "send (se_body e) (se_headers e) w = (r, w1)" by fastforce
  show ?case
  proof (cases r)
    case (Inl exc)
    with send Cons.prems show ?thesis by (auto simp: settled_def files_within_def)
  next
    case (Inr status)
    consider (ok) "status = 202" | (dup) "status = 409" | (bad) "400 \<le> status" "status < 500" "status \<noteq> 409"
      | (stop) "status \<noteq> 202" "\<not> (400 \<le> status \<and> status < 500)" by linarith
    then show ?thesis
    proof cases
      case ok
      with send Inr Cons.prems(1) have
        rest: "drain_entries send es (report\<lparr>dr_delivered := dr_delivered report @ [se_batch_id e]\<rparr>,
          unlink (se_path e) sp, w1) = (report', sp', w')" by simp
      from Cons.IH [OF rest] removed [of "unlink (se_path e) sp"] dist Cons.prems(5) show ?thesis
        by (auto simp: settled_def intro: trans)
    next
      case dup
      with send Inr Cons.prems(1) have
        rest: "drain_entries send es (report\<lparr>dr_duplicate := dr_duplicate report @ [se_batch_id e]\<rparr>,
          unlink (se_path e) sp, w1) = (report', sp', w')" by simp
      from Cons.IH [OF rest] removed [of "unlink (se_path e) sp"] dist Cons.prems(5) show ?thesis
        by (auto simp: settled_def intro: trans)
    next
      case bad
      with send Inr Cons.prems(1) have
        rest: "drain_entries send es (report\<lparr>dr_quarantined := dr_quarantined report @ [se_batch_id e]\<rparr>,
          quarantine (se_path e) sp, w1) = (report', sp', w')" by simp
      from Cons.IH [OF rest] removed [OF quarantine_files] dist Cons.prems(5) show ?thesis
        by (auto simp: settled_def intro: trans)
    next
      case stop
      with send Inr Cons.prems show ?thesis by (auto simp: settled_def files_within_def)
    qed
  qed
qed

subsection \<open>Lemmas: names sort by time\<close>

text \<open>Decimal numerals of one width sort as the numbers do.\<close>

lemma lex_append_same_length:
  "length (xs :: string) = length ys \<Longrightarrow> xs < ys \<Longrightarrow> xs @ us < ys @ vs"
  "us < vs \<Longrightarrow> xs @ us < xs @ vs"
proof -
  show "length (xs :: string) = length ys \<Longrightarrow> xs < ys \<Longrightarrow> xs @ us < ys @ vs"
    by (induction xs ys rule: list_induct2) auto
  show "us < vs \<Longrightarrow> xs @ us < xs @ vs" by (induction xs) auto
qed

fun pad_to :: "nat \<Rightarrow> nat \<Rightarrow> string" where
  "pad_to 0 n = []"
| "pad_to (Suc k) n = pad_to k (n div 10) @ [char_of (48 + n mod 10)]"

lemma length_pad_to [simp]: "length (pad_to k n) = k"
  by (induction k arbitrary: n) simp_all

lemma pad_to_zero: "pad_to k 0 = replicate k (CHR ''0'')"
proof (induction k)
  case (Suc k)
  have "char_of (48 :: nat) = CHR ''0''" by code_simp
  with Suc show ?case by (simp add: replicate_append_same)
qed simp

lemma pad_to_digits:
  "n < 10 ^ k \<Longrightarrow> 0 < k \<Longrightarrow> length (digits_of n) \<le> k \<and> pad_to k n = replicate (k - length (digits_of n)) (CHR ''0'') @ digits_of n"
proof (induction k arbitrary: n)
  case (Suc k)
  show ?case
  proof (cases "n < 10")
    case True
    then show ?thesis by (simp add: digits_of.simps [of n] pad_to_zero)
  next
    case False
    then have "0 < k" "n div 10 < 10 ^ k" using Suc.prems by (auto intro: gr0I)
    with Suc.IH [of "n div 10"] False show ?thesis
      by (simp add: digits_of.simps [of n])
  qed
qed simp

lemma pad15_eq: "n < 10 ^ 15 \<Longrightarrow> pad15 n = pad_to 15 n"
  using pad_to_digits [of n 15] by (simp add: pad15_def Let_def)

lemma pad_to_less: "m < n \<Longrightarrow> n < 10 ^ k \<Longrightarrow> pad_to k m < pad_to k n"
proof (induction k arbitrary: m n)
  case (Suc k)
  show ?case
  proof (cases "m div 10 < n div 10")
    case True
    then show ?thesis using Suc by (simp add: lex_append_same_length(1))
  next
    case False
    then have same: "m div 10 = n div 10" using Suc.prems(1) by (simp add: div_le_mono antisym)
    with Suc.prems(1) have "m mod 10 < n mod 10" by (metis div_mult_mod_eq nat_add_left_cancel_less)
    then have "char_of (48 + m mod 10) < char_of (48 + n mod 10)"
      by (simp add: less_char_def)
    with same show ?thesis by (simp add: lex_append_same_length(2))
  qed
qed simp

lemma file_name_less:
  assumes "nat (py_int (s * 1000)) < nat (py_int (t * 1000))" and "nat (py_int (t * 1000)) < 10 ^ 15"
  shows "file_name s i < file_name t j"
proof -
  note eqs = pad15_eq [OF assms(2)] pad15_eq [OF less_trans [OF assms]]
  have "pad15 (nat (py_int (s * 1000))) < pad15 (nat (py_int (t * 1000)))"
    using pad_to_less [OF assms] by (simp only: eqs)
  moreover have "length (pad15 (nat (py_int (s * 1000)))) = length (pad15 (nat (py_int (t * 1000))))"
    by (simp only: eqs length_pad_to)
  ultimately show ?thesis unfolding file_name_def by (intro lex_append_same_length(1))
qed

subsection \<open>Lemmas: what is stored is what is sent\<close>

lemma check_headers_Inr:
  "check_headers hs = Inr s \<longleftrightarrow>
     (\<exists>sig pub. s = [(''x-signature'', sig), (''x-public-key'', pub)] \<and> hex_text 128 sig \<and> hex_text 64 pub
        \<and> sig = dict_get (fold (\<lambda>(k, v). AList.update (map lower_char k) v) hs []) ''x-signature'' []
        \<and> pub = dict_get (fold (\<lambda>(k, v). AList.update (map lower_char k) v) hs []) ''x-public-key'' [])"
  by (auto simp: check_headers_def Let_def)

lemma lower_header_names: "map lower_char ''x-signature'' = ''x-signature''" "map lower_char ''x-public-key'' = ''x-public-key''"
  by code_simp+

lemma check_headers_again: "check_headers hs = Inr s \<Longrightarrow> check_headers s = Inr s"
  by (auto simp del: list.map simp: check_headers_Inr lower_header_names dict_get_def)

text \<open>A record that was put reads back, for a base64 that decodes what it encoded.\<close>

lemma spool_load_record:
  assumes "sc_b64decode codec (sc_b64encode codec body) = Some body"
    and "validate_body codec body = Inr batch_id" and "check_headers headers = Inr sign"
  shows "spool_load codec path (Some (file_record codec now batch_id body sign)) =
     Inr \<lparr>se_path = path, se_batch_id = batch_id, se_created_at = Some now, se_body = body,
          se_headers = AList.update ''Content-Type'' ''application/json'' sign\<rparr>"
proof -
  obtain sig pub where s: "sign = [(''x-signature'', sig), (''x-public-key'', pub)]"
    using assms(3) by (auto simp: check_headers_Inr)
  show ?thesis
    using assms(1,2) check_headers_again [OF assms(3)]
    by (simp add: s spool_load_def load_record_def file_record_def dict_get_def or_unreadable_def)
qed

lemma waiting_insert:
  assumes "\<And>n. n \<in> set (waiting sp) \<Longrightarrow> n < name" and "ends_with name batch_suffix"
  shows "waiting (sp\<lparr>sp_files := AList.update name v (sp_files sp)\<rparr>) = waiting sp @ [name]"
proof -
  have "name \<notin> set (map fst (sp_files sp))"
    using assms by (auto simp: waiting_def)
  then have "filter (\<lambda>n. ends_with n batch_suffix) (map fst (AList.update name v (sp_files sp))) =
      filter (\<lambda>n. ends_with n batch_suffix) (map fst (sp_files sp)) @ [name]"
    by (simp add: update_keys assms(2))
  moreover have "sorted (waiting sp @ [name])"
    using assms(1) by (auto simp: sorted_append waiting_def less_imp_le)
  ultimately show ?thesis
    by (auto simp: waiting_def intro!: properties_for_sort)
qed

lemma file_name_suffix: "ends_with (file_name now i) batch_suffix"
  by (simp add: ends_with_def file_name_def)

text \<open>The bodies the validation takes, and the batch id it returns.\<close>

definition batch_shaped :: "spool_codec \<Rightarrow> bytes \<Rightarrow> string \<Rightarrow> bool" where
  "batch_shaped codec body i \<longleftrightarrow>
     (\<exists>payload c keys. sc_loads codec body = Some (JObj payload) \<and> sc_canonical codec (JObj payload) = body
        \<and> set batch_fields \<subseteq> fst ` set payload \<and> fst ` set payload \<subseteq> set (''fleet_id'' # batch_fields)
        \<and> dict_get payload ''batch_id'' JNull = JStr i \<and> sc_is_uuid codec i
        \<and> dict_get payload ''client_id'' JNull = JStr c \<and> sc_is_uuid codec c
        \<and> count_check (dict_get payload ''result_count'' JNull) = Inr ()
        \<and> json_set (dict_get payload ''metrics'' JNull) = Some keys \<and> set keys \<subseteq> set batch_metric_keys
        \<and> hashes_sound (dict_get payload ''canary_hashes'' JNull))"

lemma validate_body_iff: "validate_body codec body = Inr i \<longleftrightarrow> batch_shaped codec body i"
proof -
  have uuid: "uuid_check is_uuid v = Inr () \<longleftrightarrow> (\<exists>s. v = JStr s \<and> is_uuid s)" for is_uuid v
    by (cases v) simp_all
  have metrics: "metrics_check v = Inr () \<longleftrightarrow> (\<exists>keys. json_set v = Some keys \<and> set keys \<subseteq> set batch_metric_keys)" for v
    by (auto simp: metrics_check_def split: option.splits)
  have same: "as_value_error r = Inr u \<longleftrightarrow> r = Inr u" for r :: "py_error + unit" and u
    by (induction r rule: as_value_error.induct) simp_all
  have "rebuild_batch is_uuid payload = Inr () \<longleftrightarrow>
      set batch_fields \<subseteq> fst ` set payload \<and> fst ` set payload \<subseteq> set (''fleet_id'' # batch_fields)
      \<and> (\<exists>s. dict_get payload ''batch_id'' JNull = JStr s \<and> is_uuid s)
      \<and> (\<exists>s. dict_get payload ''client_id'' JNull = JStr s \<and> is_uuid s)
      \<and> count_check (dict_get payload ''result_count'' JNull) = Inr ()
      \<and> (\<exists>keys. json_set (dict_get payload ''metrics'' JNull) = Some keys \<and> set keys \<subseteq> set batch_metric_keys)"
    for is_uuid payload
    unfolding rebuild_batch_def by (auto simp only: sum_bind_Inr_iff uuid metrics split: if_splits) (simp_all add: uuid)
  then show ?thesis
    by (cases "sc_loads codec body" rule: option.exhaust [case_names None Some])
       (auto simp: batch_shaped_def validate_body_def sum_bind_Inr_iff same split: json.splits if_splits)
qed

text \<open>The files of a spool stay well formed in a drain, whatever its outcome.\<close>

lemma scan_files_ok:
  "scan_files codec now paths (report, entries, sp) = (r, sp') \<Longrightarrow> spool_ok sp \<Longrightarrow> spool_ok sp'"
proof (induction paths arbitrary: report entries sp)
  case (Cons path paths)
  then show ?case
    by (auto simp: spool_ok_def quarantine_files split: sum.splits py_error.splits if_splits)
qed simp

lemma drain_entries_ok:
  "drain_entries send es (report, sp, w) = (report', sp', w') \<Longrightarrow> spool_ok sp \<Longrightarrow> spool_ok sp'"
proof (induction es arbitrary: report sp w)
  case (Cons e es)
  then show ?case
    by (auto simp: spool_ok_def quarantine_files split: sum.splits prod.splits if_splits)
qed simp

lemma spool_drain_ok: "spool_drain codec now send sp w = (r, sp', w') \<Longrightarrow> spool_ok sp \<Longrightarrow> spool_ok sp'"
  by (auto simp: spool_drain_def spool_scan_def split: prod.splits sum.splits
      dest!: scan_files_ok drain_entries_ok)

lemma spool_put_ok: "spool_put codec now body headers sp = Inr (name, sp') \<Longrightarrow> spool_ok sp \<Longrightarrow> spool_ok sp'"
  by (auto simp: spool_put_def sum_bind_Inr_iff Let_def spool_ok_def intro!: enforce_cap_count(3) [unfolded spool_ok_def])

text \<open>A new file with the last name waits last; only the oldest ones can go, and the ones that stay are unchanged.\<close>

lemma put_queue:
  fixes v :: "json option"
  assumes "spool_ok sp" and "\<And>n. n \<in> set (waiting sp) \<Longrightarrow> n < name" and "ends_with name batch_suffix"
  defines "sp' \<equiv> enforce_cap (sp\<lparr>sp_files := AList.update name v (sp_files sp)\<rparr>)"
  shows "waiting sp' = drop (nat (int (Suc (length (waiting sp))) - sp_max_files sp)) (waiting sp) @ [name]"
    and "map_of (sp_files sp') name = Some v"
    and "\<forall>n. n \<in> set (waiting sp') \<and> n \<noteq> name \<longrightarrow> map_of (sp_files sp') n = map_of (sp_files sp) n"
    and "spool_ok sp'"
proof -
  define sp1 where "sp1 = sp\<lparr>sp_files := AList.update name v (sp_files sp)\<rparr>"
  have w1: "waiting sp1 = waiting sp @ [name]" unfolding sp1_def by (rule waiting_insert [OF assms(2,3)])
  have ok1: "spool_ok sp1" "sp_max_files sp1 = sp_max_files sp" "0 < sp_max_files sp"
    using assms(1) by (simp_all add: spool_ok_def sp1_def)
  then have "nat (int (Suc (length (waiting sp))) - sp_max_files sp) \<le> length (waiting sp)" by simp
  then show w: "waiting sp' = drop (nat (int (Suc (length (waiting sp))) - sp_max_files sp)) (waiting sp) @ [name]"
    using enforce_cap_waiting [of sp1] ok1 by (simp add: sp'_def sp1_def [symmetric] w1 spool_ok_def)
  show "spool_ok sp'" using enforce_cap_count(3) [OF ok1(1)] by (simp add: sp'_def sp1_def)
  have same: "map_of (sp_files sp') n = map_of (sp_files sp1) n" if "n \<in> set (waiting sp')" for n
  proof -
    have "map_of (sp_files sp') \<subseteq>\<^sub>m map_of (sp_files sp1)"
      using enforce_cap_count(2) [OF ok1(1)] by (simp add: files_within_def sp'_def sp1_def)
    moreover have "n \<in> dom (map_of (sp_files sp'))" using that by (auto simp: set_waiting)
    ultimately show ?thesis by (simp add: map_le_def)
  qed
  then show "\<forall>n. n \<in> set (waiting sp') \<and> n \<noteq> name \<longrightarrow> map_of (sp_files sp') n = map_of (sp_files sp) n" by (simp add: sp1_def update_conv')
  show "map_of (sp_files sp') name = Some v" using same [of name] by (simp add: w sp1_def)
qed

subsection \<open>Properties\<close>

text \<open>C18: The spool is a bounded first-in first-out queue of exact signed bytes. When every waiting file
  carries an earlier millisecond stamp, storing a batch appends it to the names in sending
  order and drops the oldest ones beyond \<open>max_files\<close>, never the new one; the new file reads back as the
  same body under the same signature headers; and the directory stays well formed. Base64 is
  assumed to decode what it encoded.\<close>

theorem spool_put_is_bounded_fifo:
  assumes "spool_ok sp"
    and "\<And>n. n \<in> set (waiting sp) \<Longrightarrow>
           \<exists>t i. n = file_name t i \<and> nat (py_int (t * 1000)) < nat (py_int (now * 1000))"
    and "nat (py_int (now * 1000)) < 10 ^ 15"
    and "sc_b64decode codec (sc_b64encode codec body) = Some body"
    and "spool_put codec now body headers sp = Inr (name, sp')"
  shows "waiting sp' = drop (nat (int (length (waiting sp @ [name])) - sp_max_files sp)) (waiting sp @ [name])
     \<and> name \<in> set (waiting sp') \<and> spool_ok sp'
     \<and> (\<exists>e. spool_load codec name (dict_get (sp_files sp') name None) = Inr e
          \<and> se_body e = body \<and> se_created_at e = Some now
          \<and> check_headers headers = Inr (AList.delete ''Content-Type'' (se_headers e)))"
proof -
  obtain i sign where i: "validate_body codec body = Inr i" "check_headers headers = Inr sign"
    and name: "name = file_name now i"
    and sp': "sp' = enforce_cap (sp\<lparr>sp_files := AList.update name (Some (file_record codec now i body sign)) (sp_files sp)\<rparr>)"
    using assms(5) by (auto simp: spool_put_def Let_def sum_bind_Inr_iff)
  have later: "n < name" if "n \<in> set (waiting sp)" for n
    using assms(2) [OF that] file_name_less [OF _ assms(3)] name by auto
  note put = put_queue [OF assms(1) later, of "Some (file_record codec now i body sign)"]
  have suffix: "ends_with name batch_suffix" by (simp add: name file_name_suffix)
  have "0 < sp_max_files sp" using assms(1) by (simp add: spool_ok_def)
  then have "waiting sp' = drop (nat (int (length (waiting sp @ [name])) - sp_max_files sp)) (waiting sp @ [name])"
    using put(1) [OF _ suffix] by (simp add: sp')
  moreover have "name \<in> set (waiting sp')" "spool_ok sp'" "map_of (sp_files sp') name = Some (Some (file_record codec now i body sign))"
    using put(1,2,4) [OF _ suffix] by (simp_all add: sp')
  moreover have "AList.delete ''Content-Type'' (AList.update ''Content-Type'' ''application/json'' sign) = sign"
    using i(2) by (auto simp: check_headers_Inr AList.delete_eq)
  ultimately show ?thesis
    using spool_load_record [OF assms(4) i, of name now] i(2) by (simp add: dict_get_def)
qed

text \<open>A codec for one body, to evaluate the spool on.\<close>

definition example_payload :: "(string, json) dict" where
  "example_payload =
     [(''batch_id'', JStr ''b1''), (''client_id'', JStr ''c1''), (''window_start'', JStr ''s''), (''window_end'', JStr ''e''),
      (''model_tuple'', JStr ''m''), (''suite_version'', JStr ''v1.0.0''),
      (''metrics'', JObj [(''json_success_rate'', JFloat 1)]), (''canary_hashes'', JObj []), (''result_count'', JInt 3)]"

definition example_codec :: spool_codec where
  "example_codec = \<lparr>sc_loads = (\<lambda>b. Some (JObj example_payload)), sc_canonical = (\<lambda>j. [1]),
     sc_b64encode = (\<lambda>b. ''AQ==''), sc_b64decode = (\<lambda>s. Some [1]), sc_float = (\<lambda>s. None), sc_is_uuid = (\<lambda>s. True)\<rparr>"

definition example_headers :: "(string, string) dict" where
  "example_headers = [(''x-signature'', replicate 128 (CHR ''a'')), (''x-public-key'', replicate 64 (CHR ''b''))]"

definition example_spool :: spool where
  "example_spool = \<lparr>sp_max_age_seconds = 108000, sp_max_files = 1,
     sp_files = [(file_name 1 ''b0'', Some (JArr [JInt 1]))], sp_quarantine = []\<rparr>"

lemma example_validate: "validate_body example_codec [1] = Inr ''b1''"
  by code_simp

lemma example_check_headers: "check_headers example_headers = Inr example_headers"
  by (simp add: example_headers_def check_headers_Inr hex_text_def lower_header_names dict_get_def del: list.map)

theorem spool_put_is_bounded_fifo_witness:
  "\<exists>sp'. spool_put example_codec 2 [1] example_headers example_spool = Inr (file_name 2 ''b1'', sp')
     \<and> waiting sp' = [file_name 2 ''b1'']"
proof -
  have w: "waiting example_spool = [file_name 1 ''b0'']"
    by (simp add: waiting_def example_spool_def file_name_suffix)
  have ok: "spool_ok example_spool" by (simp add: spool_ok_def example_spool_def)
  have t: "nat (py_int (1 * 1000)) < nat (py_int (2 * 1000))" "nat (py_int (2 * 1000)) < 10 ^ 15"
    by (simp_all add: py_int_def)
  obtain sp' where put: "spool_put example_codec 2 [1] example_headers example_spool = Inr (file_name 2 ''b1'', sp')"
    by (simp add: spool_put_def example_validate example_check_headers Let_def)
  have "waiting sp' = drop (nat (int (length (waiting example_spool @ [file_name 2 ''b1''])) - sp_max_files example_spool))
      (waiting example_spool @ [file_name 2 ''b1''])"
    by (rule spool_put_is_bounded_fifo [OF ok _ t(2) _ put, THEN conjunct1])
       (use t(1) in \<open>auto simp: w example_codec_def\<close>)
  then have "waiting sp' = [file_name 2 ''b1'']" by (simp add: w) (simp add: example_spool_def)
  with put show ?thesis by blast
qed

text \<open>C21: Draining accounts for every file. If it returns a report, each file that waited is delivered, a duplicate,
  quarantined, expired or still there, in exactly one of the counts; what the
  report calls remaining is what still waits; and no waiting file was changed or added.\<close>

theorem drain_accounts_for_every_file:
  assumes "dict_wf (sp_files sp)" and "spool_drain codec now send sp w = (Inr report, sp', w')"
  shows "settled report + dr_remaining report = length (waiting sp) \<and> dr_remaining report = length (waiting sp')
     \<and> files_within sp' sp"
proof -
  obtain r es sp1 where scan: "spool_scan codec now sp = (Inr (r, es), sp1)"
    and drain: "drain_entries send es (r, sp1, w) = (report, sp', w')"
    using assms(2) by (auto simp: spool_drain_def split: prod.splits sum.splits)
  have "settled r + length (waiting sp1) = settled empty_report + length (waiting sp)
     \<and> length es + settled r = length [] + settled empty_report + length (waiting sp)
     \<and> set (map se_path es) \<subseteq> set (waiting sp1) \<and> distinct (map se_path es)
     \<and> dict_wf (sp_files sp1) \<and> files_within sp1 sp"
    using scan_files_counts [OF scan [unfolded spool_scan_def] assms(1) distinct_waiting [OF assms(1)]] by simp
  then have 1: "settled r + length (waiting sp1) = length (waiting sp)" "length es + settled r = length (waiting sp)"
    "set (map se_path es) \<subseteq> set (waiting sp1)" "distinct (map se_path es)" "dict_wf (sp_files sp1)" "files_within sp1 sp"
    by (simp_all add: settled_def empty_report_def)
  have "settled report + dr_remaining report = settled r + length es
     \<and> dr_remaining report = length (waiting sp') \<and> files_within sp' sp1"
    by (rule drain_entries_counts [OF drain 1(5,4,3)]) (use 1(1,2) in simp)
  with 1(1,2,6) show ?thesis
    by (auto simp: files_within_def intro: map_le_trans)
qed

theorem drain_accounts_for_every_file_witness:
  "let sp = example_spool\<lparr>sp_files := [(file_name 2 ''b1'', Some (file_record example_codec 2 ''b1'' [1] example_headers))]\<rparr>
   in \<exists>report sp'. spool_drain example_codec 3 (\<lambda>b h w. (Inr 202, w + 1)) sp (0 :: nat) = (Inr report, sp', 1)
        \<and> settled report = 1 \<and> waiting sp' = []"
proof -
  define sp where "sp = example_spool\<lparr>sp_files := [(file_name 2 ''b1'', Some (file_record example_codec 2 ''b1'' [1] example_headers))]\<rparr>"
  have w: "waiting sp = [file_name 2 ''b1'']" by (simp add: waiting_def sp_def file_name_suffix)
  have dec: "sc_b64decode example_codec (sc_b64encode example_codec [1]) = Some [1]" by (simp add: example_codec_def)
  have stored: "dict_get (sp_files sp) (file_name 2 ''b1'') None = Some (file_record example_codec 2 ''b1'' [1] example_headers)"
    by (simp add: dict_get_def sp_def)
  have age: "\<not> expired 3 sp e" if "se_created_at e = Some 2" for e
    using that by (simp add: expired_def sp_def example_spool_def)
  obtain report sp' where run: "spool_drain example_codec 3 (\<lambda>b h w. (Inr 202, w + 1)) sp (0 :: nat) = (Inr report, sp', 1)"
    and r: "dr_remaining report = 0"
    by (simp add: spool_drain_def spool_scan_def w stored spool_load_record [OF dec example_validate example_check_headers] age)
  have "settled report + dr_remaining report = length (waiting sp) \<and> dr_remaining report = length (waiting sp')"
    using drain_accounts_for_every_file [OF _ run] by (simp add: sp_def)
  with run r w show ?thesis by (auto simp: sp_def [symmetric] Let_def)
qed

text \<open>One file whose JSON is not an object stops the buffer for good: reading it raises \<open>AttributeError\<close>, which
  the scan does not catch, so the drain raises before anything is sent and leaves
  the directory as it was, on this and on every later call.\<close>

theorem non_object_file_blocks_spool:
  assumes "waiting sp = name # names" and "map_of (sp_files sp) name = Some (Some v)" and "\<not> is_obj v"
  shows "spool_drain codec now send sp w = (Inl (AttributeError ''get''), sp, w)"
  using assms
  by (cases v) (simp_all add: spool_drain_def spool_scan_def dict_get_def spool_load_def)

theorem non_object_file_blocks_spool_witness:
  "spool_drain example_codec 0 (\<lambda>b h (w :: nat). (Inr 202, w + 1)) example_spool 0 = (Inl (AttributeError ''get''), example_spool, 0)"
  by (rule non_object_file_blocks_spool [where name = "file_name 1 ''b0''" and names = "[]" and v = "JArr [JInt 1]"])
     (simp_all add: waiting_def example_spool_def file_name_suffix)

text \<open>The spool takes exactly the canonical bodies that rebuild into a batch, with hexadecimal signing headers:
  the nine required top-level keys and at most \<open>fleet_id\<close> besides, two UUID strings, a count of
  at least one, metric names from the allow-list and 64-digit hashes. Nothing constrains the
  metric values, the window stamps, the model or the version, so text in one of these fields is
  stored. A refused body or header leaves no trace.\<close>

theorem spool_put_accepts_exactly:
  "(\<exists>r. spool_put codec now body headers sp = Inr r) \<longleftrightarrow>
     (\<exists>i. batch_shaped codec body i)
     \<and> (let lowered = fold (\<lambda>(k, v). AList.update (map lower_char k) v) headers []
        in hex_text 128 (dict_get lowered ''x-signature'' []) \<and> hex_text 64 (dict_get lowered ''x-public-key'' []))"
  by (auto simp: spool_put_def sum_bind_Inr_iff validate_body_iff check_headers_Inr Let_def)

end
