(* ===== verification/Accountant.thy ===== *)
theory Accountant
  imports Prelude
begin

section \<open>The privacy budget (DPAccountant of probe/privacy.py)\<close>

text \<open>
  The tracker of the daily epsilon budget, its persistence in a file, and the interval that
  paces transmissions. Times are UTC microseconds, epsilons are reals.

  The disk maps a path to the spend and window start its JSON text decodes to, \<open>None\<close> for a
  file that is absent, unreadable or no such record. Writing may fail: \<open>wok\<close> tells whether
  the write of an operation reaches the disk, a failure is swallowed as in the source.
\<close>

subsection \<open>State\<close>

record dp_accountant =
  dp_daily_budget :: real
  dp_storage_path :: "string option"
  dp_current_spend :: real
  dp_window_start :: int

type_synonym budget_disk = "(string, real \<times> int) dict"

subsection \<open>Operations\<close>

definition persist_budget :: "bool \<Rightarrow> dp_accountant \<Rightarrow> budget_disk \<Rightarrow> budget_disk" where
  "persist_budget wok acc disk =
     (case dp_storage_path acc of
        None \<Rightarrow> disk
      | Some path \<Rightarrow>
          if wok then AList.update path (dp_current_spend acc, dp_window_start acc) disk else disk)"

definition load_budget :: "budget_disk \<Rightarrow> dp_accountant \<Rightarrow> dp_accountant" where
  "load_budget disk acc =
     (case dp_storage_path acc of
        None \<Rightarrow> acc
      | Some path \<Rightarrow>
          (case map_of disk path of
             None \<Rightarrow> acc
           | Some (spent, start) \<Rightarrow> acc\<lparr>dp_current_spend := spent, dp_window_start := start\<rparr>))"

definition init_accountant :: "real \<Rightarrow> string option \<Rightarrow> int \<Rightarrow> budget_disk \<Rightarrow> py_error + dp_accountant" where
  "init_accountant daily_budget storage_path now disk =
     (if daily_budget \<le> 0 then Inl (ValueError ''daily_budget must be positive'')
      else Inr (load_budget disk
                  \<lparr>dp_daily_budget = daily_budget, dp_storage_path = storage_path,
                   dp_current_spend = 0, dp_window_start = now\<rparr>))"

definition remaining_budget :: "dp_accountant \<Rightarrow> real" where
  "remaining_budget acc = dp_daily_budget acc - dp_current_spend acc"

definition spend_budget ::
  "bool \<Rightarrow> real \<Rightarrow> dp_accountant \<Rightarrow> budget_disk \<Rightarrow> py_error + dp_accountant \<times> budget_disk" where
  "spend_budget wok epsilon acc disk =
     (if epsilon \<le> 0 then Inl (ValueError ''epsilon must be positive'')
      else if dp_current_spend acc + epsilon > dp_daily_budget acc then Inl PrivacyBudgetExceeded
      else let acc = acc\<lparr>dp_current_spend := dp_current_spend acc + epsilon\<rparr>
           in Inr (acc, persist_budget wok acc disk))"

definition day_us :: int where
  "day_us = 24 * 3600 * 1000000"

definition reset_if_needed ::
  "bool \<Rightarrow> int \<Rightarrow> dp_accountant \<Rightarrow> budget_disk \<Rightarrow> bool \<times> dp_accountant \<times> budget_disk" where
  "reset_if_needed wok now acc disk =
     (if day_us \<le> now - dp_window_start acc
      then let acc = acc\<lparr>dp_current_spend := 0, dp_window_start := now\<rparr>
           in (True, acc, persist_budget wok acc disk)
      else (False, acc, disk))"

definition recommended_flush_interval_seconds :: "real \<Rightarrow> real \<Rightarrow> real \<Rightarrow> py_error + real" where
  "recommended_flush_interval_seconds daily_budget flush_epsilon window_seconds =
     (if daily_budget \<le> 0 \<or> flush_epsilon \<le> 0
      then Inl (ValueError ''daily_budget and flush_epsilon must be positive'')
      else let max_flushes = max 1 \<lfloor>daily_budget / flush_epsilon\<rfloor>
           in Inr (window_seconds / of_int max_flushes))"

subsection \<open>The budget gate, and histories of it\<close>

text \<open>
  The gate every transmission passes: \<^verbatim>\<open>reset_if_needed\<close>, then \<^verbatim>\<open>spend\<close>. A refused spend
  leaves the state after the reset. \<open>charges\<close> lists the times and amounts a history of
  gate calls was granted.
\<close>

type_synonym budget_state = "dp_accountant \<times> budget_disk"

fun budget_gate :: "bool \<Rightarrow> int \<times> real \<Rightarrow> budget_state \<Rightarrow> budget_state \<times> (py_error + unit)" where
  "budget_gate wok (now, epsilon) (acc, disk) =
     (case reset_if_needed wok now acc disk of
        (_, acc, disk) \<Rightarrow>
          (case spend_budget wok epsilon acc disk of
             Inl e \<Rightarrow> ((acc, disk), Inl e)
           | Inr s \<Rightarrow> (s, Inr ())))"

definition gate_run :: "bool \<Rightarrow> (int \<times> real) list \<Rightarrow> budget_state \<Rightarrow> budget_state" where
  "gate_run wok evs s = fold (\<lambda>ev s. fst (budget_gate wok ev s)) evs s"

fun charges :: "bool \<Rightarrow> (int \<times> real) list \<Rightarrow> budget_state \<Rightarrow> (int \<times> real) list" where
  "charges wok [] s = []"
| "charges wok (ev # evs) s =
     (case budget_gate wok ev s of
        (s', Inl _) \<Rightarrow> charges wok evs s'
      | (s', Inr _) \<Rightarrow> ev # charges wok evs s')"

text \<open>What was charged at times from \<open>a\<close> on and before \<open>b\<close>.\<close>

definition charged_in :: "int \<Rightarrow> int \<Rightarrow> (int \<times> real) list \<Rightarrow> real" where
  "charged_in a b cs = sum_list (map snd (filter (\<lambda>(t, _). a \<le> t \<and> t < b) cs))"

text \<open>The whole effect of the gate on the numbers, without the disk.\<close>

definition due :: "int \<Rightarrow> dp_accountant \<Rightarrow> bool" where
  "due now acc \<longleftrightarrow> day_us \<le> now - dp_window_start acc"

definition after_reset :: "int \<Rightarrow> dp_accountant \<Rightarrow> dp_accountant" where
  "after_reset now acc = (if due now acc then acc\<lparr>dp_current_spend := 0, dp_window_start := now\<rparr> else acc)"

definition gate_grants :: "int \<times> real \<Rightarrow> dp_accountant \<Rightarrow> bool" where
  "gate_grants ev acc \<longleftrightarrow>
     0 < snd ev \<and> dp_current_spend (after_reset (fst ev) acc) + snd ev \<le> dp_daily_budget acc"

definition gate_acc :: "int \<times> real \<Rightarrow> dp_accountant \<Rightarrow> dp_accountant" where
  "gate_acc ev acc =
     (let acc' = after_reset (fst ev) acc
      in if gate_grants ev acc then acc'\<lparr>dp_current_spend := dp_current_spend acc' + snd ev\<rparr> else acc')"

lemma after_reset_simps [simp]:
  "dp_daily_budget (after_reset now acc) = dp_daily_budget acc"
  "dp_storage_path (after_reset now acc) = dp_storage_path acc"
  "dp_window_start (after_reset now acc) = (if due now acc then now else dp_window_start acc)"
  "dp_current_spend (after_reset now acc) = (if due now acc then 0 else dp_current_spend acc)"
  by (simp_all add: after_reset_def)

lemma gate_acc_simps [simp]:
  "dp_daily_budget (gate_acc ev acc) = dp_daily_budget acc"
  "dp_storage_path (gate_acc ev acc) = dp_storage_path acc"
  "dp_window_start (gate_acc ev acc) = (if due (fst ev) acc then fst ev else dp_window_start acc)"
  "dp_current_spend (gate_acc ev acc) =
     dp_current_spend (after_reset (fst ev) acc) + (if gate_grants ev acc then snd ev else 0)"
  by (simp_all add: gate_acc_def Let_def)

lemma reset_acc: "fst (snd (reset_if_needed wok now acc disk)) = after_reset now acc"
  by (simp add: reset_if_needed_def after_reset_def due_def Let_def)

lemma budget_gate_acc: "fst (fst (budget_gate wok ev (acc, disk))) = gate_acc ev acc"
  by (cases ev)
     (auto simp: reset_if_needed_def spend_budget_def gate_acc_def gate_grants_def after_reset_def due_def
       Let_def)

lemma budget_gate_granted: "snd (budget_gate wok ev (acc, disk)) = Inr () \<longleftrightarrow> gate_grants ev acc"
  by (cases ev)
     (auto simp: reset_if_needed_def spend_budget_def gate_grants_def after_reset_def due_def Let_def)

fun acc_charges :: "(int \<times> real) list \<Rightarrow> dp_accountant \<Rightarrow> (int \<times> real) list" where
  "acc_charges [] acc = []"
| "acc_charges (ev # evs) acc =
     (if gate_grants ev acc then [ev] else []) @ acc_charges evs (gate_acc ev acc)"

lemma charges_acc: "charges wok evs (acc, disk) = acc_charges evs acc"
proof (induction evs arbitrary: acc disk)
  case (Cons ev evs)
  obtain acc' disk' r where g: "budget_gate wok ev (acc, disk) = ((acc', disk'), r)" by (metis prod.exhaust)
  have "acc' = gate_acc ev acc" using budget_gate_acc [of wok ev acc disk] g by simp
  moreover have "r = Inr () \<longleftrightarrow> gate_grants ev acc" using budget_gate_granted [of wok ev acc disk] g by simp
  ultimately show ?case using Cons.IH by (cases r) (simp_all add: g)
qed simp

lemma charged_in_simps [simp]:
  "charged_in a b [] = 0"
  "charged_in a b ((t, e) # cs) = (if a \<le> t \<and> t < b then e else 0) + charged_in a b cs"
  "charged_in a b (cs @ cs') = charged_in a b cs + charged_in a b cs'"
  by (simp_all add: charged_in_def)

lemma acc_charges_times: "set (acc_charges evs acc) \<subseteq> set evs"
  by (induction evs arbitrary: acc) auto

lemma charged_in_late:
  assumes "\<And>t e. (t, e) \<in> set evs \<Longrightarrow> b \<le> t"
  shows "charged_in a b (acc_charges evs acc) = 0"
proof -
  have "filter (\<lambda>(t, _). a \<le> t \<and> t < b) (acc_charges evs acc) = []"
    using acc_charges_times [of evs acc] assms by (force simp: filter_empty_conv)
  then show ?thesis by (simp add: charged_in_def)
qed

subsection \<open>Spending within a window, and within any 24 hours\<close>

definition acc_ok :: "dp_accountant \<Rightarrow> bool" where
  "acc_ok acc \<longleftrightarrow> 0 \<le> dp_current_spend acc \<and> dp_current_spend acc \<le> dp_daily_budget acc"

lemma acc_ok_gate: "acc_ok acc \<Longrightarrow> acc_ok (gate_acc ev acc)"
  by (auto simp: acc_ok_def gate_grants_def)

lemma charged_in_window:
  assumes "acc_ok acc" and "b \<le> dp_window_start acc + day_us" and "sorted (map fst evs)"
  shows "charged_in a b (acc_charges evs acc) \<le> remaining_budget acc"
  using assms
proof (induction evs arbitrary: acc)
  case (Cons ev evs)
  obtain t e where ev: "ev = (t, e)" by fastforce
  show ?case
  proof (cases "due t acc")
    case False
    then have "charged_in a b (acc_charges evs (gate_acc ev acc)) \<le> remaining_budget (gate_acc ev acc)"
      using Cons by (simp add: acc_ok_gate ev)
    with False show ?thesis by (auto simp: ev remaining_budget_def gate_grants_def)
  next
    case True
    then have "b \<le> t'" if "(t', e') \<in> set (ev # evs)" for t' e'
      using Cons.prems that by (force simp: due_def ev)
    then have "charged_in a b (acc_charges (ev # evs) acc) = 0" by (rule charged_in_late)
    with Cons.prems(1) show ?thesis by (simp add: acc_ok_def remaining_budget_def)
  qed
qed (simp add: acc_ok_def remaining_budget_def)

text \<open>A day that begins no later than the history sees the rest of the current window and one more.\<close>

lemma charged_in_day_from_start:
  assumes "acc_ok acc" and "b \<le> a + day_us" and "sorted (map fst evs)" and "\<And>t e. (t, e) \<in> set evs \<Longrightarrow> a \<le> t"
  shows "charged_in a b (acc_charges evs acc) \<le> remaining_budget acc + dp_daily_budget acc"
  using assms
proof (induction evs arbitrary: acc)
  case (Cons ev evs)
  obtain t e where ev: "ev = (t, e)" by fastforce
  have srt: "sorted (map fst evs)" and ok: "acc_ok (gate_acc ev acc)" and at: "a \<le> t"
    using Cons.prems(1,3) Cons.prems(4) [of t e] by (simp_all add: acc_ok_gate ev)
  show ?case
  proof (cases "due t acc")
    case True
    then have "charged_in a b (acc_charges evs (gate_acc ev acc)) \<le> remaining_budget (gate_acc ev acc)"
      using Cons.prems(2) ok srt at by (intro charged_in_window) (simp_all add: ev)
    with True Cons.prems(1) show ?thesis
      by (auto simp: ev remaining_budget_def gate_grants_def acc_ok_def)
  next
    case False
    have "charged_in a b (acc_charges evs (gate_acc ev acc))
        \<le> remaining_budget (gate_acc ev acc) + dp_daily_budget acc"
      by (rule order_trans [OF Cons.IH [OF ok Cons.prems(2) srt]]) (auto intro: Cons.prems(4))
    with False show ?thesis by (auto simp: ev remaining_budget_def gate_grants_def)
  qed
qed (simp add: acc_ok_def remaining_budget_def)

lemma charged_in_any_day:
  assumes "acc_ok acc" and "b \<le> a + day_us" and "sorted (map fst evs)"
  shows "charged_in a b (acc_charges evs acc) \<le> 2 * dp_daily_budget acc"
  using assms
proof (induction evs arbitrary: acc)
  case (Cons ev evs)
  obtain t e where ev: "ev = (t, e)" by fastforce
  show ?case
  proof (cases "a \<le> t")
    case True
    then have "a \<le> t'" if "(t', e') \<in> set (ev # evs)" for t' e'
      using Cons.prems(3) that by (force simp: ev)
    then have "charged_in a b (acc_charges (ev # evs) acc) \<le> remaining_budget acc + dp_daily_budget acc"
      by (rule charged_in_day_from_start [OF Cons.prems])
    with Cons.prems(1) show ?thesis by (simp add: remaining_budget_def acc_ok_def)
  next
    case False
    with Cons.IH [of "gate_acc ev acc"] Cons.prems show ?thesis by (simp add: ev acc_ok_gate)
  qed
qed (simp add: acc_ok_def)

subsection \<open>The disk\<close>

text \<open>With working writes the disk holds the present numbers, or nothing was ever written.\<close>

definition disk_current :: "budget_state \<Rightarrow> bool" where
  "disk_current s \<longleftrightarrow>
     (case s of (acc, disk) \<Rightarrow>
        case dp_storage_path acc of
          None \<Rightarrow> True
        | Some path \<Rightarrow> map_of disk path = Some (dp_current_spend acc, dp_window_start acc)
                       \<or> map_of disk path = None \<and> dp_current_spend acc = 0)"

lemma disk_current_gate: "disk_current s \<Longrightarrow> disk_current (fst (budget_gate True ev s))"
  by (cases ev; cases s)
     (auto simp: disk_current_def reset_if_needed_def spend_budget_def persist_budget_def Let_def
       split: option.splits)

lemma disk_current_run: "disk_current s \<Longrightarrow> disk_current (gate_run True evs s)"
  unfolding gate_run_def by (induction evs arbitrary: s) (simp_all add: disk_current_gate)

lemma storage_path_run: "dp_storage_path (fst (gate_run wok evs s)) = dp_storage_path (fst s)
    \<and> dp_daily_budget (fst (gate_run wok evs s)) = dp_daily_budget (fst s)"
proof (induction evs arbitrary: s)
  case (Cons ev evs)
  have "fst (fst (budget_gate wok ev s)) = gate_acc ev (fst s)"
    by (metis budget_gate_acc prod.collapse)
  with Cons show ?case by (simp add: gate_run_def)
qed (simp add: gate_run_def)

lemma init_accountant_fresh:
  assumes "init_accountant budget path now disk = Inr acc"
  shows "dp_daily_budget acc = budget" "dp_storage_path acc = path" "0 < budget"
  using assms by (auto simp: init_accountant_def load_budget_def split: if_splits option.splits)

lemma init_accountant_disk:
  assumes "init_accountant budget path now disk = Inr acc"
  shows "disk_current (acc, disk)"
  using assms
  by (auto simp: init_accountant_def load_budget_def disk_current_def split: if_splits option.splits)

subsection \<open>Paced transmissions\<close>

text \<open>
  \<open>k\<close> flushes of \<open>epsilon\<close> were made since the window began, and the next one is due no
  earlier than the \<open>k\<close>-th interval of the window.
\<close>

definition paced :: "real \<Rightarrow> real \<Rightarrow> nat \<Rightarrow> real \<Rightarrow> dp_accountant \<Rightarrow> bool" where
  "paced epsilon gap k earliest acc \<longleftrightarrow>
     dp_current_spend acc = real k * epsilon \<and> of_int (dp_window_start acc) + real k * gap \<le> earliest"

fun spaced :: "real \<Rightarrow> real \<Rightarrow> int list \<Rightarrow> bool" where
  "spaced gap earliest [] = True"
| "spaced gap earliest (t # ts) = (earliest \<le> of_int t \<and> spaced gap (of_int t + gap) ts)"

lemma paced_step:
  assumes eps: "0 < epsilon" and m: "real m * epsilon \<le> dp_daily_budget acc" "0 < m"
    and gap: "real m * gap = of_int day_us" "0 < gap"
    and inv: "paced epsilon gap k earliest acc" and t: "earliest \<le> of_int t"
  shows "gate_grants (t, epsilon) acc" and "\<exists>k'. paced epsilon gap k' (of_int t + gap) (gate_acc (t, epsilon) acc)"
proof -
  have "gate_grants (t, epsilon) acc \<and> (\<exists>k'. paced epsilon gap k' (of_int t + gap) (gate_acc (t, epsilon) acc))"
  proof (cases "due t acc")
    case True
    have "epsilon \<le> dp_daily_budget acc" using mult_right_mono [of 1 "real m" epsilon] m eps by linarith
    then have "gate_grants (t, epsilon) acc" using True eps by (simp add: gate_grants_def)
    moreover from this have "paced epsilon gap 1 (of_int t + gap) (gate_acc (t, epsilon) acc)"
      using True by (simp add: paced_def)
    ultimately show ?thesis by blast
  next
    case False
    then have "real_of_int t < of_int (dp_window_start acc) + real m * gap"
      using gap by (simp add: due_def)
    then have "real k * gap < real m * gap" using inv t by (simp add: paced_def)
    then have "k < m" using gap(2) by (simp only: mult_less_cancel_right of_nat_less_iff)
    then have "(real k + 1) * epsilon \<le> real m * epsilon" using eps by (intro mult_right_mono) auto
    then have grants: "gate_grants (t, epsilon) acc"
      using False inv m eps by (simp add: gate_grants_def paced_def algebra_simps)
    then have "paced epsilon gap (Suc k) (of_int t + gap) (gate_acc (t, epsilon) acc)"
      using False inv t by (simp add: paced_def algebra_simps)
    with grants show ?thesis by blast
  qed
  then show "gate_grants (t, epsilon) acc" "\<exists>k'. paced epsilon gap k' (of_int t + gap) (gate_acc (t, epsilon) acc)"
    by blast+
qed

lemma paced_run:
  assumes "0 < epsilon" and "real m * epsilon \<le> dp_daily_budget acc" "0 < m"
    and "real m * gap = of_int day_us" "0 < gap"
    and "paced epsilon gap k earliest acc" and "spaced gap earliest ts"
  shows "acc_charges (map (\<lambda>t. (t, epsilon)) ts) acc = map (\<lambda>t. (t, epsilon)) ts"
  using assms
proof (induction ts arbitrary: acc k earliest)
  case (Cons t ts)
  then have t: "earliest \<le> of_int t" by simp
  note step = paced_step [OF Cons.prems(1-6) t]
  then obtain k' where "paced epsilon gap k' (of_int t + gap) (gate_acc (t, epsilon) acc)" by blast
  from Cons.IH [OF Cons.prems(1) _ Cons.prems(3-5) this] Cons.prems step(1) show ?case by simp
qed simp

subsection \<open>Properties\<close>

text \<open>C15: What any 24 hours can cost. Whatever gate calls a probe makes over time, the epsilon it is
  granted in its own budget windows never passes the budget; but a window is not rolling, so 24
  hours that straddle a reset can be charged up to twice the daily budget, and no more.\<close>

theorem epsilon_per_day_bounded:
  assumes "init_accountant budget path now disk = Inr acc" and "acc_ok acc"
    and "sorted (map fst evs)"
  shows "charged_in t (t + day_us) (charges wok evs (acc, disk)) \<le> 2 * budget
     \<and> charged_in t (dp_window_start acc + day_us) (charges wok evs (acc, disk)) \<le> budget"
proof
  note fresh = init_accountant_fresh [OF assms(1)]
  show "charged_in t (t + day_us) (charges wok evs (acc, disk)) \<le> 2 * budget"
    using charged_in_any_day [OF assms(2) _ assms(3), of "t + day_us" t] fresh by (simp add: charges_acc)
  show "charged_in t (dp_window_start acc + day_us) (charges wok evs (acc, disk)) \<le> budget"
    using charged_in_window [OF assms(2) _ assms(3), of "dp_window_start acc + day_us" t] fresh assms(2)
    by (simp add: charges_acc remaining_budget_def acc_ok_def)
qed

text \<open>The bound is met: ten flushes within one hour around a reset are charged 20 with a budget of 10.\<close>

definition straddling :: "(int \<times> real) list" where
  "straddling = replicate 5 (day_us - 1, 2) @ replicate 5 (day_us, 2)"

theorem epsilon_per_day_bounded_witness:
  "charged_in (day_us - 1800000000) (day_us - 1800000000 + day_us)
     (charges True straddling (\<lparr>dp_daily_budget = 10, dp_storage_path = None, dp_current_spend = 0,
        dp_window_start = 0\<rparr>, [])) = 20"
proof -
  let ?acc = "\<lparr>dp_daily_budget = 10, dp_storage_path = None, dp_current_spend = 0, dp_window_start = 0\<rparr>"
  have "charged_in (day_us - 1800000000) (day_us - 1800000000 + day_us) (charges True straddling (?acc, [])) \<le> 2 * 10"
    by (rule epsilon_per_day_bounded [where path = None and now = 0, THEN conjunct1])
       (simp_all add: init_accountant_def load_budget_def acc_ok_def straddling_def sorted_append)
  moreover have "20 \<le> charged_in (day_us - 1800000000) (day_us - 1800000000 + day_us)
      (charges True straddling (?acc, []))"
    by (simp add: charges_acc straddling_def numeral_eq_Suc gate_grants_def due_def day_us_def)
  ultimately show ?thesis by simp
qed

text \<open>A restart cannot refresh the budget. After any history of gate calls whose writes reach the
  disk, an accountant built on the same file continues with exactly the spend of the running one,
  and with its window unless nothing was ever spent or reset.\<close>

theorem restart_keeps_budget:
  assumes "init_accountant budget (Some path) now disk = Inr acc"
    and "gate_run True evs (acc, disk) = (acc', disk')"
  shows "\<exists>acc''. init_accountant budget (Some path) later disk' = Inr acc''
     \<and> dp_current_spend acc'' = dp_current_spend acc'
     \<and> (map_of disk' path \<noteq> None \<longrightarrow> acc'' = acc')"
proof -
  note fresh = init_accountant_fresh [OF assms(1)]
  have acc': "dp_storage_path acc' = Some path" "dp_daily_budget acc' = budget"
    using storage_path_run [of True evs "(acc, disk)"] fresh assms(2) by simp_all
  have "disk_current (acc', disk')"
    using disk_current_run [OF init_accountant_disk [OF assms(1)], of evs] assms(2) by simp
  then have "map_of disk' path = Some (dp_current_spend acc', dp_window_start acc')
      \<or> map_of disk' path = None \<and> dp_current_spend acc' = 0"
    by (simp add: disk_current_def acc')
  then show ?thesis
    using fresh(3) acc' by (cases acc') (auto simp: init_accountant_def load_budget_def)
qed

theorem restart_keeps_budget_witness:
  "\<exists>acc''. init_accountant 10 (Some ''dp.json'') 77 [(''dp.json'', 2, 0)] = Inr acc''
     \<and> dp_current_spend acc'' = 2"
proof -
  have "\<exists>acc''. init_accountant 10 (Some ''dp.json'') 77 [(''dp.json'', 2, 0)] = Inr acc''
     \<and> dp_current_spend acc'' = 2
     \<and> (map_of [(''dp.json'', 2, 0)] ''dp.json'' \<noteq> None \<longrightarrow>
        acc'' = \<lparr>dp_daily_budget = 10, dp_storage_path = Some ''dp.json'', dp_current_spend = 2, dp_window_start = 0\<rparr>)"
    using restart_keeps_budget [where budget = 10 and path = "''dp.json''" and now = 0 and disk = "[]"
        and acc = "\<lparr>dp_daily_budget = 10, dp_storage_path = Some ''dp.json'', dp_current_spend = 0, dp_window_start = 0\<rparr>"
        and acc' = "\<lparr>dp_daily_budget = 10, dp_storage_path = Some ''dp.json'', dp_current_spend = 2, dp_window_start = 0\<rparr>"
        and disk' = "[(''dp.json'', 2, 0)]" and evs = "[(5, 2)]" and later = 77]
    by (simp add: init_accountant_def load_budget_def gate_run_def reset_if_needed_def spend_budget_def
      persist_budget_def day_us_def)
  then show ?thesis by blast
qed

text \<open>A paced probe is never refused. When transmissions are at least the recommended interval
  apart and the budget pays for at least one, the gate grants every one of them, for ever.\<close>

theorem paced_flushes_always_granted:
  assumes "recommended_flush_interval_seconds budget epsilon 86400 = Inr gap" and "epsilon \<le> budget"
    and "init_accountant budget None now disk = Inr acc" and "spaced (gap * 1000000) (of_int now) ts"
  shows "charges wok (map (\<lambda>t. (t, epsilon)) ts) (acc, disk) = map (\<lambda>t. (t, epsilon)) ts"
proof -
  define m where "m = nat \<lfloor>budget / epsilon\<rfloor>"
  have eps: "0 < epsilon" "0 < budget" and gap: "gap = 86400 / of_int (max 1 \<lfloor>budget / epsilon\<rfloor>)"
    using assms(1) by (auto simp: recommended_flush_interval_seconds_def Let_def split: if_splits)
  have "1 \<le> budget / epsilon" using eps assms(2) by simp
  then have one: "1 \<le> \<lfloor>budget / epsilon\<rfloor>" by linarith
  then have m: "0 < m" "real m = of_int \<lfloor>budget / epsilon\<rfloor>" by (simp_all add: m_def)
  moreover have "gap = 86400 / real m" using one by (simp add: gap m(2) max_def)
  ultimately have m: "0 < m" "real m = of_int \<lfloor>budget / epsilon\<rfloor>" "gap = 86400 / real m" by simp_all
  have "real m \<le> budget / epsilon" by (simp only: m(2) of_int_floor_le)
  then have "real m * epsilon \<le> budget / epsilon * epsilon"
    using eps by (intro mult_right_mono) auto
  then have "real m * epsilon \<le> budget" using eps by simp
  moreover have acc: "acc = \<lparr>dp_daily_budget = budget, dp_storage_path = None, dp_current_spend = 0,
      dp_window_start = now\<rparr>"
    using assms(3) by (simp add: init_accountant_def load_budget_def split: if_splits)
  moreover have "real m * (gap * 1000000) = of_int day_us" "0 < gap * 1000000"
    using m(1) by (simp_all add: m(3) day_us_def)
  moreover have "paced epsilon (gap * 1000000) 0 (of_int now) acc" by (simp add: paced_def acc)
  ultimately show ?thesis
    using paced_run [OF eps(1) _ m(1)] assms(4) by (simp add: charges_acc)
qed

theorem paced_flushes_always_granted_witness:
  "charges False (map (\<lambda>t. (t, 2)) [0, 17280000000, 40000000000])
     (\<lparr>dp_daily_budget = 10, dp_storage_path = None, dp_current_spend = 0, dp_window_start = 0\<rparr>, []) =
   map (\<lambda>t. (t, 2)) [0, 17280000000, 40000000000]"
  by (rule paced_flushes_always_granted [where gap = 17280 and now = 0 and budget = 10])
     (simp_all add: recommended_flush_interval_seconds_def init_accountant_def load_budget_def)

end
