(* ===== verification/Sdk.thy ===== *)
theory Sdk
  imports Spool Accountant
begin

section \<open>The probe SDK (probe/sdk.py)\<close>

text \<open>
  \<^verbatim>\<open>ProbeSDK\<close>: the span lifecycle that stages one result per closed span, and \<^verbatim>\<open>flush\<close>, which drains
  the spool, paces, charges the privacy budget and posts one signed batch per model. The
  state of the object holds its aggregator, accountant and spool; the disk of the budget
  file is kept beside them. The outside is a world of type \<open>'w\<close>: every read of a clock, every
  fresh UUID and every POST takes the world and gives the next one. Ed25519, SHA-256, the JSON
  codec and \<^verbatim>\<open>int\<close> of a string are fields of the environment. Lazy creation of the HTTP client
  and logging have no counterpart.
\<close>

subsection \<open>Configuration, spans and state\<close>

definition FLUSH_EPSILON :: real where
  "FLUSH_EPSILON = 2"

record probe_config =
  pc_model_tuple :: string
  pc_suite_version_hash :: string
  pc_gateway_endpoint :: string
  pc_suite_version :: string
  pc_otel_endpoint :: string
  pc_probe_private_key_path :: string
  pc_flush_interval_seconds :: int
  pc_dry_run :: bool
  pc_daily_epsilon_budget :: real
  pc_dp_storage_path :: "string option"
  pc_min_flush_interval_seconds :: real
  pc_fleet_id :: "string option"
  pc_spool_dir :: "string option"

definition default_config :: "string \<Rightarrow> string \<Rightarrow> string \<Rightarrow> probe_config" where
  "default_config model_tuple suite_version_hash gateway_endpoint =
     \<lparr>pc_model_tuple = model_tuple, pc_suite_version_hash = suite_version_hash,
      pc_gateway_endpoint = gateway_endpoint, pc_suite_version = ''v1.0.0'', pc_otel_endpoint = [],
      pc_probe_private_key_path = [], pc_flush_interval_seconds = 86400, pc_dry_run = False,
      pc_daily_epsilon_budget = 10, pc_dp_storage_path = None, pc_min_flush_interval_seconds = 0,
      pc_fleet_id = None, pc_spool_dir = None\<rparr>"

text \<open>Span attributes are strings, numbers and booleans: JSON scalars.\<close>

record span_context =
  oc_span_id :: string
  oc_trace_id :: string
  oc_model_tuple :: string
  oc_suite_version_hash :: string
  oc_prompt_count :: int
  oc_start_time_ns :: int
  oc_end_time_ns :: int
  oc_status_code :: string
  oc_attributes :: "(string, json) dict"

text \<open>The outcome of a POST: a response with status, text and JSON, or an exception of the client.\<close>

datatype post_outcome =
    Response int string "json option"
  | TransportFailure string string
  | OtherFailure string string

record ('g, 'sk, 'w) sdk_env =
  sv_expo :: "real \<Rightarrow> 'g \<Rightarrow> real \<times> 'g"
  sv_fromiso :: "string \<Rightarrow> py_datetime option"
  sv_toiso :: "py_datetime \<Rightarrow> string"
  sv_codec :: spool_codec
  sv_sign :: "'sk \<Rightarrow> bytes \<Rightarrow> bytes"
  sv_public_bytes :: "'sk \<Rightarrow> bytes"
  sv_sha256_hex :: "string \<Rightarrow> string"
  sv_int :: "string \<Rightarrow> int option"
  sv_str :: "json \<Rightarrow> string"
  sv_write_ok :: bool
  sv_uuid :: "'w \<Rightarrow> string \<times> 'w"
  sv_monotonic :: "'w \<Rightarrow> real \<times> 'w"
  sv_monotonic_ns :: "'w \<Rightarrow> int \<times> 'w"
  sv_utc :: "'w \<Rightarrow> int \<times> 'w"
  sv_epoch :: "'w \<Rightarrow> real \<times> 'w"
  sv_post :: "bytes \<Rightarrow> (string, string) dict \<Rightarrow> 'w \<Rightarrow> post_outcome \<times> 'w"

record ('g, 'sk) probe_sdk =
  sd_config :: probe_config
  sd_aggregator :: "'g aggregator"
  sd_active_span :: "span_context option"
  sd_key :: 'sk
  sd_accountant :: dp_accountant
  sd_disk :: budget_disk
  sd_spool :: "spool option"
  sd_last_flush :: "real option"

text \<open>
  \<^verbatim>\<open>__init__\<close>: \<open>given\<close> is an injected accountant, \<open>files\<close> and \<open>quarantined\<close> are what the spool
  directory holds, \<open>client\<close> the fresh identifier of the aggregator.
\<close>

definition init_sdk ::
  "probe_config \<Rightarrow> 'sk \<Rightarrow> dp_accountant option \<Rightarrow> string \<Rightarrow> 'g \<Rightarrow> int \<Rightarrow> budget_disk \<Rightarrow> directory \<Rightarrow> directory
    \<Rightarrow> py_error + ('g, 'sk) probe_sdk" where
  "init_sdk config key given client g now disk files quarantined =
     sum_bind (case given of Some acc \<Rightarrow> Inr acc
               | None \<Rightarrow> init_accountant (pc_daily_epsilon_budget config) (pc_dp_storage_path config) now disk)
       (\<lambda>acc. sum_bind (if pc_spool_dir config \<in> {None, Some []} then Inr None
                          else map_sum id Some (init_spool DEFAULT_MAX_AGE_HOURS DEFAULT_MAX_FILES files quarantined))
         (\<lambda>sp. Inr \<lparr>sd_config = config, sd_aggregator = init_aggregator client g, sd_active_span = None, sd_key = key,
                      sd_accountant = acc, sd_disk = disk, sd_spool = sp, sd_last_flush = None\<rparr>))"

subsection \<open>Spans\<close>

definition start_canary_span ::
  "('g, 'sk, 'w) sdk_env \<Rightarrow> int \<Rightarrow> ('g, 'sk) probe_sdk \<Rightarrow> 'w \<Rightarrow> (py_error + span_context) \<times> ('g, 'sk) probe_sdk \<times> 'w" where
  "start_canary_span env prompt_count st w =
     (if sd_active_span st \<noteq> None then (Inl (RuntimeError ''A canary span is already active.''), st, w)
      else let (span_id, w) = sv_uuid env w;
               (trace_id, w) = sv_uuid env w;
               (start, w) = sv_monotonic_ns env w;
               ctx = \<lparr>oc_span_id = span_id, oc_trace_id = trace_id, oc_model_tuple = pc_model_tuple (sd_config st),
                       oc_suite_version_hash = pc_suite_version_hash (sd_config st), oc_prompt_count = prompt_count,
                       oc_start_time_ns = start, oc_end_time_ns = 0, oc_status_code = ''UNSET'', oc_attributes = []\<rparr>
           in (Inr ctx, st\<lparr>sd_active_span := Some ctx\<rparr>, w))"

text \<open>The caller writes attributes into the span object it was given, which is the active one.\<close>

definition set_attribute :: "string \<Rightarrow> json \<Rightarrow> ('g, 'sk) probe_sdk \<Rightarrow> ('g, 'sk) probe_sdk" where
  "set_attribute k v st =
     st\<lparr>sd_active_span := map_option (\<lambda>ctx. ctx\<lparr>oc_attributes := AList.update k v (oc_attributes ctx)\<rparr>) (sd_active_span st)\<rparr>"

text \<open>\<^verbatim>\<open>bool(v)\<close>, \<^verbatim>\<open>int(v)\<close> and \<^verbatim>\<open>str(v)\<close>.\<close>

fun truthy :: "json \<Rightarrow> bool" where
  "truthy JNull = False"
| "truthy (JBool b) = b"
| "truthy (JInt i) = (i \<noteq> 0)"
| "truthy (JFloat x) = (x \<noteq> 0)"
| "truthy JNonFinite = True"
| "truthy (JStr s) = (s \<noteq> [])"
| "truthy (JArr js) = (js \<noteq> [])"
| "truthy (JObj d) = (d \<noteq> [])"

fun to_int :: "(string \<Rightarrow> int option) \<Rightarrow> json \<Rightarrow> py_error + int" where
  "to_int of_str (JInt i) = Inr i"
| "to_int of_str (JBool b) = Inr (if b then 1 else 0)"
| "to_int of_str (JFloat x) = Inr (py_int x)"
| "to_int of_str JNonFinite = Inl (ValueError ''cannot convert float to integer'')"
| "to_int of_str (JStr s) = (case of_str s of None \<Rightarrow> Inl (ValueError ''invalid literal for int()'') | Some i \<Rightarrow> Inr i)"
| "to_int of_str _ = Inl (TypeError ''int() argument'')"

fun to_str :: "(json \<Rightarrow> string) \<Rightarrow> json \<Rightarrow> string" where
  "to_str repr (JStr s) = s"
| "to_str repr (JInt i) = str_of_int i"
| "to_str repr (JBool b) = (if b then ''True'' else ''False'')"
| "to_str repr JNull = ''None''"
| "to_str repr v = repr v"

text \<open>The counters of a closing span: output length, output tokens and reasoning tokens.\<close>

definition span_counters ::
  "(string \<Rightarrow> int option) \<Rightarrow> (string, json) dict \<Rightarrow> py_error + int \<times> int option \<times> int option" where
  "span_counters of_str attrs =
     (let tokens = dict_get attrs ''gen_ai.usage.output_tokens'' (JInt 0)
      in sum_bind (if truthy tokens then to_int of_str tokens else Inr 0)
        (\<lambda>len. sum_bind (if map_of attrs ''gen_ai.usage.output_tokens'' = None then Inr None
                          else map_sum id Some (to_int of_str tokens))
          (\<lambda>out. sum_bind (case dict_get attrs ''gen_ai.usage.reasoning_tokens'' JNull of
                              JNull \<Rightarrow> Inr None
                            | v \<Rightarrow> map_sum id Some (to_int of_str v))
            (\<lambda>reasoning. Inr (len, out, reasoning)))))"

definition finish_canary_span ::
  "('g, 'sk, 'w) sdk_env \<Rightarrow> string \<Rightarrow> string option \<Rightarrow> ('g, 'sk) probe_sdk \<Rightarrow> 'w
    \<Rightarrow> (py_error + unit) \<times> ('g, 'sk) probe_sdk \<times> 'w" where
  "finish_canary_span env status_code error_message st w =
     (case sd_active_span st of
        None \<Rightarrow> (Inl (RuntimeError ''No active canary span.''), st, w)
      | Some ctx \<Rightarrow>
          let (end_ns, w) = sv_monotonic_ns env w;
              attrs = (case error_message of
                         None \<Rightarrow> oc_attributes ctx
                       | Some m \<Rightarrow> AList.update ''error.message'' (JStr m) (oc_attributes ctx));
              st = st\<lparr>sd_active_span := Some (ctx\<lparr>oc_end_time_ns := end_ns, oc_status_code := status_code,
                                                oc_attributes := attrs\<rparr>)\<rparr>
          in case span_counters (sv_int env) attrs of
               Inl e \<Rightarrow> (Inl e, st, w)
             | Inr (len, out, reasoning) \<Rightarrow>
                 let (now, w) = sv_utc env w;
                     r = \<lparr>cr_timestamp = sv_toiso env (utc now), cr_model_tuple = oc_model_tuple ctx,
                          cr_suite_version = pc_suite_version (sd_config st),
                          cr_prompt_id = to_str (sv_str env) (dict_get attrs ''gen_ai.prompt_id'' (JStr ''span-synthetic'')),
                          cr_response_hash = sv_sha256_hex env (oc_span_id ctx), cr_output_length = len,
                          cr_json_valid = truthy (dict_get attrs ''gen_ai.response.json_valid'' (JBool False)),
                          cr_latency_ms = (end_ns - oc_start_time_ns ctx) div 1000000,
                          cr_tool_call_valid = (case dict_get attrs ''gen_ai.response.tool_call_valid'' JNull of
                                                  JNull \<Rightarrow> None | v \<Rightarrow> Some (truthy v)),
                          cr_output_tokens = out, cr_reasoning_tokens = reasoning\<rparr>
                 in (Inr (), st\<lparr>sd_aggregator := add_result (sd_aggregator st) r, sd_active_span := None\<rparr>, w))"

definition current_span :: "('g, 'sk) probe_sdk \<Rightarrow> span_context option" where
  "current_span st = sd_active_span st"

subsection \<open>Flush\<close>

text \<open>\<^verbatim>\<open>SignalBatch.to_dict\<close>.\<close>

definition batch_to_dict :: "signal_batch \<Rightarrow> (string, json) dict" where
  "batch_to_dict sb =
     [(''batch_id'', JStr (sb_batch_id sb)), (''client_id'', JStr (sb_client_id sb)),
      (''window_start'', JStr (sb_window_start sb)), (''window_end'', JStr (sb_window_end sb)),
      (''model_tuple'', JStr (sb_model_tuple sb)), (''suite_version'', JStr (sb_suite_version sb)),
      (''metrics'', JObj (map (\<lambda>(k, x). (k, JFloat x)) (sb_metrics sb))),
      (''canary_hashes'', JObj (map (\<lambda>(k, h). (k, JStr h)) (sb_canary_hashes sb))),
      (''result_count'', JInt (sb_result_count sb)),
      (''fleet_id'', (case sb_fleet_id sb of None \<Rightarrow> JNull | Some f \<Rightarrow> JStr f))]"

datatype batch_report =
    DryRun string int
  | SpooledBatch string string
  | DuplicateBatch string
  | AcceptedBatch json

datatype flush_result =
    Noop "string option"
  | Accumulating real nat
  | BudgetExceeded
  | Flushed bool "batch_report list" "string option"

definition batch_body :: "('g, 'sk, 'w) sdk_env \<Rightarrow> signal_batch \<Rightarrow> bytes" where
  "batch_body env sb = sc_canonical (sv_codec env) (JObj (batch_to_dict sb))"

definition batch_headers :: "('g, 'sk, 'w) sdk_env \<Rightarrow> 'sk \<Rightarrow> signal_batch \<Rightarrow> (string, string) dict" where
  "batch_headers env sk sb =
     [(''Content-Type'', ''application/json''), (''x-signature'', bytes_hex (sv_sign env sk (batch_body env sb))),
      (''x-public-key'', public_key_hex (sv_public_bytes env) sk)]"

text \<open>Keeping a batch: \<^verbatim>\<open>self._spool.put\<close>, whose clock is the epoch clock.\<close>

definition keep_batch ::
  "('g, 'sk, 'w) sdk_env \<Rightarrow> signal_batch \<Rightarrow> string \<Rightarrow> spool \<Rightarrow> ('g, 'sk) probe_sdk \<Rightarrow> 'w
    \<Rightarrow> (py_error + batch_report) \<times> ('g, 'sk) probe_sdk \<times> 'w" where
  "keep_batch env sb reason sp st w =
     (let (now, w) = sv_epoch env w
      in case spool_put (sv_codec env) now (batch_body env sb) (batch_headers env (sd_key st) sb) sp of
           Inl e \<Rightarrow> (Inl e, st, w)
         | Inr (_, sp) \<Rightarrow> (Inr (SpooledBatch (sb_batch_id sb) reason), st\<lparr>sd_spool := Some sp\<rparr>, w))"

text \<open>One POST and the treatment of its outcome.\<close>

definition post_batch ::
  "('g, 'sk, 'w) sdk_env \<Rightarrow> signal_batch \<Rightarrow> ('g, 'sk) probe_sdk \<Rightarrow> 'w
    \<Rightarrow> (py_error + batch_report) \<times> ('g, 'sk) probe_sdk \<times> 'w" where
  "post_batch env sb st w =
     (case sv_post env (batch_body env sb) (batch_headers env (sd_key st) sb) w of
        (TransportFailure name msg, w) \<Rightarrow>
          (case sd_spool st of
             None \<Rightarrow> (Inl (TransportError name msg), st, w)
           | Some sp \<Rightarrow> keep_batch env sb name sp st w)
      | (OtherFailure name msg, w) \<Rightarrow> (Inl (OtherException name msg), st, w)
      | (Response status body reply, w) \<Rightarrow>
          if status = 409 then (Inr (DuplicateBatch (sb_batch_id sb)), st, w)
          else case (if 500 \<le> status then sd_spool st else None) of
                 Some sp \<Rightarrow> keep_batch env sb (''HTTP '' @ str_of_int status) sp st w
               | None \<Rightarrow>
                   if status \<noteq> 202
                   then (Inl (RuntimeError (''Gateway rejected batch '' @ sb_batch_id sb @ '': status='' @ str_of_int status
                               @ '' body='' @ take 256 body)), st, w)
                   else (case reply of
                           None \<Rightarrow> (Inl (ValueError ''response is not JSON''), st, w)
                         | Some j \<Rightarrow> (Inr (AcceptedBatch j), st, w)))"

definition flush_model ::
  "('g, 'sk, 'w) sdk_env \<Rightarrow> string \<Rightarrow> ('g, 'sk) probe_sdk \<Rightarrow> 'w
    \<Rightarrow> (py_error + batch_report) \<times> ('g, 'sk) probe_sdk \<times> 'w" where
  "flush_model env mt st w =
     (let (fresh, w) = sv_uuid env w
      in case agg_flush (sv_expo env) (sv_fromiso env) (sv_toiso env) (sc_is_uuid (sv_codec env)) fresh mt
                (pc_fleet_id (sd_config st)) (sd_aggregator st) of
           (Inl e, ag) \<Rightarrow> (Inl e, st\<lparr>sd_aggregator := ag\<rparr>, w)
         | (Inr sb, ag) \<Rightarrow>
             let st = st\<lparr>sd_aggregator := ag\<rparr>
             in if pc_dry_run (sd_config st) then (Inr (DryRun (sb_batch_id sb) (sb_result_count sb)), st, w)
                else post_batch env sb st w)"

text \<open>The loop over the models; an exception ends it with what was done so far.\<close>

fun flush_models ::
  "('g, 'sk, 'w) sdk_env \<Rightarrow> string list \<Rightarrow> ('g, 'sk) probe_sdk \<Rightarrow> 'w
    \<Rightarrow> (py_error + batch_report list) \<times> ('g, 'sk) probe_sdk \<times> 'w" where
  "flush_models env [] st w = (Inr [], st, w)"
| "flush_models env (mt # mts) st w =
     (case flush_model env mt st w of
        (Inl e, st, w) \<Rightarrow> (Inl e, st, w)
      | (Inr b, st, w) \<Rightarrow>
          (case flush_models env mts st w of
             (Inl e, st, w) \<Rightarrow> (Inl e, st, w)
           | (Inr bs, st, w) \<Rightarrow> (Inr (b # bs), st, w)))"

fun is_spooled :: "batch_report \<Rightarrow> bool" where
  "is_spooled (SpooledBatch i reason) = True"
| "is_spooled _ = False"

definition post_status :: "('g, 'sk, 'w) sdk_env \<Rightarrow> 'w sender" where
  "post_status env body headers w =
     (case sv_post env body headers w of
        (Response status _ _, w) \<Rightarrow> (Inr status, w)
      | (TransportFailure name msg, w) \<Rightarrow> (Inl (name @ '': '' @ msg), w)
      | (OtherFailure name msg, w) \<Rightarrow> (Inl (name @ '': '' @ msg), w))"

definition drain_backlog ::
  "('g, 'sk, 'w) sdk_env \<Rightarrow> ('g, 'sk) probe_sdk \<Rightarrow> 'w
    \<Rightarrow> (py_error + string option) \<times> ('g, 'sk) probe_sdk \<times> 'w" where
  "drain_backlog env st w =
     (case (if pc_dry_run (sd_config st) then None else sd_spool st) of
        None \<Rightarrow> (Inr None, st, w)
      | Some sp \<Rightarrow>
          let (now, w) = sv_epoch env w
          in (case spool_drain (sv_codec env) now (post_status env) sp w of
                (r, sp, w) \<Rightarrow> (map_sum id (Some \<circ> drain_summary) r, st\<lparr>sd_spool := Some sp\<rparr>, w)))"

text \<open>The pacing gate: the seconds still to wait, if any.\<close>

definition throttled :: "('g, 'sk, 'w) sdk_env \<Rightarrow> ('g, 'sk) probe_sdk \<Rightarrow> 'w \<Rightarrow> real option \<times> 'w" where
  "throttled env st w =
     (let min_interval = pc_min_flush_interval_seconds (sd_config st)
      in case (if min_interval > 0 then sd_last_flush st else None) of
           None \<Rightarrow> (None, w)
         | Some prev \<Rightarrow>
             (case sv_monotonic env w of
                (now, w) \<Rightarrow> (if now - prev < min_interval then Some (min_interval - (now - prev)) else None, w)))"

definition transmit ::
  "('g, 'sk, 'w) sdk_env \<Rightarrow> string list \<Rightarrow> string option \<Rightarrow> ('g, 'sk) probe_sdk \<Rightarrow> 'w
    \<Rightarrow> (py_error + flush_result) \<times> ('g, 'sk) probe_sdk \<times> 'w" where
  "transmit env pending summary st w =
     (let (now, w) = sv_utc env w
      in case budget_gate (sv_write_ok env) (now, FLUSH_EPSILON) (sd_accountant st, sd_disk st) of
           ((acc, disk), r) \<Rightarrow>
             let st = st\<lparr>sd_accountant := acc, sd_disk := disk\<rparr>
             in (case r of
                   Inl PrivacyBudgetExceeded \<Rightarrow>
                     (Inr BudgetExceeded, st\<lparr>sd_aggregator := clear_all (sd_aggregator st)\<rparr>, w)
                 | Inl e \<Rightarrow> (Inl e, st, w)
                 | Inr _ \<Rightarrow>
                     let (stamp, w) = sv_monotonic env w;
                         st = st\<lparr>sd_last_flush := Some stamp\<rparr>
                     in (case flush_models env pending st w of
                           (r, st, w) \<Rightarrow> (map_sum id (\<lambda>bs. Flushed (list_ex is_spooled bs) bs summary) r, st, w))))"

definition sdk_flush ::
  "('g, 'sk, 'w) sdk_env \<Rightarrow> ('g, 'sk) probe_sdk \<Rightarrow> 'w
    \<Rightarrow> (py_error + flush_result) \<times> ('g, 'sk) probe_sdk \<times> 'w" where
  "sdk_flush env st w =
     (case drain_backlog env st w of
        (Inl e, st, w) \<Rightarrow> (Inl e, st, w)
      | (Inr summary, st, w) \<Rightarrow>
          let pending = model_tuples_pending (sd_aggregator st)
          in if pending = [] then (Inr (Noop summary), st, w)
             else (case throttled env st w of
                     (Some wait, w) \<Rightarrow>
                       (Inr (Accumulating (py_round 1 wait)
                               (sum_list (map (pending_count (sd_aggregator st)) pending))), st, w)
                   | (None, w) \<Rightarrow> transmit env pending summary st w))"

definition run_suite :: "py_error + canary_result list" where
  "run_suite = Inl (NotImplementedError ''run_suite() is not implemented in Phase 0.'')"

subsection \<open>Lemmas: what a flush may touch\<close>

text \<open>Everything but the aggregator, the spool and the budget stays; a spool keeps its invariant.\<close>

definition spool_kept :: "spool option \<Rightarrow> spool option \<Rightarrow> bool" where
  "spool_kept sp sp' \<longleftrightarrow> (sp = None \<longleftrightarrow> sp' = None) \<and> (pred_option spool_ok sp \<longrightarrow> pred_option spool_ok sp')"

definition sdk_frame :: "('g, 'sk) probe_sdk \<Rightarrow> ('g, 'sk) probe_sdk \<Rightarrow> bool" where
  "sdk_frame st st' \<longleftrightarrow> sd_config st' = sd_config st \<and> sd_active_span st' = sd_active_span st \<and> sd_key st' = sd_key st
     \<and> ag_client_id (sd_aggregator st') = ag_client_id (sd_aggregator st) \<and> spool_kept (sd_spool st) (sd_spool st')"

definition budget_frame :: "('g, 'sk) probe_sdk \<Rightarrow> ('g, 'sk) probe_sdk \<Rightarrow> bool" where
  "budget_frame st st' \<longleftrightarrow> sd_accountant st' = sd_accountant st \<and> sd_disk st' = sd_disk st \<and> sd_last_flush st' = sd_last_flush st"

lemma frame_refl [simp]: "sdk_frame st st" "budget_frame st st"
  by (simp_all add: sdk_frame_def budget_frame_def spool_kept_def)

lemma frame_trans: "sdk_frame a b \<Longrightarrow> sdk_frame b c \<Longrightarrow> sdk_frame a c"
  "budget_frame a b \<Longrightarrow> budget_frame b c \<Longrightarrow> budget_frame a c"
  by (auto simp: sdk_frame_def budget_frame_def spool_kept_def)

text \<open>A queue that only lost entries.\<close>

definition shrinks :: "(string, canary_result list) dict \<Rightarrow> (string, canary_result list) dict \<Rightarrow> bool" where
  "shrinks d d' \<longleftrightarrow> set d' \<subseteq> set d \<and> (dict_wf d \<longrightarrow> dict_wf d')"

lemma shrinks_refl [simp]: "shrinks d d" "shrinks d []" "shrinks d (AList.delete k d)"
  by (auto simp: shrinks_def AList.delete_eq intro: dict_wf_filter)

lemma shrinks_trans: "shrinks a b \<Longrightarrow> shrinks b c \<Longrightarrow> shrinks a c"
  by (auto simp: shrinks_def)

lemma keep_batch_frame:
  "keep_batch env sb reason sp st w = (r, st', w') \<Longrightarrow> sd_spool st = Some sp \<Longrightarrow>
     sdk_frame st st' \<and> budget_frame st st' \<and> sd_aggregator st' = sd_aggregator st"
  by (auto simp: keep_batch_def Let_def sdk_frame_def budget_frame_def spool_kept_def
      split: prod.splits sum.splits intro: spool_put_ok)

lemma post_batch_frame:
  "post_batch env sb st w = (r, st', w') \<Longrightarrow>
     sdk_frame st st' \<and> budget_frame st st' \<and> sd_aggregator st' = sd_aggregator st"
  by (auto simp: post_batch_def split: prod.splits post_outcome.splits option.splits if_splits
      dest: keep_batch_frame)

lemma flush_model_frame:
  assumes "flush_model env mt st w = (r, st', w')"
  shows "sdk_frame st st'" and "budget_frame st st'"
    and "r = Inr b \<Longrightarrow> ag_pending (sd_aggregator st') = AList.delete mt (ag_pending (sd_aggregator st))"
    and "shrinks (ag_pending (sd_aggregator st)) (ag_pending (sd_aggregator st'))"
proof -
  obtain fresh w1 where w1: "sv_uuid env w = (fresh, w1)" by fastforce
  obtain q ag where ag: "agg_flush (sv_expo env) (sv_fromiso env) (sv_toiso env) (sc_is_uuid (sv_codec env)) fresh mt
      (pc_fleet_id (sd_config st)) (sd_aggregator st) = (q, ag)" by fastforce
  define st1 where "st1 = st\<lparr>sd_aggregator := ag\<rparr>"
  have id: "ag_client_id ag = ag_client_id (sd_aggregator st)"
    using agg_flush_Inl [of "sv_expo env" "sv_fromiso env" "sv_toiso env"] agg_flush_Inr(13) ag by (cases q) blast+
  then have 1: "sdk_frame st st1" "budget_frame st st1"
    by (simp_all add: sdk_frame_def budget_frame_def spool_kept_def st1_def)
  have "sdk_frame st st' \<and> budget_frame st st' \<and> (r = Inr b \<longrightarrow> ag_pending (sd_aggregator st') = AList.delete mt (ag_pending (sd_aggregator st)))
    \<and> shrinks (ag_pending (sd_aggregator st)) (ag_pending (sd_aggregator st'))"
  proof (cases q)
    case (Inl e)
    with assms w1 ag have "r = Inl e" "st' = st1" by (simp_all add: flush_model_def st1_def)
    with 1 agg_flush_Inl [OF ag [unfolded Inl]] show ?thesis by (simp add: st1_def)
  next
    case (Inr sb)
    note sb = agg_flush_Inr(12) [OF ag [unfolded Inr]]
    have "st' = st1 \<or> post_batch env sb st1 w1 = (r, st', w')"
      using assms w1 ag Inr by (auto simp: flush_model_def st1_def Let_def split: if_splits)
    then have "sdk_frame st1 st' \<and> budget_frame st1 st' \<and> sd_aggregator st' = ag"
      using post_batch_frame [of env sb st1 w1 r st' w'] by (auto simp: st1_def)
    with 1 sb show ?thesis by (auto intro: frame_trans)
  qed
  then show "sdk_frame st st'" "budget_frame st st'"
    "r = Inr b \<Longrightarrow> ag_pending (sd_aggregator st') = AList.delete mt (ag_pending (sd_aggregator st))"
    "shrinks (ag_pending (sd_aggregator st)) (ag_pending (sd_aggregator st'))" by blast+
qed

lemma flush_models_frame:
  "flush_models env mts st w = (r, st', w') \<Longrightarrow>
     sdk_frame st st' \<and> budget_frame st st'
     \<and> (\<forall>bs. r = Inr bs \<longrightarrow> length bs = length mts
          \<and> ag_pending (sd_aggregator st') = fold AList.delete mts (ag_pending (sd_aggregator st)))
     \<and> shrinks (ag_pending (sd_aggregator st)) (ag_pending (sd_aggregator st'))"
proof (induction mts arbitrary: st w r st' w')
  case (Cons mt mts)
  obtain q st1 w1 where q: "flush_model env mt st w = (q, st1, w1)" by (metis prod.exhaust)
  note one = flush_model_frame [OF q]
  show ?case
  proof (cases q)
    case (Inl e)
    with q Cons.prems one(1,2,4) show ?thesis by auto
  next
    case (Inr b)
    obtain q2 st2 w2 where q2: "flush_models env mts st1 w1 = (q2, st2, w2)" by (metis prod.exhaust)
    have "flush_models env (mt # mts) st w = (map_sum id (Cons b) q2, st2, w2)"
      by (cases q2) (simp_all add: q Inr q2)
    then have eqs: "st' = st2" "r = map_sum id (Cons b) q2" using Cons.prems by simp_all
    note rest = Cons.IH [OF q2]
    have "sdk_frame st st2" "budget_frame st st2"
      by (rule frame_trans(1) [OF one(1)], simp add: rest) (rule frame_trans(2) [OF one(2)], simp add: rest)
    moreover have "shrinks (ag_pending (sd_aggregator st)) (ag_pending (sd_aggregator st2))"
      by (rule shrinks_trans [OF one(4)]) (simp add: rest)
    moreover have "length bs = length (mt # mts) \<and> ag_pending (sd_aggregator st2) =
        fold AList.delete (mt # mts) (ag_pending (sd_aggregator st))" if "r = Inr bs" for bs
      using that rest one(3) [OF Inr] eqs(2) by (cases q2) auto
    ultimately show ?thesis using eqs(1) by blast
  qed
qed simp

text \<open>Nothing is pending once every pending model was flushed.\<close>

lemma pending_after_all:
  assumes "ag_pending ag' = fold AList.delete (model_tuples_pending ag) (ag_pending ag)"
  shows "model_tuples_pending ag' = []"
proof -
  have "set (fold AList.delete ks d) \<subseteq> {p \<in> set d. fst p \<notin> set ks}" for ks and d :: "(string, canary_result list) dict"
  proof (induction ks arbitrary: d)
    case (Cons k ks)
    have "set (AList.delete k d) = {p \<in> set d. fst p \<noteq> k}" by (auto simp: AList.delete_eq)
    with Cons [of "AList.delete k d"] show ?case by auto
  qed simp
  from this [of "model_tuples_pending ag" "ag_pending ag"] show ?thesis
    by (auto simp: assms model_tuples_pending_def filter_empty_conv image_iff)
qed

lemma drain_backlog_frame:
  assumes "drain_backlog env st w = (r, st', w')"
  shows "sdk_frame st st'" "budget_frame st st'" "sd_aggregator st' = sd_aggregator st"
  using assms
  by (auto simp: drain_backlog_def Let_def sdk_frame_def budget_frame_def spool_kept_def split: option.splits prod.splits if_splits
      intro: spool_drain_ok)

text \<open>The budget gate of a flush.\<close>

lemma flush_gate:
  "budget_gate wok (now, FLUSH_EPSILON) (acc, disk) =
     ((gate_acc (now, FLUSH_EPSILON) acc, snd (fst (budget_gate wok (now, FLUSH_EPSILON) (acc, disk)))),
      if gate_grants (now, FLUSH_EPSILON) acc then Inr () else Inl PrivacyBudgetExceeded)"
proof (rule prod_eqI)
  show "fst (budget_gate wok (now, FLUSH_EPSILON) (acc, disk)) =
      fst ((gate_acc (now, FLUSH_EPSILON) acc, snd (fst (budget_gate wok (now, FLUSH_EPSILON) (acc, disk)))),
        if gate_grants (now, FLUSH_EPSILON) acc then Inr () else Inl PrivacyBudgetExceeded)"
    by (rule prod_eqI) (simp_all add: budget_gate_acc del: budget_gate.simps)
  show "snd (budget_gate wok (now, FLUSH_EPSILON) (acc, disk)) =
      snd ((gate_acc (now, FLUSH_EPSILON) acc, snd (fst (budget_gate wok (now, FLUSH_EPSILON) (acc, disk)))),
        if gate_grants (now, FLUSH_EPSILON) acc then Inr () else Inl PrivacyBudgetExceeded)"
    by (auto simp: reset_if_needed_def spend_budget_def gate_grants_def after_reset_def due_def FLUSH_EPSILON_def Let_def)
qed

text \<open>A transmission either is refused, and drops the queue, or is charged and works through it.\<close>

lemma transmit_cases:
  assumes "transmit env pending summary st w = (r, st', w')"
  obtains (refused) now where "\<not> gate_grants (now, FLUSH_EPSILON) (sd_accountant st)" "r = Inr BudgetExceeded"
      "sd_accountant st' = gate_acc (now, FLUSH_EPSILON) (sd_accountant st)" "sd_last_flush st' = sd_last_flush st"
      "ag_pending (sd_aggregator st') = []" "sdk_frame st st'" "fst (sv_utc env w) = now"
  | (granted) now q st1 w1 stamp where "gate_grants (now, FLUSH_EPSILON) (sd_accountant st)"
      "sd_accountant st1 = gate_acc (now, FLUSH_EPSILON) (sd_accountant st)" "sd_last_flush st1 = Some stamp"
      "sd_aggregator st1 = sd_aggregator st" "sdk_frame st st1"
      "flush_models env pending st1 w1 = (q, st', w')" "r = map_sum id (\<lambda>bs. Flushed (list_ex is_spooled bs) bs summary) q"
      "fst (sv_utc env w) = now" "fst (sv_monotonic env (snd (sv_utc env w))) = stamp"
proof -
  obtain now w0 where now: "sv_utc env w = (now, w0)" by fastforce
  define disk where "disk = snd (fst (budget_gate (sv_write_ok env) (now, FLUSH_EPSILON) (sd_accountant st, sd_disk st)))"
  have gate: "budget_gate (sv_write_ok env) (now, FLUSH_EPSILON) (sd_accountant st, sd_disk st) =
      ((gate_acc (now, FLUSH_EPSILON) (sd_accountant st), disk),
       if gate_grants (now, FLUSH_EPSILON) (sd_accountant st) then Inr () else Inl PrivacyBudgetExceeded)"
    unfolding disk_def by (rule flush_gate)
  show ?thesis
  proof (cases "gate_grants (now, FLUSH_EPSILON) (sd_accountant st)")
    case False
    show ?thesis
      by (rule refused [OF False])
        (use assms False in \<open>auto simp: transmit_def now gate clear_all_def sdk_frame_def spool_kept_def Let_def
          simp del: budget_gate.simps\<close>)
  next
    case True
    obtain stamp w1 where stamp: "sv_monotonic env w0 = (stamp, w1)" by fastforce
    let ?st1 = "st\<lparr>sd_accountant := gate_acc (now, FLUSH_EPSILON) (sd_accountant st), sd_disk := disk,
        sd_last_flush := Some stamp\<rparr>"
    obtain q st2 w2 where q: "flush_models env pending ?st1 w1 = (q, st2, w2)" by (metis prod.exhaust)
    show ?thesis
      by (rule granted [OF True, of ?st1 stamp w1 q])
        (use assms True q in \<open>auto simp: transmit_def now gate stamp sdk_frame_def spool_kept_def Let_def
          simp del: budget_gate.simps\<close>)
  qed
qed

text \<open>
  The clock readings of a flush, in their order: after the backlog the pacing clock, when there is an interval and an earlier
  flush, then the calendar of the budget, then the pacing clock again for the new interval.
\<close>

definition flush_readings :: "('g, 'sk, 'w) sdk_env \<Rightarrow> ('g, 'sk) probe_sdk \<Rightarrow> 'w \<Rightarrow> real option \<times> int \<times> real" where
  "flush_readings env st w =
     (case drain_backlog env st w of (_, _, w) \<Rightarrow>
        (case (if 0 < pc_min_flush_interval_seconds (sd_config st) \<and> sd_last_flush st \<noteq> None
               then map_prod Some id (sv_monotonic env w) else (None, w)) of (pace, w) \<Rightarrow>
           (case sv_utc env w of (now, w) \<Rightarrow> (pace, now, fst (sv_monotonic env w)))))"

definition pacing_due :: "('g, 'sk) probe_sdk \<Rightarrow> real option \<Rightarrow> bool" where
  "pacing_due st pace \<longleftrightarrow>
     (\<forall>t prev. pace = Some t \<and> sd_last_flush st = Some prev \<longrightarrow> pc_min_flush_interval_seconds (sd_config st) \<le> t - prev)"

lemma flush_readings_throttled:
  assumes "drain_backlog env st w = (q, st1, w1)" and "throttled env st1 w1 = (wait, w2)"
    and "sd_config st1 = sd_config st" "sd_last_flush st1 = sd_last_flush st"
  obtains pace where "flush_readings env st w = (pace, fst (sv_utc env w2), fst (sv_monotonic env (snd (sv_utc env w2))))"
    and "wait = None \<Longrightarrow> pacing_due st pace"
    and "\<And>secs. wait = Some secs \<Longrightarrow> \<exists>t prev. pace = Some t \<and> sd_last_flush st = Some prev
      \<and> t - prev < pc_min_flush_interval_seconds (sd_config st) \<and> secs = pc_min_flush_interval_seconds (sd_config st) - (t - prev)"
proof (cases "0 < pc_min_flush_interval_seconds (sd_config st) \<and> sd_last_flush st \<noteq> None")
  case True
  obtain t w3 where t: "sv_monotonic env w1 = (t, w3)" by fastforce
  with True assms show ?thesis
    by (intro that [of "Some t"])
      (auto simp: flush_readings_def throttled_def pacing_due_def Let_def split: prod.splits if_splits)
next
  case False
  with assms show ?thesis
    by (intro that [of None]) (auto simp: flush_readings_def throttled_def pacing_due_def Let_def split: prod.splits if_splits option.splits)
qed

text \<open>The whole flush.\<close>

lemma sdk_flush_cases:
  assumes "sdk_flush env st w = (r, st', w')"
  obtains (drain_failed) e where "r = Inl e" "sdk_frame st st'" "budget_frame st st'" "sd_aggregator st' = sd_aggregator st"
  | (idle) s where "r = Inr (Noop s)" "model_tuples_pending (sd_aggregator st) = []" "sdk_frame st st'" "budget_frame st st'"
      "sd_aggregator st' = sd_aggregator st"
  | (paced) secs where "r = Inr (Accumulating secs (sum_list (map (pending_count (sd_aggregator st))
        (model_tuples_pending (sd_aggregator st)))))" "model_tuples_pending (sd_aggregator st) \<noteq> []"
      "sdk_frame st st'" "budget_frame st st'" "sd_aggregator st' = sd_aggregator st"
      "\<exists>t prev. fst (flush_readings env st w) = Some t \<and> sd_last_flush st = Some prev
         \<and> t - prev < pc_min_flush_interval_seconds (sd_config st)
         \<and> secs = py_round 1 (pc_min_flush_interval_seconds (sd_config st) - (t - prev))"
  | (sent) pace st1 w1 s where "transmit env (model_tuples_pending (sd_aggregator st)) s st1 w1 = (r, st', w')"
      "model_tuples_pending (sd_aggregator st) \<noteq> []"
      "sdk_frame st st1" "budget_frame st st1" "sd_aggregator st1 = sd_aggregator st" "pacing_due st pace"
      "flush_readings env st w = (pace, fst (sv_utc env w1), fst (sv_monotonic env (snd (sv_utc env w1))))"
proof -
  obtain q st1 w1 where d: "drain_backlog env st w = (q, st1, w1)" by (metis prod.exhaust)
  note frame = drain_backlog_frame [OF d]
  show ?thesis
  proof (cases q)
    case (Inl e)
    with assms d have "r = Inl e" "st' = st1" by (simp_all add: sdk_flush_def)
    with frame show ?thesis using drain_failed by blast
  next
    case (Inr s)
    show ?thesis
    proof (cases "model_tuples_pending (sd_aggregator st) = []")
      case True
      with assms d Inr frame(3) have "r = Inr (Noop s)" "st' = st1" by (simp_all add: sdk_flush_def)
      with frame True show ?thesis using idle by blast
    next
      case False
      obtain wait w2 where th: "throttled env st1 w1 = (wait, w2)" by fastforce
      have "sd_config st1 = sd_config st" "sd_last_flush st1 = sd_last_flush st" using frame by (simp_all add: sdk_frame_def budget_frame_def)
      then obtain pace where readings: "flush_readings env st w = (pace, fst (sv_utc env w2), fst (sv_monotonic env (snd (sv_utc env w2))))"
        and due: "wait = None \<Longrightarrow> pacing_due st pace"
        and early: "\<And>secs. wait = Some secs \<Longrightarrow> \<exists>t prev. pace = Some t \<and> sd_last_flush st = Some prev
          \<and> t - prev < pc_min_flush_interval_seconds (sd_config st) \<and> secs = pc_min_flush_interval_seconds (sd_config st) - (t - prev)"
        using flush_readings_throttled [OF d th] by metis
      show ?thesis
      proof (cases wait)
        case None
        with assms d Inr False frame(3) th
        have "transmit env (model_tuples_pending (sd_aggregator st)) s st1 w2 = (r, st', w')"
          by (simp add: sdk_flush_def)
        then show ?thesis using frame False sent readings due [OF None] by blast
      next
        case (Some x)
        have "r = Inr (Accumulating (py_round 1 x) (sum_list (map (pending_count (sd_aggregator st))
            (model_tuples_pending (sd_aggregator st)))))" "st' = st1"
          using assms d Inr False frame(3) th Some by (simp_all add: sdk_flush_def)
        moreover have "\<exists>t prev. fst (flush_readings env st w) = Some t \<and> sd_last_flush st = Some prev
           \<and> t - prev < pc_min_flush_interval_seconds (sd_config st)
           \<and> py_round 1 x = py_round 1 (pc_min_flush_interval_seconds (sd_config st) - (t - prev))"
          using early [OF Some] readings by auto
        ultimately show ?thesis using frame False paced by blast
      qed
    qed
  qed
qed

subsection \<open>Reachable probes\<close>

text \<open>The public operations, each from any state and world.\<close>

inductive sdk_step :: "('g, 'sk, 'w) sdk_env \<Rightarrow> ('g, 'sk) probe_sdk \<times> 'w \<Rightarrow> ('g, 'sk) probe_sdk \<times> 'w \<Rightarrow> bool"
  for env :: "('g, 'sk, 'w) sdk_env" where
  step_start: "start_canary_span env n st w = (r, st', w') \<Longrightarrow> sdk_step env (st, w) (st', w')"
| step_attribute: "sdk_step env (st, w) (set_attribute k v st, w)"
| step_finish: "finish_canary_span env status err st w = (r, st', w') \<Longrightarrow> sdk_step env (st, w) (st', w')"
| step_flush: "sdk_flush env st w = (r, st', w') \<Longrightarrow> sdk_step env (st, w) (st', w')"

inductive sdk_reach :: "('g, 'sk, 'w) sdk_env \<Rightarrow> ('g, 'sk) probe_sdk \<times> 'w \<Rightarrow> ('g, 'sk) probe_sdk \<times> 'w \<Rightarrow> bool"
  for env :: "('g, 'sk, 'w) sdk_env" and s :: "('g, 'sk) probe_sdk \<times> 'w" where
  reach_start: "sdk_reach env s s"
| reach_step: "sdk_reach env s t \<Longrightarrow> sdk_step env t u \<Longrightarrow> sdk_reach env s u"

inductive_cases sdk_stepE: "sdk_step env (st, w) (st', w')"

definition queue_uniform :: "probe_config \<Rightarrow> (string, canary_result list) dict \<Rightarrow> bool" where
  "queue_uniform config d \<longleftrightarrow> dict_wf d
     \<and> (\<forall>mt rs. (mt, rs) \<in> set d \<longrightarrow> mt = pc_model_tuple config \<and> cr_suite_version ` set rs \<subseteq> {pc_suite_version config})"

definition sdk_ok :: "probe_config \<Rightarrow> ('g, 'sk) probe_sdk \<Rightarrow> bool" where
  "sdk_ok config st \<longleftrightarrow> sd_config st = config
     \<and> (case sd_active_span st of None \<Rightarrow> True | Some ctx \<Rightarrow> oc_model_tuple ctx = pc_model_tuple config)
     \<and> queue_uniform config (ag_pending (sd_aggregator st)) \<and> acc_ok (sd_accountant st)
     \<and> pred_option spool_ok (sd_spool st)"

lemma queue_uniform_shrinks: "queue_uniform config d \<Longrightarrow> shrinks d d' \<Longrightarrow> queue_uniform config d'"
  by (auto simp: queue_uniform_def shrinks_def)

lemma queue_uniform_add:
  assumes "queue_uniform config (ag_pending ag)" and "cr_model_tuple r = pc_model_tuple config"
    and "cr_suite_version r = pc_suite_version config"
  shows "queue_uniform config (ag_pending (add_result ag r))"
proof -
  have sub: "set (AList.update k v d) \<subseteq> insert (k, v) (set d)" for k v and d :: "(string, canary_result list) dict"
    by (induction d) auto
  have "cr_suite_version ` set (dict_get (ag_pending ag) mt []) \<subseteq> {pc_suite_version config}" for mt
    using assms(1) by (auto simp: dict_get_def queue_uniform_def split: option.splits dest!: map_of_SomeD)
  then show ?thesis
    using assms sub by (fastforce simp: queue_uniform_def add_result_def Let_def)
qed

lemma sdk_flush_ok:
  assumes "sdk_ok config st" and "sdk_flush env st w = (r, st', w')"
  shows "sdk_ok config st'"
proof -
  have "sdk_frame st st' \<and> shrinks (ag_pending (sd_aggregator st)) (ag_pending (sd_aggregator st')) \<and> acc_ok (sd_accountant st')"
    using assms(2)
  proof (cases rule: sdk_flush_cases)
    case (sent pace st1 w1 s)
    note acc = assms(1) [unfolded sdk_ok_def] sent(4) [unfolded budget_frame_def]
    from sent(1) show ?thesis
    proof (cases rule: transmit_cases)
      case (refused now)
      with sent acc show ?thesis by (auto intro: frame_trans acc_ok_gate)
    next
      case (granted now q st2 w2 stamp)
      have "sdk_frame st st2" by (rule frame_trans(1) [OF sent(3) granted(5)])
      moreover note flush_models_frame [OF granted(6)]
      moreover have "acc_ok (sd_accountant st2)" using granted(2) acc by (auto intro: acc_ok_gate)
      ultimately show ?thesis
        using granted(4) sent(5) by (auto intro: frame_trans simp: budget_frame_def)
    qed
  qed (use assms(1) in \<open>auto simp: sdk_ok_def budget_frame_def\<close>)
  then show ?thesis
    using assms(1) by (auto simp: sdk_ok_def sdk_frame_def spool_kept_def intro: queue_uniform_shrinks)
qed

lemma start_ok: "start_canary_span env n st w = (r, st', w') \<Longrightarrow> sdk_ok config st \<Longrightarrow> sdk_ok config st'"
  by (auto simp: start_canary_span_def sdk_ok_def Let_def split: prod.splits if_splits)

lemma set_attribute_ok: "sdk_ok config st \<Longrightarrow> sdk_ok config (set_attribute k v st)"
  by (auto simp: set_attribute_def sdk_ok_def split: option.splits)

lemma finish_ok: "finish_canary_span env status err st w = (r, st', w') \<Longrightarrow> sdk_ok config st \<Longrightarrow> sdk_ok config st'"
  by (auto simp: finish_canary_span_def sdk_ok_def Let_def split: prod.splits option.splits sum.splits
      intro!: queue_uniform_add)

lemma sdk_step_ok:
  assumes "sdk_step env (st, w) (st', w')" and "sdk_ok config st"
  shows "sdk_ok config st'"
  using assms(1)
  by (rule sdk_stepE) (use assms(2) in \<open>auto intro: start_ok set_attribute_ok finish_ok sdk_flush_ok\<close>)

lemma sdk_reach_ok: "sdk_reach env s t \<Longrightarrow> sdk_ok config (fst s) \<Longrightarrow> sdk_ok config (fst t)"
proof (induction rule: sdk_reach.induct)
  case (reach_step t u)
  then show ?case by (cases t; cases u) (auto dest: sdk_step_ok)
qed

lemma queue_uniform_one:
  assumes "queue_uniform config (ag_pending ag)"
  shows "model_tuples_pending ag \<in> {[], [pc_model_tuple config]}"
proof -
  have "distinct (model_tuples_pending ag)" "set (model_tuples_pending ag) \<subseteq> {pc_model_tuple config}"
    using assms by (auto simp: queue_uniform_def model_tuples_pending_def intro: distinct_map_filter)
  then show ?thesis by (cases "model_tuples_pending ag"; cases "tl (model_tuples_pending ag)") auto
qed

subsection \<open>Lemmas: a kept batch is a sound one\<close>

text \<open>The JSON value with the keys of every object in order, as canonical JSON writes it.\<close>

fun sort_json :: "json \<Rightarrow> json" where
  "sort_json (JObj d) = JObj (sort_key fst (map (\<lambda>(k, v). (k, sort_json v)) d))"
| "sort_json (JArr js) = JArr (map sort_json js)"
| "sort_json v = v"

lemma map_of_sort_key:
  assumes "dict_wf d"
  shows "map_of (sort_key fst d) = map_of d"
proof -
  have "distinct (map fst (sort_key fst d))"
    using assms by (metis distinct_sort mset_map mset_sort mset_eq_imp_distinct_iff)
  then show ?thesis using assms by (intro map_of_inject_set [THEN iffD2]) simp_all
qed

lemma hex_digit_text: "n < 16 \<Longrightarrow> hex_digit n \<in> set ''0123456789abcdef''"
proof -
  assume "n < 16"
  then have "n \<in> set [0..<16]" by simp
  moreover have "list_all (\<lambda>n. hex_digit n \<in> set ''0123456789abcdef'') [0..<16]" by code_simp
  ultimately show ?thesis by (simp only: list_all_iff)
qed

lemma bytes_hex_text: "hex_text (2 * length bs) (bytes_hex bs)"
proof (induction bs)
  case (Cons b bs)
  have "unat b < 256" using unsigned_less [of b] by simp
  then have "unat b div 16 < 16" "unat b mod 16 < 16" by (auto simp: less_mult_imp_div_less)
  with Cons show ?case
    by (simp only: hex_text_def bytes_hex_def list.map concat.simps byte_hex_def) (simp add: hex_digit_text [simplified])
qed (simp add: hex_text_def bytes_hex_def)

lemma batch_headers_check:
  assumes "length (sv_sign env sk (batch_body env sb)) = 64" and "length (sv_public_bytes env sk) = 32"
  shows "check_headers (batch_headers env sk sb) =
     Inr [(''x-signature'', bytes_hex (sv_sign env sk (batch_body env sb))), (''x-public-key'', public_key_hex (sv_public_bytes env) sk)]"
proof -
  have low: "map lower_char ''Content-Type'' = ''content-type''" by code_simp
  have "hex_text 128 (bytes_hex (sv_sign env sk (batch_body env sb)))" "hex_text 64 (bytes_hex (sv_public_bytes env sk))"
    using bytes_hex_text [of "sv_sign env sk (batch_body env sb)"] bytes_hex_text [of "sv_public_bytes env sk"] assms by simp_all
  then show ?thesis
    by (simp add: check_headers_Inr batch_headers_def low lower_header_names dict_get_def public_key_hex_def del: list.map)
qed

lemma sorted_fields:
  assumes "sort_json (JObj (batch_to_dict sb)) = JObj d"
  shows "fst ` set d = set (''fleet_id'' # batch_fields)"
    and "dict_get d ''batch_id'' JNull = JStr (sb_batch_id sb)" and "dict_get d ''client_id'' JNull = JStr (sb_client_id sb)"
    and "dict_get d ''result_count'' JNull = JInt (sb_result_count sb)"
    and "\<exists>ms. dict_get d ''metrics'' JNull = JObj ms \<and> fst ` set ms = fst ` set (sb_metrics sb)"
    and "\<exists>hs. dict_get d ''canary_hashes'' JNull = JObj hs \<and> set hs = (\<lambda>(k, h). (k, JStr h)) ` set (sb_canary_hashes sb)"
proof -
  let ?d = "map (\<lambda>(k, v). (k, sort_json v)) (batch_to_dict sb)"
  have d: "d = sort_key fst ?d" using assms by simp
  have names: "map fst ?d = batch_fields @ [''fleet_id'']" by (simp add: batch_to_dict_def batch_fields_def)
  have "distinct (batch_fields @ [''fleet_id''])" by code_simp
  then have "dict_wf ?d" by (simp only: names)
  then have get: "dict_get d k v = dict_get ?d k v" for k v by (simp add: d dict_get_def map_of_sort_key)
  show "fst ` set d = set (''fleet_id'' # batch_fields)"
  proof -
    have "fst ` set d = set (map fst ?d)" by (simp add: d image_image)
    then show ?thesis by (simp only: names) simp
  qed
  show "dict_get d ''batch_id'' JNull = JStr (sb_batch_id sb)" "dict_get d ''client_id'' JNull = JStr (sb_client_id sb)"
    "dict_get d ''result_count'' JNull = JInt (sb_result_count sb)"
    by (simp_all only: get) (simp_all add: batch_to_dict_def dict_get_def)
  have "dict_get d ''metrics'' JNull = sort_json (JObj (map (\<lambda>(k, x). (k, JFloat x)) (sb_metrics sb)))"
    "dict_get d ''canary_hashes'' JNull = sort_json (JObj (map (\<lambda>(k, h). (k, JStr h)) (sb_canary_hashes sb)))"
    by (simp_all only: get) (simp_all add: batch_to_dict_def dict_get_def)
  then show "\<exists>ms. dict_get d ''metrics'' JNull = JObj ms \<and> fst ` set ms = fst ` set (sb_metrics sb)"
    "\<exists>hs. dict_get d ''canary_hashes'' JNull = JObj hs \<and> set hs = (\<lambda>(k, h). (k, JStr h)) ` set (sb_canary_hashes sb)"
    by (force simp: image_image split_def)+
qed

text \<open>A batch an aggregator emitted passes the validation of the spool.\<close>

lemma flushed_batch_shaped:
  assumes "agg_flush expo fromiso toiso (sc_is_uuid codec) fresh mt fleet ag = (Inr sb, ag')"
    and "\<And>r. r \<in> set (dict_get (ag_pending ag) mt []) \<Longrightarrow> hex_text 64 (cr_response_hash r)"
    and "sc_loads codec (sc_canonical codec (JObj (batch_to_dict sb))) = Some (sort_json (JObj (batch_to_dict sb)))"
    and "sc_canonical codec (sort_json (JObj (batch_to_dict sb))) = sc_canonical codec (JObj (batch_to_dict sb))"
  shows "validate_body codec (sc_canonical codec (JObj (batch_to_dict sb))) = Inr (sb_batch_id sb)"
proof -
  note sb = agg_flush_Inr [OF assms(1)]
  have ids: "sc_is_uuid codec (sb_batch_id sb)" "sc_is_uuid codec (sb_client_id sb)" "\<not> sb_result_count sb < 1"
    using agg_flush_post [OF assms(1)] by (auto simp: batch_post_init_def split: if_splits)
  obtain d where d: "sort_json (JObj (batch_to_dict sb)) = JObj d" by simp
  note fields = sorted_fields [OF this]
  obtain ms hs where ms: "dict_get d ''metrics'' JNull = JObj ms" "fst ` set ms = fst ` set (sb_metrics sb)"
    and hs: "dict_get d ''canary_hashes'' JNull = JObj hs" "set hs = (\<lambda>(k, h). (k, JStr h)) ` set (sb_canary_hashes sb)"
    using fields(5,6) by blast
  have "hashes_sound (JObj hs)"
    using hashes_of_sub [of "dict_get (ag_pending ag) mt []"] assms(2) sb(10) hs(2)
    by (fastforce simp: list_all_iff)
  moreover have "json_set (JObj ms) = Some (map fst ms)" "set (map fst ms) \<subseteq> set batch_metric_keys"
    using sb(4) ms(2) by (simp_all add: metrics_sound_def)
  moreover have "sc_loads codec (sc_canonical codec (JObj (batch_to_dict sb))) = Some (JObj d)"
    "sc_canonical codec (JObj d) = sc_canonical codec (JObj (batch_to_dict sb))"
    using assms(3,4) d by simp_all
  moreover have "set batch_fields \<subseteq> fst ` set d" "fst ` set d \<subseteq> set (''fleet_id'' # batch_fields)"
    by (simp_all only: fields(1)) auto
  moreover have "count_check (dict_get d ''result_count'' JNull) = Inr ()"
    using ids(3) by (simp only: fields(4)) simp
  ultimately show ?thesis
    unfolding validate_body_iff batch_shaped_def using fields(2,3) ids(1,2) ms(1) hs(1)
    by (intro exI [of _ d] exI [of _ "sb_client_id sb"] exI [of _ "map fst ms"] conjI) simp_all
qed

subsection \<open>Properties\<close>

text \<open>C6: What a flush that returns has done, at the very clock readings it takes. Without pending results, or when it is throttled, budget, pacing
  clock and queue are untouched; the report of a throttled one counts exactly what stays staged and the seconds still to wait. Otherwise the pacing
  interval had passed and the budget went through its gate (reset, then charge) at the calendar time read after it. A refused charge of \<open>FLUSH_EPSILON\<close> empties the queue
  and starts no pacing interval. A granted one starts an interval at the reading that follows it; every pending model has its report,
  nothing is left pending, and the status is spooled exactly when some batch was kept.\<close>

theorem flush_contract:
  assumes "sdk_flush env st w = (Inr res, st', w')" and "flush_readings env st w = (pace, now, stamp)"
  shows "case res of
      Noop s \<Rightarrow> model_tuples_pending (sd_aggregator st) = [] \<and> budget_frame st st' \<and> sd_aggregator st' = sd_aggregator st
    | Accumulating secs n \<Rightarrow>
        budget_frame st st' \<and> sd_aggregator st' = sd_aggregator st
        \<and> n = sum_list (map (pending_count (sd_aggregator st)) (model_tuples_pending (sd_aggregator st)))
        \<and> (\<exists>t prev. pace = Some t \<and> sd_last_flush st = Some prev \<and> t - prev < pc_min_flush_interval_seconds (sd_config st)
             \<and> secs = py_round 1 (pc_min_flush_interval_seconds (sd_config st) - (t - prev)))
    | BudgetExceeded \<Rightarrow>
        pacing_due st pace \<and> \<not> gate_grants (now, FLUSH_EPSILON) (sd_accountant st)
        \<and> sd_accountant st' = gate_acc (now, FLUSH_EPSILON) (sd_accountant st)
        \<and> model_tuples_pending (sd_aggregator st') = [] \<and> sd_last_flush st' = sd_last_flush st
    | Flushed any bs s \<Rightarrow>
        pacing_due st pace \<and> gate_grants (now, FLUSH_EPSILON) (sd_accountant st)
        \<and> sd_accountant st' = gate_acc (now, FLUSH_EPSILON) (sd_accountant st) \<and> sd_last_flush st' = Some stamp
        \<and> length bs = length (model_tuples_pending (sd_aggregator st)) \<and> bs \<noteq> []
        \<and> model_tuples_pending (sd_aggregator st') = [] \<and> (any \<longleftrightarrow> list_ex is_spooled bs)"
  using assms(1)
proof (cases rule: sdk_flush_cases)
  case (paced secs)
  then show ?thesis using assms(2) by simp
next
  case (sent pace1 st1 w1 s)
  have same: "sd_accountant st1 = sd_accountant st" "sd_last_flush st1 = sd_last_flush st"
    using sent(4) by (simp_all add: budget_frame_def)
  have read: "pace1 = pace" "fst (sv_utc env w1) = now" "fst (sv_monotonic env (snd (sv_utc env w1))) = stamp"
    using sent(7) assms(2) by simp_all
  from sent(1) show ?thesis
  proof (cases rule: transmit_cases)
    case (refused now)
    have "model_tuples_pending (sd_aggregator st') = []" by (simp add: model_tuples_pending_def refused(5))
    with refused(1-4,7) same sent(6) read show ?thesis by auto
  next
    case (granted now q st2 w2 stamp)
    then obtain bs where bs: "q = Inr bs" "res = Flushed (list_ex is_spooled bs) bs s" by (cases q) auto
    note sweep = flush_models_frame [OF granted(6)]
    have "length bs = length (model_tuples_pending (sd_aggregator st))"
      "ag_pending (sd_aggregator st') = fold AList.delete (model_tuples_pending (sd_aggregator st)) (ag_pending (sd_aggregator st))"
      using sweep bs(1) granted(4) sent(5) by auto
    moreover have "budget_frame st2 st'" using sweep by blast
    ultimately show ?thesis
      using bs(2) granted(1-3,8,9) same sent(2,6) read pending_after_all [of "sd_aggregator st'" "sd_aggregator st"]
      by (auto simp: budget_frame_def)
  qed
qed simp_all

text \<open>A probe with one staged result, in a world that counts its POSTs and answers 503.\<close>

definition example_sb :: signal_batch where
  "example_sb = \<lparr>sb_batch_id = ''b'', sb_client_id = ''c'', sb_window_start = ''aaa'', sb_window_end = ''aaaa'',
     sb_model_tuple = ''m'', sb_suite_version = ''v2.0.0'',
     sb_metrics = [(''avg_output_length'', 5), (''json_success_rate'', 1), (''result_count'', 1)],
     sb_canary_hashes = [(''p'', replicate 64 (CHR ''0''))], sb_result_count = 1, sb_fleet_id = None\<rparr>"

definition example_env :: "(unit, unit, nat) sdk_env" where
  "example_env = \<lparr>sv_expo = (\<lambda>_ g. (0, g)), sv_fromiso = unary_parse, sv_toiso = unary_stamp,
     sv_codec = example_codec\<lparr>sc_loads := (\<lambda>_. Some (sort_json (JObj (batch_to_dict example_sb))))\<rparr>,
     sv_sign = (\<lambda>_ _. replicate 64 7), sv_public_bytes = (\<lambda>_. replicate 32 9), sv_sha256_hex = (\<lambda>_. replicate 64 (CHR ''0'')),
     sv_int = (\<lambda>_. None), sv_str = (\<lambda>_. []), sv_write_ok = True, sv_uuid = (\<lambda>w. (''b'', w)),
     sv_monotonic = (\<lambda>w. (0, w)), sv_monotonic_ns = (\<lambda>w. (0, w)), sv_utc = (\<lambda>w. (3, w)), sv_epoch = (\<lambda>w. (2, w)),
     sv_post = (\<lambda>_ _ w. (Response 503 [] None, w + 1))\<rparr>"

definition example_probe :: "(unit, unit) probe_sdk" where
  "example_probe = \<lparr>sd_config = (default_config ''m'' ''h'' ''u'')\<lparr>pc_spool_dir := Some ''s''\<rparr>,
     sd_aggregator = full_aggregator, sd_active_span = None, sd_key = (),
     sd_accountant = \<lparr>dp_daily_budget = 10, dp_storage_path = None, dp_current_spend = 0, dp_window_start = 0\<rparr>,
     sd_disk = [], sd_spool = Some (example_spool\<lparr>sp_files := []\<rparr>), sd_last_flush = None\<rparr>"

lemma example_agg_flush:
  "agg_flush (\<lambda>_ g. (0, g)) unary_parse unary_stamp (\<lambda>_. True) ''b'' ''m'' None full_aggregator =
     (Inr example_sb, full_aggregator\<lparr>ag_pending := []\<rparr>)"
proof -
  define r0 where "r0 = (example_result 5 True)\<lparr>cr_timestamp := ''aaa''\<rparr>"
  have r0: "cr_timestamp r0 = ''aaa''" "cr_model_tuple r0 = ''m''" "cr_suite_version r0 = ''v2.0.0''"
    "cr_prompt_id r0 = ''p''" "cr_response_hash r0 = replicate 64 (CHR ''0'')" "cr_output_length r0 = 5" "cr_json_valid r0"
    "cr_tool_call_valid r0 = None" "cr_output_tokens r0 = None" "cr_reasoning_tokens r0 = None"
    by (simp_all add: r0_def example_result_def)
  have agg: "full_aggregator = \<lparr>ag_client_id = ''c'', ag_pending = [(''m'', [r0])], ag_rng = ()\<rparr>"
    by (simp add: full_aggregator_def r0_def add_result_def init_aggregator_def dict_get_def example_result_def)
  have window: "flush_window unary_parse unary_stamp [r0] = Inr (''aaa'', ''aaaa'')"
    by (simp add: flush_window_def r0 unary_parse_def unary_stamp_def utc_def numeral_eq_Suc Let_def)
  have sens: "metric_sensitivity ''avg_output_length'' 1 = Inr 320" "metric_sensitivity ''json_success_rate'' 1 = Inr 1"
    by (simp_all add: metric_sensitivity_def metric_bases_def MAX_OUTPUT_LENGTH_def)
  have metrics: "flush_metrics (\<lambda>_ g. (0, g)) [r0] () = Inr (sb_metrics example_sb, ())"
    by (simp add: flush_metrics_def noised_def sens laplace_noise_def tool_metric_def token_metric_def r0
        mean_over_def length_value_def json_value_def clamp_count_def MAX_OUTPUT_LENGTH_def example_sb_def
        py_round_def round_half_even_def)
  show ?thesis
    by (simp add: agg_flush_def agg dict_get_def window metrics r0 Let_def batch_post_init_def hashes_of_def)
       (simp add: example_sb_def batch_metric_keys_def)
qed

definition example_dry :: "(unit, unit) probe_sdk" where
  "example_dry = example_probe\<lparr>sd_config := (default_config ''m'' ''h'' ''u'')\<lparr>pc_dry_run := True\<rparr>\<rparr>"

lemma example_env_simps:
  "sv_expo example_env = (\<lambda>_ g. (0, g))" "sv_fromiso example_env = unary_parse" "sv_toiso example_env = unary_stamp"
  "sc_is_uuid (sv_codec example_env) = (\<lambda>_. True)" "sv_uuid example_env w = (''b'', w)" "sv_utc example_env w = (3, w)"
  "sv_write_ok example_env" "sv_monotonic example_env w = (0, w)"
  by (simp_all add: example_env_def example_codec_def)

lemma example_flush_model:
  assumes "pc_dry_run (sd_config st)" and "pc_fleet_id (sd_config st) = None" and "sd_aggregator st = full_aggregator"
  shows "flush_model example_env ''m'' st w = (Inr (DryRun ''b'' 1), st\<lparr>sd_aggregator := full_aggregator\<lparr>ag_pending := []\<rparr>\<rparr>, w)"
proof -
  have sb: "sb_batch_id example_sb = ''b''" "sb_result_count example_sb = 1" by (simp_all add: example_sb_def)
  show ?thesis by (simp add: flush_model_def example_env_simps assms example_agg_flush sb Let_def)
qed

lemma example_dry_flush:
  obtains st' where "sdk_flush example_env example_dry 0 = (Inr (Flushed False [DryRun ''b'' 1] None), st', 0)"
proof -
  have pending: "model_tuples_pending full_aggregator = [''m'']"
    by (simp add: model_tuples_pending_def full_aggregator_def add_result_def init_aggregator_def example_result_def Let_def)
  have cfg: "pc_dry_run (sd_config example_dry)" "pc_fleet_id (sd_config example_dry) = None"
    "sd_aggregator example_dry = full_aggregator" "sd_last_flush example_dry = None" "sd_disk example_dry = []"
    by (simp_all add: example_dry_def default_config_def example_probe_def)
  have "gate_grants (3, FLUSH_EPSILON) (sd_accountant example_dry)"
    by (simp add: gate_grants_def FLUSH_EPSILON_def due_def day_us_def example_dry_def example_probe_def)
  then obtain disk where gate: "budget_gate True (3, FLUSH_EPSILON) (sd_accountant example_dry, []) =
      ((gate_acc (3, FLUSH_EPSILON) (sd_accountant example_dry), disk), Inr ())"
    using flush_gate [of True 3 "sd_accountant example_dry" "[]"] by simp
  have drain: "drain_backlog example_env example_dry 0 = (Inr None, example_dry, 0)"
    by (simp add: drain_backlog_def cfg)
  have pace: "throttled example_env example_dry 0 = (None, 0)"
    by (simp add: throttled_def cfg Let_def)
  show ?thesis
    by (rule that)
      (simp add: sdk_flush_def drain pace transmit_def Let_def pending gate cfg example_env_simps example_flush_model
        del: budget_gate.simps)
qed

theorem flush_contract_witness:
  "\<exists>st'. sdk_flush example_env example_dry 0 = (Inr (Flushed False [DryRun ''b'' 1] None), st', 0)
     \<and> model_tuples_pending (sd_aggregator st') = [] \<and> sd_last_flush st' = Some 0
     \<and> sd_accountant st' = gate_acc (3, FLUSH_EPSILON) (sd_accountant example_dry)"
proof -
  obtain st' where run: "sdk_flush example_env example_dry 0 = (Inr (Flushed False [DryRun ''b'' 1] None), st', 0)"
    by (rule example_dry_flush)
  have "flush_readings example_env example_dry 0 = (None, 3, 0)"
    by (simp add: flush_readings_def drain_backlog_def example_env_simps) (simp add: example_dry_def default_config_def example_probe_def)
  from flush_contract [OF run this] run show ?thesis by auto
qed

text \<open>A dry run is offline. With \<open>dry_run\<close> set, a flush behaves the same whatever the network does, and leaves
  the spool alone; it is charged like any other.\<close>

lemma dry_flush_models:
  "pc_dry_run (sd_config st) \<Longrightarrow> flush_models (env\<lparr>sv_post := post\<rparr>) mts st w = flush_models env mts st w
     \<and> (case flush_models env mts st w of (r, st', w') \<Rightarrow> sd_spool st' = sd_spool st)"
proof (induction mts arbitrary: st w)
  case (Cons mt mts)
  have one: "flush_model (env\<lparr>sv_post := post\<rparr>) mt st w = flush_model env mt st w"
    using Cons.prems by (simp add: flush_model_def Let_def split: prod.split sum.split)
  obtain q st1 w1 where q: "flush_model env mt st w = (q, st1, w1)" by (metis prod.exhaust)
  then have st1: "sd_spool st1 = sd_spool st" "pc_dry_run (sd_config st1)"
    using Cons.prems by (auto simp: flush_model_def Let_def split: prod.splits sum.splits)
  from Cons.IH [OF st1(2), of w1] show ?case
    using st1(1) by (cases q) (auto simp: one q split: prod.split sum.split)
qed simp

lemma dry_flush_models_spool:
  "flush_models env mts st w = (r, st', w') \<Longrightarrow> pc_dry_run (sd_config st) \<Longrightarrow> sd_spool st' = sd_spool st"
  using dry_flush_models [where st = st and env = env and mts = mts and w = w] by auto

theorem dry_run_is_offline:
  assumes "pc_dry_run (sd_config st)"
  shows "sdk_flush (env\<lparr>sv_post := post\<rparr>) st w = sdk_flush env st w
     \<and> (case sdk_flush env st w of (r, st', w') \<Rightarrow> sd_spool st' = sd_spool st)"
proof -
  have dry: "drain_backlog e st w = (Inr None, st, w)" for e :: "('a, 'b, 'c) sdk_env"
    using assms by (simp add: drain_backlog_def)
  have throttle: "throttled (env\<lparr>sv_post := post\<rparr>) st w = throttled env st w"
    by (simp add: throttled_def Let_def split: option.split)
  have send: "transmit (env\<lparr>sv_post := post\<rparr>) mts s st v = transmit env mts s st v
      \<and> (case transmit env mts s st v of (r, st', w') \<Rightarrow> sd_spool st' = sd_spool st)" for mts s v
    using assms dry_flush_models [where env = env and post = post and mts = mts]
    by (auto simp: transmit_def Let_def simp del: budget_gate.simps split: prod.splits sum.splits py_error.splits
        dest: dry_flush_models_spool)
  obtain wait v where v: "throttled env st w = (wait, v)" by fastforce
  show ?thesis
    using send [of "model_tuples_pending (sd_aggregator st)" None v]
    by (cases wait) (simp_all add: sdk_flush_def dry throttle v Let_def)
qed

theorem dry_run_is_offline_witness:
  "sdk_flush (example_env\<lparr>sv_post := (\<lambda>_ _ w. (TransportFailure ''ConnectError'' [], w))\<rparr>) example_dry 0 =
     sdk_flush example_env example_dry 0"
  by (rule dry_run_is_offline [THEN conjunct1]) (simp add: example_dry_def)

text \<open>C20: A probe that is driven through its public operations keeps its invariant: it stages results of one model and
  one suite version only, so a flush never mixes versions and posts one batch for each charge
  of the budget; spend stays within the budget and the spool well formed. This holds after any sequence of
  span starts, attribute writes, span ends and flushes, failed ones included, from a budget file
  within the budget.\<close>

theorem reachable_probe_flushes_one_batch:
  assumes "init_sdk config key None client g now disk files quarantined = Inr st0" and "acc_ok (sd_accountant st0)"
    and "dict_wf files" and "sdk_reach env (st0, w0) (st, w)" and "sdk_flush env st w = (r, st', w')"
  shows "sdk_ok config st' \<and> model_tuples_pending (sd_aggregator st) \<in> {[], [pc_model_tuple config]}
     \<and> (\<forall>any bs s. r = Inr (Flushed any bs s) \<longrightarrow> length bs = 1)"
proof -
  have "sdk_ok config st0"
    using assms(1-3)
    by (auto simp: init_sdk_def sum_bind_Inr_iff sdk_ok_def init_aggregator_def queue_uniform_def init_spool_def spool_ok_def
        DEFAULT_MAX_FILES_def DEFAULT_MAX_AGE_HOURS_def split: if_splits)
  with sdk_reach_ok [OF assms(4)] have ok: "sdk_ok config st" by simp
  then have one: "model_tuples_pending (sd_aggregator st) \<in> {[], [pc_model_tuple config]}"
    by (intro queue_uniform_one) (simp add: sdk_ok_def)
  have "length bs = 1" if "r = Inr (Flushed any bs s)" for any bs s
    using assms(5)
  proof (cases rule: sdk_flush_cases)
    case (sent pace st1 w1 s')
    have single: "length (model_tuples_pending (sd_aggregator st)) = 1" using one sent(2) by auto
    from sent(1) show ?thesis
    proof (cases rule: transmit_cases)
      case (granted now q st2 w2 stamp)
      then have "q = Inr bs" using that by (cases q) auto
      with flush_models_frame [OF granted(6)] single show ?thesis by auto
    qed (use that in auto)
  qed (use that in auto)
  with sdk_flush_ok [OF ok assms(5)] one show ?thesis by blast
qed

theorem reachable_probe_flushes_one_batch_witness:
  "\<exists>st0 st r st' w'. init_sdk (default_config ''m'' ''h'' ''u'') () None ''c'' () 0 [] [] [] = Inr (st0 :: (unit, unit) probe_sdk)
     \<and> sdk_reach example_env (st0, 0) (st, 0) \<and> sdk_flush example_env st 0 = (r, st', w')
     \<and> model_tuples_pending (sd_aggregator st) = [''m''] \<and> sdk_ok (default_config ''m'' ''h'' ''u'') st'"
proof -
  let ?c = "default_config ''m'' ''h'' ''u''"
  obtain st0 :: "(unit, unit) probe_sdk" where init: "init_sdk ?c () None ''c'' () 0 [] [] [] = Inr st0"
    and st0: "acc_ok (sd_accountant st0)" "ag_pending (sd_aggregator st0) = []" "sd_active_span st0 = None" "sd_config st0 = ?c"
    by (simp add: init_sdk_def default_config_def init_accountant_def load_budget_def acc_ok_def init_aggregator_def)
  obtain q st1 where start: "start_canary_span example_env 3 st0 0 = (q, st1, 0)" and st1: "sd_active_span st1 \<noteq> None"
      "oc_model_tuple (the (sd_active_span st1)) = ''m''" "oc_attributes (the (sd_active_span st1)) = []"
      "ag_pending (sd_aggregator st1) = []"
    by (simp add: start_canary_span_def st0 example_env_def default_config_def Let_def)
  obtain st2 where finish: "finish_canary_span example_env ''OK'' None st1 0 = (Inr (), st2, 0)"
    and st2: "model_tuples_pending (sd_aggregator st2) = [''m'']"
    using st1
    by (auto simp: finish_canary_span_def example_env_def span_counters_def dict_get_def Let_def add_result_def
        model_tuples_pending_def)
  have reach: "sdk_reach example_env (st0, 0) (st2, 0)"
    by (rule reach_step [OF reach_step [OF reach_start step_start [OF start]] step_finish [OF finish]])
  obtain r st' w' where run: "sdk_flush example_env st2 0 = (r, st', w')" by (metis prod.exhaust)
  have "sdk_ok ?c st'"
    using reachable_probe_flushes_one_batch [OF init st0(1) _ reach run] by simp
  with init reach run st2 show ?thesis by blast
qed

text \<open>A signed batch of the aggregator is always put, and its file reads back as the same bytes under headers that verify.\<close>

lemma signed_batch_put:
  fixes now :: real
  assumes "agg_flush expo fromiso toiso (sc_is_uuid (sv_codec env)) fresh mt fleet ag = (Inr sb, ag')"
    and "list_all (\<lambda>r. hex_text 64 (cr_response_hash r)) (dict_get (ag_pending ag) mt [])"
    and "sc_loads (sv_codec env) (batch_body env sb) = Some (sort_json (JObj (batch_to_dict sb)))"
    and "sc_canonical (sv_codec env) (sort_json (JObj (batch_to_dict sb))) = batch_body env sb"
    and "sc_b64decode (sv_codec env) (sc_b64encode (sv_codec env) (batch_body env sb)) = Some (batch_body env sb)"
    and "length (sv_sign env sk (batch_body env sb)) = 64" and "length (sv_public_bytes env sk) = 32"
  defines "sign \<equiv> [(''x-signature'', bytes_hex (sv_sign env sk (batch_body env sb))), (''x-public-key'', public_key_hex (sv_public_bytes env) sk)]"
    and "name \<equiv> file_name now (sb_batch_id sb)"
  defines "content \<equiv> file_record (sv_codec env) now (sb_batch_id sb) (batch_body env sb) sign"
  shows "spool_put (sv_codec env) now (batch_body env sb) (batch_headers env sk sb) sp =
       Inr (name, enforce_cap (sp\<lparr>sp_files := AList.update name (Some content) (sp_files sp)\<rparr>))"
    and "spool_load (sv_codec env) path (Some content) = Inr \<lparr>se_path = path, se_batch_id = sb_batch_id sb, se_created_at = Some now,
       se_body = batch_body env sb, se_headers = AList.update ''Content-Type'' ''application/json'' sign\<rparr>"
    and "load_pub (sv_public_bytes env sk) = Some pk \<Longrightarrow> verify pk (sv_sign env sk (batch_body env sb)) (batch_body env sb) \<Longrightarrow>
       verify_signature load_pub verify (batch_body env sb) 
         (dict_get (AList.update ''Content-Type'' ''application/json'' sign) ''x-signature'' [])
         (dict_get (AList.update ''Content-Type'' ''application/json'' sign) ''x-public-key'' [])"
proof -
  have body: "validate_body (sv_codec env) (batch_body env sb) = Inr (sb_batch_id sb)"
    unfolding batch_body_def using flushed_batch_shaped [OF assms(1)] assms(2-4) by (simp only: batch_body_def list_all_iff)
  note head = batch_headers_check [OF assms(6,7)]
  show "spool_put (sv_codec env) now (batch_body env sb) (batch_headers env sk sb) sp =
       Inr (name, enforce_cap (sp\<lparr>sp_files := AList.update name (Some content) (sp_files sp)\<rparr>))"
    by (simp add: spool_put_def body head name_def content_def sign_def Let_def)
  show "spool_load (sv_codec env) path (Some content) = Inr \<lparr>se_path = path, se_batch_id = sb_batch_id sb, se_created_at = Some now,
       se_body = batch_body env sb, se_headers = AList.update ''Content-Type'' ''application/json'' sign\<rparr>"
    unfolding content_def sign_def by (rule spool_load_record [OF assms(5) body head])
  have "sv_sign env sk (batch_body env sb) \<noteq> []" "sv_public_bytes env sk \<noteq> []" using assms(6,7) by auto
  then show "verify_signature load_pub verify (batch_body env sb) 
         (dict_get (AList.update ''Content-Type'' ''application/json'' sign) ''x-signature'' [])
         (dict_get (AList.update ''Content-Type'' ''application/json'' sign) ''x-public-key'' [])"
    if "load_pub (sv_public_bytes env sk) = Some pk" "verify pk (sv_sign env sk (batch_body env sb)) (batch_body env sb)"
    using that by (simp add: verify_signature_def public_key_hex_def bytes_fromhex_hex bytes_hex_Nil sign_def dict_get_def)
qed

text \<open>What the cap leaves under a name is what was there.\<close>

text \<open>C11: A failed POST loses nothing when a spool with room is configured. For a batch the aggregator emitted, a transport failure
  or a 5xx answer is not an error of the flush: the report says spooled, the exact signed bytes are a file that waits last in the spool, and reading it back
  gives the same body under headers the gateway verifies. Below the cap every file that waited still does; at the cap only the oldest
  ones go, and the files that stay are unchanged. Assumed: the waiting files carry earlier millisecond stamps, the JSON codec reads its own canonical output, base64 decodes what it
  encoded, response hashes are 64 hex digits, Ed25519 signatures have 64 bytes and public keys 32, public keys
  load back and signatures verify.\<close>

theorem failed_post_is_kept_verifiably:
  assumes "agg_flush expo fromiso toiso (sc_is_uuid (sv_codec env)) fresh mt fleet ag = (Inr sb, ag')"
    and "\<And>r. r \<in> set (dict_get (ag_pending ag) mt []) \<Longrightarrow> hex_text 64 (cr_response_hash r)"
    and "sc_loads (sv_codec env) (batch_body env sb) = Some (sort_json (JObj (batch_to_dict sb)))"
    and "sc_canonical (sv_codec env) (sort_json (JObj (batch_to_dict sb))) = batch_body env sb"
    and "sc_b64decode (sv_codec env) (sc_b64encode (sv_codec env) (batch_body env sb)) = Some (batch_body env sb)"
    and "length (sv_sign env (sd_key st) (batch_body env sb)) = 64" and "length (sv_public_bytes env (sd_key st)) = 32"
    and "load_pub (sv_public_bytes env (sd_key st)) = Some pk" and "verify pk (sv_sign env (sd_key st) (batch_body env sb)) (batch_body env sb)"
    and "sd_spool st = Some sp" and "sv_post env (batch_body env sb) (batch_headers env (sd_key st) sb) w = (outcome, w1)"
    and "(case outcome of Response status text reply \<Rightarrow> 500 \<le> status | TransportFailure name msg \<Rightarrow> True | OtherFailure name msg \<Rightarrow> False)"
    and "sv_epoch env w1 = (now, w2)"
    and "spool_ok sp" and "nat (py_int (now * 1000)) < 10 ^ 15"
    and "\<And>n. n \<in> set (waiting sp) \<Longrightarrow> \<exists>t i. n = file_name t i \<and> nat (py_int (t * 1000)) < nat (py_int (now * 1000))"
  shows "\<exists>reason name sp' content e.
       post_batch env sb st w = (Inr (SpooledBatch (sb_batch_id sb) reason), st\<lparr>sd_spool := Some sp'\<rparr>, w2)
     \<and> waiting sp' = drop (nat (int (Suc (length (waiting sp))) - sp_max_files sp)) (waiting sp) @ [name]
     \<and> (\<forall>n. n \<in> set (waiting sp') \<and> n \<noteq> name \<longrightarrow> map_of (sp_files sp') n = map_of (sp_files sp) n)
     \<and> map_of (sp_files sp') name = Some content \<and> spool_load (sv_codec env) name content = Inr e \<and> se_body e = batch_body env sb
     \<and> verify_signature load_pub verify (se_body e) (dict_get (se_headers e) ''x-signature'' []) (dict_get (se_headers e) ''x-public-key'' [])"
proof -
  have "list_all (\<lambda>r. hex_text 64 (cr_response_hash r)) (dict_get (ag_pending ag) mt [])" using assms(2) by (simp add: list_all_iff)
  note kept = signed_batch_put [OF assms(1) this assms(3-7)]
  let ?sign = "[(''x-signature'', bytes_hex (sv_sign env (sd_key st) (batch_body env sb))), (''x-public-key'', public_key_hex (sv_public_bytes env) (sd_key st))]"
  define name where "name = file_name now (sb_batch_id sb)"
  define content where "content = Some (file_record (sv_codec env) now (sb_batch_id sb) (batch_body env sb) ?sign)"
  define sp' where "sp' = enforce_cap (sp\<lparr>sp_files := AList.update name content (sp_files sp)\<rparr>)"
  have put: "spool_put (sv_codec env) now (batch_body env sb) (batch_headers env (sd_key st) sb) sp = Inr (name, sp')"
    by (simp add: kept(1) name_def sp'_def content_def)
  have later: "n < name" if "n \<in> set (waiting sp)" for n
    using assms(16) [OF that] file_name_less [OF _ assms(15)] by (auto simp: name_def)
  note queued = put_queue [OF assms(14) later file_name_suffix [of now "sb_batch_id sb", folded name_def], of content, folded sp'_def]
  obtain reason where "post_batch env sb st w = (Inr (SpooledBatch (sb_batch_id sb) reason), st\<lparr>sd_spool := Some sp'\<rparr>, w2)"
    using assms(10-13) by (cases outcome) (auto simp: post_batch_def keep_batch_def put)
  moreover obtain e where "spool_load (sv_codec env) name content = Inr e" "se_body e = batch_body env sb"
    "verify_signature load_pub verify (se_body e) (dict_get (se_headers e) ''x-signature'' []) (dict_get (se_headers e) ''x-public-key'' [])"
    using kept(2) [of name now] kept(3) [of load_pub pk verify, OF assms(8,9)] by (auto simp: content_def)
  ultimately show ?thesis using queued by blast
qed

theorem failed_post_is_kept_verifiably_witness:
  "\<exists>reason sp' name content. post_batch example_env example_sb example_probe 0 =
     (Inr (SpooledBatch ''b'' reason), example_probe\<lparr>sd_spool := Some sp'\<rparr>, 1)
     \<and> waiting sp' = [name] \<and> map_of (sp_files sp') name = Some content"
proof -
  let ?same = "\<lambda>pk s m. True" and ?sp = "example_spool\<lparr>sp_files := []\<rparr>" and ?codec = "sv_codec example_env"
  have codec: "sc_is_uuid ?codec = (\<lambda>_. True)" "sb_batch_id example_sb = ''b''" "batch_body example_env example_sb = [1]"
    by (simp_all add: example_env_def example_codec_def example_sb_def batch_body_def)
  have rs: "r \<in> set (dict_get (ag_pending full_aggregator) ''m'' []) \<Longrightarrow> hex_text 64 (cr_response_hash r)" for r
    by (auto simp: full_aggregator_def add_result_def init_aggregator_def example_result_def dict_get_def hex_text_def)
  have json: "sc_loads ?codec [1] = Some (sort_json (JObj (batch_to_dict example_sb)))"
    "sc_canonical ?codec (sort_json (JObj (batch_to_dict example_sb))) = [1]" "sc_b64decode ?codec (sc_b64encode ?codec [1]) = Some [1]"
    by (simp_all add: example_env_def example_codec_def)
  have keys: "length (sv_sign example_env k [1]) = 64" "length (sv_public_bytes example_env k) = 32"
    "Some (sv_public_bytes example_env k) = Some (replicate 32 9)" for k
    by (simp_all add: example_env_def)
  have world: "sd_spool example_probe = Some ?sp" "sv_post example_env body hs 0 = (Response 503 [] None, 1)" "sv_epoch example_env 1 = (2, 1)" for body hs
    by (simp_all add: example_probe_def example_env_def)
  have room: "spool_ok ?sp" "waiting ?sp = []" "sp_max_files ?sp = 1" "nat (py_int (2 * 1000)) < 10 ^ 15"
    by (simp_all add: spool_ok_def example_spool_def waiting_def py_int_def)
  note kept = failed_post_is_kept_verifiably [where env = example_env and st = example_probe and sb = example_sb and load_pub = Some
      and verify = ?same and pk = "replicate 32 9" and sp = ?sp and outcome = "Response 503 [] None" and now = 2 and w = 0 and ?w1.0 = 1 and ?w2.0 = 1,
      unfolded codec, OF example_agg_flush rs json keys TrueI world(1,2) _ world(3) room(1,4)]
  show ?thesis using kept by (fastforce simp: room(2,3))
qed

end
