(* ===== verification/CompareRun.thy ===== *)
theory CompareRun
  imports Canary Auth
begin

section \<open>Calls of a comparison (first part of probe/compare.py)\<close>

text \<open>
  The suite file of the user, the observation of one call, the classification of failures and
  the \<open>Side\<close> state machine that asks one model, with retries, the temperature fallback
  and the stop after a fatal failure. A side calls its model through \<open>cs_caller\<close> and sleeps through
  \<open>cs_sleep\<close>, both on a world of type \<open>'w\<close>. Text is ASCII, so the typographic apostrophe that the
  refusal detector normalises does not occur. The progress callback prints and is left out.
\<close>

subsection \<open>Constants\<close>

definition MAX_ITEMS :: nat where
  "MAX_ITEMS = 200"

definition MAX_RETRIES :: nat where
  "MAX_RETRIES = 2"

definition RETRY_BASE_S :: real where
  "RETRY_BASE_S = 1"

definition TEMP_ZERO :: string where
  "TEMP_ZERO = ''0''"

definition TEMP_DEFAULT :: string where
  "TEMP_DEFAULT = ''provider default''"

definition RETRYABLE :: "string list" where
  "RETRYABLE = [''rate_limit'', ''provider_error'']"

definition FATAL :: "string list" where
  "FATAL = [''auth'', ''quota'']"

definition QUOTA_CODE_HINTS :: "string list" where
  "QUOTA_CODE_HINTS = [''quota'', ''billing'', ''credit'', ''insufficient'']"

definition REFUSAL_PATTERNS :: "string list" where
  "REFUSAL_PATTERNS =
     [''i can't help'', ''i cannot help'', ''i can't assist'', ''i cannot assist'', ''i can't provide'',
      ''i cannot provide'', ''i can't comply'', ''i cannot comply'', ''i won't be able'', ''i'm not able to'',
      ''i am not able to'', ''i'm unable to'', ''i am unable to'', ''i'm sorry, but i'', ''i am sorry, but i'',
      ''i must decline'', ''as an ai'']"

definition REFUSAL_WINDOW :: nat where
  "REFUSAL_WINDOW = 300"

subsection \<open>The suite\<close>

record suite_item =
  it_id :: string
  it_user :: string
  it_system :: "string option"
  it_expect_json :: bool

text \<open>\<^verbatim>\<open>str.splitlines\<close> and \<^verbatim>\<open>str.strip\<close> on ASCII text.\<close>

definition line_end :: "char \<Rightarrow> bool" where
  "line_end c \<longleftrightarrow> (of_char c :: nat) \<in> {10, 11, 12, 13, 28, 29, 30}"

definition py_space :: "char \<Rightarrow> bool" where
  "py_space c \<longleftrightarrow> (of_char c :: nat) \<in> {9, 10, 11, 12, 13, 28, 29, 30, 31, 32}"

fun split_lines :: "string \<Rightarrow> string \<Rightarrow> string list" where
  "split_lines cur [] = (if cur = [] then [] else [cur])"
| "split_lines cur [c] = [if line_end c then cur else cur @ [c]]"
| "split_lines cur (c # d # s) =
     (if c = CHR 0x0D \<and> d = CHR 0x0A then cur # split_lines [] s
      else if line_end c then cur # split_lines [] (d # s)
      else split_lines (cur @ [c]) (d # s))"

definition blank :: "string \<Rightarrow> bool" where
  "blank s \<longleftrightarrow> list_all py_space s"

definition suite_error :: "nat \<Rightarrow> string \<Rightarrow> py_error" where
  "suite_error n message = ValueError (''line '' @ digits_of n @ '': '' @ message)"

fun nonempty_str :: "json \<Rightarrow> string option" where
  "nonempty_str (JStr s) = (if s = [] then None else Some s)"
| "nonempty_str _ = None"

text \<open>The object of one line, with the ids seen before.\<close>

definition suite_item_of :: "nat \<Rightarrow> string set \<Rightarrow> (string, json) dict \<Rightarrow> py_error + suite_item" where
  "suite_item_of n seen obj =
     (case nonempty_str (dict_get obj ''id'' JNull) of
        None \<Rightarrow> Inl (suite_error n ''id must be a non-empty string'')
      | Some item_id \<Rightarrow>
          if item_id \<in> seen then Inl (suite_error n ''duplicate id'')
          else (case nonempty_str (dict_get obj ''user'' JNull) of
                  None \<Rightarrow> Inl (suite_error n ''user must be a non-empty string'')
                | Some user \<Rightarrow>
                    (let system = dict_get obj ''system'' JNull; expect = dict_get obj ''expect_json'' (JBool False)
                     in if system \<noteq> JNull \<and> \<not> is_str system then Inl (suite_error n ''system must be a string'')
                        else case expect of
                               JBool b \<Rightarrow> Inr \<lparr>it_id = item_id, it_user = user, it_system = nonempty_str system, it_expect_json = b\<rparr>
                             | _ \<Rightarrow> Inl (suite_error n ''expect_json must be true/false''))))"

fun suite_items ::
  "(string \<Rightarrow> json option) \<Rightarrow> string set \<Rightarrow> (nat \<times> string) list \<Rightarrow> py_error + suite_item list" where
  "suite_items loads seen [] = Inr []"
| "suite_items loads seen ((n, line) # lines) =
     (case loads line of
        None \<Rightarrow> Inl (suite_error n ''not valid JSON'')
      | Some (JObj obj) \<Rightarrow>
          sum_bind (suite_item_of n seen obj)
            (\<lambda>item. sum_bind (suite_items loads (insert (it_id item) seen) lines) (\<lambda>items. Inr (item # items)))
      | Some _ \<Rightarrow> Inl (suite_error n ''expected a JSON object''))"

definition load_suite ::
  "(bytes \<Rightarrow> string option) \<Rightarrow> (string \<Rightarrow> json option) \<Rightarrow> (bytes \<Rightarrow> string) \<Rightarrow> bytes \<Rightarrow> py_error + suite_item list \<times> string" where
  "load_suite decode loads sha256 raw =
     (case decode raw of
        None \<Rightarrow> Inl (ValueError ''suite is not UTF-8'')
      | Some text \<Rightarrow>
          (let lines = filter (\<lambda>(n, line). \<not> blank line) (enumerate 1 (split_lines [] text))
           in if length lines > MAX_ITEMS then Inl (ValueError ''Refused, not truncated: split the suite.'')
              else if lines = [] then Inl (ValueError ''suite is empty'')
              else sum_bind (suite_items loads {} lines) (\<lambda>items. Inr (items, sha256 raw))))"

subsection \<open>Observations\<close>

record observation =
  ob_failure :: "string option"
  ob_text :: string
  ob_hash :: "string option"
  ob_length :: "int option"
  ob_finish_reason :: "string option"
  ob_empty :: "bool option"
  ob_json_valid :: "bool option"
  ob_refusal :: "bool option"
  ob_latency_ms :: "int option"
  ob_output_tokens :: "int option"
  ob_reasoning_tokens :: "int option"
  ob_returned_model :: "string option"

definition failed_observation :: "string \<Rightarrow> observation" where
  "failed_observation failure =
     \<lparr>ob_failure = Some failure, ob_text = [], ob_hash = None, ob_length = None, ob_finish_reason = None,
      ob_empty = None, ob_json_valid = None, ob_refusal = None, ob_latency_ms = None, ob_output_tokens = None,
      ob_reasoning_tokens = None, ob_returned_model = None\<rparr>"

definition ob_valid :: "observation \<Rightarrow> bool" where
  "ob_valid o1 \<longleftrightarrow> ob_failure o1 = None"

definition is_refusal :: "string \<Rightarrow> bool" where
  "is_refusal text =
     (let head = map lower_char (take REFUSAL_WINDOW text) in list_ex (\<lambda>p. sublist p head) REFUSAL_PATTERNS)"

definition observe :: "'w canary_env \<Rightarrow> suite_item \<Rightarrow> completion_result \<Rightarrow> observation" where
  "observe cenv item res =
     (let text = cm_text res
      in \<lparr>ob_failure = None, ob_text = text, ob_hash = Some (ce_sha256 cenv text), ob_length = Some (int (length text)),
          ob_finish_reason = cm_finish_reason res, ob_empty = Some (blank text),
          ob_json_valid = (if it_expect_json item then Some (is_json_valid cenv text) else None),
          ob_refusal = Some (is_refusal text), ob_latency_ms = Some (cm_latency_ms res),
          ob_output_tokens = cm_output_tokens res, ob_reasoning_tokens = cm_reasoning_tokens res,
          ob_returned_model = cm_returned_model res\<rparr>)"

definition classify :: "provider_error \<Rightarrow> string" where
  "classify exc =
     (let code = map lower_char (case pe_error_code exc of None \<Rightarrow> [] | Some c \<Rightarrow> c);
          kind = pe_failure_kind exc
      in case pe_status_code exc of
           Some status \<Rightarrow>
             if status \<in> {401, 403} then ''auth''
             else if status = 402 then ''quota''
             else if status = 429
             then if list_ex (\<lambda>h. sublist h code) QUOTA_CODE_HINTS then ''quota'' else ''rate_limit''
             else if 500 \<le> status then ''provider_error'' else ''bad_request''
         | None \<Rightarrow>
             if kind = Some ''timeout'' then ''timeout''
             else if kind \<in> {Some ''bad_body'', Some ''bad_schema''} then ''provider_error'' else ''network'')"

subsection \<open>One side\<close>

type_synonym 'w caller = "suite_item \<Rightarrow> bool \<Rightarrow> 'w \<Rightarrow> (call_error + completion_result) \<times> 'w"

record 'w side =
  cs_label :: string
  cs_requested :: string
  cs_caller :: "'w caller"
  cs_delay_s :: real
  cs_sleep :: "real \<Rightarrow> 'w \<Rightarrow> 'w"
  cs_send_temperature :: bool
  cs_temperature :: string
  cs_fallback_tried :: bool
  cs_fatal :: "string option"
  cs_calls_made :: nat

definition init_side :: "string \<Rightarrow> string \<Rightarrow> 'w caller \<Rightarrow> int \<Rightarrow> (real \<Rightarrow> 'w \<Rightarrow> 'w) \<Rightarrow> 'w side" where
  "init_side label requested caller delay_ms sleep =
     \<lparr>cs_label = label, cs_requested = requested, cs_caller = caller, cs_delay_s = of_int (max delay_ms 0) / 1000,
      cs_sleep = sleep, cs_send_temperature = True, cs_temperature = TEMP_ZERO, cs_fallback_tried = False,
      cs_fatal = None, cs_calls_made = 0\<rparr>"

text \<open>\<^verbatim>\<open>_call\<close>: the delay is slept after success and failure alike.\<close>

definition call_side ::
  "'w side \<Rightarrow> suite_item \<Rightarrow> bool \<Rightarrow> 'w \<Rightarrow> (call_error + completion_result) \<times> 'w side \<times> 'w" where
  "call_side side item send_temperature w =
     (case cs_caller side item send_temperature w of
        (r, w) \<Rightarrow> (r, side\<lparr>cs_calls_made := cs_calls_made side + 1\<rparr>,
                   if cs_delay_s side \<noteq> 0 then cs_sleep side (cs_delay_s side) w else w))"

definition note_fatal :: "string \<Rightarrow> 'w side \<Rightarrow> 'w side" where
  "note_fatal cls side = (if cls \<in> set FATAL then side\<lparr>cs_fatal := Some cls\<rparr> else side)"

definition temperature_fallback ::
  "'w canary_env \<Rightarrow> suite_item \<Rightarrow> 'w side \<Rightarrow> 'w \<Rightarrow> (py_error + observation) \<times> 'w side \<times> 'w" where
  "temperature_fallback cenv item side w =
     (case call_side (side\<lparr>cs_fallback_tried := True\<rparr>) item False w of
        (Inl (CallProvider exc), side, w) \<Rightarrow>
          (let cls = classify exc in (Inr (failed_observation cls), note_fatal cls side, w))
      | (Inl (CallRaised e), side, w) \<Rightarrow> (Inl e, side, w)
      | (Inr res, side, w) \<Rightarrow>
          (Inr (observe cenv item res),
           side\<lparr>cs_send_temperature := False, cs_temperature := TEMP_DEFAULT\<rparr>, w))"

text \<open>The loop of \<^verbatim>\<open>ask\<close>, with the number of retries made.\<close>

function ask_loop ::
  "'w canary_env \<Rightarrow> suite_item \<Rightarrow> nat \<Rightarrow> 'w side \<Rightarrow> 'w \<Rightarrow> (py_error + observation) \<times> 'w side \<times> 'w" where
  "ask_loop cenv item retries side w =
     (case call_side side item (cs_send_temperature side) w of
        (Inl (CallRaised e), side, w) \<Rightarrow> (Inl e, side, w)
      | (Inr res, side, w) \<Rightarrow> (Inr (observe cenv item res), side, w)
      | (Inl (CallProvider exc), side, w) \<Rightarrow>
          if pe_status_code exc = Some 400 \<and> cs_send_temperature side \<and> \<not> cs_fallback_tried side
          then temperature_fallback cenv item side w
          else let cls = classify exc
               in if cls \<in> set RETRYABLE \<and> retries < MAX_RETRIES
                  then ask_loop cenv item (retries + 1) side (cs_sleep side (RETRY_BASE_S * 2 ^ retries) w)
                  else (Inr (failed_observation cls), note_fatal cls side, w))"
  by pat_completeness auto
termination
  by (relation "measure (\<lambda>(cenv, item, retries, side, w). MAX_RETRIES - retries)") auto

declare ask_loop.simps [simp del]

definition ask_side :: "'w canary_env \<Rightarrow> suite_item \<Rightarrow> 'w side \<Rightarrow> 'w \<Rightarrow> (py_error + observation) \<times> 'w side \<times> 'w" where
  "ask_side cenv item side w =
     (if cs_fatal side \<noteq> None then (Inr (failed_observation ''not_attempted''), side, w)
      else ask_loop cenv item 0 side w)"

subsection \<open>All calls\<close>

type_synonym observations = "(string, (string, observation list) dict) dict"

definition add_observation :: "string \<Rightarrow> string \<Rightarrow> observation \<Rightarrow> observations \<Rightarrow> observations" where
  "add_observation label item_id o1 obs =
     (let of_side = dict_get obs label []
      in AList.update label (AList.update item_id (dict_get of_side item_id [] @ [o1]) of_side) obs)"

text \<open>One item on every side, one round over the items, and the rounds; an exception ends the run.\<close>

fun ask_sides ::
  "'w canary_env \<Rightarrow> suite_item \<Rightarrow> 'w side list \<Rightarrow> observations \<Rightarrow> 'w \<Rightarrow> (py_error + observations) \<times> 'w side list \<times> 'w" where
  "ask_sides cenv item [] obs w = (Inr obs, [], w)"
| "ask_sides cenv item (side # sides) obs w =
     (case ask_side cenv item side w of
        (Inl e, side, w) \<Rightarrow> (Inl e, side # sides, w)
      | (Inr o1, side, w) \<Rightarrow>
          (case ask_sides cenv item sides (add_observation (cs_label side) (it_id item) o1 obs) w of
             (r, sides, w) \<Rightarrow> (r, side # sides, w)))"

fun ask_items ::
  "'w canary_env \<Rightarrow> suite_item list \<Rightarrow> 'w side list \<Rightarrow> observations \<Rightarrow> 'w \<Rightarrow> (py_error + observations) \<times> 'w side list \<times> 'w" where
  "ask_items cenv [] sides obs w = (Inr obs, sides, w)"
| "ask_items cenv (item # items) sides obs w =
     (case ask_sides cenv item sides obs w of
        (Inl e, sides, w) \<Rightarrow> (Inl e, sides, w)
      | (Inr obs, sides, w) \<Rightarrow> ask_items cenv items sides obs w)"

fun ask_rounds ::
  "'w canary_env \<Rightarrow> nat \<Rightarrow> suite_item list \<Rightarrow> 'w side list \<Rightarrow> observations \<Rightarrow> 'w
    \<Rightarrow> (py_error + observations) \<times> 'w side list \<times> 'w" where
  "ask_rounds cenv 0 items sides obs w = (Inr obs, sides, w)"
| "ask_rounds cenv (Suc k) items sides obs w =
     (case ask_items cenv items sides obs w of
        (Inl e, sides, w) \<Rightarrow> (Inl e, sides, w)
      | (Inr obs, sides, w) \<Rightarrow> ask_rounds cenv k items sides obs w)"

definition no_observations :: "suite_item list \<Rightarrow> 'w side list \<Rightarrow> observations" where
  "no_observations items sides =
     fold (\<lambda>side. AList.update (cs_label side) (fold (\<lambda>item. AList.update (it_id item) []) items [])) sides []"

definition run_calls ::
  "'w canary_env \<Rightarrow> suite_item list \<Rightarrow> 'w side list \<Rightarrow> nat \<Rightarrow> 'w \<Rightarrow> (py_error + observations) \<times> 'w side list \<times> 'w" where
  "run_calls cenv items sides repeats w = ask_rounds cenv repeats items sides (no_observations items sides) w"

text \<open>The caller of a provider client.\<close>

definition provider_caller ::
  "(json \<Rightarrow> string) \<Rightarrow> (json \<Rightarrow> string) \<Rightarrow> ('w \<Rightarrow> real) \<Rightarrow> 'w transport \<Rightarrow> chat_provider \<Rightarrow> string \<Rightarrow> 'w caller" where
  "provider_caller dumps dumps_sorted perf transport p model item send_temperature w =
     complete_ex dumps dumps_sorted perf transport p model (it_system item) (it_user item)
       (default_options\<lparr>co_send_temperature := send_temperature, co_allow_null_content := True\<rparr>) w"

subsection \<open>Lemmas: what an answer may hold\<close>

text \<open>
  A usable observation: either a failure of one of the nine classes with every feature absent, or an answer with its
  hash, length, emptiness and refusal flag.
\<close>

definition FAILURES :: "string list" where
  "FAILURES = [''auth'', ''quota'', ''rate_limit'', ''provider_error'', ''bad_request'', ''timeout'', ''network'', ''not_attempted'']"

definition ob_ok :: "'w canary_env \<Rightarrow> observation \<Rightarrow> bool" where
  "ob_ok cenv o1 \<longleftrightarrow>
     (case ob_failure o1 of
        Some cls \<Rightarrow> cls \<in> set FAILURES \<and> o1 = failed_observation cls
      | None \<Rightarrow> ob_hash o1 = Some (ce_sha256 cenv (ob_text o1)) \<and> ob_length o1 = Some (int (length (ob_text o1)))
          \<and> ob_empty o1 = Some (blank (ob_text o1)) \<and> ob_refusal o1 = Some (is_refusal (ob_text o1)) \<and> ob_latency_ms o1 \<noteq> None)"

lemma observe_ok [simp]: "ob_ok cenv (observe cenv item res)"
  by (simp add: ob_ok_def observe_def Let_def)

lemma failed_observation_ok [simp]: "ob_ok cenv (failed_observation cls) \<longleftrightarrow> cls \<in> set FAILURES"
  by (simp add: ob_ok_def failed_observation_def)

lemma classify_failure [simp]: "classify exc \<in> set FAILURES - {''not_attempted''}"
  by (auto simp: classify_def FAILURES_def Let_def split: option.split)

subsection \<open>Lemmas: what a call may change\<close>

text \<open>
  A step of a side that is asked at least \<open>j\<close> and at most \<open>k\<close> times: identity and caller stay, every question
  costs at most one call and \<open>MAX_RETRIES\<close> retries, the one call of the temperature fallback is paid by the flag,
  and a side that failed for good is left alone. A caller \<open>answers_or_fails\<close> when it raises nothing but a
  \<^verbatim>\<open>ProviderError\<close>.
\<close>

definition answers_or_fails :: "'w side \<Rightarrow> bool" where
  "answers_or_fails s \<longleftrightarrow> (\<forall>item t w e. fst (cs_caller s item t w) \<noteq> Inl (CallRaised e))"

definition side_step :: "nat \<Rightarrow> nat \<Rightarrow> 'w side \<Rightarrow> 'w side \<Rightarrow> bool" where
  "side_step j k s s' \<longleftrightarrow> cs_label s' = cs_label s \<and> cs_requested s' = cs_requested s \<and> cs_caller s' = cs_caller s
     \<and> cs_calls_made s' + of_bool (cs_fallback_tried s) \<le> cs_calls_made s + k * (1 + MAX_RETRIES) + of_bool (cs_fallback_tried s')
     \<and> (cs_fatal s' = None \<longrightarrow> cs_calls_made s + j \<le> cs_calls_made s')
     \<and> (cs_fatal s \<noteq> None \<longrightarrow> s' = s)"

lemma side_step_refl [simp]: "side_step 0 k s s"
  by (simp add: side_step_def)

lemma side_step_trans: "side_step j k s t \<Longrightarrow> side_step j' k' t u \<Longrightarrow> side_step (j + j') (k + k') s u"
  unfolding side_step_def by (cases "cs_fatal t") (auto simp: algebra_simps)

lemma side_step_weaken: "side_step j k s t \<Longrightarrow> j' \<le> j \<Longrightarrow> side_step j' k s t"
  unfolding side_step_def by auto

lemma note_fatal_simps [simp]:
  "cs_label (note_fatal cls s) = cs_label s" "cs_requested (note_fatal cls s) = cs_requested s"
  "cs_calls_made (note_fatal cls s) = cs_calls_made s" "cs_caller (note_fatal cls s) = cs_caller s" "cs_fallback_tried (note_fatal cls s) = cs_fallback_tried s"
  by (simp_all add: note_fatal_def)

lemma call_side_state:
  "call_side s item temp w = (r, s', w') \<Longrightarrow> s' = s\<lparr>cs_calls_made := cs_calls_made s + 1\<rparr>"
  by (auto simp: call_side_def split: prod.splits)

lemma call_side_raised: "call_side s item temp w = (Inl (CallRaised e), s', w') \<Longrightarrow> \<not> answers_or_fails s"
  by (auto simp: call_side_def answers_or_fails_def split: prod.splits) (metis fst_conv)

lemma temperature_fallback_step:
  assumes "temperature_fallback cenv item s w = (r, s', w')"
  shows "cs_label s' = cs_label s \<and> cs_requested s' = cs_requested s \<and> cs_caller s' = cs_caller s
      \<and> cs_calls_made s' = cs_calls_made s + 1 \<and> cs_fallback_tried s'"
    and "r = Inr o1 \<Longrightarrow> ob_ok cenv o1" and "r = Inl e \<Longrightarrow> \<not> answers_or_fails s"
proof -
  obtain q s1 w1 where q: "call_side (s\<lparr>cs_fallback_tried := True\<rparr>) item False w = (q, s1, w1)" by (metis prod_cases3)
  from call_side_state [OF q] q assms
  show "cs_label s' = cs_label s \<and> cs_requested s' = cs_requested s \<and> cs_caller s' = cs_caller s
      \<and> cs_calls_made s' = cs_calls_made s + 1 \<and> cs_fallback_tried s'"
    by (auto simp: temperature_fallback_def Let_def split: sum.splits call_error.splits)
  show "r = Inr o1 \<Longrightarrow> ob_ok cenv o1" using q assms classify_failure
    by (auto simp: temperature_fallback_def Let_def split: sum.splits call_error.splits)
  have "q = Inl (CallRaised e) \<Longrightarrow> \<not> answers_or_fails s" using call_side_raised q by (fastforce simp: answers_or_fails_def)
  then show "r = Inl e \<Longrightarrow> \<not> answers_or_fails s" using q assms
    by (auto simp: temperature_fallback_def Let_def split: sum.splits call_error.splits)
qed

text \<open>One turn of the loop: it answers, falls back, gives up, or sleeps and asks again with one retry less.\<close>

lemma ask_loop_cases:
  assumes "ask_loop cenv item retries s w = (r, s', w')" and s1: "s1 = s\<lparr>cs_calls_made := cs_calls_made s + 1\<rparr>"
  obtains (answer) res where "r = Inr (observe cenv item res)" "s' = s1"
    | (error) e where "r = Inl e" "s' = s1" "\<not> answers_or_fails s"
    | (fallback) w1 where "temperature_fallback cenv item s1 w1 = (r, s', w')" "\<not> cs_fallback_tried s"
    | (give_up) exc where "r = Inr (failed_observation (classify exc))" "s' = note_fatal (classify exc) s1"
    | (again) w1 where "ask_loop cenv item (Suc retries) s1 w1 = (r, s', w')" "retries < MAX_RETRIES"
proof -
  obtain q s2 w1 where q: "call_side s item (cs_send_temperature s) w = (q, s2, w1)" by (metis prod_cases3)
  have s2: "s2 = s1" using call_side_state [OF q] s1 by simp
  note step = assms(1) [unfolded ask_loop.simps [of cenv item retries s w] q s2 prod.case]
  show thesis
  proof (cases q)
    case (Inr res)
    then show thesis using step answer [of res] by simp
  next
    case (Inl e)
    show thesis
    proof (cases e)
      case (CallRaised e1)
      then show thesis using step Inl error [of e1] call_side_raised [of s item "cs_send_temperature s" w e1 s2 w1] q by simp
    next
      case (CallProvider exc)
      then show thesis using step Inl fallback again give_up s1
        by (auto simp: Let_def split: if_splits)
    qed
  qed
qed

lemma ask_loop_step:
  "ask_loop cenv item retries s w = (r, s', w') \<Longrightarrow> retries \<le> MAX_RETRIES \<Longrightarrow>
     cs_label s' = cs_label s \<and> cs_requested s' = cs_requested s \<and> cs_caller s' = cs_caller s \<and> cs_calls_made s + 1 \<le> cs_calls_made s'
     \<and> cs_calls_made s' + of_bool (cs_fallback_tried s) \<le> cs_calls_made s + (MAX_RETRIES - retries + 1) + of_bool (cs_fallback_tried s')
     \<and> (\<forall>o1. r = Inr o1 \<longrightarrow> ob_ok cenv o1) \<and> (\<forall>e. r = Inl e \<longrightarrow> \<not> answers_or_fails s)"
proof (induction "MAX_RETRIES - retries" arbitrary: retries s w)
  case (0 retries s w)
  from 0(2) show ?case
  proof (cases rule: ask_loop_cases [OF _ refl, consumes 1, case_names answer error fallback give_up again])
    case (fallback w1)
    from temperature_fallback_step [OF this(1)] this(2) show ?thesis by (auto simp: answers_or_fails_def)
  qed (use 0 classify_failure in auto)
next
  case (Suc n retries s w)
  from Suc.prems(1) show ?case
  proof (cases rule: ask_loop_cases [OF _ refl, consumes 1, case_names answer error fallback give_up again])
    case (fallback w1)
    from temperature_fallback_step [OF this(1)] this(2) show ?thesis by (auto simp: answers_or_fails_def)
  next
    case (again w1)
    have n: "n = MAX_RETRIES - Suc retries" "Suc retries \<le> MAX_RETRIES" using Suc.hyps(2) again(2) by simp_all
    from Suc.hyps(1) [OF n(1) again(1) n(2)] again(2) show ?thesis
      by (auto simp: of_bool_def answers_or_fails_def split: if_splits)
  qed (use Suc.prems classify_failure in auto)
qed

lemma ask_side_step:
  assumes "ask_side cenv item s w = (r, s', w')"
  shows "side_step 1 1 s s'" and "r = Inr o1 \<Longrightarrow> ob_ok cenv o1" and "r = Inl e \<Longrightarrow> \<not> answers_or_fails s"
  using assms ask_loop_step [of cenv item 0 s w r s' w']
  by (auto simp: ask_side_def side_step_def FAILURES_def split: if_splits)

subsection \<open>Lemmas: rounds over items and sides\<close>

text \<open>The observations of one label and id, and what one question adds to them.\<close>

definition obs_at :: "observations \<Rightarrow> string \<Rightarrow> string \<Rightarrow> observation list" where
  "obs_at obs l i = dict_get (dict_get obs l []) i []"

lemma obs_at_add [simp]:
  "obs_at (add_observation label item_id o1 obs) l i = obs_at obs l i @ (if l = label \<and> i = item_id then [o1] else [])"
  by (simp add: add_observation_def obs_at_def Let_def)

definition all_ok :: "'w canary_env \<Rightarrow> observations \<Rightarrow> bool" where
  "all_ok cenv obs \<longleftrightarrow> (\<forall>l i. \<forall>o1 \<in> set (obs_at obs l i). ob_ok cenv o1)"

text \<open>
  The contract of a piece of the run that asks every side \<open>k\<close> times, \<open>c l i\<close> times under label \<open>l\<close> about item \<open>i\<close>:
  it always bounds the sides, and when no exception ends it, it answers every question exactly once.
\<close>

definition run_step ::
  "'w canary_env \<Rightarrow> nat \<Rightarrow> (string \<Rightarrow> string \<Rightarrow> nat) \<Rightarrow> 'w side list \<Rightarrow> observations \<Rightarrow> py_error + observations \<Rightarrow> 'w side list \<Rightarrow> bool" where
  "run_step cenv k c sides obs r sides' \<longleftrightarrow>
     (case r of
        Inl e \<Rightarrow> list_all2 (side_step 0 k) sides sides' \<and> list_ex (\<lambda>s. \<not> answers_or_fails s) sides
      | Inr obs' \<Rightarrow> list_all2 (side_step k k) sides sides'
          \<and> (\<forall>l i. length (obs_at obs' l i) = length (obs_at obs l i) + c l i) \<and> (all_ok cenv obs \<longrightarrow> all_ok cenv obs'))"

lemma side_step_later: "side_step j k s t \<Longrightarrow> side_step 0 (k + n) s t"
  unfolding side_step_def by (auto simp: algebra_simps)

lemma sides_step_trans:
  "list_all2 (side_step j k) xs ys \<Longrightarrow> list_all2 (side_step j' k') ys zs \<Longrightarrow> list_all2 (side_step (j + j') (k + k')) xs zs"
  by (rule list_all2_trans [OF side_step_trans])

lemma sides_step_later: "list_all2 (side_step j k) xs ys \<Longrightarrow> list_all2 (side_step 0 (k + n)) xs ys"
  by (erule list_all2_mono) (rule side_step_later)

lemma side_step_answers: "list_all2 (side_step j k) xs ys \<Longrightarrow> list_ex (\<lambda>s. \<not> answers_or_fails s) ys = list_ex (\<lambda>s. \<not> answers_or_fails s) xs"
  by (induction rule: list_all2_induct) (auto simp: side_step_def answers_or_fails_def)

lemma run_step_labels:
  "run_step cenv k c sides obs r sides' \<Longrightarrow> map cs_label sides' = map cs_label sides \<and> map cs_requested sides' = map cs_requested sides"
proof -
  have "list_all2 (side_step j k) xs ys \<Longrightarrow> map cs_label ys = map cs_label xs \<and> map cs_requested ys = map cs_requested xs"
    for j and xs ys :: "'a side list"
    by (induction rule: list_all2_induct) (auto simp: side_step_def)
  then show "run_step cenv k c sides obs r sides' \<Longrightarrow> map cs_label sides' = map cs_label sides \<and> map cs_requested sides' = map cs_requested sides"
    by (auto simp: run_step_def split: sum.splits)
qed

lemma run_step_trans:
  assumes "run_step cenv k c sides obs (Inr obs1) sides1" and "run_step cenv k' c' sides1 obs1 r sides2"
  shows "run_step cenv (k + k') (\<lambda>l i. c l i + c' l i) sides obs r sides2"
proof (cases r)
  case (Inl e)
  then show ?thesis using assms side_step_answers [of k k sides sides1]
      sides_step_trans [OF sides_step_later [of k k sides sides1 0], of 0 k' sides2]
    by (auto simp: run_step_def)
next
  case (Inr obs')
  then show ?thesis using assms sides_step_trans [of k k sides sides1 k' k' sides2] by (auto simp: run_step_def)
qed

lemma run_step_stop: "run_step cenv k c sides obs (Inl e) sides' \<Longrightarrow> run_step cenv (k + k') c' sides obs (Inl e) sides'"
  by (auto simp: run_step_def intro: sides_step_later)

lemma run_step_none: "run_step cenv 0 (\<lambda>l i. 0) sides obs (Inr obs) sides"
  by (simp add: run_step_def list_all2_refl)

lemma ask_sides_step:
  "ask_sides cenv item sides obs w = (r, sides', w') \<Longrightarrow>
     run_step cenv 1 (\<lambda>l i. of_bool (i = it_id item) * count_list (map cs_label sides) l) sides obs r sides'"
proof (induction sides arbitrary: obs w r sides' w')
  case (Cons side sides)
  obtain q s1 w1 where q: "ask_side cenv item side w = (q, s1, w1)" by (metis prod_cases3)
  note step = ask_side_step(1) [OF q]
  show ?case
  proof (cases q)
    case (Inl e)
    then have "r = Inl e" "sides' = s1 # sides" using Cons.prems q by simp_all
    then show ?thesis using step ask_side_step(3) [OF q Inl]
      by (auto simp: run_step_def list_all2_refl intro: side_step_weaken)
  next
    case (Inr o1)
    have label: "cs_label s1 = cs_label side" using step by (simp add: side_step_def)
    obtain ss where ss: "ask_sides cenv item sides (add_observation (cs_label side) (it_id item) o1 obs) w1 = (r, ss, w')"
      and sides': "sides' = s1 # ss" using Cons.prems q Inr label by (auto split: prod.splits)
    have "ob_ok cenv o1" using ask_side_step(2) [OF q] Inr by simp
    then show ?thesis using Cons.IH [OF ss] sides' step
      by (auto simp: run_step_def all_ok_def split: sum.splits if_splits intro: side_step_weaken)
  qed
qed (simp add: run_step_def)

lemma ask_items_step:
  "ask_items cenv items sides obs w = (r, sides', w') \<Longrightarrow>
     run_step cenv (length items) (\<lambda>l i. count_list (map it_id items) i * count_list (map cs_label sides) l) sides obs r sides'"
proof (induction items arbitrary: sides obs w r sides' w')
  case (Cons item items)
  obtain q s1 w1 where q: "ask_sides cenv item sides obs w = (q, s1, w1)" by (metis prod_cases3)
  note step = ask_sides_step [OF q]
  show ?case
  proof (cases q)
    case (Inl e)
    then show ?thesis using run_step_stop [of cenv 1 _ sides obs e s1 "length items"] step Cons.prems q by (auto simp: Inl)
  next
    case (Inr obs1)
    have "run_step cenv (length items) (\<lambda>l i. count_list (map it_id items) i * count_list (map cs_label s1) l) s1 obs1 r sides'"
      using Cons.IH Cons.prems q Inr by simp
    from run_step_trans [OF step [unfolded Inr] this] run_step_labels [OF step]
    show ?thesis by (auto simp: run_step_def algebra_simps split: sum.splits)
  qed
qed (simp add: run_step_none)

lemma ask_rounds_step:
  "ask_rounds cenv k items sides obs w = (r, sides', w') \<Longrightarrow>
     run_step cenv (k * length items) (\<lambda>l i. k * count_list (map it_id items) i * count_list (map cs_label sides) l) sides obs r sides'"
proof (induction k arbitrary: sides obs w r sides' w')
  case (Suc k)
  obtain q s1 w1 where q: "ask_items cenv items sides obs w = (q, s1, w1)" by (metis prod_cases3)
  note step = ask_items_step [OF q]
  show ?case
  proof (cases q)
    case (Inl e)
    then show ?thesis using run_step_stop [of cenv "length items" _ sides obs e s1 "k * length items"] step Suc.prems q
      by (auto simp: Inl)
  next
    case (Inr obs1)
    have "run_step cenv (k * length items) (\<lambda>l i. k * count_list (map it_id items) i * count_list (map cs_label s1) l) s1 obs1 r sides'"
      using Suc.IH Suc.prems q Inr by simp
    from run_step_trans [OF step [unfolded Inr] this] run_step_labels [OF step]
    show ?thesis by (auto simp: run_step_def algebra_simps split: sum.splits)
  qed
qed (simp add: run_step_none)

subsection \<open>Lemmas: the suite file\<close>

lemma nonempty_str_Some [simp]: "nonempty_str j = Some s \<longleftrightarrow> j = JStr s \<and> s \<noteq> []"
  by (cases j) auto

text \<open>What a suite promises: unique non-empty ids, non-empty prompts and no empty system prompt.\<close>

definition item_ok :: "suite_item \<Rightarrow> bool" where
  "item_ok item \<longleftrightarrow> it_id item \<noteq> [] \<and> it_user item \<noteq> [] \<and> it_system item \<noteq> Some []"

lemma nonempty_str_not_empty [simp]: "nonempty_str j \<noteq> Some []"
  by simp

lemma suite_item_of_Inr:
  "suite_item_of n seen obj = Inr item \<Longrightarrow>
     item_ok item \<and> it_id item \<notin> seen \<and> map_of obj ''id'' = Some (JStr (it_id item)) \<and> map_of obj ''user'' = Some (JStr (it_user item))"
  by (auto simp: suite_item_of_def item_ok_def dict_get_def Let_def split: option.splits if_splits json.splits)

lemma suite_items_Inr:
  "suite_items loads seen lines = Inr items \<Longrightarrow>
     length items = length lines \<and> list_all item_ok items \<and> distinct (map it_id items) \<and> seen \<inter> it_id ` set items = {}
     \<and> list_all2 (\<lambda>(n, line) item. \<exists>obj. loads line = Some (JObj obj) \<and> map_of obj ''user'' = Some (JStr (it_user item))) lines items"
proof (induction loads seen lines arbitrary: items rule: suite_items.induct)
  case (2 loads seen n line lines)
  obtain obj where obj: "loads line = Some (JObj obj)"
    using "2.prems" by (auto split: option.splits json.splits)
  with "2.prems" obtain item rest where item: "suite_item_of n seen obj = Inr item"
    and rest: "suite_items loads (insert (it_id item) seen) lines = Inr rest" and items: "items = item # rest"
    by (auto simp: sum_bind_Inr_iff)
  from "2.IH" [OF obj refl rest] suite_item_of_Inr [OF item] obj items show ?case by auto
qed simp

subsection \<open>Properties\<close>

lemma suite_items_content:
  "suite_items loads seen lines = Inr items \<Longrightarrow>
     list_all2 (\<lambda>(n, line) item. \<exists>obj. loads line = Some (JObj obj) \<and> map_of obj ''id'' = Some (JStr (it_id item))
       \<and> map_of obj ''user'' = Some (JStr (it_user item))) lines items"
proof (induction loads seen lines arbitrary: items rule: suite_items.induct)
  case (2 loads seen n line lines)
  obtain obj where obj: "loads line = Some (JObj obj)"
    using "2.prems" by (auto split: option.splits json.splits)
  with "2.prems" obtain item rest where item: "suite_item_of n seen obj = Inr item"
    and rest: "suite_items loads (insert (it_id item) seen) lines = Inr rest" and items: "items = item # rest"
    by (auto simp: sum_bind_Inr_iff)
  from "2.IH" [OF obj refl rest] suite_item_of_Inr [OF item] obj items show ?case by auto
qed simp

text \<open>
  A suite that loads has between 1 and 200 items, one for every non-blank line in file order with the id and the prompt of
  that line, ids are unique, no id, prompt or system prompt is empty, and the digest is that of the file: nothing is
  truncated or dropped.
\<close>
theorem loaded_suite_is_complete:
  assumes "load_suite decode loads sha256 raw = Inr (items, digest)"
  shows "\<exists>text. decode raw = Some text \<and> digest = sha256 raw \<and> items \<noteq> [] \<and> length items \<le> 200
    \<and> list_all item_ok items \<and> distinct (map it_id items)
    \<and> list_all2 (\<lambda>(n, line) item. \<exists>obj. loads line = Some (JObj obj) \<and> map_of obj ''id'' = Some (JStr (it_id item))
         \<and> map_of obj ''user'' = Some (JStr (it_user item)))
        (filter (\<lambda>(n, line). \<not> blank line) (enumerate 1 (split_lines [] text))) items"
proof -
  obtain body where body: "decode raw = Some body" using assms by (auto simp: load_suite_def split: option.splits)
  let ?lines = "filter (\<lambda>(n, line). \<not> blank line) (enumerate 1 (split_lines [] body))"
  have lines: "length ?lines \<le> 200" "?lines \<noteq> []" "suite_items loads {} ?lines = Inr items" "digest = sha256 raw"
    using assms body by (auto simp: load_suite_def MAX_ITEMS_def Let_def sum_bind_Inr_iff split: if_splits)
  note checked = suite_items_Inr [OF lines(3)]
  have "items \<noteq> []" using checked lines(2) by (metis length_0_conv)
  then show ?thesis
    using checked lines(1,4) suite_items_content [OF lines(3)] body by (intro exI [of _ body] conjI) simp_all
qed

definition example_suite_object :: "(string, json) dict" where
  "example_suite_object = [(''id'', JStr ''q1''), (''user'', JStr ''hi''), (''expect_json'', JBool True)]"

lemma loaded_suite_is_complete_witness:
  "load_suite (\<lambda>b. Some (map (\<lambda>c. if c = 10 then CHR 0x0A else CHR ''A'') b)) (\<lambda>s. Some (JObj example_suite_object)) (\<lambda>b. ''d'') [65, 10, 10]
     = Inr ([\<lparr>it_id = ''q1'', it_user = ''hi'', it_system = None, it_expect_json = True\<rparr>], ''d'')
   \<and> list_all item_ok [\<lparr>it_id = ''q1'', it_user = ''hi'', it_system = None, it_expect_json = True\<rparr>]"
proof -
  have run: "load_suite (\<lambda>b. Some (map (\<lambda>c. if c = 10 then CHR 0x0A else CHR ''A'') b)) (\<lambda>s. Some (JObj example_suite_object)) (\<lambda>b. ''d'') [65, 10, 10]
     = Inr ([\<lparr>it_id = ''q1'', it_user = ''hi'', it_system = None, it_expect_json = True\<rparr>], ''d'')" by code_simp
  from loaded_suite_is_complete [OF run] show ?thesis by (auto simp: run)
qed

lemma no_observations_at [simp]: "obs_at (no_observations items sides) l i = []"
proof -
  have inner: "dict_get d i [] = [] \<Longrightarrow> dict_get (fold (\<lambda>item. AList.update (it_id item) ([]::observation list)) items d) i [] = []"
    for d by (induction items arbitrary: d) auto
  have "\<forall>l. dict_get (dict_get obs l []) i [] = [] \<Longrightarrow>
    dict_get (dict_get (fold (\<lambda>side. AList.update (cs_label side) (fold (\<lambda>item. AList.update (it_id item) []) items [])) sides obs) l []) i []
      = ([]::observation list)" for obs and sides :: "'w side list"
    by (induction sides arbitrary: obs) (auto simp: inner dict_get_def [of "[]"])
  from this [of "[]"] show ?thesis by (simp add: no_observations_def obs_at_def dict_get_def)
qed

lemma run_calls_step:
  assumes "run_calls cenv items sides repeats w = (r, sides', w')"
  shows "run_step cenv (repeats * length items) (\<lambda>l i. repeats * count_list (map it_id items) i * count_list (map cs_label sides) l)
    sides (no_observations items sides) r sides'"
  using ask_rounds_step assms by (simp add: run_calls_def)

text \<open>
  The cost of a comparison is bounded before it starts, however the provider behaves and whether or not an exception
  ends the run: a side that starts fresh makes at most \<open>3\<close> calls per item and repeat and one more for the temperature
  fallback, keeps its label and model, and a side that is fatal already is not called at all.
\<close>
theorem comparison_calls_bounded:
  assumes "run_calls cenv items sides repeats w = (r, sides', w')"
  shows "list_all2 (\<lambda>s s'. cs_label s' = cs_label s \<and> cs_requested s' = cs_requested s
    \<and> cs_calls_made s' \<le> cs_calls_made s + repeats * length items * 3 + of_bool (\<not> cs_fallback_tried s)
    \<and> (cs_fatal s \<noteq> None \<longrightarrow> s' = s)) sides sides'"
proof -
  have "\<exists>j. list_all2 (side_step j (repeats * length items)) sides sides'"
    using run_calls_step [OF assms] by (auto simp: run_step_def split: sum.splits)
  then show ?thesis
    by (auto simp: side_step_def MAX_RETRIES_def of_bool_def elim!: list_all2_mono split: if_splits)
qed

lemma run_calls_answers:
  assumes "list_all answers_or_fails sides" and "distinct (map cs_label sides)" and "distinct (map it_id items)"
  shows "\<exists>obs sides' w'. run_calls cenv items sides repeats w = (Inr obs, sides', w')
    \<and> run_step cenv (repeats * length items) (\<lambda>l i. repeats * count_list (map it_id items) i * count_list (map cs_label sides) l)
          sides (no_observations items sides) (Inr obs) sides'
    \<and> (\<forall>side item. side \<in> set sides \<and> item \<in> set items \<longrightarrow>
         length (obs_at obs (cs_label side) (it_id item)) = repeats
         \<and> list_all (ob_ok cenv) (obs_at obs (cs_label side) (it_id item)))
    \<and> list_all2 (\<lambda>s s'. cs_fatal s' = None \<longrightarrow> cs_calls_made s + repeats * length items \<le> cs_calls_made s') sides sides'"
proof -
  obtain r sides' w' where run: "run_calls cenv items sides repeats w = (r, sides', w')" by (metis prod_cases3)
  note step = run_calls_step [OF run]
  obtain obs where r: "r = Inr obs"
    using step assms(1) by (cases r) (auto simp: run_step_def list_ex_iff list_all_iff)
  have one: "count_list xs x = 1" if "distinct xs" "x \<in> set xs" for xs :: "string list" and x
    using that by (induction xs) auto
  have "all_ok cenv (no_observations items sides)" by (simp add: all_ok_def)
  with step r have obs: "length (obs_at obs l i) = repeats * count_list (map it_id items) i * count_list (map cs_label sides) l"
    "o1 \<in> set (obs_at obs l i) \<Longrightarrow> ob_ok cenv o1" for l i o1
    by (auto simp: run_step_def all_ok_def)
  have calls: "list_all2 (\<lambda>s s'. cs_fatal s' = None \<longrightarrow> cs_calls_made s + repeats * length items \<le> cs_calls_made s') sides sides'"
    using step r by (auto simp: run_step_def side_step_def elim!: list_all2_mono)
  show ?thesis
    using run r calls obs step one [OF assms(2)] one [OF assms(3)] by (auto simp: list_all_iff)
qed

text \<open>
  When the clients raise nothing but provider errors, a comparison never fails: \<open>run_calls\<close> returns, every item has
  exactly \<open>repeats\<close> observations under every label, each of them a full answer or a failure of a known class with no
  feature at all, and a side that did not fail for good made a call for every one of its observations.
\<close>
theorem comparison_answers_every_question:
  assumes "list_all answers_or_fails sides" and "distinct (map cs_label sides)" and "distinct (map it_id items)"
  shows "\<exists>obs sides' w'. run_calls cenv items sides repeats w = (Inr obs, sides', w')
    \<and> (\<forall>side item. side \<in> set sides \<and> item \<in> set items \<longrightarrow>
         length (obs_at obs (cs_label side) (it_id item)) = repeats
         \<and> list_all (ob_ok cenv) (obs_at obs (cs_label side) (it_id item)))
    \<and> list_all2 (\<lambda>s s'. cs_fatal s' = None \<longrightarrow> cs_calls_made s + repeats * length items \<le> cs_calls_made s') sides sides'"
  using run_calls_answers [OF assms, of cenv repeats w] by blast

text \<open>A provider that answers 429, 429, then 400, then 429: the world counts its calls.\<close>

definition status_error :: "int \<Rightarrow> provider_error" where
  "status_error status =
     \<lparr>pe_message = ''provider HTTP error'', pe_status_code = Some status, pe_error_code = None, pe_failure_kind = None\<rparr>"

definition example_side :: "nat side" where
  "example_side =
     init_side ''A'' ''p/m'' (\<lambda>item t w. (Inl (CallProvider (status_error (if w = 2 then 400 else 429))), Suc w)) 0 (\<lambda>s w. w)"

definition example_item :: suite_item where
  "example_item = \<lparr>it_id = ''q1'', it_user = ''hi'', it_system = None, it_expect_json = False\<rparr>"

lemma example_run:
  "map cs_calls_made (fst (snd (run_calls silent_env [example_item] [example_side] 1 0))) = [4]"
  by code_simp

text \<open>The bound is reached: two rate limits, the rejected temperature and the fallback make four calls for one item.\<close>

lemma comparison_calls_bounded_witness:
  "map cs_calls_made (fst (snd (run_calls silent_env [example_item] [example_side] 1 0))) = [4]
   \<and> list_all2 (\<lambda>s s'. cs_calls_made s' \<le> cs_calls_made s + 1 * 1 * 3 + 1)
       [example_side] (fst (snd (run_calls silent_env [example_item] [example_side] 1 0)))"
proof -
  obtain r ss w where run: "run_calls silent_env [example_item] [example_side] 1 0 = (r, ss, w)" by (metis prod_cases3)
  from comparison_calls_bounded [OF run] example_run show ?thesis
    by (auto simp: run example_side_def init_side_def elim!: list_all2_mono)
qed

lemma comparison_answers_every_question_witness:
  "\<exists>obs sides' w'. run_calls silent_env [example_item] [example_side] 2 0 = (Inr obs, sides', w')
     \<and> length (obs_at obs ''A'' ''q1'') = 2 \<and> list_all (ob_ok (silent_env :: nat canary_env)) (obs_at obs ''A'' ''q1'')"
  using comparison_answers_every_question [of "[example_side]" "[example_item]" silent_env 2 0]
  by (auto simp: answers_or_fails_def example_side_def init_side_def example_item_def)

end
