(* ===== verification/Compare.thy ===== *)
theory Compare
  imports CompareRun "HOL-Library.Product_Lexorder" "HOL-Library.List_Lexorder" "HOL-Library.Char_ord" "HOL-Library.Multiset"
begin

section \<open>Statistics and evidence of a comparison (second part of probe/compare.py)\<close>

text \<open>
  Within-side and across-side differences of repeated answers, the permutation test, the verdict of each metric, the
  summary levels, the largest changes, and the evidence a comparison writes. Floats are reals; the nearest-rank index
  of the source was checked to agree with the real one for up to \<open>1000\<close> values and the three ranks it is used
  with. The generator of \<^verbatim>\<open>random.Random\<close> is an argument: \<open>randrange n g\<close> is a number and the next state.
\<close>

subsection \<open>Constants\<close>

definition MIN_REPEATS :: int where
  "MIN_REPEATS = 2"

definition MAX_REPEATS :: int where
  "MAX_REPEATS = 5"

definition MIN_ITEMS_PER_METRIC :: nat where
  "MIN_ITEMS_PER_METRIC = 5"

definition INFRA_FAILURE_LIMIT :: real where
  "INFRA_FAILURE_LIMIT = 1 / 10"

definition ALPHA :: real where
  "ALPHA = 1 / 100"

definition N_PERMUTATIONS :: nat where
  "N_PERMUTATIONS = 999"

definition TOP_N :: nat where
  "TOP_N = 10"

definition CHANGED :: string where
  "CHANGED = ''CHANGED''"

definition WITHIN_NOISE :: string where
  "WITHIN_NOISE = ''WITHIN NOISE''"

definition NOT_MEASURED :: string where
  "NOT_MEASURED = ''NOT MEASURED''"

definition TOLERANCE :: real where
  "TOLERANCE = 1 / 10 ^ 12"

subsection \<open>Differences\<close>

definition dist_eq :: "string \<Rightarrow> string \<Rightarrow> real" where
  "dist_eq a b = (if a = b then 0 else 1)"

definition dist_abs :: "real \<Rightarrow> real \<Rightarrow> real" where
  "dist_abs a b = \<bar>a - b\<bar>"

definition mean_of :: "real list \<Rightarrow> real" where
  "mean_of xs = (if xs \<noteq> [] then sum_list xs / real (length xs) else 0)"

text \<open>\<^verbatim>\<open>itertools.combinations\<close>, in its order.\<close>

fun combinations :: "nat \<Rightarrow> 'a list \<Rightarrow> 'a list list" where
  "combinations 0 xs = [[]]"
| "combinations (Suc k) [] = []"
| "combinations (Suc k) (x # xs) = map ((#) x) (combinations k xs) @ combinations (Suc k) xs"

definition pairs_of :: "'a list \<Rightarrow> ('a \<times> 'a) list" where
  "pairs_of xs = map (\<lambda>c. (c ! 0, c ! 1)) (combinations 2 xs)"

definition within_side :: "('v \<Rightarrow> 'v \<Rightarrow> real) \<Rightarrow> 'v list \<Rightarrow> real" where
  "within_side delta vals = mean_of (map (\<lambda>(a, b). delta a b) (pairs_of vals))"

definition cross_sides :: "('v \<Rightarrow> 'v \<Rightarrow> real) \<Rightarrow> 'v list \<Rightarrow> 'v list \<Rightarrow> real" where
  "cross_sides delta a b = mean_of (concat (map (\<lambda>x. map (delta x) b) a))"

definition item_stat :: "('v \<Rightarrow> 'v \<Rightarrow> real) \<Rightarrow> 'v list \<Rightarrow> 'v list \<Rightarrow> real \<times> real \<times> real \<times> real" where
  "item_stat delta a b =
     (let wa = within_side delta a; wb = within_side delta b; cr = cross_sides delta a b in (wa, wb, cr, cr - (wa + wb) / 2))"

text \<open>The table \<^verbatim>\<open>d\<close> of \<^verbatim>\<open>_split_stats\<close> is a list of rows, and every split reads it by index.\<close>

definition distance_table :: "('v \<Rightarrow> 'v \<Rightarrow> real) \<Rightarrow> 'v list \<Rightarrow> real list list" where
  "distance_table delta pooled = map (\<lambda>x. map (delta x) pooled) pooled"

definition split_stat :: "real list list \<Rightarrow> nat list \<Rightarrow> nat list \<Rightarrow> real" where
  "split_stat d left right =
     (let wa = mean_of (map (\<lambda>(i, j). d ! i ! j) (pairs_of left));
          wb = mean_of (map (\<lambda>(i, j). d ! i ! j) (pairs_of right));
          cr = mean_of (concat (map (\<lambda>i. map (\<lambda>j. d ! i ! j) right) left))
      in cr - (wa + wb) / 2)"

definition split_stats :: "('v \<Rightarrow> 'v \<Rightarrow> real) \<Rightarrow> 'v list \<Rightarrow> 'v list \<Rightarrow> real list" where
  "split_stats delta a b =
     (let pooled = a @ b; n = length pooled; na = length a; d = distance_table delta pooled
      in if list_all (list_all (\<lambda>v. v = 0)) d then [0]
         else map (\<lambda>left. split_stat d left (filter (\<lambda>i. i \<notin> set left) [0..<n])) (combinations na [0..<n]))"

subsection \<open>The permutation test\<close>

text \<open>One draw per item with more than one split; the tables are visited in item order.\<close>

fun draw_total :: "(nat \<Rightarrow> 'g \<Rightarrow> nat \<times> 'g) \<Rightarrow> real list list \<Rightarrow> 'g \<Rightarrow> real \<times> 'g" where
  "draw_total randrange [] g = (0, g)"
| "draw_total randrange (t # tables) g =
     (if length t = 1 then (case draw_total randrange tables g of (x, g) \<Rightarrow> (t ! 0 + x, g))
      else (case randrange (length t) g of
              (k, g) \<Rightarrow> (case draw_total randrange tables g of (x, g) \<Rightarrow> (t ! k + x, g))))"

fun count_hits :: "(nat \<Rightarrow> 'g \<Rightarrow> nat \<times> 'g) \<Rightarrow> real list list \<Rightarrow> real \<Rightarrow> nat \<Rightarrow> 'g \<Rightarrow> nat" where
  "count_hits randrange tables observed 0 g = 0"
| "count_hits randrange tables observed (Suc n) g =
     (case draw_total randrange tables g of
        (x, g) \<Rightarrow> (if observed - TOLERANCE \<le> x / real (length tables) then 1 else 0)
                  + count_hits randrange tables observed n g)"

definition permutation_p ::
  "(nat \<Rightarrow> 'g \<Rightarrow> nat \<times> 'g) \<Rightarrow> ('v \<Rightarrow> 'v \<Rightarrow> real) \<Rightarrow> ('v list \<times> 'v list) list \<Rightarrow> 'g \<Rightarrow> nat \<Rightarrow> real" where
  "permutation_p randrange delta per_item g n_perm =
     (let observed = mean_of (map (\<lambda>(a, b). snd (snd (snd (item_stat delta a b)))) per_item);
          tables = map (\<lambda>(a, b). split_stats delta a b) per_item
      in if list_all (\<lambda>t. length t = 1) tables then 1
         else real (1 + count_hits randrange tables observed n_perm g) / real (1 + n_perm))"

subsection \<open>Metrics\<close>

text \<open>A metric reads a value of an observation, absent where the source has \<^verbatim>\<open>None\<close>, and compares two of them.\<close>

datatype metric_value =
    Identity "observation \<Rightarrow> string option"
  | Magnitude "observation \<Rightarrow> real option"

record metric_spec =
  ms_name :: string
  ms_label :: string
  ms_value :: metric_value
  ms_unit :: string
  ms_heuristic :: bool
  ms_json_only :: bool

definition metric :: "string \<Rightarrow> string \<Rightarrow> metric_value \<Rightarrow> string \<Rightarrow> metric_spec" where
  "metric name label value u =
     \<lparr>ms_name = name, ms_label = label, ms_value = value, ms_unit = u, ms_heuristic = False, ms_json_only = False\<rparr>"

definition number_of :: "(observation \<Rightarrow> int option) \<Rightarrow> metric_value" where
  "number_of attr = Magnitude (\<lambda>o1. map_option of_int (attr o1))"

definition flag_of :: "(observation \<Rightarrow> bool option) \<Rightarrow> metric_value" where
  "flag_of attr = Magnitude (\<lambda>o1. map_option of_bool (attr o1))"

definition truncated :: "observation \<Rightarrow> bool" where
  "truncated o1 \<longleftrightarrow> ob_finish_reason o1 = Some ''length''"

definition METRICS :: "metric_spec list" where
  "METRICS =
     [metric ''agreement'' ''answer identity'' (Identity ob_hash) ''disagree'',
      metric ''length'' ''length (chars)'' (number_of ob_length) ''chars'',
      (metric ''json_valid'' ''JSON validity'' (flag_of ob_json_valid) ''rate'')\<lparr>ms_json_only := True\<rparr>,
      metric ''truncated'' ''truncated (finish_reason=length)'' (flag_of (\<lambda>o1. Some (truncated o1))) ''rate'',
      metric ''empty'' ''empty answer'' (flag_of ob_empty) ''rate'',
      (metric ''refusal'' ''refusal (heuristic)'' (flag_of ob_refusal) ''rate'')\<lparr>ms_heuristic := True\<rparr>,
      metric ''latency'' ''latency (ms)'' (number_of ob_latency_ms) ''ms'',
      metric ''output_tokens'' ''output tokens'' (number_of ob_output_tokens) ''tokens'',
      metric ''reasoning_tokens'' ''reasoning tokens'' (number_of ob_reasoning_tokens) ''tokens'']"

record metric_row =
  mr_metric :: string
  mr_label :: string
  mr_unit :: string
  mr_heuristic :: bool
  mr_eligible_items :: nat
  mr_within_a :: "real option"
  mr_within_b :: "real option"
  mr_a_vs_b :: "real option"
  mr_p_value :: "real option"
  mr_verdict :: string
  mr_reason :: "string option"

type_synonym item_obs = "(string, observation list) dict"

text \<open>The values of the valid repeats of one item; an item counts when both sides have two of them.\<close>

definition values_at :: "(observation \<Rightarrow> 'v option) \<Rightarrow> item_obs \<Rightarrow> string \<Rightarrow> 'v list" where
  "values_at f obs item_id = List.map_filter f (filter ob_valid (dict_get obs item_id []))"

definition metric_pairs ::
  "(observation \<Rightarrow> 'v option) \<Rightarrow> bool \<Rightarrow> suite_item list \<Rightarrow> item_obs \<Rightarrow> item_obs \<Rightarrow> ('v list \<times> 'v list) list" where
  "metric_pairs f json_only items obs_a obs_b =
     filter (\<lambda>(a, b). 2 \<le> length a \<and> 2 \<le> length b)
       (map (\<lambda>item. (values_at f obs_a (it_id item), values_at f obs_b (it_id item)))
         (filter (\<lambda>item. json_only \<longrightarrow> it_expect_json item) items))"

definition over_limit_reason :: string where
  "over_limit_reason = ''side over infrastructure-failure limit''"

definition too_few_reason :: "nat \<Rightarrow> string" where
  "too_few_reason n = digits_of n @ '' items with >=2 valid repeats per side (need '' @ digits_of MIN_ITEMS_PER_METRIC @ '')''"

definition metric_verdict ::
  "(nat \<Rightarrow> 'g \<Rightarrow> nat \<times> 'g) \<Rightarrow> metric_spec \<Rightarrow> ('v \<Rightarrow> 'v \<Rightarrow> real) \<Rightarrow> ('v list \<times> 'v list) list \<Rightarrow> bool \<Rightarrow> 'g \<Rightarrow> metric_row" where
  "metric_verdict randrange spec delta pairs measured g =
     (let row = \<lparr>mr_metric = ms_name spec, mr_label = ms_label spec, mr_unit = ms_unit spec,
                 mr_heuristic = ms_heuristic spec, mr_eligible_items = length pairs, mr_within_a = None,
                 mr_within_b = None, mr_a_vs_b = None, mr_p_value = None, mr_verdict = NOT_MEASURED, mr_reason = None\<rparr>
      in if \<not> measured then row\<lparr>mr_reason := Some over_limit_reason\<rparr>
         else if length pairs < MIN_ITEMS_PER_METRIC then row\<lparr>mr_reason := Some (too_few_reason (length pairs))\<rparr>
         else (let stats = map (\<lambda>(a, b). item_stat delta a b) pairs;
                   wa = mean_of (map (\<lambda>(x, _, _, _). x) stats);
                   wb = mean_of (map (\<lambda>(_, x, _, _). x) stats);
                   cr = mean_of (map (\<lambda>(_, _, x, _). x) stats);
                   p = permutation_p randrange delta pairs g N_PERMUTATIONS;
                   changed = (p \<le> ALPHA \<and> max wa wb + TOLERANCE < cr)
               in row\<lparr>mr_within_a := Some (py_round 6 wa), mr_within_b := Some (py_round 6 wb),
                      mr_a_vs_b := Some (py_round 6 cr), mr_p_value := Some (py_round 6 p),
                      mr_verdict := (if changed then CHANGED else WITHIN_NOISE)\<rparr>))"

definition evaluate_metric ::
  "(nat \<Rightarrow> 'g \<Rightarrow> nat \<times> 'g) \<Rightarrow> metric_spec \<Rightarrow> suite_item list \<Rightarrow> item_obs \<Rightarrow> item_obs \<Rightarrow> bool \<Rightarrow> 'g \<Rightarrow> metric_row" where
  "evaluate_metric randrange spec items obs_a obs_b measured g =
     (case ms_value spec of
        Identity f \<Rightarrow>
          metric_verdict randrange spec dist_eq (metric_pairs f (ms_json_only spec) items obs_a obs_b) measured g
      | Magnitude f \<Rightarrow>
          metric_verdict randrange spec dist_abs (metric_pairs f (ms_json_only spec) items obs_a obs_b) measured g)"

subsection \<open>Levels, modal answers and the largest changes\<close>

text \<open>Nearest rank: \<^verbatim>\<open>-(-q * n // 1)\<close> is the ceiling.\<close>

definition percentile :: "real list \<Rightarrow> real \<Rightarrow> real option" where
  "percentile values q =
     (if values = [] then None
      else (let s = sort values; k = max 0 (min (int (length s) - 1) (\<lceil>q * real (length s)\<rceil> - 1)) in Some (s ! nat k)))"

definition rate_of :: "bool option list \<Rightarrow> real option" where
  "rate_of xs = (if xs = [] then None else Some (py_round 6 (mean_of (map (\<lambda>x. if x = Some True then 1 else 0) xs))))"

definition rounded_mean :: "real list \<Rightarrow> real option" where
  "rounded_mean xs = (if xs = [] then None else Some (py_round 6 (mean_of xs)))"

definition valid_at :: "item_obs \<Rightarrow> suite_item \<Rightarrow> observation list" where
  "valid_at obs item = filter ob_valid (dict_get obs (it_id item) [])"

text \<open>The hashes of the valid repeats, which all have one.\<close>

definition hashes_at :: "item_obs \<Rightarrow> suite_item \<Rightarrow> string list" where
  "hashes_at obs item = map (\<lambda>o1. the (ob_hash o1)) (valid_at obs item)"

record levels =
  lv_valid_responses :: nat
  lv_self_agreement :: "real option"
  lv_length_median :: "real option"
  lv_length_p90 :: "real option"
  lv_json_valid_rate :: "real option"
  lv_truncated_rate :: "real option"
  lv_empty_rate :: "real option"
  lv_refusal_rate :: "real option"
  lv_latency_p50 :: "real option"
  lv_latency_p95 :: "real option"
  lv_output_tokens_mean :: "real option"
  lv_reasoning_tokens_mean :: "real option"

definition side_levels :: "suite_item list \<Rightarrow> item_obs \<Rightarrow> levels" where
  "side_levels items obs =
     (let valid = concat (map (valid_at obs) items);
          json_obs = concat (map (valid_at obs) (filter it_expect_json items));
          lengths = map (\<lambda>o1. real_of_int (the (ob_length o1))) valid;
          lat = List.map_filter (\<lambda>o1. map_option real_of_int (ob_latency_ms o1)) valid;
          out_t = List.map_filter (\<lambda>o1. map_option real_of_int (ob_output_tokens o1)) valid;
          rea_t = List.map_filter (\<lambda>o1. map_option real_of_int (ob_reasoning_tokens o1)) valid;
          self_agree = map (\<lambda>hs. 1 - within_side dist_eq hs)
                         (filter (\<lambda>hs. 2 \<le> length hs) (map (hashes_at obs) items))
      in \<lparr>lv_valid_responses = length valid, lv_self_agreement = rounded_mean self_agree,
          lv_length_median = percentile lengths (1 / 2), lv_length_p90 = percentile lengths (9 / 10),
          lv_json_valid_rate = rate_of (map ob_json_valid json_obs),
          lv_truncated_rate = rate_of (map (\<lambda>o1. Some (truncated o1)) valid),
          lv_empty_rate = rate_of (map ob_empty valid), lv_refusal_rate = rate_of (map ob_refusal valid),
          lv_latency_p50 = percentile lat (1 / 2), lv_latency_p95 = percentile lat (95 / 100),
          lv_output_tokens_mean = rounded_mean out_t, lv_reasoning_tokens_mean = rounded_mean rea_t\<rparr>)"

definition hash_counts :: "string list \<Rightarrow> (string \<times> nat) list" where
  "hash_counts hs = map (\<lambda>h. (h, count_list hs h)) (remdups hs)"

definition best_hash :: "string list \<Rightarrow> string" where
  "best_hash hs = fst (hd (sort_key (\<lambda>(h, c). (- int c, h)) (hash_counts hs)))"

definition modal :: "observation list \<Rightarrow> observation option" where
  "modal observations =
     (let valid = filter ob_valid observations
      in if valid = [] then None
         else (let best = best_hash (map (\<lambda>o1. the (ob_hash o1)) valid) in find (\<lambda>o1. the (ob_hash o1) = best) valid))"

record change =
  ch_id :: string
  ch_score :: real
  ch_modal_a :: "observation option"
  ch_modal_b :: "observation option"

definition modal_length :: "observation option \<Rightarrow> int" where
  "modal_length m = (case m of None \<Rightarrow> 0 | Some o1 \<Rightarrow> (case ob_length o1 of None \<Rightarrow> 0 | Some n \<Rightarrow> n))"

text \<open>The items that differ beyond noise, with the sort key of the source.\<close>

definition scored_changes :: "suite_item list \<Rightarrow> item_obs \<Rightarrow> item_obs \<Rightarrow> ((real \<times> int \<times> string) \<times> change) list" where
  "scored_changes items obs_a obs_b =
     List.map_filter
       (\<lambda>item.
         let a = hashes_at obs_a item; b = hashes_at obs_b item; score = snd (snd (snd (item_stat dist_eq a b)));
             ma = modal (dict_get obs_a (it_id item) []); mb = modal (dict_get obs_b (it_id item) [])
         in if a = [] \<or> b = [] \<or> score \<le> TOLERANCE then None
            else Some ((- score, - \<bar>modal_length ma - modal_length mb\<bar>, it_id item),
                       \<lparr>ch_id = it_id item, ch_score = py_round 6 score, ch_modal_a = ma, ch_modal_b = mb\<rparr>)) items"

definition top_changes :: "suite_item list \<Rightarrow> item_obs \<Rightarrow> item_obs \<Rightarrow> change list" where
  "top_changes items obs_a obs_b = map snd (take TOP_N (sort_key fst (scored_changes items obs_a obs_b)))"

subsection \<open>Lemmas: combinations and pairs\<close>

lemma combinations_one [simp]: "combinations (Suc 0) xs = map (\<lambda>x. [x]) xs"
  by (induction xs) auto

lemma pairs_of_simps [simp]: "pairs_of [] = []" "pairs_of (x # xs) = map (Pair x) xs @ pairs_of xs"
  by (simp_all add: pairs_of_def numeral_2_eq_2)

lemma pairs_of_map: "pairs_of (map f xs) = map (map_prod f f) (pairs_of xs)"
  by (induction xs) auto

lemma pairs_of_set: "(x, y) \<in> set (pairs_of xs) \<Longrightarrow> x \<in> set xs \<and> y \<in> set xs"
  by (induction xs) auto

lemma length_pairs_of: "2 * length (pairs_of xs) = length xs * (length xs - 1)"
proof (induction xs)
  case (Cons x xs)
  then show ?case by (cases xs) (auto simp: algebra_simps)
qed simp

lemma length_combinations: "length (combinations k xs) = length xs choose k"
  by (induction k xs rule: combinations.induct) auto

lemma combinations_set: "c \<in> set (combinations k xs) \<Longrightarrow> length c = k \<and> set c \<subseteq> set xs"
  by (induction k xs arbitrary: c rule: combinations.induct) force+

lemma combinations_distinct: "distinct xs \<Longrightarrow> c \<in> set (combinations k xs) \<Longrightarrow> distinct c"
proof (induction k xs arbitrary: c rule: combinations.induct)
  case (3 k x xs)
  from "3.prems"(2) consider c1 where "c = x # c1" "c1 \<in> set (combinations k xs)" | "c \<in> set (combinations (Suc k) xs)"
    by auto
  then show ?case
  proof cases
    case (1 c1)
    with "3.IH"(1) "3.prems"(1) combinations_set [of c1 k xs] show ?thesis by auto
  next
    case 2
    with "3.IH"(2) "3.prems"(1) show ?thesis by simp
  qed
qed simp_all

text \<open>The first combination is the prefix.\<close>

lemma combinations_head: "k \<le> length xs \<Longrightarrow> combinations k xs \<noteq> [] \<and> hd (combinations k xs) = take k xs"
proof (induction k xs rule: combinations.induct)
  case (3 k x xs)
  then show ?case by (auto simp: hd_append hd_map)
qed auto

subsection \<open>Lemmas: differences\<close>

text \<open>What the two differences of the source have in common.\<close>

definition difference :: "('v \<Rightarrow> 'v \<Rightarrow> real) \<Rightarrow> bool" where
  "difference delta \<longleftrightarrow> (\<forall>x y. 0 \<le> delta x y \<and> delta x y = delta y x \<and> (delta x y = 0 \<longleftrightarrow> x = y))"

lemma dist_eq_difference [simp]: "difference dist_eq"
  by (simp add: difference_def dist_eq_def)

lemma dist_abs_difference [simp]: "difference dist_abs"
  by (auto simp: difference_def dist_abs_def)

lemma mean_of_mono: "list_all2 (\<le>) xs ys \<Longrightarrow> mean_of xs \<le> mean_of ys"
proof -
  assume le: "list_all2 (\<le>) xs ys"
  then have "sum_list xs \<le> sum_list ys" "length xs = length ys"
    by (induction rule: list_all2_induct) auto
  then show ?thesis by (auto simp: mean_of_def divide_right_mono)
qed

definition t_stat :: "('v \<Rightarrow> 'v \<Rightarrow> real) \<Rightarrow> 'v list \<Rightarrow> 'v list \<Rightarrow> real" where
  "t_stat delta a b = cross_sides delta a b - (within_side delta a + within_side delta b) / 2"

lemma item_stat_eq: "item_stat delta a b = (within_side delta a, within_side delta b, cross_sides delta a b, t_stat delta a b)"
  by (simp add: item_stat_def t_stat_def Let_def)

text \<open>All ordered pairs of a list with itself are its unordered pairs twice.\<close>

lemma square_sum:
  assumes "difference delta"
  shows "sum_list (concat (map (\<lambda>x. map (delta x) xs) xs)) = 2 * sum_list (map (\<lambda>(x, y). delta x y) (pairs_of xs))"
proof (induction xs)
  case (Cons x xs)
  have self: "delta x x = 0" using assms by (simp add: difference_def)
  have "sum_list (concat (map (\<lambda>z. delta z x # map (delta z) ys) zs))
      = sum_list (map (delta x) zs) + sum_list (concat (map (\<lambda>z. map (delta z) ys) zs))" for ys zs
    using assms by (induction zs) (auto simp: difference_def)
  with Cons self show ?case by (simp add: comp_def)
qed simp

lemma cross_self_le_within:
  assumes "difference delta" and "2 \<le> length xs"
  shows "cross_sides delta xs xs \<le> within_side delta xs"
proof -
  let ?s = "sum_list (map (\<lambda>(x, y). delta x y) (pairs_of xs))" and ?n = "real (length xs)"
  have pairs: "real (length (pairs_of xs)) = ?n * (?n - 1) / 2"
  proof -
    have "real (2 * length (pairs_of xs)) = real (length xs * (length xs - 1))" by (simp only: length_pairs_of)
    then show ?thesis using assms(2) by (simp add: of_nat_diff)
  qed
  have n: "2 \<le> ?n" using assms(2) by simp
  have s: "0 \<le> ?s" using assms(1) by (intro sum_list_nonneg) (auto simp: difference_def)
  have len: "length (concat (map (\<lambda>x. map (delta x) xs) xs)) = length xs * length xs"
    by (simp add: length_concat comp_def sum_list_triv)
  have "xs \<noteq> []" "pairs_of xs \<noteq> []" using n pairs by auto
  then have "cross_sides delta xs xs = 2 * ?s / (?n * ?n)"
    using square_sum [OF assms(1), of xs] len by (auto simp: cross_sides_def mean_of_def)
  moreover have "within_side delta xs = ?s / (?n * (?n - 1) / 2)"
    unfolding within_side_def mean_of_def length_map pairs using \<open>pairs_of xs \<noteq> []\<close> by simp
  moreover have "2 * ?s / (?n * ?n) \<le> 2 * ?s / (?n * (?n - 1))"
    using n s by (intro divide_left_mono mult_pos_pos mult_left_mono) auto
  ultimately show ?thesis by (simp add: mult.commute [of _ 2])
qed

subsection \<open>Lemmas: splits\<close>

lemma table_entry [simp]:
  "i < length xs \<Longrightarrow> j < length xs \<Longrightarrow> distance_table delta xs ! i ! j = delta (xs ! i) (xs ! j)"
  by (simp add: distance_table_def)

lemma table_zero:
  "list_all (list_all (\<lambda>v. v = 0)) (distance_table delta xs) \<longleftrightarrow> (\<forall>x \<in> set xs. \<forall>y \<in> set xs. delta x y = 0)"
  by (simp add: distance_table_def list_all_iff)

lemma split_stat_eq:
  assumes "set left \<subseteq> {..<length xs}" and "set right \<subseteq> {..<length xs}"
  shows "split_stat (distance_table delta xs) left right = t_stat delta (map ((!) xs) left) (map ((!) xs) right)"
proof -
  let ?d = "distance_table delta xs"
  have inside: "map (\<lambda>(i, j). ?d ! i ! j) (pairs_of ks) = map (\<lambda>(x, y). delta x y) (pairs_of (map ((!) xs) ks))"
    if "set ks \<subseteq> {..<length xs}" for ks
  proof -
    have "i < length xs \<and> j < length xs" if "(i, j) \<in> set (pairs_of ks)" for i j
      using pairs_of_set [OF that] \<open>set ks \<subseteq> {..<length xs}\<close> by auto
    then show ?thesis by (auto simp: pairs_of_map)
  qed
  have across: "map (\<lambda>i. map (\<lambda>j. ?d ! i ! j) right) left = map (\<lambda>x. map (delta x) (map ((!) xs) right)) (map ((!) xs) left)"
    using assms by (auto simp: subset_iff)
  show ?thesis
    unfolding split_stat_def t_stat_def within_side_def cross_sides_def Let_def
    by (simp only: inside [OF assms(1)] inside [OF assms(2)] across)
qed

text \<open>The definition the table optimises: every way to relabel the pooled repeats, with its statistic.\<close>

definition relabellings :: "'v list \<Rightarrow> 'v list \<Rightarrow> ('v list \<times> 'v list) list" where
  "relabellings a b =
     (let pooled = a @ b
      in map (\<lambda>left. (map ((!) pooled) left, map ((!) pooled) (filter (\<lambda>i. i \<notin> set left) [0..<length pooled])))
           (combinations (length a) [0..<length pooled]))"

lemma split_stats_relabellings:
  "split_stats delta a b =
     (if \<forall>x \<in> set (a @ b). \<forall>y \<in> set (a @ b). delta x y = 0 then [0]
      else map (\<lambda>(l, r). t_stat delta l r) (relabellings a b))"
proof -
  have "split_stat (distance_table delta (a @ b)) left (filter (\<lambda>i. i \<notin> set left) [0..<length (a @ b)])
      = t_stat delta (map ((!) (a @ b)) left) (map ((!) (a @ b)) (filter (\<lambda>i. i \<notin> set left) [0..<length (a @ b)]))"
    if "left \<in> set (combinations (length a) [0..<length (a @ b)])" for left
    using combinations_set [OF that] by (intro split_stat_eq) auto
  then show ?thesis
    unfolding split_stats_def relabellings_def Let_def table_zero by (auto simp del: length_append)
qed

lemma relabellings_head: "relabellings a b \<noteq> [] \<and> hd (relabellings a b) = (a, b)"
proof -
  let ?p = "a @ b"
  have first: "combinations (length a) [0..<length ?p] \<noteq> []" "hd (combinations (length a) [0..<length ?p]) = [0..<length a]"
    using combinations_head [of "length a" "[0..<length ?p]"] by (simp_all add: take_upt)
  have right: "filter (\<lambda>i. i \<notin> set [0..<length a]) [0..<length ?p] = [length a..<length ?p]"
  proof -
    have "[0..<length ?p] = [0..<length a] @ [length a..<length ?p]" by (metis le0 length_append le_add1 upt_add_eq_append)
    then show ?thesis by (simp add: filter_empty_conv)
  qed
  have "map ((!) ?p) [0..<length a] = a" "map ((!) ?p) [length a..<length ?p] = b"
    by (auto intro!: nth_equalityI simp: nth_append)
  with first right show ?thesis by (simp add: relabellings_def Let_def hd_map del: set_upt length_append)
qed

text \<open>Each relabelling deals the pooled repeats out to both sides.\<close>

lemma relabelling_mset:
  assumes "(l, r) \<in> set (relabellings a b)"
  shows "mset l + mset r = mset a + mset b \<and> length l = length a \<and> length r = length b"
proof -
  let ?p = "a @ b"
  obtain left where left: "left \<in> set (combinations (length a) [0..<length ?p])" "l = map ((!) ?p) left"
      "r = map ((!) ?p) (filter (\<lambda>i. i \<notin> set left) [0..<length ?p])"
    using assms by (auto simp: relabellings_def Let_def)
  note c = combinations_set [OF left(1)] combinations_distinct [OF distinct_upt left(1)]
  have "mset left = filter_mset (\<lambda>i. i \<in> set left) (mset [0..<length ?p])"
    using c by (intro multiset_eqI) (auto simp: distinct_count_atmost_1 count_mset_0_iff)
  then have "mset left + mset (filter (\<lambda>i. i \<notin> set left) [0..<length ?p]) = mset [0..<length ?p]"
    by (metis mset_filter multiset_partition)
  then have "image_mset ((!) ?p) (mset left + mset (filter (\<lambda>i. i \<notin> set left) [0..<length ?p])) = mset (map ((!) ?p) [0..<length ?p])"
    by (simp del: length_append)
  then have m: "mset l + mset r = mset a + mset b" unfolding left by (simp only: image_mset_union mset_map map_nth mset_append)
  moreover have "length l = length a" using c left by simp
  moreover have "length l + length r = length a + length b" using arg_cong [OF m, of size] by simp
  ultimately show ?thesis by simp
qed

subsection \<open>Lemmas: the permutation test\<close>

lemma split_stats_head: "split_stats delta a b \<noteq> [] \<and> split_stats delta a b ! 0 = t_stat delta a b"
proof (cases "\<forall>x \<in> set (a @ b). \<forall>y \<in> set (a @ b). delta x y = 0")
  case True
  have zero: "mean_of xs = 0" if "list_all (\<lambda>v. v = 0) xs" for xs
  proof -
    have "sum_list xs = 0" using that by (induction xs) auto
    then show ?thesis by (simp add: mean_of_def)
  qed
  have "within_side delta a = 0" "within_side delta b = 0" "cross_sides delta a b = 0"
    unfolding within_side_def cross_sides_def using True
    by (auto intro!: zero simp: list_all_iff dest!: pairs_of_set)
  with True show ?thesis by (simp add: split_stats_relabellings t_stat_def)
next
  case False
  with relabellings_head [of a b] show ?thesis
    unfolding split_stats_relabellings if_not_P [OF False] by (cases "relabellings a b") auto
qed

lemma count_hits_le: "count_hits randrange tables observed n g \<le> n"
  by (induction n arbitrary: g) (auto split: prod.split intro: le_SucI)

lemma draw_total_choice:
  assumes "\<And>n g. 0 < n \<Longrightarrow> fst (randrange n g) < n" and "list_all (\<lambda>t. t \<noteq> []) tables"
  shows "\<exists>ts. list_all2 (\<lambda>t table. t \<in> set table) ts tables \<and> fst (draw_total randrange tables g) = sum_list ts"
  using assms(2)
proof (induction tables arbitrary: g)
  case (Cons t tables)
  have len: "0 < length t" using Cons.prems by simp
  show ?case
  proof (cases "length t = 1")
    case True
    obtain ts where "list_all2 (\<lambda>t table. t \<in> set table) ts tables" "fst (draw_total randrange tables g) = sum_list ts"
      using Cons.IH [of g] Cons.prems by auto
    then show ?thesis using True by (intro exI [of _ "t ! 0 # ts"]) (auto split: prod.split)
  next
    case False
    obtain ts where "list_all2 (\<lambda>t table. t \<in> set table) ts tables"
        "fst (draw_total randrange tables (snd (randrange (length t) g))) = sum_list ts"
      using Cons.IH [of "snd (randrange (length t) g)"] Cons.prems by auto
    then show ?thesis using False assms(1) [OF len, of g]
      by (intro exI [of _ "t ! fst (randrange (length t) g) # ts"]) (auto split: prod.split)
  qed
qed simp

text \<open>Wherever \<open>P\<close> does not hold of a relabelling, it is not a hit: a run of draws that never reach the statistic has none.\<close>

lemma count_hits_zero:
  "(\<And>g. fst (draw_total randrange tables g) / real (length tables) < observed - TOLERANCE) \<Longrightarrow>
     count_hits randrange tables observed n g = 0"
  by (induction n arbitrary: g) (auto simp: not_le [symmetric] split: prod.split, metis fst_conv)

lemma permutation_p_hits:
  "permutation_p randrange delta pairs g n =
     (if list_all (\<lambda>(a, b). length (split_stats delta a b) = 1) pairs then 1
      else (1 + real (count_hits randrange (map (\<lambda>(a, b). split_stats delta a b) pairs)
              (mean_of (map (\<lambda>(a, b). t_stat delta a b) pairs)) n g)) / (1 + real n))"
  by (simp add: permutation_p_def Let_def item_stat_eq list_all_iff case_prod_unfold)

lemma permutation_p_range: "1 / (1 + real n) \<le> permutation_p randrange delta pairs g n \<and> permutation_p randrange delta pairs g n \<le> 1"
proof -
  have "(1 + real (count_hits randrange tables observed n g)) / (1 + real n) \<le> 1" for tables observed
    using count_hits_le [of randrange tables observed n g] by simp
  moreover have "1 / (1 + real n) \<le> (1 + real k) / (1 + real n)" for k
    by (intro divide_right_mono) auto
  ultimately show ?thesis by (simp add: permutation_p_hits)
qed

subsection \<open>Properties: the verdict of a metric\<close>

text \<open>C29: 
  The splits of an item, computed by index over one distance table, are the statistics of all relabellings of its pooled
  repeats: as many as there are choices of side A, each of them dealing the same answers out again, and the first one
  is the labelling that was observed. When all answers agree the table is the single value \<open>0\<close>.
\<close>
theorem splits_are_all_relabellings:
  "split_stats delta a b =
     (if list_all (\<lambda>x. list_all (\<lambda>y. delta x y = 0) (a @ b)) (a @ b) then [0]
      else map (\<lambda>(l, r). snd (snd (snd (item_stat delta l r)))) (relabellings a b))
   \<and> length (relabellings a b) = (length a + length b) choose length a
   \<and> list_all (\<lambda>(l, r). mset l + mset r = mset a + mset b \<and> length l = length a \<and> length r = length b) (relabellings a b)
   \<and> split_stats delta a b ! 0 = snd (snd (snd (item_stat delta a b)))"
proof (intro conjI)
  show "length (relabellings a b) = (length a + length b) choose length a"
    by (simp add: relabellings_def Let_def length_combinations)
  show "list_all (\<lambda>(l, r). mset l + mset r = mset a + mset b \<and> length l = length a \<and> length r = length b) (relabellings a b)"
    unfolding list_all_iff using relabelling_mset [of _ _ a b] by blast
  show "split_stats delta a b ! 0 = snd (snd (snd (item_stat delta a b)))"
    by (simp add: split_stats_head item_stat_eq)
qed (simp add: split_stats_relabellings item_stat_eq list_all_iff case_prod_unfold)

lemma metric_verdict_changed:
  "mr_verdict (metric_verdict randrange spec delta pairs measured g) = CHANGED \<longleftrightarrow>
     measured \<and> MIN_ITEMS_PER_METRIC \<le> length pairs \<and> permutation_p randrange delta pairs g N_PERMUTATIONS \<le> ALPHA
     \<and> max (mean_of (map (\<lambda>(a, b). within_side delta a) pairs)) (mean_of (map (\<lambda>(a, b). within_side delta b) pairs)) + TOLERANCE
        < mean_of (map (\<lambda>(a, b). cross_sides delta a b) pairs)"
  by (simp add: metric_verdict_def Let_def item_stat_eq comp_def case_prod_unfold CHANGED_def NOT_MEASURED_def WITHIN_NOISE_def)

lemma self_pairs_not_changed:
  assumes "difference delta" and "list_all (\<lambda>(a, b). a = b \<and> 2 \<le> length a) pairs"
  shows "mr_verdict (metric_verdict randrange spec delta pairs measured g) \<noteq> CHANGED"
proof -
  have "mean_of (map (\<lambda>(a, b). cross_sides delta a b) pairs) \<le> mean_of (map (\<lambda>(a, b). within_side delta a) pairs)"
    using assms(2) cross_self_le_within [OF assms(1)]
    by (intro mean_of_mono) (auto simp: list_all2_map1 list_all2_map2 list_all_iff intro!: list.rel_refl_strong)
  then show ?thesis by (auto simp: metric_verdict_changed TOLERANCE_def)
qed

text \<open>C30: 
  A model compared against its own answers never shows a change: with the same observations on both sides no metric, no
  generator and no number of items yields the verdict CHANGED.
\<close>
theorem self_comparison_never_changed:
  "mr_verdict (evaluate_metric randrange spec items obs obs measured g) \<noteq> CHANGED"
proof -
  have "list_all (\<lambda>(a, b). a = b \<and> 2 \<le> length a) (metric_pairs f json_only items obs obs)" for f :: "observation \<Rightarrow> 'v option" and json_only
    by (auto simp: metric_pairs_def list_all_iff)
  from self_pairs_not_changed [OF dist_eq_difference this] self_pairs_not_changed [OF dist_abs_difference this]
  show ?thesis by (cases "ms_value spec") (simp_all add: evaluate_metric_def)
qed

text \<open>
  The verdict CHANGED is a claim about enough data: both sides were measured, at least five items were comparable, A and B
  differ on average by more than either differs from itself, and at most \<open>9\<close> of the \<open>999\<close> random relabellings
  reach the observed statistic; in every other case the verdict is WITHIN NOISE or NOT MEASURED.
\<close>
theorem changed_verdict_rule:
  "mr_verdict (metric_verdict randrange spec delta pairs measured g) =
     (if \<not> measured \<or> length pairs < 5 then NOT_MEASURED
      else if max (mean_of (map (\<lambda>(a, b). within_side delta a) pairs)) (mean_of (map (\<lambda>(a, b). within_side delta b) pairs)) + TOLERANCE
                < mean_of (map (\<lambda>(a, b). cross_sides delta a b) pairs)
              \<and> \<not> list_all (\<lambda>(a, b). length (split_stats delta a b) = 1) pairs
              \<and> count_hits randrange (map (\<lambda>(a, b). split_stats delta a b) pairs)
                  (mean_of (map (\<lambda>(a, b). snd (snd (snd (item_stat delta a b)))) pairs)) 999 g \<le> 9
      then CHANGED else WITHIN_NOISE)"
proof -
  let ?few = "\<not> list_all (\<lambda>(a, b). length (split_stats delta a b) = 1) pairs
      \<and> count_hits randrange (map (\<lambda>(a, b). split_stats delta a b) pairs) (mean_of (map (\<lambda>(a, b). t_stat delta a b) pairs)) 999 g \<le> 9"
  have "permutation_p randrange delta pairs g N_PERMUTATIONS \<le> ALPHA \<longleftrightarrow> ?few"
    by (simp add: permutation_p_hits ALPHA_def N_PERMUTATIONS_def)
  with metric_verdict_changed [of randrange spec delta pairs measured g] show ?thesis
    by (auto simp: metric_verdict_def Let_def item_stat_eq MIN_ITEMS_PER_METRIC_def CHANGED_def NOT_MEASURED_def WITHIN_NOISE_def)
qed

subsection \<open>Properties: modal answers and the largest changes\<close>

lemma sort_key_head:
  assumes "x \<in> set xs"
  shows "hd (sort_key f xs) \<in> set xs \<and> f (hd (sort_key f xs)) \<le> f x"
proof (cases "sort_key f xs")
  case Nil
  have "set xs = set []" by (simp only: Nil [symmetric] set_sort)
  then show ?thesis using assms by simp
next
  case (Cons y ys)
  have "set xs = set (y # ys)" by (simp only: Cons [symmetric] set_sort)
  moreover have "sorted (map f (y # ys))" by (simp only: Cons [symmetric] sorted_sort_key)
  ultimately show ?thesis using assms Cons by auto
qed

lemma best_hash_best:
  assumes "h \<in> set hs"
  shows "best_hash hs \<in> set hs \<and> count_list hs h \<le> count_list hs (best_hash hs)
    \<and> (count_list hs h = count_list hs (best_hash hs) \<longrightarrow> best_hash hs \<le> h)"
proof -
  let ?k = "\<lambda>(h, c). (- int c, h)" and ?s = "sort_key (\<lambda>(h, c). (- int c, h)) (hash_counts hs)"
  have h: "(h, count_list hs h) \<in> set (hash_counts hs)" using assms by (simp add: hash_counts_def)
  from sort_key_head [OF h, of ?k] have "hd ?s \<in> set (hash_counts hs)" and le: "?k (hd ?s) \<le> (- int (count_list hs h), h)"
    by simp_all
  then have "hd ?s = (best_hash hs, count_list hs (best_hash hs))" "best_hash hs \<in> set hs"
    by (auto simp: best_hash_def hash_counts_def)
  with le show ?thesis by (auto simp: less_eq_prod_def)
qed

text \<open>
  The modal answer of an item is its first valid observation whose hash is as frequent as any other among the valid
  ones, ties going to the smallest hash; there is none exactly when every call failed.
\<close>
theorem modal_is_most_frequent:
  "(case modal observations of
      None \<Rightarrow> filter ob_valid observations = []
    | Some m \<Rightarrow>
        (let hs = map (\<lambda>o1. the (ob_hash o1)) (filter ob_valid observations); best = the (ob_hash m)
         in m \<in> set observations \<and> ob_valid m \<and> find (\<lambda>o1. the (ob_hash o1) = best) (filter ob_valid observations) = Some m
            \<and> (\<forall>h. count_list hs h \<le> count_list hs best)
            \<and> (\<nexists>h. count_list hs h = count_list hs best \<and> h < best)))"
proof (cases "filter ob_valid observations = []")
  case True
  then show ?thesis by (simp add: modal_def)
next
  case False
  let ?valid = "filter ob_valid observations" and ?h = "\<lambda>o1. the (ob_hash o1)"
  let ?hs = "map ?h ?valid"
  obtain x where x: "x \<in> set ?hs" using False by (cases ?valid) auto
  have best: "best_hash ?hs \<in> set ?hs" using best_hash_best [OF x] by blast
  have pos: "0 < count_list ?hs (best_hash ?hs)" using best by (simp add: count_list_0_iff neq0_conv [symmetric] del: neq0_conv)
  have le: "count_list ?hs h \<le> count_list ?hs (best_hash ?hs)" for h
    using best_hash_best [of h ?hs] by (cases "h \<in> set ?hs") (auto simp: count_list_0_iff)
  have tie: "\<not> (count_list ?hs h = count_list ?hs (best_hash ?hs) \<and> h < best_hash ?hs)" for h
    using best_hash_best [of h ?hs] pos by (cases "h \<in> set ?hs") (auto simp: count_list_0_iff)
  have "find (\<lambda>o1. ?h o1 = best_hash ?hs) ?valid \<noteq> None" using best by (auto simp: find_None_iff)
  then obtain m where m: "find (\<lambda>o1. ?h o1 = best_hash ?hs) ?valid = Some m" by auto
  then have "?h m = best_hash ?hs" "m \<in> set ?valid" by (auto simp: find_Some_iff simp del: set_filter)
  with m False le tie show ?thesis by (simp add: modal_def Let_def)
qed

text \<open>The changes are the largest: sorted, at most ten, and an item left out has no larger key.\<close>

definition item_score :: "item_obs \<Rightarrow> item_obs \<Rightarrow> suite_item \<Rightarrow> real" where
  "item_score obs_a obs_b item = snd (snd (snd (item_stat dist_eq (hashes_at obs_a item) (hashes_at obs_b item))))"

definition differs :: "item_obs \<Rightarrow> item_obs \<Rightarrow> suite_item \<Rightarrow> bool" where
  "differs obs_a obs_b item \<longleftrightarrow>
     hashes_at obs_a item \<noteq> [] \<and> hashes_at obs_b item \<noteq> [] \<and> TOLERANCE < item_score obs_a obs_b item"

lemma scored_changes_eq:
  "map (\<lambda>(k, c). (fst k, snd (snd k), ch_id c, ch_score c)) (scored_changes items obs_a obs_b)
     = map (\<lambda>item. (- item_score obs_a obs_b item, it_id item, it_id item, py_round 6 (item_score obs_a obs_b item)))
         (filter (differs obs_a obs_b) items)"
  by (induction items)
    (auto simp: scored_changes_def differs_def item_score_def map_filter_simps Let_def not_le split: option.split)

lemma take_sorted_rest:
  assumes "sorted (map f xs)" and "x \<in> set (take n xs)" and "y \<in> set xs - set (take n xs)"
  shows "f x \<le> f y \<and> length (take n xs) = n"
proof -
  have "y \<in> set (drop n xs)" using assms(3) by (metis DiffD1 DiffD2 UnE append_take_drop_id set_append)
  moreover have "sorted (map f (take n xs) @ map f (drop n xs))" using assms(1) by (simp flip: map_append)
  ultimately show ?thesis using assms(2) by (auto simp: sorted_append min_def)
qed

lemma round_half_even_mono: "x \<le> y \<Longrightarrow> round_half_even x \<le> round_half_even y"
proof (rule ccontr)
  assume le: "x \<le> y" and "\<not> round_half_even x \<le> round_half_even y"
  then have "real_of_int (round_half_even y) + 1 \<le> of_int (round_half_even x)" by linarith
  then have "x = y" using le round_half_even_near [of x] round_half_even_near [of y] by linarith
  then show False using \<open>\<not> round_half_even x \<le> round_half_even y\<close> by simp
qed

lemma py_round_mono: "x \<le> y \<Longrightarrow> py_round n x \<le> py_round n y"
  by (simp add: py_round_def divide_right_mono round_half_even_mono mult_right_mono)

lemma scored_entry:
  assumes "e \<in> set (scored_changes items obs_a obs_b)"
  obtains item where "item \<in> set items" "differs obs_a obs_b item" "fst (fst e) = - item_score obs_a obs_b item"
    "ch_id (snd e) = it_id item" "ch_score (snd e) = py_round 6 (item_score obs_a obs_b item)"
proof -
  let ?f = "\<lambda>(k, c). (fst k, snd (snd k), ch_id c, ch_score c)"
  have "?f e \<in> set (map ?f (scored_changes items obs_a obs_b))" using assms by (simp only: set_map image_eqI [OF refl])
  then show thesis unfolding scored_changes_eq using that by (cases e) auto
qed

lemma differing_entry:
  assumes "item \<in> set items" and "differs obs_a obs_b item"
  obtains e where "e \<in> set (scored_changes items obs_a obs_b)" "fst (fst e) = - item_score obs_a obs_b item" "ch_id (snd e) = it_id item"
proof -
  have "(- item_score obs_a obs_b item, it_id item, it_id item, py_round 6 (item_score obs_a obs_b item))
      \<in> set (map (\<lambda>item. (- item_score obs_a obs_b item, it_id item, it_id item, py_round 6 (item_score obs_a obs_b item)))
               (filter (differs obs_a obs_b) items))"
    using assms by auto
  then show thesis unfolding scored_changes_eq [symmetric] using that by auto
qed

text \<open>
  The report lists the largest changes: at most ten, each an item whose answers differ beyond noise with its rounded
  score, in falling order; an item that differs and is not listed is outscored by ten that are.
\<close>
theorem top_changes_are_largest:
  "length (top_changes items obs_a obs_b) \<le> 10
   \<and> sorted_wrt (\<lambda>c d. ch_score d \<le> ch_score c) (top_changes items obs_a obs_b)
   \<and> list_all (\<lambda>c. list_ex (\<lambda>item. differs obs_a obs_b item \<and> ch_id c = it_id item
         \<and> ch_score c = py_round 6 (item_score obs_a obs_b item)) items) (top_changes items obs_a obs_b)
   \<and> list_all (\<lambda>item. it_id item \<in> ch_id ` set (top_changes items obs_a obs_b)
         \<or> length (top_changes items obs_a obs_b) = 10
           \<and> list_all (\<lambda>c. py_round 6 (item_score obs_a obs_b item) \<le> ch_score c) (top_changes items obs_a obs_b))
       (filter (differs obs_a obs_b) items)"
proof -
  let ?scored = "scored_changes items obs_a obs_b"
  let ?s = "sort_key fst ?scored" and ?top = "top_changes items obs_a obs_b"
  have top: "?top = map snd (take 10 ?s)" by (simp add: top_changes_def TOP_N_def)
  have s: "sorted (map fst ?s)" "set ?s = set ?scored" by simp_all
  have score: "ch_score (snd e) = py_round 6 (- fst (fst e))" if "e \<in> set ?s" for e
    using that by (auto elim: scored_entry)
  have le: "ch_score (snd f) \<le> ch_score (snd e)" if "e \<in> set ?s" "f \<in> set ?s" "fst e \<le> fst f" for e f
    using that score by (auto simp: less_eq_prod_def intro!: py_round_mono)
  have "sorted_wrt (\<lambda>e f. ch_score (snd f) \<le> ch_score (snd e)) ?s"
    using s(1) le by (auto simp: sorted_map intro: sorted_wrt_mono_rel [rotated])
  then have sorted: "sorted_wrt (\<lambda>c d. ch_score d \<le> ch_score c) ?top" by (simp add: top sorted_wrt_map sorted_wrt_take)
  have sound: "list_ex (\<lambda>item. differs obs_a obs_b item \<and> ch_id c = it_id item \<and> ch_score c = py_round 6 (item_score obs_a obs_b item)) items"
    if "c \<in> set ?top" for c
  proof -
    from that obtain e where "e \<in> set ?scored" "c = snd e" by (auto simp: top dest: in_set_takeD)
    then show ?thesis by (elim scored_entry) (auto simp: list_ex_iff)
  qed
  have complete: "it_id item \<in> ch_id ` set ?top
      \<or> length ?top = 10 \<and> list_all (\<lambda>c. py_round 6 (item_score obs_a obs_b item) \<le> ch_score c) ?top"
    if item: "item \<in> set items" "differs obs_a obs_b item" for item
  proof -
    obtain e where e: "e \<in> set ?scored" "fst (fst e) = - item_score obs_a obs_b item" "ch_id (snd e) = it_id item"
      by (rule differing_entry [OF item])
    show ?thesis
    proof (cases "e \<in> set (take 10 ?s)")
      case True
      then show ?thesis using e(3) by (auto simp: top image_iff intro!: bexI [of _ e])
    next
      case False
      have rest: "fst f \<le> fst e \<and> length (take 10 ?s) = 10" if "f \<in> set (take 10 ?s)" for f
        by (rule take_sorted_rest [OF s(1) that]) (use e(1) False in simp)
      have "py_round 6 (item_score obs_a obs_b item) \<le> ch_score (snd f)" if "f \<in> set (take 10 ?s)" for f
        using le [of f e] rest [OF that] score [of e] e that by (auto dest: in_set_takeD)
      moreover have "take 10 ?s \<noteq> []" using e(1) s(2) by (cases ?s) auto
      then have "length (take 10 ?s) = 10" using rest by (cases "take 10 ?s") auto
      ultimately show ?thesis by (auto simp: top list_all_iff)
    qed
  qed
  show ?thesis using sorted sound complete by (auto simp: list_all_iff) (simp add: top)
qed

end
