(* ===== verification/Evidence.thy ===== *)
theory Evidence
  imports Compare
begin

section \<open>The evidence of a comparison (third part of probe/compare.py)\<close>

text \<open>
  What \<open>compare\<close> computes from the observations of both sides: a record with the fields of the source's dictionary
  and the JSON value that is written to \<^verbatim>\<open>evidence.json\<close>. Random generators are made by \<open>rng\<close> from a seed; the
  time stamps, the version, the commit and the hashes of the source files are arguments.
\<close>

subsection \<open>Records\<close>

record side_evidence =
  se_requested :: string
  se_returned :: "string list"
  se_temperature :: string
  se_planned_calls :: nat
  se_calls_made :: nat
  se_failures :: "(string, nat) dict"
  se_failure_rate :: real
  se_measured :: bool
  se_levels :: levels

record run_info =
  ri_tool_version :: string
  ri_tool_commit :: "string option"
  ri_source_sha256 :: "(string, string) dict"
  ri_started_at :: string
  ri_finished_at :: string

record evidence =
  ev_info :: run_info
  ev_suite_sha256 :: string
  ev_suite_items :: nat
  ev_repeats :: int
  ev_seed :: int
  ev_max_tokens :: int
  ev_sides :: "(string, side_evidence) dict"
  ev_metrics :: "metric_row list"
  ev_modal_match_share :: "real option"
  ev_top_changes :: "(string \<times> real) list"
  ev_items :: "(string \<times> bool \<times> (string, observation list) dict) list"

subsection \<open>From observations to evidence\<close>

definition hex_int :: "string \<Rightarrow> int" where
  "hex_int s = foldl (\<lambda>n c. 16 * n + int (the (hex_value c))) 0 s"

definition seed_of :: "(string \<Rightarrow> string) \<Rightarrow> string \<Rightarrow> string \<Rightarrow> string \<Rightarrow> int \<Rightarrow> int" where
  "seed_of sha256 suite_sha model_a model_b repeats =
     (let blob = suite_sha @ ''|'' @ model_a @ ''|'' @ model_b @ ''|'' @ str_of_int repeats
      in hex_int (take 16 (sha256 blob)))"

definition all_obs :: "suite_item list \<Rightarrow> item_obs \<Rightarrow> observation list" where
  "all_obs items obs = concat (map (\<lambda>item. dict_get obs (it_id item) []) items)"

definition failure_counts :: "observation list \<Rightarrow> (string, nat) dict" where
  "failure_counts os =
     (let failures = List.map_filter ob_failure os in map (\<lambda>c. (c, count_list failures c)) (sort (remdups failures)))"

definition failure_rate :: "observation list \<Rightarrow> real" where
  "failure_rate os = (if os = [] then 0 else real (sum_list (map snd (failure_counts os))) / real (length os))"

definition returned_models :: "observation list \<Rightarrow> string list" where
  "returned_models os = sort (remdups (filter (\<lambda>m. m \<noteq> []) (List.map_filter ob_returned_model os)))"

definition side_measured :: "suite_item list \<Rightarrow> item_obs \<Rightarrow> bool" where
  "side_measured items obs \<longleftrightarrow> failure_rate (all_obs items obs) \<le> INFRA_FAILURE_LIMIT"

definition side_evidence_of :: "suite_item list \<Rightarrow> observations \<Rightarrow> 'w side \<Rightarrow> side_evidence" where
  "side_evidence_of items obs side =
     (let side_obs = dict_get obs (cs_label side) []; os = all_obs items side_obs
      in \<lparr>se_requested = cs_requested side, se_returned = returned_models os, se_temperature = cs_temperature side,
          se_planned_calls = length os, se_calls_made = cs_calls_made side, se_failures = failure_counts os,
          se_failure_rate = py_round 6 (failure_rate os), se_measured = side_measured items side_obs,
          se_levels = side_levels items side_obs\<rparr>)"

definition modal_matches :: "suite_item list \<Rightarrow> item_obs \<Rightarrow> item_obs \<Rightarrow> real list" where
  "modal_matches items obs_a obs_b =
     List.map_filter
       (\<lambda>item. case (modal (dict_get obs_a (it_id item) []), modal (dict_get obs_b (it_id item) [])) of
                 (Some ma, Some mb) \<Rightarrow> Some (if ob_hash ma = ob_hash mb then 1 else 0)
               | _ \<Rightarrow> None) items"

text \<open>The metric with index \<open>i\<close> draws from a generator of its own, seeded with \<open>seed + i\<close>.\<close>

definition evaluate_metrics ::
  "(nat \<Rightarrow> 'g \<Rightarrow> nat \<times> 'g) \<Rightarrow> (int \<Rightarrow> 'g) \<Rightarrow> int \<Rightarrow> suite_item list \<Rightarrow> item_obs \<Rightarrow> item_obs \<Rightarrow> bool \<Rightarrow> metric_row list" where
  "evaluate_metrics randrange rng seed items obs_a obs_b both =
     map (\<lambda>(i, spec). evaluate_metric randrange spec items obs_a obs_b both (rng (seed + int i))) (enumerate 0 METRICS)"

definition both_measured :: "suite_item list \<Rightarrow> observations \<Rightarrow> 'w side \<Rightarrow> 'w side \<Rightarrow> bool" where
  "both_measured items obs side_a side_b \<longleftrightarrow>
     side_measured items (dict_get obs (cs_label side_a) []) \<and> side_measured items (dict_get obs (cs_label side_b) [])"

definition build_evidence ::
  "(string \<Rightarrow> string) \<Rightarrow> (nat \<Rightarrow> 'g \<Rightarrow> nat \<times> 'g) \<Rightarrow> (int \<Rightarrow> 'g) \<Rightarrow> run_info \<Rightarrow> suite_item list \<Rightarrow> string \<Rightarrow> 'w side \<Rightarrow> 'w side
    \<Rightarrow> int \<Rightarrow> int \<Rightarrow> observations \<Rightarrow> evidence \<times> change list" where
  "build_evidence sha256 randrange rng info items suite_sha side_a side_b repeats max_tokens obs =
     (let seed = seed_of sha256 suite_sha (cs_requested side_a) (cs_requested side_b) repeats;
          obs_a = dict_get obs (cs_label side_a) []; obs_b = dict_get obs (cs_label side_b) [];
          sides = AList.update (cs_label side_b) (side_evidence_of items obs side_b)
                    (AList.update (cs_label side_a) (side_evidence_of items obs side_a) []);
          top = top_changes items obs_a obs_b
      in (\<lparr>ev_info = info, ev_suite_sha256 = suite_sha, ev_suite_items = length items, ev_repeats = repeats,
           ev_seed = seed, ev_max_tokens = max_tokens, ev_sides = sides,
           ev_metrics = evaluate_metrics randrange rng seed items obs_a obs_b (both_measured items obs side_a side_b),
           ev_modal_match_share = rounded_mean (modal_matches items obs_a obs_b),
           ev_top_changes = map (\<lambda>c. (ch_id c, ch_score c)) top,
           ev_items = map (\<lambda>item. (it_id item, it_expect_json item,
               AList.update (cs_label side_b) (dict_get obs_b (it_id item) [])
                 [(cs_label side_a, dict_get obs_a (it_id item) [])])) items\<rparr>, top))"

subsection \<open>The JSON value\<close>

definition opt_json :: "('v \<Rightarrow> json) \<Rightarrow> 'v option \<Rightarrow> json" where
  "opt_json f x = (case x of None \<Rightarrow> JNull | Some v \<Rightarrow> f v)"

definition obs_record :: "observation \<Rightarrow> json" where
  "obs_record o1 =
     (if \<not> ob_valid o1 then JObj [(''failure'', opt_json JStr (ob_failure o1))]
      else JObj [(''hash'', opt_json JStr (ob_hash o1)), (''length'', opt_json JInt (ob_length o1)),
                 (''finish_reason'', opt_json JStr (ob_finish_reason o1)), (''empty'', opt_json JBool (ob_empty o1)),
                 (''json_valid'', opt_json JBool (ob_json_valid o1)), (''refusal'', opt_json JBool (ob_refusal o1)),
                 (''latency_ms'', opt_json JInt (ob_latency_ms o1)),
                 (''output_tokens'', opt_json JInt (ob_output_tokens o1)),
                 (''reasoning_tokens'', opt_json JInt (ob_reasoning_tokens o1))])"

definition levels_json :: "levels \<Rightarrow> json" where
  "levels_json l =
     JObj [(''valid_responses'', JInt (int (lv_valid_responses l))), (''self_agreement'', opt_json JFloat (lv_self_agreement l)),
           (''length_median'', opt_json JFloat (lv_length_median l)), (''length_p90'', opt_json JFloat (lv_length_p90 l)),
           (''json_valid_rate'', opt_json JFloat (lv_json_valid_rate l)),
           (''truncated_rate'', opt_json JFloat (lv_truncated_rate l)), (''empty_rate'', opt_json JFloat (lv_empty_rate l)),
           (''refusal_rate'', opt_json JFloat (lv_refusal_rate l)), (''latency_p50'', opt_json JFloat (lv_latency_p50 l)),
           (''latency_p95'', opt_json JFloat (lv_latency_p95 l)),
           (''output_tokens_mean'', opt_json JFloat (lv_output_tokens_mean l)),
           (''reasoning_tokens_mean'', opt_json JFloat (lv_reasoning_tokens_mean l))]"

definition side_json :: "side_evidence \<Rightarrow> json" where
  "side_json s =
     JObj [(''requested'', JStr (se_requested s)), (''returned'', JArr (map JStr (se_returned s))),
           (''temperature'', JStr (se_temperature s)), (''planned_calls'', JInt (int (se_planned_calls s))),
           (''calls_made'', JInt (int (se_calls_made s))),
           (''failures'', JObj (map (\<lambda>(c, n). (c, JInt (int n))) (se_failures s))),
           (''failure_rate'', JFloat (se_failure_rate s)), (''measured'', JBool (se_measured s)),
           (''levels'', levels_json (se_levels s))]"

definition row_json :: "metric_row \<Rightarrow> json" where
  "row_json r =
     JObj ([(''metric'', JStr (mr_metric r)), (''label'', JStr (mr_label r)), (''unit'', JStr (mr_unit r)),
            (''heuristic'', JBool (mr_heuristic r)), (''eligible_items'', JInt (int (mr_eligible_items r))),
            (''within_a'', opt_json JFloat (mr_within_a r)), (''within_b'', opt_json JFloat (mr_within_b r)),
            (''a_vs_b'', opt_json JFloat (mr_a_vs_b r)), (''p_value'', opt_json JFloat (mr_p_value r)),
            (''verdict'', JStr (mr_verdict r))]
           @ (case mr_reason r of None \<Rightarrow> [] | Some reason \<Rightarrow> [(''reason'', JStr reason)]))"

definition TOOL_NAME :: string where
  "TOOL_NAME = ''seismograph compare''"

definition EVIDENCE_SCHEMA :: string where
  "EVIDENCE_SCHEMA = ''seismograph.compare.evidence/1''"

definition REFUSAL_VERSION :: string where
  "REFUSAL_VERSION = ''refusal@1''"

definition evidence_json :: "evidence \<Rightarrow> json" where
  "evidence_json ev =
     (let info = ev_info ev
      in JObj [(''schema'', JStr EVIDENCE_SCHEMA),
        (''tool'', JObj [(''name'', JStr TOOL_NAME), (''version'', JStr (ri_tool_version info)),
           (''git_commit'', opt_json JStr (ri_tool_commit info)),
           (''git_commit_note'', JStr (''HEAD at run time; the working tree may differ. ''
              @ ''source_sha256 identifies the code that ran.'')),
           (''source_sha256'', JObj (map (\<lambda>(n, h). (n, JStr h)) (ri_source_sha256 info)))]),
        (''started_at'', JStr (ri_started_at info)), (''finished_at'', JStr (ri_finished_at info)),
        (''suite'', JObj [(''sha256'', JStr (ev_suite_sha256 ev)), (''items'', JInt (int (ev_suite_items ev)))]),
        (''repeats'', JInt (ev_repeats ev)),
        (''method'', JObj [(''alpha'', JFloat ALPHA), (''permutations'', JInt (int N_PERMUTATIONS)),
           (''seed'', JInt (ev_seed ev)), (''min_items_per_metric'', JInt (int MIN_ITEMS_PER_METRIC)),
           (''infra_failure_limit'', JFloat INFRA_FAILURE_LIMIT), (''max_retries'', JInt (int MAX_RETRIES)),
           (''max_tokens'', JInt (ev_max_tokens ev)), (''refusal_patterns'', JStr REFUSAL_VERSION),
           (''verdict_rule'', JStr (''CHANGED iff a_vs_b > max(within_a, within_b) and ''
              @ ''within-item permutation p <= alpha''))]),
        (''sides'', JObj (map (\<lambda>(l, s). (l, side_json s)) (ev_sides ev))),
        (''metrics'', JArr (map row_json (ev_metrics ev))),
        (''modal_match_share'', opt_json JFloat (ev_modal_match_share ev)),
        (''top_changes'', JArr (map (\<lambda>(i, s). JObj [(''id'', JStr i), (''score'', JFloat s)]) (ev_top_changes ev))),
        (''items'', JArr (map (\<lambda>(i, ej, by_side).
           JObj ([(''id'', JStr i), (''expect_json'', JBool ej)]
                 @ map (\<lambda>(l, os). (l, JArr (map obs_record os))) by_side)) (ev_items ev)))])"

end
