(* ===== verification/CompareReport.thy ===== *)
theory CompareReport
  imports Evidence
begin

section \<open>The report of a comparison (fourth part of probe/compare.py)\<close>

text \<open>
  \<open>render_report\<close> as the concatenation of the parts the source collects. \<open>str_float\<close> is Python's \<^verbatim>\<open>str\<close> of a
  float; fixed-point formatting is written out. A report of evidence without a side \<^verbatim>\<open>A\<close> or \<^verbatim>\<open>B\<close> is a
  \<open>KeyError\<close>. The properties show that text from outside never becomes markup.
\<close>

subsection \<open>Formatting\<close>

definition escape_char :: "char \<Rightarrow> string" where
  "escape_char c =
     (if c = CHR ''&'' then ''&amp;'' else if c = CHR ''<'' then ''&lt;'' else if c = CHR ''>'' then ''&gt;''
      else if c = CHR 0x22 then ''&quot;'' else if c = CHR 0x27 then ''&#x27;'' else [c])"

definition escape :: "string \<Rightarrow> string" where
  "escape s = concat (map escape_char s)"

definition pad_zeros :: "nat \<Rightarrow> string \<Rightarrow> string" where
  "pad_zeros n s = replicate (n - length s) (CHR ''0'') @ s"

text \<open>The format \<^verbatim>\<open>.nf\<close> for \<open>n > 0\<close>.\<close>

definition fixed_point :: "nat \<Rightarrow> real \<Rightarrow> string" where
  "fixed_point n x =
     (let k = nat (round_half_even (\<bar>x\<bar> * 10 ^ n))
      in (if x < 0 then ''-'' else []) @ digits_of (k div 10 ^ n) @ ''.'' @ pad_zeros n (digits_of (k mod 10 ^ n)))"

definition fmt :: "real option \<Rightarrow> string \<Rightarrow> string" where
  "fmt x u =
     (case x of
        None \<Rightarrow> ''&ndash;''
      | Some v \<Rightarrow> if u = ''rate'' \<or> u = ''disagree'' then fixed_point 1 (v * 100) @ ''%'' else fixed_point 1 v)"

definition verdict_badge :: "string \<Rightarrow> string" where
  "verdict_badge v =
     (let cls = (if v = CHANGED then ''v-CHANGED'' else if v = WITHIN_NOISE then ''v-NOISE'' else ''v-NM'')
      in ''<span class=\"v '' @ cls @ ''\">'' @ escape v @ ''</span>'')"

definition CSS :: string where
  "CSS =
     concat (map (\<lambda>line. line @ [CHR 0x0A])
      ['''',
       '':root{--bg:#fbfaf7;--fg:#1d1d1b;--muted:#6b6a65;--line:#e2dfd6;'',
       ''--chg:#b3261e;--chgbg:#fbe9e7;--noise:#3d5a40;--noisebg:#eaf1e8;'',
       ''--nm:#6b6a65;--nmbg:#eeede8;--code:#f2f0ea}'',
       ''@media (prefers-color-scheme:dark){:root{--bg:#161614;--fg:#ecebe6;'',
       ''--muted:#a3a29b;--line:#34332f;--chg:#ffb4a9;--chgbg:#3b1d19;'',
       ''--noise:#b7d3b1;--noisebg:#1f2b1f;--nm:#a3a29b;--nmbg:#262522;'',
       ''--code:#211f1c}}'',
       ''*{box-sizing:border-box}'',
       ''body{margin:0;background:var(--bg);color:var(--fg);'',
       ''font:15px/1.5 system-ui,-apple-system,\"Segoe UI\",sans-serif}'',
       ''main{max-width:1080px;margin:0 auto;padding:32px 16px 64px}'',
       ''h1{font-size:22px;margin:0 0 4px}h2{font-size:17px;margin:36px 0 10px;'',
       ''border-bottom:1px solid var(--line);padding-bottom:6px}'',
       ''.sub{color:var(--muted);margin:0 0 18px}'',
       ''.note{border-left:3px solid var(--chg);padding:6px 12px;margin:12px 0;'',
       ''background:var(--chgbg)}'',
       ''table{border-collapse:collapse;width:100%;font-size:14px}'',
       ''th,td{text-align:left;padding:7px 8px;border-bottom:1px solid var(--line);'',
       ''vertical-align:top}'',
       ''th{color:var(--muted);font-weight:600}'',
       ''td.n{text-align:right;font-variant-numeric:tabular-nums}'',
       ''.v{display:inline-block;padding:1px 8px;border-radius:10px;'',
       ''font-size:12px;font-weight:600;white-space:nowrap}'',
       ''.v-CHANGED{color:var(--chg);background:var(--chgbg)}'',
       ''.v-NOISE{color:var(--noise);background:var(--noisebg)}'',
       ''.v-NM{color:var(--nm);background:var(--nmbg)}'',
       ''.pair{display:grid;grid-template-columns:1fr 1fr;gap:10px;margin:6px 0 18px}'',
       ''pre{white-space:pre-wrap;word-break:break-word;margin:0;padding:10px;'',
       ''background:var(--code);border-radius:6px;font-size:13px;max-height:320px;'',
       ''overflow:auto}'',
       ''.wrap{overflow-x:auto}'',
       ''footer{color:var(--muted);font-size:13px;margin-top:40px}'',
       ''@media (max-width:640px){.pair{grid-template-columns:1fr}}''])"

definition HOMEPAGE :: string where
  "HOMEPAGE = ''https://driftdefense.dev''"

definition joined :: "string list \<Rightarrow> string" where
  "joined xs = (case xs of [] \<Rightarrow> [] | x # xs \<Rightarrow> x @ concat (map (\<lambda>y. '', '' @ y) xs))"

subsection \<open>Parts\<close>

definition report_header :: "evidence \<Rightarrow> side_evidence \<Rightarrow> side_evidence \<Rightarrow> string" where
  "report_header ev sa sb =
     ''<!doctype html><html lang='en'><head><meta charset='utf-8'>''
     @ ''<meta name='viewport' content='width=device-width,initial-scale=1'>''
     @ ''<title>Compare: '' @ escape (se_requested sa) @ '' vs '' @ escape (se_requested sb)
     @ ''</title><style>'' @ CSS @ ''</style></head><body><main>''
     @ ''<h1>'' @ escape (se_requested sa) @ '' vs '' @ escape (se_requested sb) @ ''</h1>''
     @ ''<p class='sub'>'' @ escape (take 19 (ri_started_at (ev_info ev))) @ ''Z &middot; ''
     @ digits_of (ev_suite_items ev) @ '' items &times; '' @ str_of_int (ev_repeats ev)
     @ '' repeats per model &middot; suite sha256 '' @ escape (take 12 (ev_suite_sha256 ev)) @ ''&hellip;</p>''
     @ ''<div class='wrap'><table><tr><th></th><th>Side A</th>'' @ ''<th>Side B</th></tr>''"

definition header_row :: "string \<times> string \<times> string \<Rightarrow> string" where
  "header_row r =
     (case r of (name, a, b) \<Rightarrow>
        ''<tr><th>'' @ escape name @ ''</th><td>'' @ escape a @ ''</td><td>'' @ escape b @ ''</td></tr>'')"

definition returned_text :: "side_evidence \<Rightarrow> string" where
  "returned_text s = (let names = joined (se_returned s) in if names = [] then ''none reported'' else names)"

definition calls_text :: "side_evidence \<Rightarrow> string" where
  "calls_text s = digits_of (se_planned_calls s) @ '' / '' @ digits_of (se_calls_made s)"

definition header_rows :: "side_evidence \<Rightarrow> side_evidence \<Rightarrow> (string \<times> string \<times> string) list" where
  "header_rows sa sb =
     [(''Requested'', se_requested sa, se_requested sb),
      (''Returned by the API'', returned_text sa, returned_text sb),
      (''Temperature'', se_temperature sa, se_temperature sb),
      (''Calls planned / made'', calls_text sa, calls_text sb)]"

definition side_notes :: "string \<Rightarrow> side_evidence \<Rightarrow> string" where
  "side_notes label s =
     (if se_temperature s = TEMP_DEFAULT
      then ''<p class='note'>Side '' @ label @ '' ran at provider default ''
           @ ''temperature: the provider rejected temperature=0, so the '' @ ''run retried once without it.</p>''
      else [])
     @ (if \<not> se_measured s
        then ''<p class='note'>Side '' @ label @ '' had '' @ fmt (Some (se_failure_rate s)) ''rate'' @ '' infrastructure ''
             @ ''failures (limit 10%). Every metric is NOT MEASURED; no '' @ ''behaviour change is claimed.</p>''
        else [])"

definition metric_line :: "metric_row \<Rightarrow> string" where
  "metric_line m =
     (let label = mr_label m @ (if mr_heuristic m then '' *'' else []);
          p = (case mr_p_value m of None \<Rightarrow> ''&ndash;'' | Some v \<Rightarrow> fixed_point 3 v)
      in ''<tr><td>'' @ escape label @ ''</td>''
         @ ''<td class='n'>'' @ fmt (mr_within_a m) (mr_unit m) @ ''</td>''
         @ ''<td class='n'>'' @ fmt (mr_within_b m) (mr_unit m) @ ''</td>''
         @ ''<td class='n'>'' @ fmt (mr_a_vs_b m) (mr_unit m) @ ''</td>''
         @ ''<td class='n'>'' @ p @ ''</td>''
         @ ''<td>'' @ verdict_badge (mr_verdict m)
         @ (case mr_reason m of None \<Rightarrow> [] | Some r \<Rightarrow> if r = [] then [] else '' '' @ escape r)
         @ ''</td><td class='n'>'' @ digits_of (mr_eligible_items m) @ ''</td></tr>'')"

definition verdict_table :: "evidence \<Rightarrow> string" where
  "verdict_table ev =
     ''<h2>Verdicts</h2>''
     @ ''<p class='sub'>Each metric is compared against repetition ''
     @ ''noise: how differently A answers A, and B answers B. ''
     @ ''&ldquo;Within&rdquo; and &ldquo;A vs B&rdquo; are mean '' @ ''pairwise differences between repeats.</p>''
     @ ''<div class='wrap'><table><tr><th>Metric</th>''
     @ ''<th class='n'>Within A</th><th class='n'>Within B</th>''
     @ ''<th class='n'>A vs B</th><th class='n'>p</th><th>Verdict</th>''
     @ ''<th class='n'>Items</th></tr>''
     @ concat (map metric_line (ev_metrics ev)) @ ''</table></div>''
     @ ''<p class='sub'>* heuristic: refusal is detected by a fixed '' @ ''phrase list ('' @ escape REFUSAL_VERSION
     @ ''), not by understanding the '' @ ''answer.</p>''"

definition level_rows :: "(string \<times> (levels \<Rightarrow> real option) \<times> string) list" where
  "level_rows =
     [(''Self-agreement'', lv_self_agreement, ''rate''), (''Length median (chars)'', lv_length_median, []),
      (''Length p90 (chars)'', lv_length_p90, []), (''JSON valid'', lv_json_valid_rate, ''rate''),
      (''Truncated'', lv_truncated_rate, ''rate''), (''Empty'', lv_empty_rate, ''rate''),
      (''Refusal (heuristic)'', lv_refusal_rate, ''rate''), (''Latency p50 (ms)'', lv_latency_p50, []),
      (''Latency p95 (ms)'', lv_latency_p95, []), (''Output tokens (mean)'', lv_output_tokens_mean, []),
      (''Reasoning tokens (mean)'', lv_reasoning_tokens_mean, [])]"

definition level_table :: "evidence \<Rightarrow> side_evidence \<Rightarrow> side_evidence \<Rightarrow> string" where
  "level_table ev sa sb =
     ''<h2>Levels per side</h2><div class='wrap'><table>''
     @ ''<tr><th></th><th class='n'>A</th><th class='n'>B</th></tr>''
     @ concat (map (\<lambda>(name, key, u).
         ''<tr><td>'' @ escape name @ ''</td>''
         @ ''<td class='n'>'' @ fmt (key (se_levels sa)) u @ ''</td>''
         @ ''<td class='n'>'' @ fmt (key (se_levels sb)) u @ ''</td></tr>'') level_rows)
     @ ''<tr><td>Items whose most frequent answer is identical</td>''
     @ ''<td class='n' colspan='2'>'' @ fmt (ev_modal_match_share ev) ''rate'' @ ''</td></tr>'' @ ''</table></div>''"

definition answer_pane :: "string \<Rightarrow> observation option \<Rightarrow> string" where
  "answer_pane label m = ''<div><b>'' @ label @ ''</b><pre>'' @ escape (ob_text (the m)) @ ''</pre></div>''"

definition change_block :: "(real \<Rightarrow> string) \<Rightarrow> bool \<Rightarrow> change \<Rightarrow> string" where
  "change_block str_float no_text t =
     ''<h3>'' @ escape (ch_id t) @ '' <span class='sub'>score '' @ str_float (ch_score t) @ ''</span>'' @ ''</h3>''
     @ (if no_text then []
        else ''<div class='pair'>'' @ answer_pane ''A'' (ch_modal_a t) @ answer_pane ''B'' (ch_modal_b t) @ ''</div>'')"

definition change_list :: "(real \<Rightarrow> string) \<Rightarrow> bool \<Rightarrow> change list \<Rightarrow> string" where
  "change_list str_float no_text changes =
     ''<h2>Largest differences (up to '' @ digits_of TOP_N @ '')</h2>''
     @ (if changes = [] then ''<p class='sub'>No item differs beyond its own repeat noise.</p>''
        else ''<p class='sub'>Ranked by how much more A and B disagree than ''
             @ ''each disagrees with itself. Different is not necessarily '' @ ''worse.</p>'')
     @ concat (map (change_block str_float no_text) changes)"

definition failure_table :: "side_evidence \<Rightarrow> side_evidence \<Rightarrow> string" where
  "failure_table sa sb =
     (let classes = sort (remdups (map fst (se_failures sa) @ map fst (se_failures sb)))
      in ''<h2>Infrastructure failures</h2>''
         @ ''<p class='sub'>Not responses, never counted as behaviour.</p>''
         @ ''<div class='wrap'><table><tr><th>Class</th><th class='n'>A</th>'' @ ''<th class='n'>B</th></tr>''
         @ (if classes = [] then ''<tr><td colspan='3'>none</td></tr>'' else [])
         @ concat (map (\<lambda>c. ''<tr><td>'' @ escape c @ ''</td>''
             @ ''<td class='n'>'' @ digits_of (dict_get (se_failures sa) c 0) @ ''</td>''
             @ ''<td class='n'>'' @ digits_of (dict_get (se_failures sb) c 0) @ ''</td></tr>'') classes)
         @ ''</table></div>'')"

definition limit_lines :: "int \<Rightarrow> string list" where
  "limit_lines repeats =
     [''Different is not worse. Only JSON validity, truncation and ''
      @ ''empty answers say anything about quality; nothing here checks '' @ ''whether an answer is correct.'',
      ''Repetition noise is estimated from '' @ str_of_int repeats @ '' repeats per item; WITHIN NOISE means ''
      @ ''not distinguishable at this sample size, not identical.'',
      ''The model name returned by the API can be an alias (for ''
      @ ''example a -latest name); it does not prove which concrete '' @ ''version answered.'',
      ''Refusal detection is a phrase heuristic and misses polite or '' @ ''partial refusals.'',
      ''Latency reflects network and provider load at run time.'',
      ''Text in this file is local only; evidence.json contains hashes '' @ ''and numbers, no prompt or answer text.'']"

definition report_footer :: "evidence \<Rightarrow> string" where
  "report_footer ev =
     ''<h2>Limits</h2><ul>'' @ concat (map (\<lambda>line. ''<li>'' @ escape line @ ''</li>'') (limit_lines (ev_repeats ev))) @ ''</ul>''
     @ ''<footer>'' @ escape TOOL_NAME @ '' '' @ escape (ri_tool_version (ev_info ev))
     @ (case ri_tool_commit (ev_info ev) of
          None \<Rightarrow> [] | Some commit \<Rightarrow> if commit = [] then [] else '' @ '' @ escape (take 12 commit))
     @ '' &middot; <a href=''  @ [CHR 0x27] @ HOMEPAGE @ [CHR 0x27] @ ''>driftdefense.dev</a></footer>'' @ ''</main></body></html>''"

definition render_report :: "(real \<Rightarrow> string) \<Rightarrow> evidence \<Rightarrow> change list \<Rightarrow> bool \<Rightarrow> py_error + string" where
  "render_report str_float ev changes no_text =
     (case (map_of (ev_sides ev) ''A'', map_of (ev_sides ev) ''B'') of
        (None, _) \<Rightarrow> Inl (KeyError ''A'')
      | (_, None) \<Rightarrow> Inl (KeyError ''B'')
      | (Some sa, Some sb) \<Rightarrow>
          Inr (report_header ev sa sb @ concat (map header_row (header_rows sa sb)) @ ''</table></div>''
               @ side_notes ''A'' sa @ side_notes ''B'' sb @ verdict_table ev @ level_table ev sa sb
               @ change_list str_float no_text changes @ failure_table sa sb @ report_footer ev))"

subsection \<open>Lemmas: escaping\<close>

definition markup :: "char \<Rightarrow> bool" where
  "markup c \<longleftrightarrow> c \<in> {CHR ''<'', CHR ''>'', CHR 0x22, CHR 0x27}"

lemma escape_inert [simp]: "filter markup (escape s) = []"
  by (induction s) (auto simp: escape_def escape_char_def markup_def)

lemma filter_concat_cong: "(\<And>x. x \<in> set xs \<Longrightarrow> filter P (f x) = filter P (g x)) \<Longrightarrow> filter P (concat (map f xs)) = filter P (concat (map g xs))"
  by (induction xs) auto

subsection \<open>Text that the report may not depend on\<close>

definition hide_text :: "observation \<Rightarrow> observation" where
  "hide_text o1 = o1\<lparr>ob_text := []\<rparr>"

definition blank_side :: "side_evidence \<Rightarrow> side_evidence" where
  "blank_side s = s\<lparr>se_requested := [], se_returned := []\<rparr>"

definition blank_evidence :: "evidence \<Rightarrow> evidence" where
  "blank_evidence ev =
     ev\<lparr>ev_info := (ev_info ev)\<lparr>ri_started_at := [], ri_tool_version := []\<rparr>, ev_suite_sha256 := [],
        ev_sides := map (\<lambda>(l, s). (l, blank_side s)) (ev_sides ev)\<rparr>"

definition blank_change :: "change \<Rightarrow> change" where
  "blank_change t = t\<lparr>ch_id := [], ch_modal_a := map_option hide_text (ch_modal_a t), ch_modal_b := map_option hide_text (ch_modal_b t)\<rparr>"

lemma blank_side_simps [simp]:
  "se_temperature (blank_side s) = se_temperature s" "se_measured (blank_side s) = se_measured s"
  "se_failure_rate (blank_side s) = se_failure_rate s" "se_failures (blank_side s) = se_failures s"
  "se_levels (blank_side s) = se_levels s" "se_planned_calls (blank_side s) = se_planned_calls s"
  "se_calls_made (blank_side s) = se_calls_made s"
  by (simp_all add: blank_side_def)

lemma blank_evidence_simps [simp]:
  "ev_metrics (blank_evidence ev) = ev_metrics ev" "ev_repeats (blank_evidence ev) = ev_repeats ev"
  "ev_modal_match_share (blank_evidence ev) = ev_modal_match_share ev" "ev_suite_items (blank_evidence ev) = ev_suite_items ev"
  "ri_tool_commit (ev_info (blank_evidence ev)) = ri_tool_commit (ev_info ev)"
  by (simp_all add: blank_evidence_def)

lemma blank_sides: "map_of (ev_sides (blank_evidence ev)) l = map_option blank_side (map_of (ev_sides ev) l)"
  by (simp add: blank_evidence_def map_of_map comp_def)

lemma inert_parts:
  "filter markup (report_header (blank_evidence ev) (blank_side sa) (blank_side sb)) = filter markup (report_header ev sa sb)"
  "filter markup (header_row (n, a, b)) = filter markup (header_row (n, [], []))"
  "side_notes l (blank_side s) = side_notes l s" "verdict_table (blank_evidence ev) = verdict_table ev"
  "level_table (blank_evidence ev) (blank_side sa) (blank_side sb) = level_table ev sa sb"
  "failure_table (blank_side sa) (blank_side sb) = failure_table sa sb"
  "filter markup (report_footer (blank_evidence ev)) = filter markup (report_footer ev)"
  "filter markup (answer_pane l m) = filter markup (answer_pane l None)"
  by (simp_all only: report_header_def header_row_def side_notes_def verdict_table_def level_table_def failure_table_def
        report_footer_def answer_pane_def blank_side_simps blank_evidence_simps filter_append escape_inert prod.case)

lemma inert_rows: "filter markup (concat (map header_row (header_rows sa sb))) = filter markup (concat (map header_row (header_rows sc sd)))"
  unfolding header_rows_def list.map concat.simps filter_append using inert_parts(2) by metis

lemma inert_change: "filter markup (change_block f no_text (blank_change t)) = filter markup (change_block f no_text t)"
proof -
  have same_pane: "filter markup (answer_pane l m) = filter markup (answer_pane l m')" for l m m'
    using inert_parts(8) [of l m] inert_parts(8) [of l m'] by simp
  have score: "ch_score (blank_change t) = ch_score t" by (simp add: blank_change_def)
  show ?thesis
    by (cases no_text) (simp_all only: change_block_def filter_append escape_inert score if_True if_False
        same_pane [of "''A''" "ch_modal_a (blank_change t)" "ch_modal_a t"] same_pane [of "''B''" "ch_modal_b (blank_change t)" "ch_modal_b t"])
qed

lemma inert_changes: "filter markup (change_list f no_text (map blank_change changes)) = filter markup (change_list f no_text changes)"
proof -
  have "filter markup (concat (map (change_block f no_text) (map blank_change changes))) = filter markup (concat (map (change_block f no_text) changes))"
    unfolding map_map comp_def by (rule filter_concat_cong) (rule inert_change)
  then show ?thesis unfolding change_list_def filter_append map_is_Nil_conv by (simp only:)
qed

subsection \<open>Properties\<close>

text \<open>C32: 
  No text from outside becomes markup: the angle brackets and quotes of a report, in their order, are those of the report
  in which the answers, the item ids, the model names requested and returned, the time stamp, the suite digest and the
  version are all empty. So an answer with tags or URLs is shown and never loaded.
\<close>
theorem report_text_is_inert:
  "map_sum id (filter markup) (render_report str_float ev changes no_text)
     = map_sum id (filter markup) (render_report str_float (blank_evidence ev) (map blank_change changes) no_text)"
proof (cases "map_of (ev_sides ev) ''A''")
  case None
  then show ?thesis by (simp add: render_report_def blank_sides)
next
  case sa: (Some sa)
  show ?thesis
  proof (cases "map_of (ev_sides ev) ''B''")
    case None
    with sa show ?thesis by (simp add: render_report_def blank_sides)
  next
    case sb: (Some sb)
    have "filter markup (concat (map header_row (header_rows (blank_side sa) (blank_side sb)))) = filter markup (concat (map header_row (header_rows sa sb)))"
      by (rule inert_rows)
    then show ?thesis
      unfolding render_report_def blank_sides sa sb option.map option.case prod.case map_sum.simps filter_append inert_parts inert_changes
      by (simp only:)
  qed
qed

end
