(* ===== verification/CompareMain.thy ===== *)
theory CompareMain
  imports CompareReport
begin

section \<open>Running a comparison (last part of probe/compare.py)\<close>

text \<open>
  \<open>compare\<close>, which asks both sides and writes the two files, and the command line entry \<open>main\<close> on parsed
  arguments. Everything outside is in two records: files, clock, generator and serialiser of a comparison, and for
  \<open>main\<close> the suite file, URL parsing and the transport of the clients. Output is the list of printed lines,
  without the progress lines.
\<close>

subsection \<open>compare\<close>

record ('w, 'g) compare_env =
  ke_canary :: "'w canary_env"
  ke_randrange :: "nat \<Rightarrow> 'g \<Rightarrow> nat \<times> 'g"
  ke_rng :: "int \<Rightarrow> 'g"
  ke_str_float :: "real \<Rightarrow> string"
  ke_now :: "'w \<Rightarrow> string \<times> 'w"
  ke_tool_version :: string
  ke_source_sha256 :: "(string, string) dict"
  ke_dumps :: "json \<Rightarrow> string"
  ke_mkdir :: "string \<Rightarrow> 'w \<Rightarrow> (py_error + unit) \<times> 'w"
  ke_write :: "string \<Rightarrow> string \<Rightarrow> 'w \<Rightarrow> (py_error + unit) \<times> 'w"

record compare_result =
  cr_evidence :: evidence
  cr_report_html :: string
  cr_out_dir :: string
  cr_evidence_sha256 :: string
  cr_exit_code :: int

text \<open>The two files are written in order; an exception of any step ends the call.\<close>

definition write_result ::
  "('w, 'g) compare_env \<Rightarrow> string \<Rightarrow> string \<Rightarrow> py_error + string \<Rightarrow> 'w \<Rightarrow> (py_error + string) \<times> 'w" where
  "write_result kenv out_dir ev_bytes report w =
     (case ke_mkdir kenv out_dir w of
        (Inl e, w) \<Rightarrow> (Inl e, w)
      | (Inr _, w) \<Rightarrow>
          (case ke_write kenv (out_dir @ ''/evidence.json'') ev_bytes w of
             (Inl e, w) \<Rightarrow> (Inl e, w)
           | (Inr _, w) \<Rightarrow>
               (case report of
                  Inl e \<Rightarrow> (Inl e, w)
                | Inr html \<Rightarrow>
                    (case ke_write kenv (out_dir @ ''/report.html'') html w of
                       (Inl e, w) \<Rightarrow> (Inl e, w)
                     | (Inr _, w) \<Rightarrow> (Inr html, w)))))"

definition compare ::
  "('w, 'g) compare_env \<Rightarrow> suite_item list \<Rightarrow> string \<Rightarrow> 'w side \<Rightarrow> 'w side \<Rightarrow> int \<Rightarrow> string \<Rightarrow> bool \<Rightarrow> int \<Rightarrow> string option
    \<Rightarrow> 'w \<Rightarrow> (py_error + compare_result) \<times> 'w" where
  "compare kenv items suite_sha side_a side_b repeats out_dir no_text max_tokens tool_commit w =
     (if \<not> (MIN_REPEATS \<le> repeats \<and> repeats \<le> MAX_REPEATS) then (Inl (ValueError ''repeats must be 2..5''), w)
      else (case ke_now kenv w of
        (started, w) \<Rightarrow>
          (case run_calls (ke_canary kenv) items [side_a, side_b] (nat repeats) w of
             (Inl e, _, w) \<Rightarrow> (Inl e, w)
           | (Inr obs, sides, w) \<Rightarrow>
               (case ke_now kenv w of
                  (finished, w) \<Rightarrow>
                    (let side_a = sides ! 0; side_b = sides ! 1;
                         info = \<lparr>ri_tool_version = ke_tool_version kenv, ri_tool_commit = tool_commit,
                                 ri_source_sha256 = ke_source_sha256 kenv, ri_started_at = started, ri_finished_at = finished\<rparr>;
                         (ev, changes) = build_evidence (ce_sha256 (ke_canary kenv)) (ke_randrange kenv) (ke_rng kenv) info items
                                           suite_sha side_a side_b repeats max_tokens obs;
                         ev_bytes = ke_dumps kenv (evidence_json ev) @ [CHR 0x0A]
                     in case write_result kenv out_dir ev_bytes (render_report (ke_str_float kenv) ev changes no_text) w of
                          (Inl e, w) \<Rightarrow> (Inl e, w)
                        | (Inr html, w) \<Rightarrow>
                            (Inr \<lparr>cr_evidence = ev, cr_report_html = html, cr_out_dir = out_dir,
                                  cr_evidence_sha256 = ce_sha256 (ke_canary kenv) ev_bytes,
                                  cr_exit_code = (if both_measured items obs side_a side_b then 0 else 2)\<rparr>, w))))))"

subsection \<open>main\<close>

definition DEFAULT_BASE_URLS :: "(string, string) dict" where
  "DEFAULT_BASE_URLS = [(''openai'', ''https://api.openai.com/v1''), (''mistral'', ''https://api.mistral.ai/v1'')]"

text \<open>\<open>Usage\<close> is a \<^verbatim>\<open>SuiteError\<close> or an \<^verbatim>\<open>OSError\<close>, whose text \<open>main\<close> prints; any other exception leaves it.\<close>

datatype main_error = Usage string | Uncaught py_error

definition split_model :: "string \<Rightarrow> main_error + string \<times> string" where
  "split_model spec =
     (let bad = Inl (Usage (''model must be provider/model, got '' @ spec))
      in if CHR ''/'' \<notin> set spec then bad
         else (let provider = before_char (CHR ''/'') spec; model = after_char (CHR ''/'') spec
               in if provider = [] \<or> model = [] then bad else Inr (provider, model)))"

definition endpoint ::
  "(string \<Rightarrow> py_error + string) \<Rightarrow> string \<Rightarrow> string \<Rightarrow> (string, string) dict \<Rightarrow> main_error + string \<times> string option" where
  "endpoint scheme_of label provider env =
     (let variable = ''SEISMOGRAPH_'' @ label @ ''_BASE_URL''; own = dict_get env variable [];
          base = (if own \<noteq> [] then own else dict_get DEFAULT_BASE_URLS provider []);
          key = dict_get env (''SEISMOGRAPH_'' @ label @ ''_API_KEY'') []
      in if base = [] then Inl (Usage (''set '' @ variable @ '' (no default for '' @ provider @ '')''))
         else (case scheme_of base of
                 Inl e \<Rightarrow> Inl (Uncaught e)
               | Inr scheme \<Rightarrow>
                   if scheme \<notin> {''http'', ''https''} then Inl (Usage (variable @ '' must be http(s)''))
                   else Inr (base, if key = [] then None else Some key)))"

record compare_args =
  ca_suite :: string
  ca_a :: string
  ca_b :: string
  ca_repeats :: int
  ca_max_tokens :: int
  ca_delay_ms_a :: int
  ca_delay_ms_b :: int
  ca_timeout :: real
  ca_out :: "string option"
  ca_no_text :: bool
  ca_yes :: bool

record ('w, 'g) main_env =
  me_compare :: "('w, 'g) compare_env"
  me_environ :: "(string, string) dict"
  me_read :: "string \<Rightarrow> 'w \<Rightarrow> (string + bytes) \<times> 'w"
  me_decode :: "bytes \<Rightarrow> string option"
  me_digest :: "bytes \<Rightarrow> string"
  me_scheme :: "string \<Rightarrow> py_error + string"
  me_netloc :: "string \<Rightarrow> string"
  me_stamp :: "'w \<Rightarrow> string \<times> 'w"
  me_tool_commit :: "'w \<Rightarrow> string option \<times> 'w"
  me_sleep :: "real \<Rightarrow> 'w \<Rightarrow> 'w"
  me_perf :: "'w \<Rightarrow> real"
  me_transport :: "'w transport"
  me_dumps :: "json \<Rightarrow> string"
  me_dumps_sorted :: "json \<Rightarrow> string"

record compare_plan =
  pl_items :: "suite_item list"
  pl_suite_sha :: string
  pl_model_a :: string
  pl_model_b :: string
  pl_base_a :: string
  pl_key_a :: "string option"
  pl_base_b :: string
  pl_key_b :: "string option"

text \<open>The first \<^verbatim>\<open>try\<close> block, after the suite file was read.\<close>

definition suite_usage :: "py_error + 'a \<Rightarrow> main_error + 'a" where
  "suite_usage r = (case r of Inl (ValueError m) \<Rightarrow> Inl (Usage m) | Inl e \<Rightarrow> Inl (Uncaught e) | Inr x \<Rightarrow> Inr x)"

definition make_plan :: "('w, 'g) main_env \<Rightarrow> compare_args \<Rightarrow> string + bytes \<Rightarrow> main_error + compare_plan" where
  "make_plan env args raw =
     sum_bind (case raw of
                 Inl message \<Rightarrow> Inl (Usage message)
               | Inr bs \<Rightarrow> suite_usage (load_suite (me_decode env) (ce_loads (ke_canary (me_compare env))) (me_digest env) bs))
      (\<lambda>(items, sha).
         if \<not> (MIN_REPEATS \<le> ca_repeats args \<and> ca_repeats args \<le> MAX_REPEATS) then Inl (Usage ''--repeats must be 2..5'')
         else sum_bind (split_model (ca_a args)) (\<lambda>(prov_a, model_a).
              sum_bind (split_model (ca_b args)) (\<lambda>(prov_b, model_b).
              sum_bind (endpoint (me_scheme env) ''A'' prov_a (me_environ env)) (\<lambda>(base_a, key_a).
              sum_bind (endpoint (me_scheme env) ''B'' prov_b (me_environ env)) (\<lambda>(base_b, key_b).
                Inr \<lparr>pl_items = items, pl_suite_sha = sha, pl_model_a = model_a, pl_model_b = model_b, pl_base_a = base_a,
                     pl_key_a = key_a, pl_base_b = base_b, pl_key_b = key_b\<rparr>)))))"

definition plan_lines :: "('w, 'g) main_env \<Rightarrow> compare_args \<Rightarrow> compare_plan \<Rightarrow> string list" where
  "plan_lines env args plan =
     (let items = length (pl_items plan); calls = items * nat (ca_repeats args) * 2
      in [digits_of items @ '' items x '' @ str_of_int (ca_repeats args) @ '' repeats x 2 models = '' @ digits_of calls
            @ '' calls (plus at most '' @ digits_of MAX_RETRIES @ '' retries per failed call).'',
          ''A: '' @ ca_a args @ '' at '' @ me_netloc env (pl_base_a plan),
          ''B: '' @ ca_b args @ '' at '' @ me_netloc env (pl_base_b plan)])"

definition cli_side ::
  "('w, 'g) main_env \<Rightarrow> string \<Rightarrow> string \<Rightarrow> chat_provider \<Rightarrow> string \<Rightarrow> int \<Rightarrow> 'w side" where
  "cli_side env label requested provider model delay_ms =
     init_side label requested (provider_caller (me_dumps env) (me_dumps_sorted env) (me_perf env) (me_transport env) provider model)
       delay_ms (me_sleep env)"

definition ljust :: "nat \<Rightarrow> string \<Rightarrow> string" where
  "ljust n s = s @ replicate (n - length s) (CHR '' '')"

definition result_lines :: "compare_result \<Rightarrow> string list" where
  "result_lines res =
     map (\<lambda>m. ''  '' @ ljust 34 (mr_label m) @ '' '' @ mr_verdict m) (ev_metrics (cr_evidence res))
     @ [''report:   '' @ cr_out_dir res @ ''/report.html'', ''evidence: '' @ cr_out_dir res @ ''/evidence.json'',
        ''evidence sha256: '' @ cr_evidence_sha256 res]"

text \<open>Exit code and printed lines; an exception that \<open>main\<close> does not catch is the left case.\<close>

definition main :: "('w, 'g) main_env \<Rightarrow> compare_args \<Rightarrow> 'w \<Rightarrow> (py_error + int \<times> string list) \<times> 'w" where
  "main env args w =
     (case me_read env (ca_suite args) w of
        (raw, w) \<Rightarrow>
          (case make_plan env args raw of
             Inl (Usage message) \<Rightarrow> (Inr (1, [''error: '' @ message]), w)
           | Inl (Uncaught e) \<Rightarrow> (Inl e, w)
           | Inr plan \<Rightarrow>
               (let announced = plan_lines env args plan
                in if \<not> ca_yes args
                   then (Inr (3, announced @ [''Nothing sent. Re-run with --yes to make these calls.'']), w)
                   else (case sum_bind (init_provider (pl_base_a plan) (pl_key_a plan) (ca_max_tokens args) (ca_timeout args))
                                (\<lambda>pa. sum_bind (init_provider (pl_base_b plan) (pl_key_b plan) (ca_max_tokens args) (ca_timeout args))
                                        (\<lambda>pb. Inr (pa, pb))) of
                           Inl exc \<Rightarrow> (Inr (1, announced @ [''error: '' @ pe_message exc]), w)
                         | Inr (pa, pb) \<Rightarrow>
                             (case me_stamp env w of
                                (stamp, w) \<Rightarrow>
                                  (case me_tool_commit env w of
                                     (commit, w) \<Rightarrow>
                                       (case compare (me_compare env) (pl_items plan) (pl_suite_sha plan)
                                               (cli_side env ''A'' (ca_a args) pa (pl_model_a plan) (ca_delay_ms_a args))
                                               (cli_side env ''B'' (ca_b args) pb (pl_model_b plan) (ca_delay_ms_b args))
                                               (ca_repeats args)
                                               (case ca_out args of
                                                  None \<Rightarrow> ''compare-'' @ stamp
                                                | Some dir \<Rightarrow> if dir = [] then ''compare-'' @ stamp else dir)
                                               (ca_no_text args) (ca_max_tokens args) commit w of
                                          (Inl e, w) \<Rightarrow> (Inl e, w)
                                        | (Inr res, w) \<Rightarrow> (Inr (cr_exit_code res, announced @ result_lines res), w))))))))"

subsection \<open>Lemmas: hiding answers and prompts\<close>

definition hide_item_obs :: "item_obs \<Rightarrow> item_obs" where
  "hide_item_obs d = map (\<lambda>(i, os). (i, map hide_text os)) d"

definition hide_obs :: "observations \<Rightarrow> observations" where
  "hide_obs obs = map (\<lambda>(l, d). (l, hide_item_obs d)) obs"

definition hide_prompt :: "suite_item \<Rightarrow> suite_item" where
  "hide_prompt item = item\<lparr>it_user := [], it_system := None\<rparr>"

lemma hide_text_simps [simp]:
  "ob_failure (hide_text o1) = ob_failure o1" "ob_hash (hide_text o1) = ob_hash o1" "ob_length (hide_text o1) = ob_length o1"
  "ob_finish_reason (hide_text o1) = ob_finish_reason o1" "ob_empty (hide_text o1) = ob_empty o1"
  "ob_json_valid (hide_text o1) = ob_json_valid o1" "ob_refusal (hide_text o1) = ob_refusal o1"
  "ob_latency_ms (hide_text o1) = ob_latency_ms o1" "ob_output_tokens (hide_text o1) = ob_output_tokens o1"
  "ob_reasoning_tokens (hide_text o1) = ob_reasoning_tokens o1" "ob_returned_model (hide_text o1) = ob_returned_model o1"
  "ob_valid (hide_text o1) = ob_valid o1"
  by (simp_all add: hide_text_def ob_valid_def)

lemma hide_prompt_simps [simp]: "it_id (hide_prompt item) = it_id item" "it_expect_json (hide_prompt item) = it_expect_json item"
  by (simp_all add: hide_prompt_def)

lemma dict_get_hide_item [simp]: "dict_get (hide_item_obs d) i [] = map hide_text (dict_get d i [])"
  by (simp add: hide_item_obs_def dict_get_def map_of_map comp_def split: option.split)

lemma dict_get_hide [simp]: "dict_get (hide_obs obs) l [] = hide_item_obs (dict_get obs l [])"
  by (simp add: hide_obs_def dict_get_def map_of_map comp_def hide_item_obs_def split: option.split)

lemma filter_valid_hide [simp]: "filter ob_valid (map hide_text os) = map hide_text (filter ob_valid os)"
  by (simp add: filter_map comp_def)

lemma map_filter_hide: "(\<And>o1. f (hide_text o1) = f o1) \<Longrightarrow> List.map_filter f (map hide_text os) = List.map_filter f os"
  by (induction os) (auto simp: map_filter_simps split: option.split)

lemma valid_at_hide [simp]: "valid_at (hide_item_obs d) (hide_prompt item) = map hide_text (valid_at d item)"
  by (simp add: valid_at_def)

lemma hashes_at_hide [simp]: "hashes_at (hide_item_obs d) (hide_prompt item) = hashes_at d item"
  by (simp add: hashes_at_def)

lemma modal_hide [simp]: "modal (map hide_text os) = map_option hide_text (modal os)"
proof -
  have "find P (map hide_text os) = map_option hide_text (find P os)" if "\<And>o1. P (hide_text o1) = P o1" for P os
    using that by (induction os) auto
  then show ?thesis by (simp add: modal_def Let_def comp_def)
qed

lemma metric_pairs_hide:
  "(\<And>o1. f (hide_text o1) = f o1) \<Longrightarrow>
     metric_pairs f json_only (map hide_prompt items) (hide_item_obs a) (hide_item_obs b) = metric_pairs f json_only items a b"
  by (simp add: metric_pairs_def values_at_def map_filter_hide filter_map comp_def)

lemma evaluate_metrics_hide:
  "evaluate_metrics randrange rng seed (map hide_prompt items) (hide_item_obs a) (hide_item_obs b) both
     = evaluate_metrics randrange rng seed items a b both"
  by (simp add: evaluate_metrics_def evaluate_metric_def METRICS_def metric_def number_of_def flag_of_def truncated_def
      metric_pairs_hide enumerate_eq_zip)

lemma side_levels_hide: "side_levels (map hide_prompt items) (hide_item_obs d) = side_levels items d"
proof -
  have valid: "concat (map (valid_at (hide_item_obs d)) (map hide_prompt its)) = map hide_text (concat (map (valid_at d) its))" for its
    by (induction its) auto
  have json: "filter it_expect_json (map hide_prompt items) = map hide_prompt (filter it_expect_json items)"
    by (simp add: filter_map comp_def)
  have hashes: "map (hashes_at (hide_item_obs d)) (map hide_prompt items) = map (hashes_at d) items" by simp
  show ?thesis unfolding side_levels_def json valid hashes Let_def
    by (simp add: map_filter_hide truncated_def comp_def)
qed

lemma all_obs_hide: "all_obs (map hide_prompt items) (hide_item_obs d) = map hide_text (all_obs items d)"
  by (induction items) (auto simp: all_obs_def)

lemma side_evidence_hide: "side_evidence_of (map hide_prompt items) (hide_obs obs) side = side_evidence_of items obs side"
  by (simp add: side_evidence_of_def Let_def all_obs_hide side_measured_def returned_models_def failure_counts_def failure_rate_def
      map_filter_hide side_levels_hide)

lemma both_measured_hide: "both_measured (map hide_prompt items) (hide_obs obs) sa sb = both_measured items obs sa sb"
  by (simp add: both_measured_def side_measured_def all_obs_hide failure_rate_def failure_counts_def map_filter_hide)

lemma modal_matches_hide: "modal_matches (map hide_prompt items) (hide_item_obs a) (hide_item_obs b) = modal_matches items a b"
  by (induction items) (auto simp: modal_matches_def map_filter_simps split: option.split)

definition hide_change :: "change \<Rightarrow> change" where
  "hide_change t = t\<lparr>ch_modal_a := map_option hide_text (ch_modal_a t), ch_modal_b := map_option hide_text (ch_modal_b t)\<rparr>"

lemma modal_length_hide [simp]: "modal_length (map_option hide_text m) = modal_length m"
  by (cases m) (simp_all add: modal_length_def)

lemma scored_changes_hide:
  "scored_changes (map hide_prompt items) (hide_item_obs a) (hide_item_obs b) = map (apsnd hide_change) (scored_changes items a b)"
  by (induction items) (auto simp: scored_changes_def map_filter_simps Let_def hide_change_def split: option.split)

lemma insort_key_hide: "insort_key fst (apsnd g x) (map (apsnd g) xs) = map (apsnd g) (insort_key fst x xs)"
  by (induction xs) auto

lemma top_changes_hide: "top_changes (map hide_prompt items) (hide_item_obs a) (hide_item_obs b) = map hide_change (top_changes items a b)"
proof -
  have "sort_key fst (map (apsnd hide_change) xs) = map (apsnd hide_change) (sort_key fst xs)"
    for xs :: "((real \<times> int \<times> string) \<times> change) list"
    by (induction xs) (simp_all add: insort_key_hide)
  then show ?thesis by (simp add: top_changes_def scored_changes_hide take_map)
qed

lemma obs_record_hide [simp]: "obs_record (hide_text o1) = obs_record o1"
  by (simp add: obs_record_def)

definition hide_evidence :: "evidence \<Rightarrow> evidence" where
  "hide_evidence ev = ev\<lparr>ev_items := map (\<lambda>(i, ej, sides). (i, ej, hide_item_obs sides)) (ev_items ev)\<rparr>"

lemma hide_evidence_simps [simp]:
  "ev_info (hide_evidence ev) = ev_info ev" "ev_suite_sha256 (hide_evidence ev) = ev_suite_sha256 ev"
  "ev_suite_items (hide_evidence ev) = ev_suite_items ev" "ev_repeats (hide_evidence ev) = ev_repeats ev"
  "ev_sides (hide_evidence ev) = ev_sides ev" "ev_metrics (hide_evidence ev) = ev_metrics ev"
  "ev_modal_match_share (hide_evidence ev) = ev_modal_match_share ev"
  by (simp_all add: hide_evidence_def)

lemma hide_item_obs_Cons [simp]:
  "hide_item_obs [] = []" "hide_item_obs ((l, os) # d) = (l, map hide_text os) # hide_item_obs d"
  by (simp_all add: hide_item_obs_def)

lemma build_evidence_hide:
  "build_evidence sha256 randrange rng info (map hide_prompt items) suite_sha sa sb repeats max_tokens (hide_obs obs)
     = map_prod hide_evidence (map hide_change) (build_evidence sha256 randrange rng info items suite_sha sa sb repeats max_tokens obs)"
  unfolding build_evidence_def Let_def both_measured_hide side_evidence_hide dict_get_hide evaluate_metrics_hide modal_matches_hide
    top_changes_hide map_prod_simp
  by (simp add: hide_evidence_def hide_change_def comp_def)

lemma evidence_json_hide: "evidence_json (hide_evidence ev) = evidence_json ev"
  by (simp add: evidence_json_def hide_evidence_def Let_def hide_item_obs_def case_prod_unfold comp_def)

lemma render_hide:
  "render_report f (hide_evidence ev) (map hide_change changes) True = render_report f ev changes True"
proof -
  have "change_block f True (hide_change t) = change_block f True t" for t
    by (simp add: change_block_def hide_change_def)
  then have "change_list f True (map hide_change changes) = change_list f True changes"
    by (simp add: change_list_def comp_def)
  moreover have "map_of (ev_sides (hide_evidence ev)) l = map_of (ev_sides ev) l"
      "report_header (hide_evidence ev) sa sb = report_header ev sa sb" "verdict_table (hide_evidence ev) = verdict_table ev"
      "level_table (hide_evidence ev) sa sb = level_table ev sa sb" "report_footer (hide_evidence ev) = report_footer ev" for l sa sb
    by (simp_all only: hide_evidence_simps report_header_def verdict_table_def level_table_def report_footer_def)
  ultimately show ?thesis by (simp only: render_report_def)
qed

subsection \<open>Properties\<close>

text \<open>C31: 
  The evidence file holds no prompt and no answer: its JSON value is the same when every answer text and every user and
  system prompt is erased before it is built, whatever the observations; and a report without text is the same too.
\<close>
theorem evidence_holds_no_text:
  "(case build_evidence sha256 randrange rng info items suite_sha side_a side_b repeats max_tokens obs of
      (ev, changes) \<Rightarrow> (evidence_json ev, render_report str_float ev changes True))
   = (case build_evidence sha256 randrange rng info (map hide_prompt items) suite_sha side_a side_b repeats max_tokens (hide_obs obs) of
      (ev, changes) \<Rightarrow> (evidence_json ev, render_report str_float ev changes True))"
  by (simp add: build_evidence_hide evidence_json_hide render_hide split: prod.split)

text \<open>
  The exit codes of the command line: with \<^verbatim>\<open>--yes\<close> it is 0, 1 or 2, without it 1 or 3; and unless the code is 0 or 2
  nothing was sent or written, the world being the one after the suite file was read.
\<close>
theorem nothing_sent_without_yes:
  "(case main env args w of
      (Inl e, w') \<Rightarrow> ca_yes args \<or> w' = snd (me_read env (ca_suite args) w)
    | (Inr (code, lines), w') \<Rightarrow>
        (if ca_yes args then code \<in> {0, 1, 2} else code \<in> {1, 3}) \<and> (code \<in> {0, 2} \<or> w' = snd (me_read env (ca_suite args) w)))"
proof -
  have code: "cr_exit_code res \<in> {0, 2}" if "compare kenv items sha sa sb repeats dir nt mt commit w1 = (Inr res, w2)"
    for kenv and sa sb :: "'a side" and items sha repeats dir nt mt commit w1 w2 res
    using that by (auto simp: compare_def Let_def split: if_splits sum.splits prod.splits)
  show ?thesis
    by (auto simp: main_def Let_def split: sum.split prod.split main_error.split dest!: code)
qed

subsection \<open>Lemmas: a comparison from end to end\<close>

lemma sum_failure_counts: "sum_list (map snd (failure_counts os)) = length (filter (\<lambda>o1. \<not> ob_valid o1) os)"
proof -
  let ?fs = "List.map_filter ob_failure os"
  have "sum_list (map (count_list ?fs) (sort (remdups ?fs))) = sum (count_list ?fs) (set ?fs)"
    by (simp add: sum_list_distinct_conv_sum_set)
  also have "\<dots> = length ?fs" by (rule sum_count_set) auto
  also have "\<dots> = length (filter (\<lambda>o1. \<not> ob_valid o1) os)"
    by (induction os) (auto simp: map_filter_simps ob_valid_def split: option.split)
  finally show ?thesis by (simp add: failure_counts_def Let_def comp_def)
qed

lemma failure_rate_limit:
  "failure_rate os \<le> INFRA_FAILURE_LIMIT \<longleftrightarrow> 10 * length (filter (\<lambda>o1. \<not> ob_valid o1) os) \<le> length os"
proof (cases "os = []")
  case False
  then have "0 < real (length os)" by simp
  then show ?thesis using False by (simp add: failure_rate_def INFRA_FAILURE_LIMIT_def sum_failure_counts field_simps) linarith
qed (simp add: failure_rate_def INFRA_FAILURE_LIMIT_def)

lemma unmeasured_rows:
  "\<not> both \<Longrightarrow> list_all (\<lambda>m. mr_verdict m = NOT_MEASURED \<and> mr_p_value m = None \<and> mr_a_vs_b m = None)
     (evaluate_metrics randrange rng seed items a b both)"
  by (auto simp: evaluate_metrics_def evaluate_metric_def metric_verdict_def Let_def list_all_iff split: metric_value.split)

lemma length_all_obs: "(\<And>item. item \<in> set items \<Longrightarrow> length (dict_get d (it_id item) []) = n) \<Longrightarrow> length (all_obs items d) = n * length items"
  by (induction items) (auto simp: all_obs_def)

definition files_writable :: "('w, 'g) compare_env \<Rightarrow> bool" where
  "files_writable kenv \<longleftrightarrow> (\<forall>path s w. \<not> isl (fst (ke_mkdir kenv path w)) \<and> \<not> isl (fst (ke_write kenv path s w)))"

text \<open>The two files of a finished comparison, written one after the other, and nothing in the world after them.\<close>

definition files_written :: "('w, 'g) compare_env \<Rightarrow> string \<Rightarrow> string \<Rightarrow> string \<Rightarrow> 'w \<Rightarrow> bool" where
  "files_written kenv dir ev html w' \<longleftrightarrow>
     (\<exists>w w1 w2. ke_mkdir kenv dir w = (Inr (), w1) \<and> ke_write kenv (dir @ ''/evidence.json'') ev w1 = (Inr (), w2)
        \<and> ke_write kenv (dir @ ''/report.html'') html w2 = (Inr (), w'))"

lemma write_result_ok:
  assumes "files_writable kenv"
  shows "\<exists>w'. write_result kenv dir ev (Inr html) w = (Inr html, w') \<and> files_written kenv dir ev html w'"
proof -
  have ok: "\<exists>w'. p = (Inr (), w')" if "\<not> isl (fst p)" for p :: "(py_error + unit) \<times> 'a"
    using that by (cases p; cases "fst p") auto
  have mk: "\<exists>w'. ke_mkdir kenv path w = (Inr (), w')" for path w using assms by (auto simp: files_writable_def intro!: ok)
  have wr: "\<exists>w'. ke_write kenv path s w = (Inr (), w')" for path s w using assms by (auto simp: files_writable_def intro!: ok)
  obtain w1 where 1: "ke_mkdir kenv dir w = (Inr (), w1)" using mk by blast
  obtain w2 where 2: "ke_write kenv (dir @ ''/evidence.json'') ev w1 = (Inr (), w2)" using wr by blast
  obtain w3 where 3: "ke_write kenv (dir @ ''/report.html'') html w2 = (Inr (), w3)" using wr by blast
  from 1 2 3 show ?thesis by (auto simp: write_result_def files_written_def)
qed

lemma two_sides:
  "list_all2 (side_step j k) [sa, sb] sides \<Longrightarrow> \<exists>ta tb. sides = [ta, tb] \<and> side_step j k sa ta \<and> side_step j k sb tb"
  by (auto simp: list_all2_Cons1)

text \<open>What the evidence says about a side that was asked \<open>n\<close> times.\<close>

definition side_accounted :: "nat \<Rightarrow> 'w side \<Rightarrow> side_evidence \<Rightarrow> bool" where
  "side_accounted n s se \<longleftrightarrow> se_requested se = cs_requested s \<and> se_planned_calls se = n
     \<and> se_calls_made se \<le> cs_calls_made s + 3 * n + 1
     \<and> (se_measured se \<longleftrightarrow> 10 * sum_list (map snd (se_failures se)) \<le> n)"

lemma side_accounted_step:
  assumes "side_step j n s t" and "length (all_obs items (dict_get obs (cs_label t) [])) = n"
  shows "side_accounted n s (side_evidence_of items obs t)"
  using assms
  by (auto simp: side_accounted_def side_evidence_of_def Let_def side_measured_def failure_rate_limit sum_failure_counts
      side_step_def MAX_RETRIES_def of_bool_def split: if_splits)

lemma render_two_sides:
  "ev_sides ev = [(''A'', sa), (''B'', sb)] \<Longrightarrow> \<exists>html. render_report f ev changes no_text = Inr html"
  by (simp add: render_report_def)

text \<open>C28: 
  A comparison with a number of repeats it accepts, clients that raise nothing but provider errors, unique ids and a
  writable directory always ends, and its last effects are the two files: the evidence it returns, under the digest it returns, and the
  report rendered from it. Its evidence has both sides, each with one planned call per item
  and repeat and at most three calls for each (and one for the temperature); a side is measured exactly when at most one
  tenth of its observations are failures; the exit code is 0 when both are and 2 otherwise, and then no metric has a
  verdict, a p-value or a difference.
\<close>
theorem comparison_completes:
  assumes "2 \<le> repeats" "repeats \<le> 5" and "answers_or_fails side_a" "answers_or_fails side_b"
    and "cs_label side_a = ''A''" "cs_label side_b = ''B''" and "distinct (map it_id items)" and "files_writable kenv"
  shows "\<exists>res w' sa sb. compare kenv items suite_sha side_a side_b repeats out_dir no_text max_tokens commit w = (Inr res, w')
    \<and> files_written kenv out_dir (ke_dumps kenv (evidence_json (cr_evidence res)) @ [CHR 0x0A]) (cr_report_html res) w'
    \<and> (\<exists>changes. render_report (ke_str_float kenv) (cr_evidence res) changes no_text = Inr (cr_report_html res))
    \<and> cr_evidence_sha256 res = ce_sha256 (ke_canary kenv) (ke_dumps kenv (evidence_json (cr_evidence res)) @ [CHR 0x0A])
    \<and> ev_sides (cr_evidence res) = [(''A'', sa), (''B'', sb)]
    \<and> side_accounted (nat repeats * length items) side_a sa \<and> side_accounted (nat repeats * length items) side_b sb
    \<and> cr_exit_code res = (if se_measured sa \<and> se_measured sb then 0 else 2)
    \<and> (cr_exit_code res = 2 \<longrightarrow>
         list_all (\<lambda>m. mr_verdict m = NOT_MEASURED \<and> mr_p_value m = None \<and> mr_a_vs_b m = None) (ev_metrics (cr_evidence res)))"
proof -
  let ?n = "nat repeats * length items"
  obtain started w1 where now: "ke_now kenv w = (started, w1)" by (cases "ke_now kenv w")
  have sides: "list_all answers_or_fails [side_a, side_b]" "distinct (map cs_label [side_a, side_b])" using assms by simp_all
  obtain obs sides' w2 where run: "run_calls (ke_canary kenv) items [side_a, side_b] (nat repeats) w1 = (Inr obs, sides', w2)"
    and step: "list_all2 (side_step ?n ?n) [side_a, side_b] sides'"
    and each: "\<And>side item. side \<in> set [side_a, side_b] \<Longrightarrow> item \<in> set items \<Longrightarrow> length (obs_at obs (cs_label side) (it_id item)) = nat repeats"
    using run_calls_answers [OF sides assms(7), of "ke_canary kenv" "nat repeats" w1] by (auto simp: run_step_def)
  obtain ta tb where t: "sides' = [ta, tb]" "side_step ?n ?n side_a ta" "side_step ?n ?n side_b tb" using two_sides [OF step] by auto
  have labels: "cs_label ta = ''A''" "cs_label tb = ''B''" using t assms by (auto simp: side_step_def)
  have len: "length (all_obs items (dict_get obs (cs_label ta) [])) = ?n" "length (all_obs items (dict_get obs (cs_label tb) [])) = ?n"
    using each [of side_a] each [of side_b] labels assms(5,6) by (auto intro!: length_all_obs simp: obs_at_def)
  obtain finished w3 where now3: "ke_now kenv w2 = (finished, w3)" by (cases "ke_now kenv w2")
  let ?info = "\<lparr>ri_tool_version = ke_tool_version kenv, ri_tool_commit = commit, ri_source_sha256 = ke_source_sha256 kenv,
    ri_started_at = started, ri_finished_at = finished\<rparr>"
  obtain ev changes where ev: "build_evidence (ce_sha256 (ke_canary kenv)) (ke_randrange kenv) (ke_rng kenv) ?info items suite_sha ta tb
    repeats max_tokens obs = (ev, changes)" by (metis prod.exhaust)
  have ev_sides: "ev_sides ev = [(''A'', side_evidence_of items obs ta), (''B'', side_evidence_of items obs tb)]"
    and rows: "\<not> both_measured items obs ta tb \<Longrightarrow>
      list_all (\<lambda>m. mr_verdict m = NOT_MEASURED \<and> mr_p_value m = None \<and> mr_a_vs_b m = None) (ev_metrics ev)"
    using ev labels unmeasured_rows by (auto simp: build_evidence_def Let_def)
  have both: "both_measured items obs ta tb \<longleftrightarrow> se_measured (side_evidence_of items obs ta) \<and> se_measured (side_evidence_of items obs tb)"
    by (simp add: both_measured_def side_evidence_of_def Let_def)
  obtain html where html: "render_report (ke_str_float kenv) ev changes no_text = Inr html" using render_two_sides [OF ev_sides] by blast
  obtain w4 where written: "write_result kenv out_dir (ke_dumps kenv (evidence_json ev) @ [CHR 0x0A]) (Inr html) w3 = (Inr html, w4)"
    and files: "files_written kenv out_dir (ke_dumps kenv (evidence_json ev) @ [CHR 0x0A]) html w4"
    using write_result_ok [OF assms(8)] by blast
  have "compare kenv items suite_sha side_a side_b repeats out_dir no_text max_tokens commit w
      = (Inr \<lparr>cr_evidence = ev, cr_report_html = html, cr_out_dir = out_dir,
              cr_evidence_sha256 = ce_sha256 (ke_canary kenv) (ke_dumps kenv (evidence_json ev) @ [CHR 0x0A]),
              cr_exit_code = (if both_measured items obs ta tb then 0 else 2)\<rparr>, w4)"
    using assms(1,2) by (simp add: compare_def MIN_REPEATS_def MAX_REPEATS_def now run t(1) now3 Let_def ev html written)
  then show ?thesis
    using ev_sides rows both files html side_accounted_step [OF t(2) len(1)] side_accounted_step [OF t(3) len(2)] by auto
qed

definition example_kenv :: "(nat, unit) compare_env" where
  "example_kenv =
     \<lparr>ke_canary = silent_env, ke_randrange = (\<lambda>n g. (0, g)), ke_rng = (\<lambda>seed. ()), ke_str_float = (\<lambda>x. []),
      ke_now = (\<lambda>w. (''2026-01-01T00:00:00'', w)), ke_tool_version = ''source'', ke_source_sha256 = [],
      ke_dumps = (\<lambda>j. ''{}''), ke_mkdir = (\<lambda>path w. (Inr (), w)), ke_write = (\<lambda>path s w. (Inr (), w))\<rparr>"

definition other_side :: "nat side" where
  "other_side = init_side ''B'' ''p/m2'' (\<lambda>item t w. (Inl (CallProvider (status_error 401)), Suc w)) 0 (\<lambda>s w. w)"

lemma comparison_completes_witness:
  "\<exists>res w' sa sb. compare example_kenv [example_item] ''ab'' example_side other_side 3 ''out'' False 512 None 0 = (Inr res, w')
     \<and> ev_sides (cr_evidence res) = [(''A'', sa), (''B'', sb)]
     \<and> side_accounted 3 example_side sa \<and> side_accounted 3 other_side sb"
  using comparison_completes [of 3 example_side other_side "[example_item]" example_kenv "''ab''" "''out''" False 512 None 0]
  by (auto simp: answers_or_fails_def example_side_def other_side_def init_side_def example_item_def files_writable_def example_kenv_def)

end
