(* ===== verification/ScorerRedis.thy ===== *)
theory ScorerRedis
  imports Correlation
begin

section \<open>The agreement scorer on Redis (engine/scorer\_redis.py)\<close>

text \<open>
  The second backend of the scorer: both tables of a stream are Redis sorted sets with event times in milliseconds as
  scores, and the promotion is one Lua script. Redis is not part of the repository: its commands are the operations
  of a record, and what the script relies on are the laws of the locale \<open>sorted_sets\<close>, the documented behaviour of
  the commands over the scores of each key. \<open>EXPIRE\<close> changes no score; that a key idle for twice the window
  may vanish is outside the model. Lua numbers are exact, as they are below \<open>2 ^ 53\<close>. The scripts' result and the
  in-process scorer are compared over whole histories.
\<close>

subsection \<open>Redis\<close>

record 'r redis =
  rd_zadd :: "string \<Rightarrow> string \<Rightarrow> int \<Rightarrow> 'r \<Rightarrow> 'r"
  rd_expire :: "string \<Rightarrow> int \<Rightarrow> 'r \<Rightarrow> 'r"
  rd_zremrangebelow :: "string \<Rightarrow> int \<Rightarrow> 'r \<Rightarrow> 'r"
  rd_zcount :: "string \<Rightarrow> int \<Rightarrow> int \<Rightarrow> 'r \<Rightarrow> nat"
  rd_delete :: "string \<Rightarrow> 'r \<Rightarrow> 'r"

locale sorted_sets =
  fixes db :: "'r redis" and score :: "'r \<Rightarrow> string \<Rightarrow> string \<Rightarrow> int option"
  assumes zadd: "score (rd_zadd db k m s r) k' m' = (if k' = k \<and> m' = m then Some s else score r k' m')"
    and expire: "score (rd_expire db k secs r) k' m' = score r k' m'"
    and zremrange: "score (rd_zremrangebelow db k cutoff r) k' m' =
      (case score r k' m' of None \<Rightarrow> None | Some s \<Rightarrow> if k' = k \<and> s < cutoff then None else Some s)"
    and zcount: "rd_zcount db k a b r = card {m. \<exists>s. score r k m = Some s \<and> a \<le> s \<and> s \<le> b}"
    and delete: "score (rd_delete db k r) k' m' = (if k' = k then None else score r k' m')"

text \<open>A store that is only sorted sets, to show that the laws can hold.\<close>

type_synonym memory_store = "(string, (string, int) dict) dict"

definition memory_score :: "memory_store \<Rightarrow> string \<Rightarrow> string \<Rightarrow> int option" where
  "memory_score r k m = map_of (dict_get r k []) m"

definition memory_redis :: "memory_store redis" where
  "memory_redis =
     \<lparr>rd_zadd = (\<lambda>k m s r. AList.update k (AList.update m s (dict_get r k [])) r),
      rd_expire = (\<lambda>k secs r. r),
      rd_zremrangebelow = (\<lambda>k cutoff r.
        AList.update k (concat (map (\<lambda>m. case memory_score r k m of None \<Rightarrow> [] | Some s \<Rightarrow> if s < cutoff then [] else [(m, s)])
                                 (remdups (map fst (dict_get r k []))))) r),
      rd_zcount = (\<lambda>k a b r. length (filter (\<lambda>m. case memory_score r k m of None \<Rightarrow> False | Some s \<Rightarrow> a \<le> s \<and> s \<le> b)
                                       (remdups (map fst (dict_get r k []))))),
      rd_delete = (\<lambda>k r. AList.delete k r)\<rparr>"

lemma map_of_kept:
  "map_of (concat (map (\<lambda>m. case f m of None \<Rightarrow> [] | Some s \<Rightarrow> if P s then [] else [(m, s)]) ms)) m
     = (if m \<in> set ms then case f m of None \<Rightarrow> None | Some s \<Rightarrow> if P s then None else Some s else None)"
  by (induction ms) (auto split: option.split)

lemma memory_member: "memory_score r k m = Some s \<Longrightarrow> m \<in> set (map fst (dict_get r k []))"
  by (force simp: memory_score_def dest: map_of_SomeD)

interpretation memory: sorted_sets memory_redis memory_score
proof
  fix r k k' m and cutoff :: int
  show "memory_score (rd_zremrangebelow memory_redis k cutoff r) k' m =
      (case memory_score r k' m of None \<Rightarrow> None | Some s \<Rightarrow> if k' = k \<and> s < cutoff then None else Some s)"
    using memory_member [of r k m]
    by (auto simp: memory_redis_def memory_score_def map_of_kept map_of_eq_None_iff split: option.split)
next
  fix r k and a b :: int
  let ?P = "\<lambda>m. case memory_score r k m of None \<Rightarrow> False | Some s \<Rightarrow> a \<le> s \<and> s \<le> b"
  have "{m. \<exists>s. memory_score r k m = Some s \<and> a \<le> s \<and> s \<le> b} = set (filter ?P (remdups (map fst (dict_get r k []))))"
    using memory_member [of r k] by (auto split: option.splits)
  then show "rd_zcount memory_redis k a b r = card {m. \<exists>s. memory_score r k m = Some s \<and> a \<le> s \<and> s \<le> b}"
    by (simp only: distinct_card [OF distinct_filter [OF distinct_remdups]]) (simp add: memory_redis_def)
qed (auto simp: memory_redis_def memory_score_def dict_get_def)

subsection \<open>The scorer\<close>

definition NS_PER_MS :: int where
  "NS_PER_MS = 1000000"

definition agree_key :: "string \<Rightarrow> string \<Rightarrow> string \<Rightarrow> string" where
  "agree_key model_tuple metric_name suite = ''sg:quorum:'' @ model_tuple @ '':'' @ suite @ '':'' @ metric_name"

definition obs_key :: "string \<Rightarrow> string \<Rightarrow> string \<Rightarrow> string" where
  "obs_key model_tuple metric_name suite = ''sg:observers:'' @ model_tuple @ '':'' @ suite @ '':'' @ metric_name"

record 'r redis_scorer =
  rs_redis :: 'r
  rs_floor :: int
  rs_ttl_ms :: int
  rs_frac_num :: int
  rs_frac_den :: int
  rs_backstop_s :: int

definition init_redis_scorer :: "'r \<Rightarrow> int option \<Rightarrow> int \<Rightarrow> int \<Rightarrow> int \<Rightarrow> 'r redis_scorer" where
  "init_redis_scorer client quorum ttl_ns frac_num frac_den =
     \<lparr>rs_redis = client, rs_floor = (case quorum of Some q \<Rightarrow> q | None \<Rightarrow> QUORUM_FLOOR), rs_ttl_ms = ttl_ns div NS_PER_MS,
      rs_frac_num = frac_num, rs_frac_den = frac_den, rs_backstop_s = max 1 (2 * ttl_ns div 1000000000)\<rparr>"

definition stamp_ms :: "int option \<Rightarrow> int \<Rightarrow> int" where
  "stamp_ms timestamp_ns now =
     (case timestamp_ns of
        None \<Rightarrow> now div NS_PER_MS
      | Some t \<Rightarrow> if t \<noteq> 0 then t div NS_PER_MS else now div NS_PER_MS)"

definition redis_observe ::
  "'r redis \<Rightarrow> 'r redis_scorer \<Rightarrow> int \<Rightarrow> string \<Rightarrow> string \<Rightarrow> string \<Rightarrow> int option \<Rightarrow> string \<Rightarrow> 'r redis_scorer" where
  "redis_observe db sc now model_tuple metric_name org_id timestamp_ns suite =
     (let ts = stamp_ms timestamp_ns now; okey = obs_key model_tuple metric_name suite;
          r = rd_zadd db okey org_id ts (rs_redis sc)
      in sc\<lparr>rs_redis := rd_expire db okey (rs_backstop_s sc) r\<rparr>)"

definition redis_ingest_org ::
  "'r redis \<Rightarrow> bool \<Rightarrow> string \<Rightarrow> string \<Rightarrow> int \<Rightarrow> string \<Rightarrow> 'r \<Rightarrow> 'r" where
  "redis_ingest_org db detected akey okey ts org_id r =
     (let r = rd_zadd db okey org_id ts r in if detected then rd_zadd db akey org_id ts r else r)"

definition redis_ingest :: "'r redis \<Rightarrow> 'r redis_scorer \<Rightarrow> int \<Rightarrow> change_point_result \<Rightarrow> 'r redis_scorer" where
  "redis_ingest db sc now result =
     (if cp_contributing_orgs result = [] then sc
      else (let ts = stamp_ms (Some (cp_timestamp_ns result)) now;
                akey = agree_key (cp_model_tuple result) (cp_metric_name result) (cp_suite_version result);
                okey = obs_key (cp_model_tuple result) (cp_metric_name result) (cp_suite_version result);
                detected = cp_change_detected result;
                r = fold (redis_ingest_org db detected akey okey ts) (cp_contributing_orgs result) (rs_redis sc);
                r = rd_expire db okey (rs_backstop_s sc) r;
                r = (if detected then rd_expire db akey (rs_backstop_s sc) r else r)
            in sc\<lparr>rs_redis := r\<rparr>))"

text \<open>The Lua script.\<close>

definition promote_script ::
  "'r redis \<Rightarrow> string \<Rightarrow> string \<Rightarrow> int \<Rightarrow> int \<Rightarrow> int \<Rightarrow> int \<Rightarrow> int \<Rightarrow> 'r \<Rightarrow> nat \<times> 'r" where
  "promote_script db akey okey cutoff now q_floor fnum fden r =
     (let r = rd_zremrangebelow db akey cutoff r;
          r = rd_zremrangebelow db okey cutoff r;
          agree = rd_zcount db akey cutoff now r
      in if agree = 0 then (0, r)
         else (let pop = rd_zcount db okey cutoff now r;
                   pop = (if pop < agree then agree else pop);
                   scaled = (fnum * int pop + fden - 1) div fden;
                   q = (if q_floor < scaled then scaled else q_floor)
               in if q \<le> int agree then (agree, rd_delete db akey r) else (0, r)))"

definition redis_promote ::
  "'r redis \<Rightarrow> 'r redis_scorer \<Rightarrow> int \<Rightarrow> string \<Rightarrow> string \<Rightarrow> string \<Rightarrow> 'r redis_scorer \<times> nat option" where
  "redis_promote db sc now_ns model_tuple metric_name suite =
     (let now_ms = now_ns div NS_PER_MS; cutoff = now_ms - rs_ttl_ms sc;
          (result, r) = promote_script db (agree_key model_tuple metric_name suite) (obs_key model_tuple metric_name suite)
                          cutoff now_ms (rs_floor sc) (rs_frac_num sc) (rs_frac_den sc) (rs_redis sc)
      in (sc\<lparr>rs_redis := r\<rparr>, if result = 0 then None else Some result))"

definition redis_clear :: "'r redis \<Rightarrow> 'r redis_scorer \<Rightarrow> string \<Rightarrow> string \<Rightarrow> string \<Rightarrow> 'r redis_scorer" where
  "redis_clear db sc model_tuple metric_name suite =
     sc\<lparr>rs_redis := rd_delete db (agree_key model_tuple metric_name suite) (rs_redis sc)\<rparr>"

subsection \<open>Histories on both backends\<close>

fun redis_step :: "'r redis \<Rightarrow> scorer_op \<Rightarrow> 'r redis_scorer \<Rightarrow> 'r redis_scorer" where
  "redis_step db (Observe mt mn org ts sv now) sc = redis_observe db sc now mt mn org ts sv"
| "redis_step db (Ingest r now) sc = redis_ingest db sc now r"
| "redis_step db (Promote mt mn now sv) sc = fst (redis_promote db sc now mt mn sv)"
| "redis_step db (Clear mt mn sv) sc = redis_clear db sc mt mn sv"

fun promoted :: "scorer_op \<Rightarrow> scorer \<Rightarrow> nat option" where
  "promoted (Promote mt mn now sv) sc =
     (case promote_to_public_alert sc now mt mn sv of Inl e \<Rightarrow> None | Inr (sc', c) \<Rightarrow> c)"
| "promoted _ sc = None"

fun redis_promoted :: "'r redis \<Rightarrow> scorer_op \<Rightarrow> 'r redis_scorer \<Rightarrow> nat option" where
  "redis_promoted db (Promote mt mn now sv) sc = snd (redis_promote db sc now mt mn sv)"
| "redis_promoted db _ sc = None"

fun promotions :: "scorer_op list \<Rightarrow> scorer \<Rightarrow> nat option list" where
  "promotions [] sc = []"
| "promotions (op # ops) sc = promoted op sc # promotions ops (scorer_step op sc)"

fun redis_promotions :: "'r redis \<Rightarrow> scorer_op list \<Rightarrow> 'r redis_scorer \<Rightarrow> nat option list" where
  "redis_promotions db [] sc = []"
| "redis_promotions db (op # ops) sc = redis_promoted db op sc # redis_promotions db ops (redis_step db op sc)"

subsection \<open>Lemmas: keys\<close>

text \<open>Streams whose model and metric have no colon have keys of their own.\<close>

fun plain_key :: "stream_key \<Rightarrow> bool" where
  "plain_key (mt, sv, mn) \<longleftrightarrow> CHR '':'' \<notin> set mt \<and> CHR '':'' \<notin> set mn"

declare plain_key.simps [simp del]

lemma split_first_colon:
  assumes "CHR '':'' \<notin> set a" "CHR '':'' \<notin> set b" and "a @ CHR '':'' # x = b @ CHR '':'' # y"
  shows "a = b \<and> x = y"
proof -
  have first: "takeWhile (\<lambda>c. c \<noteq> CHR '':'') (s @ CHR '':'' # u) = s" if "CHR '':'' \<notin> set s" for s u
    using that by (subst takeWhile_append2) auto
  have "a = b" using arg_cong [OF assms(3), of "takeWhile (\<lambda>c. c \<noteq> CHR '':'')"] first assms(1,2) by simp
  with assms(3) show ?thesis by simp
qed

lemma split_last_colon:
  assumes "CHR '':'' \<notin> set a" "CHR '':'' \<notin> set b" and "x @ CHR '':'' # a = y @ CHR '':'' # b"
  shows "a = b \<and> x = y"
  using split_first_colon [of "rev a" "rev b" "rev x" "rev y"] arg_cong [OF assms(3), of rev] assms(1,2) by simp

lemma stream_text_inj:
  assumes "plain_key (mt, sv, mn)" "plain_key (mt', sv', mn')"
    and "mt @ CHR '':'' # sv @ CHR '':'' # mn = mt' @ CHR '':'' # sv' @ CHR '':'' # mn'"
  shows "mt = mt' \<and> sv = sv' \<and> mn = mn'"
  using split_first_colon [of mt mt' "sv @ CHR '':'' # mn" "sv' @ CHR '':'' # mn'"] split_last_colon [of mn mn' sv sv'] assms
  by (auto simp: plain_key.simps)

lemma keys_inj:
  "plain_key (mt, sv, mn) \<Longrightarrow> plain_key (mt', sv', mn') \<Longrightarrow> agree_key mt mn sv = agree_key mt' mn' sv' \<longleftrightarrow> (mt, sv, mn) = (mt', sv', mn')"
  "plain_key (mt, sv, mn) \<Longrightarrow> plain_key (mt', sv', mn') \<Longrightarrow> obs_key mt mn sv = obs_key mt' mn' sv' \<longleftrightarrow> (mt, sv, mn) = (mt', sv', mn')"
  using stream_text_inj [of mt sv mn mt' sv' mn'] by (auto simp: agree_key_def obs_key_def)

lemma keys_apart [simp]: "agree_key mt mn sv \<noteq> obs_key mt' mn' sv'" "obs_key mt' mn' sv' \<noteq> agree_key mt mn sv"
  by (simp_all add: agree_key_def obs_key_def)

subsection \<open>Lemmas: a table and the scores of its key\<close>

text \<open>
  At time \<open>t\<close> the scores of a key are the entries of the in-process table in milliseconds, except for entries that
  expired before \<open>t\<close> and that a promotion may have pruned.
\<close>

definition tracks :: "int \<Rightarrow> int \<Rightarrow> org_table \<Rightarrow> (string \<Rightarrow> int option) \<Rightarrow> bool" where
  "tracks t ttl table f \<longleftrightarrow>
     (\<forall>org. case map_of table org of
        None \<Rightarrow> f org = None
      | Some ts \<Rightarrow> 0 < ts \<and> ts \<le> t \<and> NS_PER_MS dvd ts
          \<and> (f org = Some (ts div NS_PER_MS) \<or> f org = None \<and> ts < t - ttl))"

lemma tracks_later: "tracks t ttl table f \<Longrightarrow> t \<le> t' \<Longrightarrow> tracks t' ttl table f"
  unfolding tracks_def by (fastforce split: option.splits)

lemma tracks_empty: "tracks t ttl [] (\<lambda>org. None)"
  by (simp add: tracks_def)

lemma tracks_stamp:
  assumes "tracks t ttl table f" and "t \<le> u" "0 < u" "NS_PER_MS dvd u"
    and "\<And>org. map_of table' org = (if org \<in> S then keep_later (map_of table org) u else map_of table org)"
    and "\<And>org. f' org = (if org \<in> S then Some (u div NS_PER_MS) else f org)"
  shows "tracks u ttl table' f'"
  unfolding tracks_def
proof
  fix org
  have "case map_of table org of None \<Rightarrow> f org = None
      | Some ts \<Rightarrow> 0 < ts \<and> ts \<le> t \<and> NS_PER_MS dvd ts \<and> (f org = Some (ts div NS_PER_MS) \<or> f org = None \<and> ts < t - ttl)"
    using assms(1) by (simp add: tracks_def)
  then show "case map_of table' org of None \<Rightarrow> f' org = None
      | Some ts \<Rightarrow> 0 < ts \<and> ts \<le> u \<and> NS_PER_MS dvd ts \<and> (f' org = Some (ts div NS_PER_MS) \<or> f' org = None \<and> ts < u - ttl)"
    using assms(2-4) by (auto simp: assms(5,6) keep_later_def split: option.splits)
qed

lemma aligned_le: "NS_PER_MS dvd a \<Longrightarrow> NS_PER_MS dvd b \<Longrightarrow> a div NS_PER_MS \<le> b div NS_PER_MS \<longleftrightarrow> a \<le> b"
  by (auto simp: NS_PER_MS_def elim!: dvdE)

lemma aligned_cutoff:
  assumes "NS_PER_MS dvd u"
  shows "u div NS_PER_MS - ttl_ms = (u - ttl_ms * NS_PER_MS) div NS_PER_MS \<and> NS_PER_MS dvd u - ttl_ms * NS_PER_MS"
  using assms by (auto simp: NS_PER_MS_def elim!: dvdE)

lemma tracks_prune:
  assumes "tracks u (ttl_ms * NS_PER_MS) table f" and u: "NS_PER_MS dvd u"
    and f': "\<And>org. f' org = (case f org of None \<Rightarrow> None | Some s \<Rightarrow> if s < u div NS_PER_MS - ttl_ms then None else Some s)"
  shows "tracks u (ttl_ms * NS_PER_MS) table f'"
    and "{org. \<exists>s. f' org = Some s \<and> u div NS_PER_MS - ttl_ms \<le> s \<and> s \<le> u div NS_PER_MS}
       = {org. \<exists>ts. map_of table org = Some ts \<and> u - ttl_ms * NS_PER_MS \<le> ts \<and> ts \<le> u}"
proof -
  note cut = aligned_cutoff [OF u, of ttl_ms]
  have entry: "case map_of table org of None \<Rightarrow> f org = None
      | Some ts \<Rightarrow> 0 < ts \<and> ts \<le> u \<and> NS_PER_MS dvd ts
          \<and> (f org = Some (ts div NS_PER_MS) \<or> f org = None \<and> ts < u - ttl_ms * NS_PER_MS)" for org
    using assms(1) by (simp add: tracks_def)
  have cmp: "u div NS_PER_MS - ttl_ms \<le> ts div NS_PER_MS \<longleftrightarrow> u - ttl_ms * NS_PER_MS \<le> ts"
      "ts div NS_PER_MS \<le> u div NS_PER_MS \<longleftrightarrow> ts \<le> u" if "NS_PER_MS dvd ts" for ts
    using aligned_le [OF conjunct2 [OF cut] that] aligned_le [OF that u] cut by simp_all
  have old: "ts div NS_PER_MS < u div NS_PER_MS - ttl_ms \<longleftrightarrow> ts < u - ttl_ms * NS_PER_MS" if "NS_PER_MS dvd ts" for ts
    using cmp(1) [OF that] by linarith
  show "tracks u (ttl_ms * NS_PER_MS) table f'"
    unfolding tracks_def
  proof
    fix org
    show "case map_of table org of None \<Rightarrow> f' org = None
      | Some ts \<Rightarrow> 0 < ts \<and> ts \<le> u \<and> NS_PER_MS dvd ts
          \<and> (f' org = Some (ts div NS_PER_MS) \<or> f' org = None \<and> ts < u - ttl_ms * NS_PER_MS)"
      using entry [of org] by (cases "map_of table org") (auto simp: f' old split: if_splits)
  qed
  show "{org. \<exists>s. f' org = Some s \<and> u div NS_PER_MS - ttl_ms \<le> s \<and> s \<le> u div NS_PER_MS}
       = {org. \<exists>ts. map_of table org = Some ts \<and> u - ttl_ms * NS_PER_MS \<le> ts \<and> ts \<le> u}"
  proof (intro Collect_cong)
    fix org
    show "(\<exists>s. f' org = Some s \<and> u div NS_PER_MS - ttl_ms \<le> s \<and> s \<le> u div NS_PER_MS)
        \<longleftrightarrow> (\<exists>ts. map_of table org = Some ts \<and> u - ttl_ms * NS_PER_MS \<le> ts \<and> ts \<le> u)"
      using entry [of org] by (cases "map_of table org") (auto simp: f' old cmp split: if_splits)
  qed
qed

subsection \<open>Lemmas: one call on both backends\<close>

text \<open>
  Histories in order: every call on a plain stream, event times positive, whole milliseconds and never falling.
\<close>

fun op_time :: "scorer_op \<Rightarrow> int option" where
  "op_time (Observe mt mn org ts sv now) = Some (stamp_or_now ts now)"
| "op_time (Ingest r now) = Some (vote_stamp r now)"
| "op_time (Promote mt mn now sv) = Some now"
| "op_time (Clear mt mn sv) = None"

fun orderly :: "int \<Rightarrow> scorer_op list \<Rightarrow> bool" where
  "orderly t [] = True"
| "orderly t (op # ops) =
     (plain_key (scorer_op_key op)
      \<and> (case op_time op of
           None \<Rightarrow> orderly t ops
         | Some u \<Rightarrow> t \<le> u \<and> 0 < u \<and> u mod NS_PER_MS = 0 \<and> orderly u ops))"

definition matches :: "('r \<Rightarrow> string \<Rightarrow> string \<Rightarrow> int option) \<Rightarrow> int \<Rightarrow> scorer \<Rightarrow> 'r redis_scorer \<Rightarrow> bool" where
  "matches score t sc rs \<longleftrightarrow>
     tables_wf sc \<and> sc_floor sc = rs_floor rs \<and> sc_ttl_ns sc = rs_ttl_ms rs * NS_PER_MS
     \<and> sc_frac_num sc = rs_frac_num rs \<and> sc_frac_den sc = rs_frac_den rs
     \<and> (\<forall>mt sv mn. plain_key (mt, sv, mn) \<longrightarrow>
          tracks t (sc_ttl_ns sc) (agree_table sc (mt, sv, mn)) (score (rs_redis rs) (agree_key mt mn sv))
          \<and> tracks t (sc_ttl_ns sc) (observer_table sc (mt, sv, mn)) (score (rs_redis rs) (obs_key mt mn sv)))"

lemma matchesI:
  assumes "tables_wf sc" "sc_floor sc = rs_floor rs" "sc_ttl_ns sc = rs_ttl_ms rs * NS_PER_MS"
    "sc_frac_num sc = rs_frac_num rs" "sc_frac_den sc = rs_frac_den rs"
    "\<And>mt sv mn. plain_key (mt, sv, mn) \<Longrightarrow>
       tracks t (sc_ttl_ns sc) (agree_table sc (mt, sv, mn)) (score (rs_redis rs) (agree_key mt mn sv))"
    "\<And>mt sv mn. plain_key (mt, sv, mn) \<Longrightarrow>
       tracks t (sc_ttl_ns sc) (observer_table sc (mt, sv, mn)) (score (rs_redis rs) (obs_key mt mn sv))"
  shows "matches score t sc rs"
  using assms by (simp add: matches_def)

lemma matchesD:
  assumes "matches score t sc rs"
  shows "tables_wf sc" "sc_floor sc = rs_floor rs" "sc_ttl_ns sc = rs_ttl_ms rs * NS_PER_MS"
    "sc_frac_num sc = rs_frac_num rs" "sc_frac_den sc = rs_frac_den rs"
    "plain_key (mt, sv, mn) \<Longrightarrow>
       tracks t (sc_ttl_ns sc) (agree_table sc (mt, sv, mn)) (score (rs_redis rs) (agree_key mt mn sv))"
    "plain_key (mt, sv, mn) \<Longrightarrow>
       tracks t (sc_ttl_ns sc) (observer_table sc (mt, sv, mn)) (score (rs_redis rs) (obs_key mt mn sv))"
  using assms unfolding matches_def by blast+

lemma stamp_ms_eq: "stamp_ms ts now = stamp_or_now ts now div NS_PER_MS"
  by (simp add: stamp_ms_def stamp_or_now_def split: option.split)

lemma vote_stamp_ms: "stamp_ms (Some (cp_timestamp_ns r)) now = vote_stamp r now div NS_PER_MS"
  by (simp add: stamp_ms_def vote_stamp_def)

context sorted_sets
begin

lemma expire_row: "score (rd_expire db k secs r) k' = score r k'"
  by (rule ext) (rule expire)

lemma zadd_row: "k' \<noteq> k \<Longrightarrow> score (rd_zadd db k m s r) k' = score r k'"
  by (rule ext) (simp add: zadd)

lemma score_ingest:
  "akey \<noteq> okey \<Longrightarrow> score (fold (redis_ingest_org db detected akey okey ts) orgs r) k m =
     (if m \<in> set orgs \<and> (k = okey \<or> detected \<and> k = akey) then Some ts else score r k m)"
  by (induction orgs arbitrary: r) (auto simp: redis_ingest_org_def Let_def zadd)

lemma observe_matches:
  assumes "matches score t sc rs" and "plain_key (mt, sv, mn)"
    and u: "u = stamp_or_now ts now" "t \<le> u" "0 < u" "NS_PER_MS dvd u"
  shows "matches score u (scorer_observe sc now mt mn org ts sv) (redis_observe db rs now mt mn org ts sv)"
proof (rule matchesI)
  let ?sc = "scorer_observe sc now mt mn org ts sv" and ?rs = "redis_observe db rs now mt mn org ts sv"
  note m = matchesD [OF assms(1)]
  show "tables_wf ?sc" using step_tables_wf [of sc "Observe mt mn org ts sv now"] m(1) by simp
  show "tracks u (sc_ttl_ns ?sc) (agree_table ?sc (mt', sv', mn')) (score (rs_redis ?rs) (agree_key mt' mn' sv'))"
    if "plain_key (mt', sv', mn')" for mt' sv' mn'
    using tracks_later [OF m(6) [OF that] u(2)] by (simp add: redis_observe_def Let_def expire_row zadd_row)
  show "tracks u (sc_ttl_ns ?sc) (observer_table ?sc (mt', sv', mn')) (score (rs_redis ?rs) (obs_key mt' mn' sv'))"
    if plain: "plain_key (mt', sv', mn')" for mt' sv' mn'
    by (rule tracks_stamp [OF _ u(2-4), where S = "if (mt', sv', mn') = (mt, sv, mn) then {org} else {}"])
      (use m(7) [OF plain] keys_inj(2) [OF plain assms(2)] u(1) in
        \<open>auto simp: keep_later_simps redis_observe_def Let_def expire zadd stamp_ms_eq\<close>)
qed (use matchesD [OF assms(1)] in \<open>simp_all add: redis_observe_def Let_def\<close>)

lemma ingest_matches:
  assumes "matches score t sc rs" and "plain_key (cp_key r)"
    and u: "u = vote_stamp r now" "t \<le> u" "0 < u" "NS_PER_MS dvd u"
  shows "matches score u (scorer_ingest sc now r) (redis_ingest db rs now r)"
proof (rule matchesI)
  let ?sc = "scorer_ingest sc now r" and ?rs = "redis_ingest db rs now r"
  let ?akey = "agree_key (cp_model_tuple r) (cp_metric_name r) (cp_suite_version r)"
  let ?okey = "obs_key (cp_model_tuple r) (cp_metric_name r) (cp_suite_version r)"
  note m = matchesD [OF assms(1)]
  have plain_r: "plain_key (cp_model_tuple r, cp_suite_version r, cp_metric_name r)" using assms(2) by (simp add: cp_key_def)
  have scores: "score (rs_redis ?rs) k org =
      (if org \<in> set (cp_contributing_orgs r) \<and> (k = ?okey \<or> cp_change_detected r \<and> k = ?akey)
       then Some (u div NS_PER_MS) else score (rs_redis rs) k org)" for k org
    by (auto simp: redis_ingest_def Let_def expire score_ingest vote_stamp_ms u(1))
  have now: "stamp_or_now (Some u) now = u" using u(3) by (simp add: stamp_or_now_def)
  show "tables_wf ?sc" using step_tables_wf [of sc "Ingest r now"] m(1) by simp
  show "tracks u (sc_ttl_ns ?sc) (agree_table ?sc (mt', sv', mn')) (score (rs_redis ?rs) (agree_key mt' mn' sv'))"
    if plain: "plain_key (mt', sv', mn')" for mt' sv' mn'
    by (rule tracks_stamp [OF _ u(2-4), where S = "if cp_change_detected r \<and> cp_key r = (mt', sv', mn') then set (cp_contributing_orgs r) else {}"])
      (use m(6) [OF plain] keys_inj(1) [OF plain plain_r] in
        \<open>auto simp: scorer_ingest_eq agree_entry_ingest scores u(1) [symmetric] cp_key_def\<close>)
  show "tracks u (sc_ttl_ns ?sc) (observer_table ?sc (mt', sv', mn')) (score (rs_redis ?rs) (obs_key mt' mn' sv'))"
    if plain: "plain_key (mt', sv', mn')" for mt' sv' mn'
    by (rule tracks_stamp [OF _ u(2-4), where S = "if cp_key r = (mt', sv', mn') then set (cp_contributing_orgs r) else {}"])
      (use m(7) [OF plain] keys_inj(2) [OF plain plain_r] now in
        \<open>auto simp: scorer_ingest_eq observer_entry_ingest scores u(1) [symmetric] cp_key_def\<close>)
qed (use matchesD [OF assms(1)] in \<open>simp_all add: scorer_ingest_eq redis_ingest_def Let_def\<close>)

lemma prune_row: "k' \<noteq> k \<Longrightarrow> score (rd_zremrangebelow db k cutoff r) k' = score r k'"
  by (rule ext) (simp add: zremrange split: option.split)

lemma delete_row: "k' \<noteq> k \<Longrightarrow> score (rd_delete db k r) k' = score r k'"
  by (rule ext) (simp add: delete)

lemma delete_gone: "score (rd_delete db k r) k = (\<lambda>m. None)"
  by (rule ext) (simp add: delete)

lemma clear_matches:
  assumes "matches score t sc rs" and "plain_key (mt, sv, mn)"
  shows "matches score t (scorer_clear sc mt mn sv) (redis_clear db rs mt mn sv)"
proof (rule matchesI)
  let ?sc = "scorer_clear sc mt mn sv" and ?rs = "redis_clear db rs mt mn sv"
  note m = matchesD [OF assms(1)]
  show "tables_wf ?sc" using step_tables_wf [of sc "Clear mt mn sv"] m(1) by simp
  show "tracks t (sc_ttl_ns ?sc) (agree_table ?sc (mt', sv', mn')) (score (rs_redis ?rs) (agree_key mt' mn' sv'))"
    if plain: "plain_key (mt', sv', mn')" for mt' sv' mn'
    using m(6) [OF plain] keys_inj(1) [OF plain assms(2)] tracks_empty
    by (cases "(mt', sv', mn') = (mt, sv, mn)") (auto simp: redis_clear_def delete_row delete_gone)
  show "tracks t (sc_ttl_ns ?sc) (observer_table ?sc (mt', sv', mn')) (score (rs_redis ?rs) (obs_key mt' mn' sv'))"
    if plain: "plain_key (mt', sv', mn')" for mt' sv' mn'
    using m(7) [OF plain] by (simp add: redis_clear_def delete_row)
qed (use matchesD [OF assms(1)] in \<open>simp_all add: redis_clear_def\<close>)

text \<open>Pruning both keys of a stream keeps the relation and counts the live organisations of both tables.\<close>

lemma prune_matches:
  assumes "matches score u sc rs" and plain: "plain_key (mt, sv, mn)" and u: "NS_PER_MS dvd u"
    and r: "r = rd_zremrangebelow db (obs_key mt mn sv) (u div NS_PER_MS - rs_ttl_ms rs)
        (rd_zremrangebelow db (agree_key mt mn sv) (u div NS_PER_MS - rs_ttl_ms rs) (rs_redis rs))"
  shows "matches score u sc (rs\<lparr>rs_redis := r\<rparr>)"
    and "rd_zcount db (agree_key mt mn sv) (u div NS_PER_MS - rs_ttl_ms rs) (u div NS_PER_MS) r
      = card (live_orgs sc (agree_table sc (mt, sv, mn)) u)"
    and "rd_zcount db (obs_key mt mn sv) (u div NS_PER_MS - rs_ttl_ms rs) (u div NS_PER_MS) r
      = card (live_orgs sc (observer_table sc (mt, sv, mn)) u)"
proof -
  note m = matchesD [OF assms(1)]
  have cutagree: "score r (agree_key mt mn sv) org = (case score (rs_redis rs) (agree_key mt mn sv) org of None \<Rightarrow> None
      | Some s \<Rightarrow> if s < u div NS_PER_MS - rs_ttl_ms rs then None else Some s)" for org
    by (simp add: r zremrange split: option.split)
  have cutobs: "score r (obs_key mt mn sv) org = (case score (rs_redis rs) (obs_key mt mn sv) org of None \<Rightarrow> None
      | Some s \<Rightarrow> if s < u div NS_PER_MS - rs_ttl_ms rs then None else Some s)" for org
    by (simp add: r zremrange split: option.split)
  have other: "score r k = score (rs_redis rs) k" if "k \<noteq> agree_key mt mn sv" "k \<noteq> obs_key mt mn sv" for k
    using that by (simp add: r prune_row)
  note a = tracks_prune [OF m(6) [OF plain, unfolded m(3)] u cutagree]
  note o = tracks_prune [OF m(7) [OF plain, unfolded m(3)] u cutobs]
  show "matches score u sc (rs\<lparr>rs_redis := r\<rparr>)"
  proof (rule matchesI)
    show "tracks u (sc_ttl_ns sc) (agree_table sc (mt', sv', mn')) (score (rs_redis (rs\<lparr>rs_redis := r\<rparr>)) (agree_key mt' mn' sv'))"
      if "plain_key (mt', sv', mn')" for mt' sv' mn'
      using a(1) m(3,6) other [of "agree_key mt' mn' sv'"] keys_inj(1) [OF that plain] that
      by (cases "(mt', sv', mn') = (mt, sv, mn)") auto
    show "tracks u (sc_ttl_ns sc) (observer_table sc (mt', sv', mn')) (score (rs_redis (rs\<lparr>rs_redis := r\<rparr>)) (obs_key mt' mn' sv'))"
      if "plain_key (mt', sv', mn')" for mt' sv' mn'
      using o(1) m(3,7) other [of "obs_key mt' mn' sv'"] keys_inj(2) [OF that plain] that
      by (cases "(mt', sv', mn') = (mt, sv, mn)") auto
  qed (use m(1-5) in simp_all)
  show "rd_zcount db (agree_key mt mn sv) (u div NS_PER_MS - rs_ttl_ms rs) (u div NS_PER_MS) r
      = card (live_orgs sc (agree_table sc (mt, sv, mn)) u)"
    using a(2) tables_wfD [OF m(1), of "(mt, sv, mn)"] by (simp add: zcount live_orgs_map m(3))
  show "rd_zcount db (obs_key mt mn sv) (u div NS_PER_MS - rs_ttl_ms rs) (u div NS_PER_MS) r
      = card (live_orgs sc (observer_table sc (mt, sv, mn)) u)"
    using o(2) tables_wfD [OF m(1), of "(mt, sv, mn)"] by (simp add: zcount live_orgs_map m(3))
qed

lemma promote_matches:
  assumes "matches score t sc rs" and plain: "plain_key (mt, sv, mn)" and "t \<le> u" "NS_PER_MS dvd u" and den: "sc_frac_den sc \<noteq> 0"
  shows "redis_promoted db (Promote mt mn u sv) rs = promoted (Promote mt mn u sv) sc"
    and "matches score u (scorer_step (Promote mt mn u sv) sc) (redis_step db (Promote mt mn u sv) rs)"
proof -
  let ?r = "rd_zremrangebelow db (obs_key mt mn sv) (u div NS_PER_MS - rs_ttl_ms rs)
        (rd_zremrangebelow db (agree_key mt mn sv) (u div NS_PER_MS - rs_ttl_ms rs) (rs_redis rs))"
  have now: "matches score u sc rs"
    using assms(1) tracks_later [OF _ assms(3)] unfolding matches_def by blast
  note p = prune_matches [OF now plain assms(4) refl]
  note m = matchesD [OF now]
  have step: "promote_script db (agree_key mt mn sv) (obs_key mt mn sv) (u div NS_PER_MS - rs_ttl_ms rs) (u div NS_PER_MS)
      (rs_floor rs) (rs_frac_num rs) (rs_frac_den rs) (rs_redis rs)
    = (let live = live_orgs sc (agree_table sc (mt, sv, mn)) u
       in if live = {} then (0, ?r)
          else case quorum_of sc (mt, sv, mn) u of
                 Inl e \<Rightarrow> (0, ?r)
               | Inr q \<Rightarrow> if q \<le> int (card live) then (card live, rd_delete db (agree_key mt mn sv) ?r) else (0, ?r))"
    using den m(2,4,5)
    by (simp add: promote_script_def p(2,3) quorum_of_def Let_def max_def not_less)
  obtain q where q: "quorum_of sc (mt, sv, mn) u = Inr q" using den by (simp add: quorum_of_def)
  have cleared: "matches score u (scorer_clear sc mt mn sv) (rs\<lparr>rs_redis := rd_delete db (agree_key mt mn sv) ?r\<rparr>)"
    using clear_matches [OF p(1) plain] by (simp add: redis_clear_def)
  show "redis_promoted db (Promote mt mn u sv) rs = promoted (Promote mt mn u sv) sc"
    by (simp add: redis_promote_def step q promote_decision Let_def)
  show "matches score u (scorer_step (Promote mt mn u sv) sc) (redis_step db (Promote mt mn u sv) rs)"
    using p(1) cleared by (simp add: redis_promote_def step q promote_decision Let_def)
qed

lemma same_promotions:
  "matches score t sc rs \<Longrightarrow> orderly t ops \<Longrightarrow> sc_frac_den sc \<noteq> 0 \<Longrightarrow> redis_promotions db ops rs = promotions ops sc"
proof (induction ops arbitrary: t sc rs)
  case (Cons op ops)
  have plain: "plain_key (scorer_op_key op)" using Cons.prems(2) by simp
  have step: "redis_promoted db op rs = promoted op sc
      \<and> (\<exists>u. matches score u (scorer_step op sc) (redis_step db op rs) \<and> orderly u ops)"
  proof (cases op)
    case (Observe mt mn org ts sv now)
    then show ?thesis using observe_matches [OF Cons.prems(1) _ refl, of mt sv mn ts now org] Cons.prems(2) plain by auto
  next
    case (Ingest r now)
    then show ?thesis using ingest_matches [OF Cons.prems(1) _ refl, of r now] Cons.prems(2) plain by auto
  next
    case (Promote mt mn now sv)
    then show ?thesis
      using promote_matches [OF Cons.prems(1) _ _ _ Cons.prems(3), of mt sv mn now] Cons.prems(2) plain by auto
  next
    case (Clear mt mn sv)
    then show ?thesis using clear_matches [OF Cons.prems(1), of mt sv mn] Cons.prems(2) plain by auto
  qed
  then obtain u where "matches score u (scorer_step op sc) (redis_step db op rs)" "orderly u ops" by blast
  from Cons.IH [OF this] Cons.prems(3) step show ?case by simp
qed simp

lemma fresh_matches:
  assumes "\<And>k m. score client k m = None"
  shows "matches score 0 (init_scorer quorum (ttl_ns div NS_PER_MS * NS_PER_MS) num den) (init_redis_scorer client quorum ttl_ns num den)"
  using assms
  by (intro matchesI tables_wfI)
    (simp_all add: init_scorer_def init_redis_scorer_def NS_PER_MS_def agree_table_def observer_table_def dict_get_def tracks_def)

end

subsection \<open>Lemmas: histories in milliseconds\<close>

text \<open>
  A history as a scorer would have it whose clock ticks in milliseconds: every event and every evaluation at the millisecond it falls into.
  A history is in order when every call is on a plain stream and these milliseconds are positive and never fall.
\<close>

definition to_ms :: "int \<Rightarrow> int" where
  "to_ms t = t div NS_PER_MS * NS_PER_MS"

fun in_ms :: "scorer_op \<Rightarrow> scorer_op" where
  "in_ms (Observe mt mn org ts sv now) = Observe mt mn org (Some (to_ms (stamp_or_now ts now))) sv now"
| "in_ms (Ingest r now) = Ingest (r\<lparr>cp_timestamp_ns := to_ms (vote_stamp r now)\<rparr>) now"
| "in_ms (Promote mt mn now sv) = Promote mt mn (to_ms now) sv"
| "in_ms (Clear mt mn sv) = Clear mt mn sv"

fun in_order :: "int \<Rightarrow> scorer_op list \<Rightarrow> bool" where
  "in_order t [] = True"
| "in_order t (op # ops) =
     (plain_key (scorer_op_key op)
      \<and> (case op_time op of
           None \<Rightarrow> in_order t ops
         | Some u \<Rightarrow> t \<le> to_ms u \<and> NS_PER_MS \<le> u \<and> in_order (to_ms u) ops))"

lemma to_ms_simps [simp]:
  "to_ms u div NS_PER_MS = u div NS_PER_MS" "to_ms u mod NS_PER_MS = 0" "NS_PER_MS \<le> u \<Longrightarrow> 0 < to_ms u"
  "u mod NS_PER_MS = 0 \<Longrightarrow> to_ms u = u"
  by (auto simp: to_ms_def NS_PER_MS_def)

lemma in_ms_key [simp]: "scorer_op_key (in_ms op) = scorer_op_key op"
  by (cases op) (simp_all add: cp_key_def)

lemma in_ms_time: "op_time op = None \<Longrightarrow> op_time (in_ms op) = None" "op_time op = Some u \<Longrightarrow> 0 < to_ms u \<Longrightarrow> op_time (in_ms op) = Some (to_ms u)"
  by (cases op; auto simp: stamp_or_now_def vote_stamp_def split: if_splits option.splits)+

lemma in_order_orderly: "in_order t ops \<Longrightarrow> orderly t (map in_ms ops)"
proof (induction ops arbitrary: t)
  case (Cons op ops)
  then show ?case by (cases "op_time op") (auto simp: in_ms_time)
qed simp

lemma redis_step_in_ms:
  assumes "\<And>u. op_time op = Some u \<Longrightarrow> 0 < to_ms u"
  shows "redis_step db (in_ms op) rs = redis_step db op rs" and "redis_promoted db (in_ms op) rs = redis_promoted db op rs"
proof -
  have "redis_step db (in_ms op) rs = redis_step db op rs \<and> redis_promoted db (in_ms op) rs = redis_promoted db op rs"
  proof (cases op)
    case (Observe mt mn org ts sv now)
    then have "0 < to_ms (stamp_or_now ts now)" using assms by simp
    then have "stamp_ms (Some (to_ms (stamp_or_now ts now))) now = stamp_ms ts now" by (simp add: stamp_ms_eq stamp_or_now_def)
    then show ?thesis using Observe by (simp add: redis_observe_def)
  next
    case (Ingest r now)
    then have "0 < to_ms (vote_stamp r now)" using assms by simp
    then have "stamp_ms (Some (to_ms (vote_stamp r now))) now = stamp_ms (Some (cp_timestamp_ns r)) now"
      by (simp add: vote_stamp_ms) (simp add: stamp_ms_def)
    then show ?thesis using Ingest by (simp add: redis_ingest_def)
  qed (simp_all add: redis_promote_def)
  then show "redis_step db (in_ms op) rs = redis_step db op rs" "redis_promoted db (in_ms op) rs = redis_promoted db op rs" by auto
qed

lemma redis_promotions_in_ms: "in_order t ops \<Longrightarrow> redis_promotions db (map in_ms ops) rs = redis_promotions db ops rs"
proof (induction ops arbitrary: t rs)
  case (Cons op ops)
  then have "\<And>u. op_time op = Some u \<Longrightarrow> 0 < to_ms u" by auto
  moreover obtain t' where "in_order t' ops" using Cons.prems by (auto split: option.splits)
  ultimately show ?case using Cons.IH by (simp add: redis_step_in_ms)
qed simp

lemma scorer_in_ms:
  assumes "\<And>u. op_time op = Some u \<Longrightarrow> 0 < u \<and> u mod NS_PER_MS = 0"
  shows "scorer_step (in_ms op) sc = scorer_step op sc" and "promoted (in_ms op) sc = promoted op sc"
proof -
  have "scorer_step (in_ms op) sc = scorer_step op sc \<and> promoted (in_ms op) sc = promoted op sc"
  proof (cases op)
    case (Observe mt mn org ts sv now)
    then have "to_ms (stamp_or_now ts now) = stamp_or_now ts now" "stamp_or_now (Some (stamp_or_now ts now)) now = stamp_or_now ts now"
      using assms by (auto simp: stamp_or_now_def split: option.splits)
    then show ?thesis using Observe by (simp add: scorer_observe_def)
  next
    case (Ingest r now)
    then have "to_ms (vote_stamp r now) = vote_stamp r now" "vote_stamp r now \<noteq> 0" using assms by auto
    moreover have "ingest_org (r\<lparr>cp_timestamp_ns := ts\<rparr>) now = ingest_org r now" for ts
      by (simp add: ingest_org_def fun_eq_iff cp_key_def Let_def)
    ultimately show ?thesis using Ingest by (simp add: scorer_ingest_eq) (simp add: vote_stamp_def)
  qed (use assms in simp_all)
  then show "scorer_step (in_ms op) sc = scorer_step op sc" "promoted (in_ms op) sc = promoted op sc" by auto
qed

lemma promotions_in_ms: "orderly t ops \<Longrightarrow> promotions (map in_ms ops) sc = promotions ops sc"
proof (induction ops arbitrary: t sc)
  case (Cons op ops)
  then have "\<And>u. op_time op = Some u \<Longrightarrow> 0 < u \<and> u mod NS_PER_MS = 0" by auto
  moreover obtain t' where "orderly t' ops" using Cons.prems by (auto split: option.splits)
  ultimately show ?case using Cons.IH by (simp add: scorer_in_ms)
qed simp

subsection \<open>Properties\<close>

text \<open>C7: The Redis scorer is the in-process scorer with a millisecond clock. Take any history on streams whose model and metric have no colon, with event times
  of at least a millisecond that, in milliseconds, never fall, and any Redis with the
  documented commands, empty at the start. The Redis scorer gives to every promotion the answer of the in-process scorer on the same history read in whole
  milliseconds, with the window in whole milliseconds; and the answer of the in-process scorer on the history itself, when its times and the window are whole milliseconds. So the
  pruning inside the script and the atomic deletion change no decision, and the clock resolution is the only difference.\<close>

theorem redis_scorer_refines_in_process:
  assumes "sorted_sets db score" and "\<And>k m. score client k m = None" and "in_order 0 ops" and "frac_den \<noteq> 0"
  shows "redis_promotions db ops (init_redis_scorer client quorum ttl_ns frac_num frac_den)
      = promotions (map in_ms ops) (init_scorer quorum (to_ms ttl_ns) frac_num frac_den)
    \<and> (orderly 0 ops \<longrightarrow> ttl_ns mod NS_PER_MS = 0 \<longrightarrow>
        redis_promotions db ops (init_redis_scorer client quorum ttl_ns frac_num frac_den) = promotions ops (init_scorer quorum ttl_ns frac_num frac_den))"
proof -
  have "matches score 0 (init_scorer quorum (to_ms ttl_ns) frac_num frac_den) (init_redis_scorer client quorum ttl_ns frac_num frac_den)"
    using sorted_sets.fresh_matches [OF assms(1,2)] by (simp add: to_ms_def)
  from sorted_sets.same_promotions [OF assms(1) this in_order_orderly [OF assms(3)]] assms(4)
  have same: "redis_promotions db (map in_ms ops) (init_redis_scorer client quorum ttl_ns frac_num frac_den)
      = promotions (map in_ms ops) (init_scorer quorum (to_ms ttl_ns) frac_num frac_den)" by (simp add: init_scorer_def)
  then show ?thesis using promotions_in_ms [of 0 ops] by (simp add: redis_promotions_in_ms [OF assms(3)])
qed

definition vote :: "string \<Rightarrow> string \<Rightarrow> string list \<Rightarrow> int \<Rightarrow> scorer_op" where
  "vote mt sv orgs ms =
     Ingest \<lparr>cp_model_tuple = mt, cp_change_detected = True, cp_score = 1, cp_threshold = 1, cp_contributing_orgs = orgs,
             cp_metric_name = ''m'', cp_timestamp_ns = ms * NS_PER_MS, cp_suite_version = sv\<rparr> (ms * NS_PER_MS)"

lemma redis_scorer_refines_in_process_witness:
  "redis_promotions memory_redis [vote ''x'' ''v'' [''a'', ''b''] 1, vote ''x'' ''v'' [''c''] 5, Promote ''x'' ''m'' 6000001 ''v'']
       (init_redis_scorer [] None (1000 * NS_PER_MS) 1 3)
   = promotions (map in_ms [vote ''x'' ''v'' [''a'', ''b''] 1, vote ''x'' ''v'' [''c''] 5, Promote ''x'' ''m'' 6000001 ''v''])
       (init_scorer None (to_ms (1000 * NS_PER_MS)) 1 3)
   \<and> promotions (map in_ms [vote ''x'' ''v'' [''a'', ''b''] 1, vote ''x'' ''v'' [''c''] 5, Promote ''x'' ''m'' 6000001 ''v''])
       (init_scorer None (to_ms (1000 * NS_PER_MS)) 1 3) = [None, None, Some 3]"
proof (intro conjI)
  show "redis_promotions memory_redis [vote ''x'' ''v'' [''a'', ''b''] 1, vote ''x'' ''v'' [''c''] 5, Promote ''x'' ''m'' 6000001 ''v'']
       (init_redis_scorer [] None (1000 * NS_PER_MS) 1 3)
    = promotions (map in_ms [vote ''x'' ''v'' [''a'', ''b''] 1, vote ''x'' ''v'' [''c''] 5, Promote ''x'' ''m'' 6000001 ''v''])
       (init_scorer None (to_ms (1000 * NS_PER_MS)) 1 3)"
    by (rule redis_scorer_refines_in_process [OF memory.sorted_sets_axioms, THEN conjunct1])
      (simp_all add: memory_score_def dict_get_def vote_def vote_stamp_def cp_key_def plain_key.simps NS_PER_MS_def to_ms_def)
qed code_simp

lemma promotions_vote:
  "promotions [vote mt sv orgs t, vote mt' sv' orgs' s, Promote mt'' mn'' now sv''] sc =
     [None, None, promoted (Promote mt'' mn'' now sv'') (scorer_step (vote mt' sv' orgs' s) (scorer_step (vote mt sv orgs t) sc))]"
  "redis_promotions db [vote mt sv orgs t, vote mt' sv' orgs' s, Promote mt'' mn'' now sv''] rs =
     [None, None, redis_promoted db (Promote mt'' mn'' now sv'') (redis_step db (vote mt' sv' orgs' s) (redis_step db (vote mt sv orgs t) rs))]"
  by (simp_all add: vote_def)

text \<open>Both tables of a stream after a vote in process: the later of the old stamp and the new one.\<close>

lemma vote_entries:
  assumes "0 < t"
  shows "map_of (agree_table (scorer_step (vote mt sv orgs t) sc) key) org =
      (if key = (mt, sv, ''m'') \<and> org \<in> set orgs then keep_later (map_of (agree_table sc key) org) (t * NS_PER_MS) else map_of (agree_table sc key) org)"
    and "map_of (observer_table (scorer_step (vote mt sv orgs t) sc) key) org =
      (if key = (mt, sv, ''m'') \<and> org \<in> set orgs then keep_later (map_of (observer_table sc key) org) (t * NS_PER_MS)
       else map_of (observer_table sc key) org)"
    and "sc_floor (scorer_step (vote mt sv orgs t) sc) = sc_floor sc" "sc_ttl_ns (scorer_step (vote mt sv orgs t) sc) = sc_ttl_ns sc"
      "sc_frac_num (scorer_step (vote mt sv orgs t) sc) = sc_frac_num sc" "sc_frac_den (scorer_step (vote mt sv orgs t) sc) = sc_frac_den sc"
    and "tables_wf sc \<Longrightarrow> tables_wf (scorer_step (vote mt sv orgs t) sc)"
proof -
  have stamp: "stamp_or_now (Some (t * NS_PER_MS)) now = t * NS_PER_MS" "t * NS_PER_MS \<noteq> 0" for now
    using assms by (simp_all add: stamp_or_now_def NS_PER_MS_def)
  show "map_of (agree_table (scorer_step (vote mt sv orgs t) sc) key) org =
      (if key = (mt, sv, ''m'') \<and> org \<in> set orgs then keep_later (map_of (agree_table sc key) org) (t * NS_PER_MS) else map_of (agree_table sc key) org)"
    using stamp(2) by (auto simp: vote_def scorer_ingest_eq vote_stamp_def agree_entry_ingest cp_key_def)
  show "map_of (observer_table (scorer_step (vote mt sv orgs t) sc) key) org =
      (if key = (mt, sv, ''m'') \<and> org \<in> set orgs then keep_later (map_of (observer_table sc key) org) (t * NS_PER_MS)
       else map_of (observer_table sc key) org)"
    using stamp by (auto simp: vote_def scorer_ingest_eq vote_stamp_def observer_entry_ingest cp_key_def)
  show "tables_wf sc \<Longrightarrow> tables_wf (scorer_step (vote mt sv orgs t) sc)" by (rule step_tables_wf)
qed (simp_all add: vote_def scorer_ingest_eq)

text \<open>What a promotion answers, from the organisations counted live in process and on Redis.\<close>

lemma promoted_live:
  assumes "sc_frac_num sc = 1" "sc_frac_den sc = 3" and "live_orgs sc (agree_table sc (mt, sv, mn)) now = A"
    and "live_orgs sc (observer_table sc (mt, sv, mn)) now = A" and "finite A"
  shows "promoted (Promote mt mn now sv) sc = (if A \<noteq> {} \<and> sc_floor sc \<le> int (card A) then Some (card A) else None)"
proof -
  have "A \<noteq> {} \<Longrightarrow> 1 \<le> card A" using assms(5) by (simp add: Suc_le_eq card_gt_0_iff)
  then have "A \<noteq> {} \<Longrightarrow> (int (card A) + 2) div 3 \<le> int (card A)" by presburger
  then show ?thesis using assms(1-4) by (auto simp: promote_decision quorum_of_def Let_def)
qed

context sorted_sets
begin

definition counted :: "'r \<Rightarrow> string \<Rightarrow> int \<Rightarrow> int \<Rightarrow> string set" where
  "counted r k a b = {m. \<exists>s. score r k m = Some s \<and> a \<le> s \<and> s \<le> b}"

lemma redis_promoted_counted:
  assumes "rs_frac_num rs = 1" "rs_frac_den rs = 3"
    and "counted (rs_redis rs) (agree_key mt mn sv) (now div NS_PER_MS - rs_ttl_ms rs) (now div NS_PER_MS) = A"
    and "counted (rs_redis rs) (obs_key mt mn sv) (now div NS_PER_MS - rs_ttl_ms rs) (now div NS_PER_MS) = A"
    and "finite A"
  shows "redis_promoted db (Promote mt mn now sv) rs = (if A \<noteq> {} \<and> rs_floor rs \<le> int (card A) then Some (card A) else None)"
proof -
  let ?cut = "now div NS_PER_MS - rs_ttl_ms rs" and ?now = "now div NS_PER_MS"
  let ?r = "rd_zremrangebelow db (obs_key mt mn sv) ?cut (rd_zremrangebelow db (agree_key mt mn sv) ?cut (rs_redis rs))"
  have kept: "counted ?r k ?cut ?now = counted (rs_redis rs) k ?cut ?now" for k
    unfolding counted_def
  proof (rule Collect_cong)
    fix m show "(\<exists>s. score ?r k m = Some s \<and> ?cut \<le> s \<and> s \<le> ?now) = (\<exists>s. score (rs_redis rs) k m = Some s \<and> ?cut \<le> s \<and> s \<le> ?now)"
      by (cases "score (rs_redis rs) k m") (auto simp: zremrange split: if_splits)
  qed
  have counts: "rd_zcount db (agree_key mt mn sv) ?cut ?now ?r = card A" "rd_zcount db (obs_key mt mn sv) ?cut ?now ?r = card A"
    using kept assms(3,4) by (simp_all add: zcount counted_def)
  have zero: "card A = 0 \<longleftrightarrow> A = {}" using assms(5) by simp
  have "card A \<noteq> 0 \<Longrightarrow> (int (card A) + 2) div 3 \<le> int (card A)" by presburger
  then show ?thesis
    using assms(1,2) zero by (auto simp: redis_promote_def promote_script_def counts Let_def)
qed

lemma vote_scores:
  assumes "0 < t"
  shows "score (rs_redis (redis_step db (vote mt sv orgs t) rs)) k org =
      (if org \<in> set orgs \<and> k \<in> {agree_key mt ''m'' sv, obs_key mt ''m'' sv} then Some t else score (rs_redis rs) k org)"
    and "rs_floor (redis_step db (vote mt sv orgs t) rs) = rs_floor rs" "rs_ttl_ms (redis_step db (vote mt sv orgs t) rs) = rs_ttl_ms rs"
      "rs_frac_num (redis_step db (vote mt sv orgs t) rs) = rs_frac_num rs" "rs_frac_den (redis_step db (vote mt sv orgs t) rs) = rs_frac_den rs"
proof -
  have "stamp_ms (Some (t * NS_PER_MS)) now = t" for now using assms by (simp add: stamp_ms_def NS_PER_MS_def)
  then show "score (rs_redis (redis_step db (vote mt sv orgs t) rs)) k org =
      (if org \<in> set orgs \<and> k \<in> {agree_key mt ''m'' sv, obs_key mt ''m'' sv} then Some t else score (rs_redis rs) k org)"
    by (auto simp: vote_def redis_ingest_def Let_def expire score_ingest)
qed (simp_all add: vote_def redis_ingest_def Let_def)

end

text \<open>C8: Outside these histories the backends differ, on every Redis. A late vote with a stamp before the window moves the organisation's score
  back on Redis and not in process, so a quorum that was complete is lost on Redis and promoted in process, whatever the organisations. And a colon in a model name
  makes two streams share their keys, so that votes of two disjoint groups on two streams add up to a promotion on Redis where no stream has a quorum.
  (Quorum floors of the number of organisations, the shipped fraction, times in milliseconds.)\<close>

theorem redis_scorer_diverges:
  assumes "sorted_sets db score" and "\<And>k m. score client k m = None"
    and "distinct orgs" "a \<in> set orgs" and "distinct (as @ bs)" "as \<noteq> []"
    and "0 < late" "late < now - ttl" "now - ttl \<le> t" "t \<le> now"
  shows "(let ops = [vote mt sv orgs t, vote mt sv [a] late, Promote mt ''m'' (now * NS_PER_MS) sv]; q = Some (int (length orgs))
      in promotions ops (init_scorer q (ttl * NS_PER_MS) 1 3) = [None, None, Some (length orgs)]
       \<and> redis_promotions db ops (init_redis_scorer client q (ttl * NS_PER_MS) 1 3) = [None, None, None])
    \<and> (let ops = [vote (x @ '':'' @ y) v as t, vote x (y @ '':'' @ v) bs t, Promote x ''m'' (now * NS_PER_MS) (y @ '':'' @ v)];
           q = Some (int (length as + length bs))
      in promotions ops (init_scorer q (ttl * NS_PER_MS) 1 3) = [None, None, None]
       \<and> redis_promotions db ops (init_redis_scorer client q (ttl * NS_PER_MS) 1 3) = [None, None, Some (length as + length bs)])"
proof -
  have times: "0 < t" "0 < now" using assms(7-10) by linarith+
  let ?sc = "\<lambda>q. init_scorer (Some q) (ttl * NS_PER_MS) 1 3" and ?rs = "\<lambda>q. init_redis_scorer client (Some q) (ttl * NS_PER_MS) 1 3"
  have fresh: "map_of (agree_table (?sc q) key) = Map.empty" "map_of (observer_table (?sc q) key) = Map.empty" "tables_wf (?sc q)"
    "sc_floor (?sc q) = q" "sc_ttl_ns (?sc q) = ttl * NS_PER_MS" "sc_frac_num (?sc q) = 1" "sc_frac_den (?sc q) = 3" for q key
    by (auto simp: init_scorer_def agree_table_def observer_table_def dict_get_def intro!: tables_wfI)
  have fresh_redis: "score (rs_redis (?rs q)) k m = None" "rs_floor (?rs q) = q" "rs_ttl_ms (?rs q) = ttl" "rs_frac_num (?rs q) = 1" "rs_frac_den (?rs q) = 3" for q k m
    by (simp_all add: init_redis_scorer_def assms(2) NS_PER_MS_def)
  have ms: "now * NS_PER_MS div NS_PER_MS = now" "t * NS_PER_MS \<le> now * NS_PER_MS" "now * NS_PER_MS - ttl * NS_PER_MS \<le> t * NS_PER_MS"
    "late * NS_PER_MS < t * NS_PER_MS" "0 \<le> t * NS_PER_MS"
    using assms(7-10) times by (simp_all add: NS_PER_MS_def)
  note redis = sorted_sets.vote_scores [OF assms(1)]
  note tables = vote_entries [OF times(1)] vote_entries [OF assms(7)]
  let ?late = "\<lambda>sc. scorer_step (vote mt sv [a] late) (scorer_step (vote mt sv orgs t) sc)" and ?kl = "(mt, sv, ''m'')"
  let ?two = "\<lambda>sc. scorer_step (vote x (y @ '':'' @ v) bs t) (scorer_step (vote (x @ '':'' @ y) v as t) sc)" and ?k2 = "(x, y @ '':'' @ v, ''m'')"
  have entry: "map_of (agree_table (?late (?sc q)) ?kl) org = (if org \<in> set orgs then Some (t * NS_PER_MS) else None)"
    "map_of (observer_table (?late (?sc q)) ?kl) org = (if org \<in> set orgs then Some (t * NS_PER_MS) else None)"
    "map_of (agree_table (?two (?sc q)) ?k2) org = (if org \<in> set bs then Some (t * NS_PER_MS) else None)"
    "map_of (observer_table (?two (?sc q)) ?k2) org = (if org \<in> set bs then Some (t * NS_PER_MS) else None)" for q org
    using assms(4) ms(4,5) by (simp_all add: tables fresh keep_later_def)
  have params: "tables_wf (?late (?sc q))" "sc_ttl_ns (?late (?sc q)) = ttl * NS_PER_MS" "sc_frac_num (?late (?sc q)) = 1" "sc_frac_den (?late (?sc q)) = 3"
      "sc_floor (?late (?sc q)) = q" "tables_wf (?two (?sc q))" "sc_ttl_ns (?two (?sc q)) = ttl * NS_PER_MS" "sc_frac_num (?two (?sc q)) = 1"
      "sc_frac_den (?two (?sc q)) = 3" "sc_floor (?two (?sc q)) = q" for q
    by (simp_all add: tables fresh)
  have alive: "live_orgs sc table (now * NS_PER_MS) = S"
    if "\<And>org. map_of table org = (if org \<in> S then Some (t * NS_PER_MS) else None)" "sc_ttl_ns sc = ttl * NS_PER_MS" "dict_wf table" for sc table S
    using that ms(2,3) by (simp add: live_orgs_map)
  have alive_late: "live_orgs (?late (?sc q)) (agree_table (?late (?sc q)) ?kl) (now * NS_PER_MS) = set orgs"
    "live_orgs (?late (?sc q)) (observer_table (?late (?sc q)) ?kl) (now * NS_PER_MS) = set orgs" for q
    using entry(1,2) params(2) tables_wfD [OF params(1)] by (intro alive; simp)+
  have alive_two: "live_orgs (?two (?sc q)) (agree_table (?two (?sc q)) ?k2) (now * NS_PER_MS) = set bs"
    "live_orgs (?two (?sc q)) (observer_table (?two (?sc q)) ?k2) (now * NS_PER_MS) = set bs" for q
    using entry(3,4) params(7) tables_wfD [OF params(6)] by (intro alive; simp)+
  have first: "promoted (Promote mt ''m'' (now * NS_PER_MS) sv) (?late (?sc (int (length orgs)))) = Some (length orgs)"
    using promoted_live [OF params(3,4) alive_late] assms(3,4) params(5) by (auto simp: distinct_card)
  have "set bs \<noteq> {} \<Longrightarrow> card (set bs) < length as + length bs" using assms(6) card_length [of bs] by (cases as) auto
  then have second: "promoted (Promote x ''m'' (now * NS_PER_MS) (y @ '':'' @ v)) (?two (?sc (int (length as + length bs)))) = None"
    using promoted_live [OF params(8,9) alive_two] params(10) by auto
  let ?rlate = "\<lambda>rs. redis_step db (vote mt sv [a] late) (redis_step db (vote mt sv orgs t) rs)"
  let ?rtwo = "\<lambda>rs. redis_step db (vote x (y @ '':'' @ v) bs t) (redis_step db (vote (x @ '':'' @ y) v as t) rs)"
  note scores = redis [OF times(1)] redis [OF assms(7)]
  have rparams: "rs_frac_num (?rlate (?rs q)) = 1" "rs_frac_den (?rlate (?rs q)) = 3" "rs_floor (?rlate (?rs q)) = q" "rs_ttl_ms (?rlate (?rs q)) = ttl"
      "rs_frac_num (?rtwo (?rs q)) = 1" "rs_frac_den (?rtwo (?rs q)) = 3" "rs_floor (?rtwo (?rs q)) = q" "rs_ttl_ms (?rtwo (?rs q)) = ttl" for q
    by (simp_all add: scores fresh_redis)
  have counted_late: "sorted_sets.counted score (rs_redis (?rlate (?rs q))) k (now - ttl) now = set orgs - {a}"
    if "k \<in> {agree_key mt ''m'' sv, obs_key mt ''m'' sv}" for k q
    using that assms(4,8-10) by (auto simp: sorted_sets.counted_def [OF assms(1)] scores fresh_redis)
  have shared: "agree_key (x @ '':'' @ y) ''m'' v = agree_key x ''m'' (y @ '':'' @ v)" "obs_key (x @ '':'' @ y) ''m'' v = obs_key x ''m'' (y @ '':'' @ v)"
    by (simp_all add: agree_key_def obs_key_def)
  have counted_two: "sorted_sets.counted score (rs_redis (?rtwo (?rs q))) k (now - ttl) now = set as \<union> set bs"
    if "k \<in> {agree_key x ''m'' (y @ '':'' @ v), obs_key x ''m'' (y @ '':'' @ v)}" for k q
    using that assms(9,10) by (auto simp: sorted_sets.counted_def [OF assms(1)] scores fresh_redis shared [simplified])
  have "card (set orgs - {a}) < length orgs" using assms(4) distinct_card [OF assms(3)] card_Diff1_less [of "set orgs" a] by simp
  then have third: "redis_promoted db (Promote mt ''m'' (now * NS_PER_MS) sv) (?rlate (?rs (int (length orgs)))) = None"
    using sorted_sets.redis_promoted_counted [OF assms(1) rparams(1,2), where mt = mt and mn = "''m''" and sv = sv and now = "now * NS_PER_MS"
        and A = "set orgs - {a}"] rparams(3,4) counted_late by (simp add: ms(1))
  have "card (set as \<union> set bs) = length as + length bs" using assms(5) by (simp add: card_Un_disjoint distinct_card)
  then have fourth: "redis_promoted db (Promote x ''m'' (now * NS_PER_MS) (y @ '':'' @ v)) (?rtwo (?rs (int (length as + length bs)))) = Some (length as + length bs)"
    using sorted_sets.redis_promoted_counted [OF assms(1) rparams(5,6), where mt = x and mn = "''m''" and sv = "y @ '':'' @ v" and now = "now * NS_PER_MS"
        and A = "set as \<union> set bs"] rparams(7,8) counted_two assms(6) by (simp add: ms(1))
  show ?thesis unfolding Let_def promotions_vote first second third fourth by simp
qed

theorem redis_scorer_diverges_witness:
  "redis_promotions memory_redis [vote ''x'' ''v'' [''a'', ''b'', ''c''] 2000, vote ''x'' ''v'' [''a''] 500, Promote ''x'' ''m'' 2500000000 ''v'']
     (init_redis_scorer [] (Some 3) (1000 * NS_PER_MS) 1 3) = [None, None, None]
   \<and> redis_promotions memory_redis [vote ''x:y'' ''v'' [''a'', ''b''] 2000, vote ''x'' ''y:v'' [''c''] 2000, Promote ''x'' ''m'' 2500000000 ''y:v'']
     (init_redis_scorer [] (Some 3) (1000 * NS_PER_MS) 1 3) = [None, None, Some 3]"
  using redis_scorer_diverges [OF memory.sorted_sets_axioms, where client = "[]" and orgs = "[''a'', ''b'', ''c'']" and a = "''a''" and as = "[''a'', ''b'']"
      and bs = "[''c'']" and late = 500 and t = 2000 and now = 2500 and ttl = 1000 and mt = "''x''" and sv = "''v''" and x = "''x''" and y = "''y''" and v = "''v''"]
  by (simp add: memory_score_def dict_get_def Let_def NS_PER_MS_def)

end
