(* ===== verification/Suites.thy ===== *)
theory Suites
  imports CompareRun
begin

section \<open>Suites as data (probe/suite\_spec.py, probe/canary\_suite.py)\<close>

text \<open>
  The loader of suite files, which checks a corpus and the digest it declares, and the append-only registry of
  suite versions. The text of a file is parsed by \<open>loads\<close>, \<open>dumps\<close> is the canonical serialiser and
  \<open>sha256\<close> the digest. Error messages carry the text of the source without the formatted values.
\<close>

subsection \<open>Suite files\<close>

definition SCHEMA_ID :: string where
  "SCHEMA_ID = ''seismograph.suite/1''"

definition MAX_PROMPTS :: nat where
  "MAX_PROMPTS = 200"

definition REQUIRED_PROMPT_KEYS :: "string list" where
  "REQUIRED_PROMPT_KEYS = [''category'', ''prompt_id'', ''system'', ''user'']"

record suite_spec =
  ss_name :: string
  ss_suite_version :: string
  ss_license :: string
  ss_source :: string
  ss_prompts :: "prompt list"
  ss_tools :: "json list"

definition suite_id :: "(json \<Rightarrow> string) \<Rightarrow> (string \<Rightarrow> string) \<Rightarrow> suite_spec \<Rightarrow> string" where
  "suite_id dumps sha256 spec = suite_content_hash dumps sha256 (ss_prompts spec) (Some (ss_tools spec))"

definition as_suite :: "suite_spec \<Rightarrow> prompt list" where
  "as_suite spec = ss_prompts spec"

fun require_str :: "json \<Rightarrow> string \<Rightarrow> py_error + string" where
  "require_str (JStr s) label = (if blank s then Inl (ValueError (label @ '' must be a non-empty string'')) else Inr s)"
| "require_str _ label = Inl (ValueError (label @ '' must be a non-empty string''))"

text \<open>One entry with the ids seen before; the fields are checked in the order of their names.\<close>

definition check_prompt :: "string set \<Rightarrow> json \<Rightarrow> py_error + prompt" where
  "check_prompt seen entry =
     (case entry of
        JObj d \<Rightarrow>
          if set (map fst d) \<noteq> set REQUIRED_PROMPT_KEYS then Inl (ValueError ''prompt keys'')
          else sum_bind (require_str (dict_get d ''category'' JNull) ''category'') (\<lambda>category.
               sum_bind (require_str (dict_get d ''prompt_id'' JNull) ''prompt_id'') (\<lambda>prompt_id.
               sum_bind (require_str (dict_get d ''system'' JNull) ''system'') (\<lambda>system.
               sum_bind (require_str (dict_get d ''user'' JNull) ''user'') (\<lambda>user.
                 if prompt_id \<in> seen then Inl (ValueError ''duplicate prompt_id'')
                 else Inr \<lparr>pm_prompt_id = prompt_id, pm_category = Some category, pm_system = system, pm_user = user\<rparr>))))
      | _ \<Rightarrow> Inl (ValueError ''prompt is not an object''))"

fun check_prompts :: "string set \<Rightarrow> json list \<Rightarrow> py_error + prompt list" where
  "check_prompts seen [] = Inr []"
| "check_prompts seen (entry # entries) =
     sum_bind (check_prompt seen entry)
       (\<lambda>p. sum_bind (check_prompts (insert (pm_prompt_id p) seen) entries) (\<lambda>ps. Inr (p # ps)))"

definition validate_prompts :: "json \<Rightarrow> py_error + prompt list" where
  "validate_prompts raw =
     (case raw of
        JArr (x # xs) \<Rightarrow> if length (x # xs) > MAX_PROMPTS then Inl (ValueError ''suite over the cap'') else check_prompts {} (x # xs)
      | _ \<Rightarrow> Inl (ValueError ''prompts must be a non-empty list''))"

fun validate_tools :: "json \<Rightarrow> py_error + json list" where
  "validate_tools JNull = Inr []"
| "validate_tools (JArr ts) = (if list_all is_obj ts then Inr ts else Inl (ValueError ''tool is not an object''))"
| "validate_tools _ = Inl (ValueError ''tools must be a list'')"

definition load_suite_spec ::
  "(json \<Rightarrow> string) \<Rightarrow> (string \<Rightarrow> string) \<Rightarrow> (string \<Rightarrow> json option) \<Rightarrow> string \<Rightarrow> py_error + suite_spec" where
  "load_suite_spec dumps sha256 loads content =
     (case loads content of
        None \<Rightarrow> Inl (ValueError ''invalid JSON'')
      | Some (JObj raw) \<Rightarrow>
          if dict_get raw ''schema'' JNull \<noteq> JStr SCHEMA_ID then Inl (ValueError ''schema'')
          else sum_bind (require_str (dict_get raw ''name'' JNull) ''name'') (\<lambda>name.
               sum_bind (require_str (dict_get raw ''suite_version'' JNull) ''suite_version'') (\<lambda>version.
               sum_bind (require_str (dict_get raw ''license'' JNull) ''license'') (\<lambda>license.
               sum_bind (require_str (dict_get raw ''source'' JNull) ''source'') (\<lambda>source.
               sum_bind (validate_prompts (dict_get raw ''prompts'' JNull)) (\<lambda>prompts.
               sum_bind (validate_tools (dict_get raw ''tools'' JNull)) (\<lambda>tools.
                 let spec = \<lparr>ss_name = name, ss_suite_version = version, ss_license = license, ss_source = source,
                             ss_prompts = prompts, ss_tools = tools\<rparr>;
                     declared = dict_get raw ''suite_id'' JNull
                 in if declared \<noteq> JNull \<and> declared \<noteq> JStr (suite_id dumps sha256 spec)
                    then Inl (ValueError ''declared suite_id does not match the corpus'')
                    else Inr spec))))))
      | Some _ \<Rightarrow> Inl (ValueError ''top level must be an object''))"

subsection \<open>Suite versions and their registry\<close>

record canary_prompt =
  cn_prompt_id :: string
  cn_text :: string
  cn_expected_feature_hash :: "string option"

definition canary_prompt_post_init :: "canary_prompt \<Rightarrow> py_error + canary_prompt" where
  "canary_prompt_post_init p =
     (if cn_prompt_id p = [] then Inl (ValueError ''prompt_id must be non-empty'')
      else if cn_text p = [] then Inl (ValueError ''text must be non-empty'') else Inr p)"

record suite_version =
  sx_version_hash :: string
  sx_prompts :: "canary_prompt list"
  sx_metadata :: "(string, string) dict"

definition from_prompts ::
  "(json \<Rightarrow> string) \<Rightarrow> (string \<Rightarrow> string) \<Rightarrow> canary_prompt list \<Rightarrow> (string, string) dict option \<Rightarrow> suite_version" where
  "from_prompts dumps sha256 prompts metadata =
     (let corpus = JArr (map (\<lambda>p. JObj [(''prompt_id'', JStr (cn_prompt_id p)), (''text'', JStr (cn_text p))]) prompts)
      in \<lparr>sx_version_hash = sha256 (dumps corpus), sx_prompts = prompts,
          sx_metadata = (case metadata of None \<Rightarrow> [] | Some m \<Rightarrow> m)\<rparr>)"

definition MAX_PROMPTS_PER_SUITE :: nat where
  "MAX_PROMPTS_PER_SUITE = 200"

type_synonym registry = "(string, suite_version) dict"

definition register :: "registry \<Rightarrow> suite_version \<Rightarrow> (py_error + string) \<times> registry" where
  "register reg version =
     (if length (sx_prompts version) > MAX_PROMPTS_PER_SUITE then (Inl (ValueError ''suite over the cap''), reg)
      else if sx_version_hash version \<in> set (map fst reg) then (Inl (ValueError ''already registered''), reg)
      else (Inr (sx_version_hash version), AList.update (sx_version_hash version) version reg))"

definition registry_get :: "registry \<Rightarrow> string \<Rightarrow> py_error + suite_version" where
  "registry_get reg h = (case map_of reg h of None \<Rightarrow> Inl (KeyError h) | Some v \<Rightarrow> Inr v)"

definition list_hashes :: "registry \<Rightarrow> string list" where
  "list_hashes reg = map fst reg"

subsection \<open>Lemmas: what the loader accepts\<close>

definition filled :: "string \<Rightarrow> bool" where
  "filled s \<longleftrightarrow> \<not> blank s"

definition prompt_ok :: "prompt \<Rightarrow> bool" where
  "prompt_ok p \<longleftrightarrow> filled (pm_prompt_id p) \<and> filled (pm_system p) \<and> filled (pm_user p)
     \<and> (case pm_category p of None \<Rightarrow> False | Some c \<Rightarrow> filled c)"

definition spec_ok :: "suite_spec \<Rightarrow> bool" where
  "spec_ok spec \<longleftrightarrow> filled (ss_name spec) \<and> filled (ss_suite_version spec) \<and> filled (ss_license spec) \<and> filled (ss_source spec)
     \<and> ss_prompts spec \<noteq> [] \<and> length (ss_prompts spec) \<le> 200 \<and> list_all prompt_ok (ss_prompts spec)
     \<and> distinct (map pm_prompt_id (ss_prompts spec)) \<and> list_all is_obj (ss_tools spec)"

text \<open>The file of a suite, with the digest it declares.\<close>

definition spec_file :: "suite_spec \<Rightarrow> json \<Rightarrow> json" where
  "spec_file spec declared =
     JObj [(''schema'', JStr SCHEMA_ID), (''name'', JStr (ss_name spec)), (''suite_version'', JStr (ss_suite_version spec)),
           (''license'', JStr (ss_license spec)), (''source'', JStr (ss_source spec)),
           (''prompts'', JArr (map prompt_json (ss_prompts spec))), (''tools'', JArr (ss_tools spec)), (''suite_id'', declared)]"

lemma require_str_Inr [simp]: "require_str j label = Inr s \<longleftrightarrow> j = JStr s \<and> filled s"
  by (cases j) (auto simp: filled_def)

lemma check_prompt_Inr:
  "check_prompt seen entry = Inr p \<Longrightarrow> prompt_ok p \<and> pm_prompt_id p \<notin> seen"
  by (cases entry) (auto simp: check_prompt_def sum_bind_Inr_iff prompt_ok_def split: if_splits)

lemma check_prompt_json: "prompt_ok p \<Longrightarrow> pm_prompt_id p \<notin> seen \<Longrightarrow> check_prompt seen (prompt_json p) = Inr p"
  by (cases p) (auto simp: check_prompt_def prompt_ok_def prompt_json_def filled_def REQUIRED_PROMPT_KEYS_def dict_get_def split: option.splits)

lemma check_prompts_Inr:
  "check_prompts seen entries = Inr ps \<Longrightarrow>
     length ps = length entries \<and> list_all prompt_ok ps \<and> distinct (map pm_prompt_id ps) \<and> seen \<inter> pm_prompt_id ` set ps = {}"
proof (induction entries arbitrary: seen ps)
  case (Cons entry entries)
  from Cons.prems obtain p rest where p: "check_prompt seen entry = Inr p"
    and rest: "check_prompts (insert (pm_prompt_id p) seen) entries = Inr rest" and ps: "ps = p # rest"
    by (auto simp: sum_bind_Inr_iff)
  from Cons.IH [OF rest] check_prompt_Inr [OF p] ps show ?case by auto
qed simp

lemma check_prompts_json:
  "list_all prompt_ok ps \<Longrightarrow> distinct (map pm_prompt_id ps) \<Longrightarrow> seen \<inter> pm_prompt_id ` set ps = {} \<Longrightarrow>
     check_prompts seen (map prompt_json ps) = Inr ps"
proof (induction ps arbitrary: seen)
  case (Cons p ps)
  have "check_prompts (insert (pm_prompt_id p) seen) (map prompt_json ps) = Inr ps" using Cons.prems by (intro Cons.IH) auto
  then show ?case using Cons.prems check_prompt_json [of p seen] by simp
qed simp

lemma validate_prompts_Inr:
  "validate_prompts raw = Inr ps \<Longrightarrow>
     ps \<noteq> [] \<and> length ps \<le> 200 \<and> list_all prompt_ok ps \<and> distinct (map pm_prompt_id ps)"
proof -
  assume ok: "validate_prompts raw = Inr ps"
  then obtain x xs where raw: "raw = JArr (x # xs)" "length (x # xs) \<le> 200" "check_prompts {} (x # xs) = Inr ps"
    by (auto simp: validate_prompts_def MAX_PROMPTS_def split: json.splits list.splits if_splits)
  from check_prompts_Inr [OF raw(3)] raw(2) show ?thesis by auto
qed

lemma validate_prompts_json:
  assumes "ps \<noteq> []" "length ps \<le> 200" "list_all prompt_ok ps" "distinct (map pm_prompt_id ps)"
  shows "validate_prompts (JArr (map prompt_json ps)) = Inr ps"
  using assms check_prompts_json [OF assms(3,4), of "{}"]
  by (cases ps) (simp_all add: validate_prompts_def MAX_PROMPTS_def)

lemma validate_tools_Inr: "validate_tools raw = Inr ts \<Longrightarrow> list_all is_obj ts"
  by (cases raw) (auto split: if_splits)

lemma load_suite_spec_Inr:
  assumes "load_suite_spec dumps sha256 loads content = Inr spec"
  shows "spec_ok spec \<and> (\<exists>raw. loads content = Some (JObj raw)
    \<and> (dict_get raw ''suite_id'' JNull \<noteq> JNull \<longrightarrow> dict_get raw ''suite_id'' JNull = JStr (suite_id dumps sha256 spec)))"
proof -
  obtain raw where raw: "loads content = Some (JObj raw)"
    using assms by (auto simp: load_suite_spec_def split: option.splits json.splits)
  from assms raw validate_prompts_Inr [of "dict_get raw ''prompts'' JNull"] validate_tools_Inr [of "dict_get raw ''tools'' JNull"]
  show ?thesis by (auto simp: load_suite_spec_def spec_ok_def sum_bind_Inr_iff Let_def split: if_splits)
qed

lemma load_spec_file:
  assumes "spec_ok spec" and "loads content = Some (spec_file spec declared)"
  shows "load_suite_spec dumps sha256 loads content =
    (if declared = JNull \<or> declared = JStr (suite_id dumps sha256 spec) then Inr spec
     else Inl (ValueError ''declared suite_id does not match the corpus''))"
  using assms validate_prompts_json [of "ss_prompts spec"]
  by (cases spec) (simp add: load_suite_spec_def spec_file_def spec_ok_def dict_get_def filled_def Let_def)

lemma prompt_json_inj: "prompt_json p = prompt_json q \<longleftrightarrow> p = q"
  by (cases p; cases q) (auto simp: prompt_json_def split: option.splits)

subsection \<open>Properties\<close>

text \<open>C40: 
  A suite that loads is well formed (1 to 200 prompts with unique ids, no blank field, tools that are objects, licence and
  source recorded), and loading its own file again, with the digest declared or without, gives the same suite; the file is
  refused as soon as it declares any other digest.
\<close>
theorem suite_file_round_trip:
  assumes "load_suite_spec dumps sha256 loads content = Inr spec" and "loads rewritten = Some (spec_file spec declared)"
  shows "spec_ok spec \<and> load_suite_spec dumps sha256 loads rewritten =
    (if declared = JNull \<or> declared = JStr (suite_id dumps sha256 spec) then Inr spec
     else Inl (ValueError ''declared suite_id does not match the corpus''))"
  using load_suite_spec_Inr [OF assms(1)] load_spec_file [of spec loads rewritten declared dumps sha256] assms(2) by blast

definition example_spec :: suite_spec where
  "example_spec =
     \<lparr>ss_name = ''n'', ss_suite_version = ''v'', ss_license = ''MIT'', ss_source = ''s'',
      ss_prompts = [\<lparr>pm_prompt_id = ''p1'', pm_category = Some ''c'', pm_system = ''s'', pm_user = ''u''\<rparr>], ss_tools = []\<rparr>"

lemma suite_file_round_trip_witness:
  "load_suite_spec (\<lambda>j. ''d'') (\<lambda>s. ''h'') (\<lambda>s. Some (spec_file example_spec (if s = [] then JNull else JStr ''x''))) [] = Inr example_spec
   \<and> load_suite_spec (\<lambda>j. ''d'') (\<lambda>s. ''h'') (\<lambda>s. Some (spec_file example_spec (if s = [] then JNull else JStr ''x''))) ''f''
     = Inl (ValueError ''declared suite_id does not match the corpus'')"
proof -
  have first: "load_suite_spec (\<lambda>j. ''d'') (\<lambda>s. ''h'') (\<lambda>s. Some (spec_file example_spec (if s = [] then JNull else JStr ''x''))) []
    = Inr example_spec" by code_simp
  show ?thesis
    using suite_file_round_trip [OF first, of "''f''" "JStr ''x''"] first by (simp add: suite_id_def suite_content_hash_def)
qed

text \<open>
  Two files that declare the same digest and load have the same prompts in the same order and the same tools, as long as the
  digest of their canonical texts has no collision.
\<close>
theorem declared_digest_pins_corpus:
  assumes "load_suite_spec dumps sha256 loads c1 = Inr s1" and "load_suite_spec dumps sha256 loads c2 = Inr s2"
    and "loads c1 = Some (JObj r1)" "loads c2 = Some (JObj r2)"
    and "dict_get r1 ''suite_id'' JNull = JStr d" "dict_get r2 ''suite_id'' JNull = JStr d"
    and "\<And>a b. sha256 (dumps a) = sha256 (dumps b) \<Longrightarrow> a = b"
  shows "ss_prompts s1 = ss_prompts s2 \<and> ss_tools s1 = ss_tools s2"
proof -
  have "suite_id dumps sha256 s1 = suite_id dumps sha256 s2"
    using load_suite_spec_Inr [OF assms(1)] load_suite_spec_Inr [OF assms(2)] assms(3-6) by auto
  then have "map prompt_json (ss_prompts s1) = map prompt_json (ss_prompts s2) \<and> ss_tools s1 = ss_tools s2"
    using assms(7) by (fastforce simp: suite_id_def suite_content_hash_def)
  then show ?thesis using prompt_json_inj by (auto simp: inj_on_def intro: map_injective)
qed

fun register_all :: "suite_version list \<Rightarrow> registry \<Rightarrow> registry" where
  "register_all [] reg = reg"
| "register_all (v # vs) reg = register_all vs (snd (register reg v))"

lemma register_appends:
  "\<exists>new. snd (register reg v) = reg @ new \<and> set (map fst new) \<inter> set (map fst reg) = {} \<and> distinct (map fst new)
     \<and> list_all (\<lambda>(h, s). sx_version_hash s = h \<and> length (sx_prompts s) \<le> 200) new"
proof -
  have "AList.update k x d = d @ [(k, x)]" if "k \<notin> set (map fst d)" for k :: string and x :: suite_version and d
    using that by (induction d) auto
  then show ?thesis by (auto simp: register_def MAX_PROMPTS_PER_SUITE_def)
qed

lemma register_all_appends:
  "\<exists>new. register_all vs reg = reg @ new \<and> set (map fst new) \<inter> set (map fst reg) = {} \<and> distinct (map fst new)
     \<and> list_all (\<lambda>(h, s). sx_version_hash s = h \<and> length (sx_prompts s) \<le> 200) new"
proof (induction vs arbitrary: reg)
  case (Cons v vs)
  obtain n1 where n1: "snd (register reg v) = reg @ n1" "set (map fst n1) \<inter> set (map fst reg) = {}" "distinct (map fst n1)"
    "list_all (\<lambda>(h, s). sx_version_hash s = h \<and> length (sx_prompts s) \<le> 200) n1" using register_appends by blast
  obtain n2 where n2: "register_all vs (reg @ n1) = (reg @ n1) @ n2" "set (map fst n2) \<inter> set (map fst (reg @ n1)) = {}"
    "distinct (map fst n2)" "list_all (\<lambda>(h, s). sx_version_hash s = h \<and> length (sx_prompts s) \<le> 200) n2" using Cons by blast
  show ?case using n1 n2 by (intro exI [of _ "n1 @ n2"]) auto
qed simp

text \<open>
  The registry is append-only: whatever is registered later, in whatever order and with whatever repetitions, every version keeps
  its place and its content, and what is added has at most 200 prompts and is found under its own hash.
\<close>
theorem registry_is_append_only:
  "\<exists>new. list_hashes (register_all versions reg) = list_hashes reg @ list_hashes new
     \<and> map_of reg \<subseteq>\<^sub>m map_of (register_all versions reg)
     \<and> list_all (\<lambda>(h, v). registry_get (register_all versions reg) h = Inr v \<and> sx_version_hash v = h
          \<and> length (sx_prompts v) \<le> 200) new"
proof -
  obtain new where new: "register_all versions reg = reg @ new" "set (map fst new) \<inter> set (map fst reg) = {}" "distinct (map fst new)"
    "list_all (\<lambda>(h, s). sx_version_hash s = h \<and> length (sx_prompts s) \<le> 200) new" using register_all_appends by blast
  have get: "map_of (reg @ new) h = Some v" if "(h, v) \<in> set new" for h v
  proof -
    have "map_of reg h = None" using that new(2) by (force simp: map_of_eq_None_iff)
    then show ?thesis using that new(3) by (simp add: map_add_Some_iff)
  qed
  have "map_of reg \<subseteq>\<^sub>m map_of (reg @ new)"
    using new(2) by (auto simp: map_le_def map_add_def dom_map_of_conv_image_fst map_of_eq_None_iff split: option.split)
  then show ?thesis using new(1,4) get
    by (intro exI [of _ new]) (auto simp: list_hashes_def registry_get_def list_all_iff)
qed

end
