(* ===== verification/Adapters.thy ===== *)
theory Adapters
  imports Sdk CompareReport
begin

section \<open>Adapters (probe/adapters/otel.py, probe/adapters/mcp.py)\<close>

text \<open>
  The OpenTelemetry processor, which stages a result for every generative-AI span of the host program, and the MCP
  server, which answers JSON-RPC requests about the weather line by line. Attribute and request values are JSON values;
  Python's \<^verbatim>\<open>str\<close>, \<^verbatim>\<open>repr\<close> and \<^verbatim>\<open>int\<close> of them, the digests, the clock and the HTTP client are arguments.
\<close>

subsection \<open>The OpenTelemetry span processor\<close>

record otel_span =
  os_name :: string
  os_attributes :: "(string, json) dict"
  os_span_id :: int
  os_start_time :: "int option"
  os_end_time :: "int option"

record otel_env =
  oe_str :: "json \<Rightarrow> string"
  oe_int :: "json \<Rightarrow> py_error + int"
  oe_sha256 :: "string \<Rightarrow> string"
  oe_sha256_id :: "int \<Rightarrow> py_error + string"

definition model_tuple_from_attrs :: "otel_env \<Rightarrow> (string, json) dict \<Rightarrow> string option" where
  "model_tuple_from_attrs env attrs =
     (let system = dict_get attrs ''gen_ai.system'' JNull
      in if \<not> truthy system then None
         else (let model = oe_str env (dict_get attrs ''gen_ai.request.model'' (JStr ''unknown''));
                   version = oe_str env (dict_get attrs ''gen_ai.response.model'' (JStr ''latest''))
               in Some (oe_str env system @ ''/'' @ model @ ''@'' @ version)))"

definition response_hash_from_span :: "otel_env \<Rightarrow> otel_span \<Rightarrow> py_error + string" where
  "response_hash_from_span env sp =
     (let response_id = dict_get (os_attributes sp) ''gen_ai.response.id'' JNull
      in if truthy response_id then Inr (oe_sha256 env (oe_str env response_id)) else oe_sha256_id env (os_span_id sp))"

definition span_latency_ms :: "otel_span \<Rightarrow> int" where
  "span_latency_ms sp =
     (case (os_end_time sp, os_start_time sp) of
        (Some e, Some s) \<Rightarrow> (e - s) div 1000000
      | _ \<Rightarrow> -1)"

definition span_result :: "otel_env \<Rightarrow> string \<Rightarrow> string \<Rightarrow> otel_span \<Rightarrow> py_error + canary_result" where
  "span_result env now model_tuple sp =
     sum_bind (response_hash_from_span env sp) (\<lambda>response_hash.
     sum_bind (oe_int env (dict_get (os_attributes sp) ''gen_ai.usage.output_tokens'' (JInt 0))) (\<lambda>output_length.
       let finish_reason = oe_str env (dict_get (os_attributes sp) ''gen_ai.response.finish_reason'' (JStr []))
       in Inr \<lparr>cr_timestamp = now, cr_model_tuple = model_tuple, cr_suite_version = SUITE_VERSION, cr_prompt_id = os_name sp,
               cr_response_hash = response_hash, cr_output_length = output_length,
               cr_json_valid = (finish_reason = ''stop''), cr_latency_ms = span_latency_ms sp,
               cr_tool_call_valid = None, cr_output_tokens = None, cr_reasoning_tokens = None\<rparr>))"

definition otel_on_end :: "otel_env \<Rightarrow> string \<Rightarrow> otel_span \<Rightarrow> ('g, 'sk) probe_sdk \<Rightarrow> py_error + ('g, 'sk) probe_sdk" where
  "otel_on_end env now sp sdk =
     (case model_tuple_from_attrs env (os_attributes sp) of
        None \<Rightarrow> Inr sdk
      | Some model_tuple \<Rightarrow>
          sum_bind (span_result env now model_tuple sp)
            (\<lambda>r. Inr (sdk\<lparr>sd_aggregator := add_result (sd_aggregator sdk) r\<rparr>)))"

subsection \<open>The weather tool\<close>

record weather_entry =
  we_model_tuple :: json
  we_status :: json
  we_recent_json_success_rate :: json
  we_recent_avg_output_length :: json

fun weather_item :: "json \<Rightarrow> py_error + weather_entry" where
  "weather_item (JObj d) =
     Inr \<lparr>we_model_tuple = dict_get d ''model_tuple'' (JStr []), we_status = dict_get d ''status'' (JStr ''UNKNOWN''),
          we_recent_json_success_rate = dict_get d ''recent_json_success_rate'' JNull,
          we_recent_avg_output_length = dict_get d ''recent_avg_output_length'' JNull\<rparr>"
| "weather_item _ = Inl (AttributeError ''get'')"

fun weather_items :: "json list \<Rightarrow> py_error + weather_entry list" where
  "weather_items [] = Inr []"
| "weather_items (x # xs) = sum_bind (weather_item x) (\<lambda>e. sum_bind (weather_items xs) (\<lambda>es. Inr (e # es)))"

text \<open>Iterating a dictionary or a string yields strings, which have no \<^verbatim>\<open>get\<close>; other values do not iterate.\<close>

fun parse_weather_list :: "json \<Rightarrow> py_error + weather_entry list" where
  "parse_weather_list (JArr xs) = weather_items xs"
| "parse_weather_list (JObj d) = (if d = [] then Inr [] else Inl (AttributeError ''get''))"
| "parse_weather_list (JStr s) = (if s = [] then Inr [] else Inl (AttributeError ''get''))"
| "parse_weather_list _ = Inl (TypeError ''not iterable'')"

text \<open>A number as the format expressions need it.\<close>

fun json_number :: "json \<Rightarrow> py_error + real" where
  "json_number (JInt n) = Inr (of_int n)"
| "json_number (JFloat x) = Inr x"
| "json_number (JBool b) = Inr (if b then 1 else 0)"
| "json_number _ = Inl (TypeError ''not a number'')"

definition format_entry :: "(json \<Rightarrow> string) \<Rightarrow> weather_entry \<Rightarrow> py_error + string" where
  "format_entry py_str entry =
     (let start = ''Status for '' @ py_str (we_model_tuple entry) @ '' is '' @ py_str (we_status entry) @ ''.''
      in sum_bind (if we_recent_json_success_rate entry = JNull then Inr []
                   else if we_recent_json_success_rate entry = JNonFinite then Inl (ValueError ''cannot convert to integer'')
                   else sum_bind (json_number (we_recent_json_success_rate entry)) (\<lambda>x.
                     Inr ('' Recent JSON success rate: '' @ str_of_int (round_half_even (x * 100)) @ ''%.'')))
           (\<lambda>rate. sum_bind (if we_recent_avg_output_length entry = JNull then Inr []
                   else if we_recent_avg_output_length entry = JNonFinite
                   then Inr ('' Average output length: '' @ py_str JNonFinite @ '' tokens.'')
                   else sum_bind (json_number (we_recent_avg_output_length entry)) (\<lambda>x.
                     Inr ('' Average output length: '' @ fixed_point 1 x @ '' tokens.'')))
           (\<lambda>len. Inr (start @ rate @ len))))"

record 'w mcp_env =
  mc_get :: "string \<Rightarrow> 'w \<Rightarrow> (py_error + json) \<times> 'w"
  mc_str :: "json \<Rightarrow> string"
  mc_repr :: "json \<Rightarrow> string"
  mc_error_text :: "py_error \<Rightarrow> string"
  mc_loads :: "string \<Rightarrow> json option"
  mc_parse_error :: "string \<Rightarrow> string"

definition check_model_weather :: "'w mcp_env \<Rightarrow> string \<Rightarrow> json \<Rightarrow> 'w \<Rightarrow> (py_error + string) \<times> 'w" where
  "check_model_weather env base_url model_tuple w =
     (case mc_get env (rstrip_char (CHR ''/'') base_url @ ''/v1/weather'') w of
        (body, w) \<Rightarrow>
          (sum_bind body (\<lambda>data. sum_bind (parse_weather_list data) (\<lambda>entries.
             case find (\<lambda>e. we_model_tuple e = model_tuple) entries of
               None \<Rightarrow> Inr (''No data found for '' @ mc_repr env model_tuple
                            @ '' in the SEISMOGRAPH network. The model may not be tracked yet.'')
             | Some entry \<Rightarrow> format_entry (mc_str env) entry)), w))"

subsection \<open>The MCP server\<close>

definition TOOL_SCHEMA :: json where
  "TOOL_SCHEMA =
     JObj [(''name'', JStr ''check_model_weather''),
       (''description'', JStr (''Query the SEISMOGRAPH federated drift network for the current''
          @ '' semantic drift status of an LLM model. Returns STABLE or'' @ '' DRIFTING with recent signal metrics.'')),
       (''inputSchema'', JObj [(''type'', JStr ''object''),
          (''properties'', JObj [(''model_tuple'', JObj [(''type'', JStr ''string''),
             (''description'', JStr ([CHR ''M''] @ ''odel identifier in '' @ [CHR 0x27] @ ''<provider>/<model>@<version>'' @ [CHR 0x27]
                @ '' format, e.g. '' @ [CHR 0x27] @ ''openai/gpt-4o@2025-08'' @ [CHR 0x27] @ '' or ''
                @ [CHR 0x27] @ ''anthropic/claude-sonnet-4@global'' @ [CHR 0x27] @ ''.''))])]),
          (''required'', JArr [JStr ''model_tuple''])])]"

definition rpc_ok :: "json \<Rightarrow> json \<Rightarrow> json" where
  "rpc_ok req_id result = JObj [(''jsonrpc'', JStr ''2.0''), (''id'', req_id), (''result'', result)]"

definition rpc_err :: "json \<Rightarrow> int \<Rightarrow> string \<Rightarrow> json" where
  "rpc_err req_id code message =
     JObj [(''jsonrpc'', JStr ''2.0''), (''id'', req_id),
           (''error'', JObj [(''code'', JInt code), (''message'', JStr message)])]"

definition initialize_result :: json where
  "initialize_result =
     JObj [(''protocolVersion'', JStr ''2024-11-05''), (''capabilities'', JObj [(''tools'', JObj [])]),
           (''serverInfo'', JObj [(''name'', JStr ''seismograph''), (''version'', JStr ''0.2.0'')])]"

definition tool_text :: "string \<Rightarrow> bool \<Rightarrow> json" where
  "tool_text s is_error =
     JObj [(''content'', JArr [JObj [(''type'', JStr ''text''), (''text'', JStr s)]]), (''isError'', JBool is_error)]"

definition tools_call :: "'w mcp_env \<Rightarrow> string \<Rightarrow> json \<Rightarrow> json \<Rightarrow> 'w \<Rightarrow> (py_error + json) \<times> 'w" where
  "tools_call env base_url req_id req w =
     (case sum_bind (get_or req ''params'' (JObj [])) (\<lambda>params.
             sum_bind (get_or params ''name'' (JStr [])) (\<lambda>tool_name.
             sum_bind (get_or params ''arguments'' (JObj [])) (\<lambda>tool_args. Inr (tool_name, tool_args)))) of
        Inl e \<Rightarrow> (Inl e, w)
      | Inr (tool_name, tool_args) \<Rightarrow>
          if tool_name \<noteq> JStr ''check_model_weather''
          then (Inr (rpc_err req_id (- 32601) (''Unknown tool: '' @ mc_repr env tool_name)), w)
          else (case get_or tool_args ''model_tuple'' (JStr []) of
                  Inl e \<Rightarrow> (Inl e, w)
                | Inr mt \<Rightarrow>
                    (case check_model_weather env base_url mt w of
                       (Inr s, w) \<Rightarrow> (Inr (rpc_ok req_id (tool_text s False)), w)
                     | (Inl e, w) \<Rightarrow> (Inr (rpc_ok req_id (tool_text (''Error: '' @ mc_error_text env e) True)), w))))"

text \<open>One line of input: an exception of the loop body, or the reply, if any.\<close>

definition handle_line :: "'w mcp_env \<Rightarrow> string \<Rightarrow> string \<Rightarrow> 'w \<Rightarrow> (py_error + json option) \<times> 'w" where
  "handle_line env base_url raw w =
     (if blank raw then (Inr None, w)
      else (case mc_loads env raw of
              None \<Rightarrow> (Inr (Some (rpc_err JNull (- 32700) (''Parse error: '' @ mc_parse_error env raw))), w)
            | Some req \<Rightarrow>
                (case sum_bind (get_or req ''id'' JNull) (\<lambda>i. sum_bind (get_or req ''method'' (JStr [])) (\<lambda>m. Inr (i, m))) of
                   Inl e \<Rightarrow> (Inl e, w)
                 | Inr (req_id, method) \<Rightarrow>
                     if method = JStr ''initialize'' then (Inr (Some (rpc_ok req_id initialize_result)), w)
                     else if method = JStr ''notifications/initialized'' then (Inr None, w)
                     else if method = JStr ''tools/list''
                     then (Inr (Some (rpc_ok req_id (JObj [(''tools'', JArr [TOOL_SCHEMA])]))), w)
                     else if method = JStr ''tools/call''
                     then (case tools_call env base_url req_id req w of
                             (Inl e, w) \<Rightarrow> (Inl e, w)
                           | (Inr reply, w) \<Rightarrow> (Inr (Some reply), w))
                     else (Inr (Some (rpc_err req_id (- 32601) (''Method not found: '' @ mc_str env method))), w))))"

text \<open>The loop over standard input: the replies written and the exception that ended it, if one did.\<close>

fun run_mcp_server :: "'w mcp_env \<Rightarrow> string \<Rightarrow> string list \<Rightarrow> 'w \<Rightarrow> json list \<times> py_error option \<times> 'w" where
  "run_mcp_server env base_url [] w = ([], None, w)"
| "run_mcp_server env base_url (raw # lines) w =
     (case handle_line env base_url raw w of
        (Inl e, w) \<Rightarrow> ([], Some e, w)
      | (Inr reply, w) \<Rightarrow>
          (case run_mcp_server env base_url lines w of
             (replies, e, w) \<Rightarrow> ((case reply of None \<Rightarrow> [] | Some r \<Rightarrow> [r]) @ replies, e, w)))"

subsection \<open>Lemmas: spans\<close>

lemma otel_on_end_staged:
  assumes "otel_on_end env now sp sdk = Inr sdk'" and "model_tuple_from_attrs env (os_attributes sp) = Some mt"
  shows "\<exists>r. sd_aggregator sdk' = add_result (sd_aggregator sdk) r \<and> cr_prompt_id r = os_name sp
    \<and> cr_model_tuple r = mt \<and> cr_suite_version r = SUITE_VERSION \<and> cr_timestamp r = now"
  using assms by (auto simp: otel_on_end_def span_result_def Let_def sum_bind_Inr_iff)

lemma hashes_of_ids: "fst ` set (hashes_of rs) = cr_prompt_id ` set rs"
proof -
  have "fst ` set (fold (\<lambda>r. AList.update (cr_prompt_id r) (cr_response_hash r)) rs d) = fst ` set d \<union> cr_prompt_id ` set rs" for d
    by (induction rs arbitrary: d) (auto simp: dom_update)
  from this [of "[]"] show ?thesis by (simp add: hashes_of_def)
qed

subsection \<open>Lemmas: requests\<close>

text \<open>A line that the loop survives, whether it calls for a reply, and the id the reply must carry.\<close>

fun optional_object :: "json \<Rightarrow> string \<Rightarrow> bool" where
  "optional_object (JObj d) k = is_obj (dict_get d k (JObj []))"
| "optional_object _ k = False"

definition call_servable :: "json \<Rightarrow> bool" where
  "call_servable req \<longleftrightarrow> optional_object req ''params''
     \<and> (let params = (case get_or req ''params'' (JObj []) of Inr p \<Rightarrow> p | Inl e \<Rightarrow> JNull)
        in obj_get params ''name'' = JStr ''check_model_weather'' \<longrightarrow> optional_object params ''arguments'')"

definition servable :: "'w mcp_env \<Rightarrow> string \<Rightarrow> bool" where
  "servable env raw \<longleftrightarrow> blank raw
     \<or> (case mc_loads env raw of
          None \<Rightarrow> True
        | Some req \<Rightarrow>
            is_obj req \<and> (obj_get req ''method'' = JStr ''tools/call'' \<longrightarrow> call_servable req))"

definition wants_reply :: "'w mcp_env \<Rightarrow> string \<Rightarrow> bool" where
  "wants_reply env raw \<longleftrightarrow> \<not> blank raw
     \<and> (case mc_loads env raw of None \<Rightarrow> True | Some req \<Rightarrow> obj_get req ''method'' \<noteq> JStr ''notifications/initialized'')"

definition request_id :: "'w mcp_env \<Rightarrow> string \<Rightarrow> json" where
  "request_id env raw = (case mc_loads env raw of None \<Rightarrow> JNull | Some req \<Rightarrow> obj_get req ''id'')"

definition answers_request :: "json \<Rightarrow> json \<Rightarrow> bool" where
  "answers_request req_id reply \<longleftrightarrow> (\<exists>result. reply = rpc_ok req_id result) \<or> (\<exists>code message. reply = rpc_err req_id code message)"

lemma get_or_obj: "is_obj j \<Longrightarrow> \<exists>v. get_or j k v0 = Inr v"
  by (cases j) auto

lemma optional_object_get: "optional_object j k \<longleftrightarrow> (\<exists>d. get_or j k (JObj []) = Inr (JObj d))"
proof (cases j)
  case (JObj d)
  then show ?thesis by (cases "dict_get d k (JObj [])") auto
qed auto

lemma method_get: "get_or req ''method'' (JStr []) = Inr m \<Longrightarrow> s \<noteq> [] \<Longrightarrow> m = JStr s \<longleftrightarrow> obj_get req ''method'' = JStr s"
  by (cases req) (auto simp: dict_get_def split: option.splits)

lemma get_or_id: "is_obj req \<Longrightarrow> get_or req ''id'' JNull = Inr (obj_get req ''id'')"
  by (cases req) (auto simp: dict_get_def split: option.splits)

lemma answers_ok [simp]: "answers_request i (rpc_ok i r)" and answers_err [simp]: "answers_request i (rpc_err i c m)"
  by (auto simp: answers_request_def)

text \<open>A call is answered exactly when its parameters, and the arguments of the one tool, are objects or absent.\<close>

lemma tools_call_outcome:
  "case tools_call env base_url i req w of
     (Inl e, w') \<Rightarrow> \<not> call_servable req
   | (Inr reply, w') \<Rightarrow> call_servable req \<and> answers_request i reply"
proof (cases "optional_object req ''params''")
  case False
  then show ?thesis
    by (cases "get_or req ''params'' (JObj [])"; cases "projr (get_or req ''params'' (JObj []))")
      (auto simp: tools_call_def call_servable_def optional_object_get)
next
  case True
  then obtain d where d: "get_or req ''params'' (JObj []) = Inr (JObj d)" by (auto simp: optional_object_get)
  have tool: "dict_get d ''name'' (JStr []) = JStr ''check_model_weather'' \<longleftrightarrow> obj_get (JObj d) ''name'' = JStr ''check_model_weather''"
    by (auto simp: dict_get_def split: option.splits)
  show ?thesis
    by (cases "dict_get d ''arguments'' (JObj [])")
      (use True tool in \<open>auto simp: tools_call_def call_servable_def d Let_def split: prod.splits sum.splits if_splits\<close>)
qed

lemma handle_line_outcome:
  "case handle_line env base_url raw w of
     (Inl e, w') \<Rightarrow> \<not> servable env raw
   | (Inr reply, w') \<Rightarrow> servable env raw
        \<and> (if wants_reply env raw then \<exists>r. reply = Some r \<and> answers_request (request_id env raw) r else reply = None)"
proof (cases "blank raw")
  case True
  then show ?thesis by (simp add: handle_line_def servable_def wants_reply_def)
next
  case False
  show ?thesis
  proof (cases "mc_loads env raw")
    case None
    then show ?thesis using False by (simp add: handle_line_def servable_def wants_reply_def request_id_def)
  next
    case (Some req)
    show ?thesis
    proof (cases "is_obj req")
      case True
      then obtain m where m: "get_or req ''method'' (JStr []) = Inr m" using get_or_obj by blast
      show ?thesis
        using tools_call_outcome [where env = env and base_url = base_url and i = "obj_get req ''id''" and req = req and w = w] False True
        by (auto simp: handle_line_def servable_def wants_reply_def request_id_def Some get_or_id m method_get [OF m]
            split: prod.splits sum.splits)
    qed (use False Some in \<open>cases req; simp add: handle_line_def servable_def wants_reply_def\<close>)
  qed
qed

subsection \<open>Properties\<close>

text \<open>C33: The MCP server answers the requests in order, each with the id of its request. Of the lines up to the first one the
  loop cannot serve, every request but the initialized notification is answered, blank lines are skipped, a line that is
  no JSON is answered with a parse error, and the server reaches the end of its input exactly when every line is
  servable: a value that is not an object, or parameters that are not one, end it.\<close>

theorem mcp_server_answers:
  "case run_mcp_server env base_url lines w of
     (replies, e, w') \<Rightarrow>
       list_all2 answers_request (map (request_id env) (filter (wants_reply env) (takeWhile (servable env) lines))) replies
       \<and> (e = None \<longleftrightarrow> list_all (servable env) lines)"
proof (induction lines arbitrary: w)
  case (Cons raw lines)
  obtain out w1 where out: "handle_line env base_url raw w = (out, w1)" by fastforce
  show ?case
    using handle_line_outcome [where env = env and base_url = base_url and raw = raw and w = w] Cons.IH [of w1]
    by (cases out; cases "run_mcp_server env base_url lines w1") (auto simp: out)
qed simp

text \<open>C34: A span whose name is no hash key makes the gateway refuse the whole batch. The processor uses the name of the span
  as the prompt id, so that once such a span (``chat gpt-4o'', as the semantic conventions name it) is staged, the next
  batch of its model, which the probe builds and charges for, fails the validation of the gateway.\<close>

theorem otel_span_name_rejects_batch:
  assumes "otel_on_end env now sp sdk = Inr sdk'" and "model_tuple_from_attrs env (os_attributes sp) = Some mt"
    and "\<not> key_pat_match (os_name sp)"
    and "agg_flush expo fromiso toiso is_uuid fresh mt fleet (sd_aggregator sdk') = (Inr sb, ag')"
    and "wire_batch fromiso sb = Some b"
  shows "\<exists>e. validate_batch b = Inl e"
proof (rule ccontr)
  assume "\<nexists>e. validate_batch b = Inl e"
  then obtain b' where "validate_batch b = Inr b'" by (cases "validate_batch b") auto
  then have keys: "\<forall>k \<in> fst ` set (ib_canary_hashes b). key_pat_match k"
    by (auto simp: validate_batch_def sum_bind_Inr_iff check_canary_hash_format_ok check_window_order_ok check_metrics_keys_ok
        split: if_splits)
  obtain r where r: "sd_aggregator sdk' = add_result (sd_aggregator sdk) r" "cr_prompt_id r = os_name sp" "cr_model_tuple r = mt"
    using otel_on_end_staged [OF assms(1,2)] by blast
  have "r \<in> set (dict_get (ag_pending (sd_aggregator sdk')) mt [])"
    using r by (simp add: add_result_def Let_def)
  then have "os_name sp \<in> fst ` set (ib_canary_hashes b)"
    using assms(5) agg_flush_Inr(10) [OF assms(4)] r(2) by (force simp: wire_batch_def hashes_of_ids split: option.splits)
  with keys assms(3) show False by blast
qed

text \<open>A span of the semantic conventions, on a fresh probe.\<close>

definition example_otel_env :: otel_env where
  "example_otel_env = \<lparr>oe_str = (\<lambda>j. case j of JStr s \<Rightarrow> s | _ \<Rightarrow> []), oe_int = (\<lambda>j. case j of JInt n \<Rightarrow> Inr n | _ \<Rightarrow> Inl (TypeError [])),
     oe_sha256 = (\<lambda>_. replicate 64 (CHR ''0'')), oe_sha256_id = (\<lambda>_. Inr (replicate 64 (CHR ''0'')))\<rparr>"

definition chat_span :: otel_span where
  "chat_span = \<lparr>os_name = ''chat gpt-4o'',
     os_attributes = [(''gen_ai.system'', JStr ''openai''), (''gen_ai.request.model'', JStr ''gpt-4o'')],
     os_span_id = 7, os_start_time = Some 0, os_end_time = Some 2000000\<rparr>"

theorem otel_span_name_rejects_batch_witness:
  "\<exists>sdk' sb ag' b e. otel_on_end example_otel_env (unary_stamp (utc 3)) chat_span (example_probe\<lparr>sd_aggregator := init_aggregator ''c'' ()\<rparr>) = Inr sdk'
     \<and> agg_flush (\<lambda>_ g. (0, g)) unary_parse unary_stamp (\<lambda>_. True) ''b'' ''openai/gpt-4o@latest'' None (sd_aggregator sdk') = (Inr sb, ag')
     \<and> wire_batch unary_parse sb = Some b \<and> validate_batch b = Inl e"
proof -
  let ?sdk = "example_probe\<lparr>sd_aggregator := init_aggregator ''c'' ()\<rparr>" and ?mt = "''openai/gpt-4o@latest''"
  have mt: "model_tuple_from_attrs example_otel_env (os_attributes chat_span) = Some ?mt"
    by (simp add: model_tuple_from_attrs_def example_otel_env_def chat_span_def dict_get_def)
  then obtain sdk' where on_end: "otel_on_end example_otel_env (unary_stamp (utc 3)) chat_span ?sdk = Inr sdk'"
    by (simp add: otel_on_end_def span_result_def response_hash_from_span_def example_otel_env_def chat_span_def dict_get_def Let_def)
  obtain r where r: "sd_aggregator sdk' = add_result (sd_aggregator ?sdk) r" "cr_timestamp r = unary_stamp (utc 3)" "cr_model_tuple r = ?mt"
    using otel_on_end_staged [OF on_end mt] by blast
  then have staged: "dict_get (ag_pending (sd_aggregator sdk')) ?mt [] = [r]"
    by (simp add: add_result_def init_aggregator_def Let_def dict_get_def)
  have window: "flush_window unary_parse unary_stamp [r] = Inr (unary_stamp (utc 3), unary_stamp (utc 4))"
    using r(2) by (simp add: flush_window_def unary_parse_def Let_def) (simp add: unary_stamp_def utc_def)
  obtain sb ag' where flush: "agg_flush (\<lambda>_ g. (0, g)) unary_parse unary_stamp (\<lambda>_. True) ''b'' ?mt None (sd_aggregator sdk') = (Inr sb, ag')"
    using agg_flush_total [of "sd_aggregator sdk'" ?mt "\<lambda>_. True" "''b''" unary_parse unary_stamp _ "\<lambda>_ g. (0, g)" None, unfolded staged, OF _ _ _ _ window]
    by auto
  obtain b where wire: "wire_batch unary_parse sb = Some b" by (auto simp: wire_batch_def unary_parse_def)
  have "\<not> key_pat_match (os_name chat_span)"
    by (simp add: chat_span_def key_pat_match_def dollar_bodies_def hash_key_char_def is_lower_def is_upper_def is_digit_def newline_def)
  then show ?thesis using otel_span_name_rejects_batch [OF on_end mt _ flush wire] on_end flush wire by blast
qed

end
