(* ===== verification/Fleet.thy ===== *)
theory Fleet
  imports Sdk Corpus
begin

section \<open>The first-party fleet (scripts/first_party_fleet.py)\<close>

text \<open>
  The continuous runner: one probe per target model, a round that probes each of them in turn, and the endless loop of
  rounds, here by the number of rounds. The provider calls are posts of the world; \<open>fl_loads\<close> is \<^verbatim>\<open>json.loads\<close> of a
  text, \<open>fl_error_text\<close> is \<^verbatim>\<open>str(exc)\<close>. Logging has no counterpart.
\<close>

subsection \<open>Settings\<close>

record fleet_settings =
  fs_gateway_url :: string
  fs_probe_interval_seconds :: int
  fs_daily_epsilon_budget :: real
  fs_min_flush_interval_seconds :: real

text \<open>The module constants, from the environment; \<open>to_int\<close> and \<open>to_float\<close> are Python's conversions of a string.\<close>

definition convert_or :: "(string \<Rightarrow> 'a option) \<Rightarrow> string option \<Rightarrow> 'a \<Rightarrow> py_error + 'a" where
  "convert_or conv value v0 =
     (case value of
        None \<Rightarrow> Inr v0
      | Some s \<Rightarrow> (case conv s of None \<Rightarrow> Inl (ValueError ''could not convert string'') | Some x \<Rightarrow> Inr x))"

definition fleet_settings_of ::
  "(string \<Rightarrow> string option) \<Rightarrow> (string \<Rightarrow> int option) \<Rightarrow> (string \<Rightarrow> real option) \<Rightarrow> py_error + fleet_settings" where
  "fleet_settings_of getenv int_of float_of =
     (let url = (case getenv ''SEISMOGRAPH_GATEWAY_URL'' of None \<Rightarrow> ''http://localhost:8000/v1/signals'' | Some s \<Rightarrow> s)
      in sum_bind (convert_or int_of (getenv ''PROBE_INTERVAL_SECONDS'') 14400) (\<lambda>interval.
         sum_bind (convert_or float_of (getenv ''SEISMOGRAPH_DAILY_EPSILON_BUDGET'') 10) (\<lambda>budget.
         sum_bind (recommended_flush_interval_seconds budget FLUSH_EPSILON 86400) (\<lambda>default_gap.
         sum_bind (convert_or float_of (getenv ''SEISMOGRAPH_MIN_FLUSH_INTERVAL_SECONDS'') default_gap) (\<lambda>gap.
           Inr \<lparr>fs_gateway_url = url, fs_probe_interval_seconds = interval, fs_daily_epsilon_budget = budget,
                fs_min_flush_interval_seconds = gap\<rparr>)))))"

definition CANARY_PROMPT :: string where
  "CANARY_PROMPT = ''Output the following JSON exactly, with no extra text or markdown: ''
     @ [CHR ''{'', CHR 0x22] @ ''canary'' @ [CHR 0x22] @ '': '' @ [CHR 0x22] @ ''alive'' @ [CHR 0x22, CHR ''}'']"

definition EXPECTED_RESPONSE :: json where
  "EXPECTED_RESPONSE = JObj [(''canary'', JStr ''alive'')]"

definition SUITE_VERSION_HASH :: "(string \<Rightarrow> string) \<Rightarrow> string" where
  "SUITE_VERSION_HASH sha256_hex = take 16 (sha256_hex SUITE_VERSION)"

definition API_MODEL_MAP :: "(string, string) dict" where
  "API_MODEL_MAP =
     [(''openai/gpt-4o'', ''gpt-4o''), (''openai/gpt-4o-mini'', ''gpt-4o-mini''),
      (''anthropic/claude-3-5-sonnet'', ''claude-3-5-sonnet-20241022''),
      (''anthropic/claude-3-haiku'', ''claude-3-haiku-20240307'')]"

definition TARGET_MODELS :: "string list" where
  "TARGET_MODELS = map fst API_MODEL_MAP"

subsection \<open>Provider calls\<close>

text \<open>The counter is what the provider wrote under its usage: the named tuple checks no type.\<close>

record fleet_result =
  fr_output_tokens :: json
  fr_json_valid :: bool

text \<open>A response with its decoded body, an \<^verbatim>\<open>httpx.RequestError\<close>, or another exception of the client.\<close>

datatype fleet_reply =
    FleetResponse int "json option"
  | FleetUnreachable string
  | FleetRaised py_error

datatype fleet_error =
    HTTPStatusError int
  | RequestError string
  | FleetException py_error

record ('g, 'sk, 'w) fleet_env =
  fl_sdk :: "('g, 'sk, 'w) sdk_env"
  fl_post :: "string \<Rightarrow> (string, string) dict \<Rightarrow> json \<Rightarrow> 'w \<Rightarrow> fleet_reply \<times> 'w"
  fl_getenv :: "string \<Rightarrow> string option"
  fl_loads :: "string \<Rightarrow> json option"
  fl_error_text :: "fleet_error \<Rightarrow> string"
  fl_uniform :: "real \<Rightarrow> real \<Rightarrow> 'w \<Rightarrow> real \<times> 'w"
  fl_sleep :: "real \<Rightarrow> 'w \<Rightarrow> 'w"

definition env_or_empty :: "('g, 'sk, 'w) fleet_env \<Rightarrow> string \<Rightarrow> string" where
  "env_or_empty env k = (case fl_getenv env k of None \<Rightarrow> [] | Some s \<Rightarrow> s)"

definition is_space :: "char \<Rightarrow> bool" where
  "is_space c \<longleftrightarrow> c \<in> set [CHR '' '', CHR 0x09, CHR 0x0A, CHR 0x0B, CHR 0x0C, CHR 0x0D, CHR 0x1C, CHR 0x1D, CHR 0x1E, CHR 0x1F]"

definition strip :: "string \<Rightarrow> string" where
  "strip s = rev (dropWhile is_space (rev (dropWhile is_space s)))"

fun parse_response_text :: "(string \<Rightarrow> json option) \<Rightarrow> json \<Rightarrow> py_error + bool" where
  "parse_response_text loads (JStr s) = (case loads (strip s) of None \<Rightarrow> Inr False | Some parsed \<Rightarrow> Inr (parsed = EXPECTED_RESPONSE))"
| "parse_response_text loads _ = Inl (AttributeError ''strip'')"

definition item_of :: "json \<Rightarrow> string \<Rightarrow> py_error + json" where
  "item_of j k = (case json_item j k of None \<Rightarrow> Inl (KeyError k) | Some v \<Rightarrow> Inr v)"

definition head_of :: "json \<Rightarrow> py_error + json" where
  "head_of j = (case json_head j of None \<Rightarrow> Inl (KeyError ''0'') | Some v \<Rightarrow> Inr v)"

text \<open>The common tail of both calls: the status, the body, then what the paths \<open>text_of\<close> and \<open>counter\<close> select.\<close>

definition read_fleet_reply ::
  "('g, 'sk, 'w) fleet_env \<Rightarrow> (json \<Rightarrow> py_error + json) \<Rightarrow> string \<Rightarrow> fleet_reply \<Rightarrow> fleet_error + fleet_result" where
  "read_fleet_reply env text_of counter reply =
     (case reply of
        FleetUnreachable msg \<Rightarrow> Inl (RequestError msg)
      | FleetRaised e \<Rightarrow> Inl (FleetException e)
      | FleetResponse status body \<Rightarrow>
          if status < 200 \<or> 300 \<le> status then Inl (HTTPStatusError status)
          else (case body of
                  None \<Rightarrow> Inl (FleetException (ValueError ''response is not JSON''))
                | Some data \<Rightarrow>
                    map_sum FleetException id
                      (sum_bind (text_of data) (\<lambda>txt.
                       sum_bind (get_or data ''usage'' (JObj [])) (\<lambda>usage.
                       sum_bind (get_or usage counter (JInt 0)) (\<lambda>tokens.
                       sum_bind (parse_response_text (fl_loads env) txt) (\<lambda>valid.
                         Inr \<lparr>fr_output_tokens = tokens, fr_json_valid = valid\<rparr>)))))))"

definition call_openai :: "('g, 'sk, 'w) fleet_env \<Rightarrow> string \<Rightarrow> 'w \<Rightarrow> (fleet_error + fleet_result) \<times> 'w" where
  "call_openai env api_model w =
     (case fl_post env ''https://api.openai.com/v1/chat/completions''
             [(''Authorization'', ''Bearer '' @ env_or_empty env ''OPENAI_API_KEY''), (''Content-Type'', ''application/json'')]
             (JObj [(''model'', JStr api_model),
                    (''messages'', JArr [JObj [(''role'', JStr ''user''), (''content'', JStr CANARY_PROMPT)]]),
                    (''temperature'', JFloat 0), (''max_tokens'', JInt 20)]) w of
        (reply, w) \<Rightarrow>
          (read_fleet_reply env
             (\<lambda>data. sum_bind (item_of data ''choices'') (\<lambda>cs. sum_bind (head_of cs) (\<lambda>c.
                sum_bind (item_of c ''message'') (\<lambda>m. item_of m ''content'')))) ''completion_tokens'' reply, w))"

definition call_anthropic :: "('g, 'sk, 'w) fleet_env \<Rightarrow> string \<Rightarrow> 'w \<Rightarrow> (fleet_error + fleet_result) \<times> 'w" where
  "call_anthropic env api_model w =
     (case fl_post env ''https://api.anthropic.com/v1/messages''
             [(''x-api-key'', env_or_empty env ''ANTHROPIC_API_KEY''), (''anthropic-version'', ''2023-06-01''),
              (''Content-Type'', ''application/json'')]
             (JObj [(''model'', JStr api_model), (''max_tokens'', JInt 20),
                    (''messages'', JArr [JObj [(''role'', JStr ''user''), (''content'', JStr CANARY_PROMPT)]])]) w of
        (reply, w) \<Rightarrow>
          (read_fleet_reply env
             (\<lambda>data. sum_bind (item_of data ''content'') (\<lambda>cs. sum_bind (head_of cs) (\<lambda>c. item_of c ''text'')))
             ''output_tokens'' reply, w))"

definition mock_result :: "string \<Rightarrow> fleet_result" where
  "mock_result model_tuple = \<lparr>fr_output_tokens = JInt 7, fr_json_valid = True\<rparr>"

definition ask_provider ::
  "('g, 'sk, 'w) fleet_env \<Rightarrow> string \<Rightarrow> string \<Rightarrow> bool \<Rightarrow> 'w \<Rightarrow> (fleet_error + fleet_result) option \<times> 'w" where
  "ask_provider env model_tuple api_model mock w =
     (let provider = before_char (CHR ''/'') model_tuple
      in if mock then (Some (Inr (mock_result model_tuple)), w)
         else if provider = ''openai'' then map_prod Some id (call_openai env api_model w)
         else if provider = ''anthropic'' then map_prod Some id (call_anthropic env api_model w)
         else (None, w))"

subsection \<open>One probe of one model\<close>

text \<open>The body of the \<^verbatim>\<open>try\<close> block: the exception that left it, and whether the span had been closed.\<close>

definition probe_body ::
  "('g, 'sk, 'w) fleet_env \<Rightarrow> string \<Rightarrow> string \<Rightarrow> bool \<Rightarrow> ('g, 'sk) probe_sdk \<Rightarrow> 'w
    \<Rightarrow> fleet_error option \<times> bool \<times> ('g, 'sk) probe_sdk \<times> 'w" where
  "probe_body env model_tuple api_model mock st w =
     (case ask_provider env model_tuple api_model mock w of
        (None, w) \<Rightarrow>
          (case finish_canary_span (fl_sdk env) (str_of_int 500) (Some (''Unknown provider: '' @ before_char (CHR ''/'') model_tuple)) st w of
             (Inl e, st, w) \<Rightarrow> (Some (FleetException e), False, st, w)
           | (Inr _, st, w) \<Rightarrow> (None, True, st, w))
      | (Some (Inl e), w) \<Rightarrow> (Some e, False, st, w)
      | (Some (Inr res), w) \<Rightarrow>
          let st = set_attribute ''gen_ai.usage.output_tokens'' (fr_output_tokens res) st;
              st = set_attribute ''gen_ai.response.json_valid'' (JBool (fr_json_valid res)) st
          in (case finish_canary_span (fl_sdk env) (str_of_int 200) None st w of
                (Inl e, st, w) \<Rightarrow> (Some (FleetException e), False, st, w)
              | (Inr _, st, w) \<Rightarrow>
                  (case sdk_flush (fl_sdk env) st w of
                     (Inl e, st, w) \<Rightarrow> (Some (FleetException e), True, st, w)
                   | (Inr _, st, w) \<Rightarrow> (None, True, st, w))))"

fun handler_status :: "fleet_error \<Rightarrow> int" where
  "handler_status (HTTPStatusError status) = status"
| "handler_status (RequestError msg) = 503"
| "handler_status (FleetException e) = 500"

text \<open>An exception that leaves \<^verbatim>\<open>probe_model\<close> comes from opening the span or from closing it in a handler.\<close>

definition probe_model ::
  "('g, 'sk, 'w) fleet_env \<Rightarrow> string \<Rightarrow> bool \<Rightarrow> ('g, 'sk) probe_sdk \<Rightarrow> 'w
    \<Rightarrow> (py_error + unit) \<times> ('g, 'sk) probe_sdk \<times> 'w" where
  "probe_model env model_tuple mock st w =
     (case map_of API_MODEL_MAP model_tuple of
        None \<Rightarrow> (Inl (KeyError model_tuple), st, w)
      | Some api_model \<Rightarrow>
          (case start_canary_span (fl_sdk env) 1 st w of
             (Inl e, st, w) \<Rightarrow> (Inl e, st, w)
           | (Inr _, st, w) \<Rightarrow>
               (case probe_body env model_tuple api_model mock st w of
                  (Some e, False, st, w) \<Rightarrow>
                    finish_canary_span (fl_sdk env) (str_of_int (handler_status e)) (Some (fl_error_text env e)) st w
                | (_, _, st, w) \<Rightarrow> (Inr (), st, w))))"

subsection \<open>The fleet and its rounds\<close>

record ('g, 'sk) fleet_entry =
  fe_model_tuple :: string
  fe_sdk :: "('g, 'sk) probe_sdk"
  fe_mock :: bool

definition is_mock :: "('g, 'sk, 'w) fleet_env \<Rightarrow> string \<Rightarrow> bool" where
  "is_mock env model_tuple =
     (let provider = before_char (CHR ''/'') model_tuple;
          has_openai = (env_or_empty env ''OPENAI_API_KEY'' \<noteq> []);
          has_anthropic = (env_or_empty env ''ANTHROPIC_API_KEY'' \<noteq> [])
      in (provider = ''openai'' \<and> \<not> has_openai) \<or> (provider = ''anthropic'' \<and> \<not> has_anthropic))"

definition fleet_config :: "('g, 'sk, 'w) fleet_env \<Rightarrow> fleet_settings \<Rightarrow> string \<Rightarrow> probe_config" where
  "fleet_config env fs model_tuple =
     (default_config model_tuple (SUITE_VERSION_HASH (sv_sha256_hex (fl_sdk env))) (fs_gateway_url fs))
        \<lparr>pc_daily_epsilon_budget := fs_daily_epsilon_budget fs, pc_min_flush_interval_seconds := fs_min_flush_interval_seconds fs\<rparr>"

text \<open>The construction of the probes: \<open>g\<close> is the state of the noise generator each of them starts from.\<close>

fun build_fleet ::
  "('g, 'sk, 'w) fleet_env \<Rightarrow> fleet_settings \<Rightarrow> 'sk \<Rightarrow> 'g \<Rightarrow> budget_disk \<Rightarrow> string list \<Rightarrow> 'w
    \<Rightarrow> (py_error + ('g, 'sk) fleet_entry list) \<times> 'w" where
  "build_fleet env fs key g disk [] w = (Inr [], w)"
| "build_fleet env fs key g disk (mt # mts) w =
     (let (client, w) = sv_uuid (fl_sdk env) w;
          (now, w) = sv_utc (fl_sdk env) w
      in case init_sdk (fleet_config env fs mt) key None client g now disk [] [] of
           Inl e \<Rightarrow> (Inl e, w)
         | Inr sdk \<Rightarrow>
             (case build_fleet env fs key g disk mts w of
                (Inl e, w) \<Rightarrow> (Inl e, w)
              | (Inr fleet, w) \<Rightarrow>
                  (Inr (\<lparr>fe_model_tuple = mt, fe_sdk = sdk, fe_mock = is_mock env mt\<rparr> # fleet), w)))"

fun probe_round ::
  "('g, 'sk, 'w) fleet_env \<Rightarrow> ('g, 'sk) fleet_entry list \<Rightarrow> 'w \<Rightarrow> ('g, 'sk) fleet_entry list \<times> 'w" where
  "probe_round env [] w = ([], w)"
| "probe_round env (entry # fleet) w =
     (case probe_model env (fe_model_tuple entry) (fe_mock entry) (fe_sdk entry) w of
        (_, sdk, w) \<Rightarrow>
          (case probe_round env fleet w of (fleet, w) \<Rightarrow> (entry\<lparr>fe_sdk := sdk\<rparr> # fleet, w)))"

fun fleet_rounds ::
  "('g, 'sk, 'w) fleet_env \<Rightarrow> fleet_settings \<Rightarrow> nat \<Rightarrow> ('g, 'sk) fleet_entry list \<Rightarrow> 'w \<Rightarrow> ('g, 'sk) fleet_entry list \<times> 'w" where
  "fleet_rounds env fs 0 fleet w = (fleet, w)"
| "fleet_rounds env fs (Suc n) fleet w =
     (case probe_round env fleet w of
        (fleet, w) \<Rightarrow>
          (case fl_uniform env 0.95 1.05 w of
             (jitter, w) \<Rightarrow> fleet_rounds env fs n fleet (fl_sleep env (of_int (fs_probe_interval_seconds fs) * jitter) w)))"

subsection \<open>Lemmas: one probe\<close>

lemma probe_body_ok:
  assumes "probe_body env mt api mock st w = (e, finished, st', w')" and "sdk_ok config st"
  shows "sdk_ok config st'"
proof -
  obtain q w1 where ask: "ask_provider env mt api mock w = (q, w1)" by fastforce
  show ?thesis
  proof (cases q)
    case None
    then show ?thesis
      using assms finish_ok [OF _ assms(2)] by (auto simp: probe_body_def ask split: prod.splits sum.splits)
  next
    case (Some a)
    show ?thesis
    proof (cases a)
      case (Inl f)
      then show ?thesis using assms by (simp add: probe_body_def ask Some)
    next
      case (Inr res)
      define st1 where "st1 = set_attribute ''gen_ai.response.json_valid'' (JBool (fr_json_valid res))
        (set_attribute ''gen_ai.usage.output_tokens'' (fr_output_tokens res) st)"
      have ok1: "sdk_ok config st1" unfolding st1_def by (intro set_attribute_ok assms(2))
      obtain r st2 w2 where fin: "finish_canary_span (fl_sdk env) (str_of_int 200) None st1 w1 = (r, st2, w2)" by (metis prod.exhaust)
      obtain r3 st3 w3 where flush: "sdk_flush (fl_sdk env) st2 w2 = (r3, st3, w3)" by (metis prod.exhaust)
      have "sdk_ok config st2" "sdk_ok config st3"
        using finish_ok [OF fin ok1] sdk_flush_ok [OF _ flush] by auto
      then show ?thesis
        using assms(1) by (auto simp: probe_body_def ask Some Inr Let_def fin flush simp flip: st1_def split: sum.splits)
    qed
  qed
qed

lemma probe_model_ok:
  assumes "probe_model env mt mock st w = (r, st', w')" and "sdk_ok config st"
  shows "sdk_ok config st'"
proof (cases "map_of API_MODEL_MAP mt")
  case None
  then show ?thesis using assms by (simp add: probe_model_def)
next
  case (Some api)
  obtain q st1 w1 where start: "start_canary_span (fl_sdk env) 1 st w = (q, st1, w1)" by (metis prod.exhaust)
  obtain e fin st2 w2 where body: "probe_body env mt api mock st1 w1 = (e, fin, st2, w2)" by (metis prod.exhaust)
  note ok = start_ok [OF start assms(2)]
  note ok = ok probe_body_ok [OF body ok]
  show ?thesis
    using assms(1) ok finish_ok [OF _ ok(2)]
    by (cases q; cases e; cases fin) (auto simp: probe_model_def Some start body)
qed

text \<open>A probe whose span is still open fails at once and changes nothing.\<close>

lemma probe_model_stuck:
  assumes "sd_active_span st \<noteq> None"
  shows "\<exists>e. probe_model env mt mock st w = (Inl e, st, w)"
  using assms by (auto simp: probe_model_def start_canary_span_def split: option.split)

lemma start_fresh:
  assumes "sd_active_span st = None" and "start_canary_span env n st w = (q, st1, w1)"
  shows "\<exists>ctx. q = Inr ctx \<and> st1 = st\<lparr>sd_active_span := Some ctx\<rparr> \<and> oc_attributes ctx = [] \<and> oc_model_tuple ctx = pc_model_tuple (sd_config st)"
  using assms by (auto simp: start_canary_span_def Let_def split: prod.splits)

subsection \<open>Lemmas: rounds\<close>

lemma probe_round_map:
  "map fe_model_tuple (fst (probe_round env fleet w)) = map fe_model_tuple fleet"
  "length (fst (probe_round env fleet w)) = length fleet"
proof -
  have "map fe_model_tuple (fst (probe_round env fleet w)) = map fe_model_tuple fleet"
  proof (induction fleet arbitrary: w)
    case (Cons en fleet)
    obtain r sdk w1 where p: "probe_model env (fe_model_tuple en) (fe_mock en) (fe_sdk en) w = (r, sdk, w1)" by (metis prod.exhaust)
    show ?case using Cons [of w1] by (auto simp: p split: prod.splits)
  qed simp
  then show "map fe_model_tuple (fst (probe_round env fleet w)) = map fe_model_tuple fleet"
    and "length (fst (probe_round env fleet w)) = length fleet" by (auto dest: map_eq_imp_length_eq)
qed

lemma probe_round_ok:
  "list_all (\<lambda>en. sdk_ok (config (fe_model_tuple en)) (fe_sdk en)) fleet \<Longrightarrow>
     list_all (\<lambda>en. sdk_ok (config (fe_model_tuple en)) (fe_sdk en)) (fst (probe_round env fleet w))"
proof (induction fleet arbitrary: w)
  case (Cons en fleet)
  obtain r sdk w1 where p: "probe_model env (fe_model_tuple en) (fe_mock en) (fe_sdk en) w = (r, sdk, w1)" by (metis prod.exhaust)
  obtain fleet' w2 where q: "probe_round env fleet w1 = (fleet', w2)" by fastforce
  show ?case using Cons.prems Cons.IH [of w1] probe_model_ok [OF p] by (simp add: p q)
qed simp

lemma probe_round_stuck:
  "i < length fleet \<Longrightarrow> sd_active_span (fe_sdk (fleet ! i)) \<noteq> None \<Longrightarrow> fst (probe_round env fleet w) ! i = fleet ! i"
proof (induction fleet arbitrary: i w)
  case (Cons en fleet)
  obtain r sdk w1 where p: "probe_model env (fe_model_tuple en) (fe_mock en) (fe_sdk en) w = (r, sdk, w1)" by (metis prod.exhaust)
  obtain fleet' w2 where q: "probe_round env fleet w1 = (fleet', w2)" by fastforce
  show ?case
  proof (cases i)
    case 0
    with Cons.prems p probe_model_stuck [of "fe_sdk en" env "fe_model_tuple en" "fe_mock en" w] show ?thesis
      by (cases "probe_round env fleet w") auto
  next
    case (Suc j)
    with Cons.prems Cons.IH [of j w1] show ?thesis by (simp add: p q)
  qed
qed simp

lemma fleet_rounds_map: "map fe_model_tuple (fst (fleet_rounds env fs n fleet w)) = map fe_model_tuple fleet"
proof (induction n arbitrary: fleet w)
  case (Suc n)
  obtain fleet' w1 where r: "probe_round env fleet w = (fleet', w1)" by fastforce
  then show ?case using Suc probe_round_map(1) [of env fleet w] by (auto split: prod.splits)
qed simp

lemma fleet_rounds_ok:
  "list_all (\<lambda>en. sdk_ok (config (fe_model_tuple en)) (fe_sdk en)) fleet \<Longrightarrow>
     list_all (\<lambda>en. sdk_ok (config (fe_model_tuple en)) (fe_sdk en)) (fst (fleet_rounds env fs n fleet w))"
proof (induction n arbitrary: fleet w)
  case (Suc n)
  obtain fleet' w1 where r: "probe_round env fleet w = (fleet', w1)" by fastforce
  then show ?case using Suc.IH [of fleet'] probe_round_ok [OF Suc.prems, of env w] by (auto split: prod.splits)
qed simp

lemma fleet_rounds_stuck:
  "i < length fleet \<Longrightarrow> sd_active_span (fe_sdk (fleet ! i)) \<noteq> None \<Longrightarrow> fst (fleet_rounds env fs n fleet w) ! i = fleet ! i"
proof (induction n arbitrary: fleet w)
  case (Suc n)
  obtain fleet' w1 where r: "probe_round env fleet w = (fleet', w1)" by fastforce
  obtain j w2 where "fl_uniform env 0.95 1.05 w1 = (j, w2)" by fastforce
  with Suc.prems Suc.IH [of fleet'] r probe_round_stuck [of i fleet env w] probe_round_map(2) [of env fleet w] show ?case by simp
qed simp

lemma build_fleet_ok:
  "build_fleet env fs key g disk mts w = (Inr fleet, w') \<Longrightarrow>
     map fe_model_tuple fleet = mts \<and> list_all (\<lambda>en. sdk_ok (fleet_config env fs (fe_model_tuple en)) (fe_sdk en)) fleet"
proof (induction mts arbitrary: w fleet w')
  case (Cons mt mts)
  then show ?case
    by (fastforce simp: Let_def init_sdk_def sum_bind_Inr_iff init_accountant_def load_budget_def fleet_config_def default_config_def
        sdk_ok_def acc_ok_def queue_uniform_def init_aggregator_def split: prod.splits sum.splits if_splits)
qed simp

subsection \<open>Lemmas: what a probe stages\<close>

lemma unreadable_counters:
  assumes "to_int conv tokens = Inl e" and "map_of attrs ''gen_ai.usage.output_tokens'' = Some tokens"
  shows "\<exists>e. span_counters conv attrs = Inl e"
  using assms by (cases tokens) (auto simp: span_counters_def dict_get_def split: option.splits)

lemma finish_unreadable:
  assumes "sd_active_span st = Some ctx" and "map_of (oc_attributes ctx) ''gen_ai.usage.output_tokens'' = Some tokens"
    and "to_int (sv_int env) tokens = Inl e" and "finish_canary_span env status err st w = (r, st', w')"
  shows "\<exists>e ctx'. r = Inl e \<and> st' = st\<lparr>sd_active_span := Some ctx'\<rparr>
    \<and> map_of (oc_attributes ctx') ''gen_ai.usage.output_tokens'' = Some tokens"
proof -
  define attrs where "attrs = (case err of None \<Rightarrow> oc_attributes ctx | Some m \<Rightarrow> AList.update ''error.message'' (JStr m) (oc_attributes ctx))"
  have a: "map_of attrs ''gen_ai.usage.output_tokens'' = Some tokens"
    using assms(2) by (simp add: attrs_def split: option.split)
  then obtain e' where e': "span_counters (sv_int env) attrs = Inl e'" using unreadable_counters [OF assms(3)] by blast
  obtain t w1 where "sv_monotonic_ns env w = (t, w1)" by fastforce
  then show ?thesis
    using assms(1,4) a by (auto simp: finish_canary_span_def Let_def e' simp flip: attrs_def)
qed

lemma finish_plain:
  assumes "sd_active_span st = Some ctx" and "oc_attributes ctx = []"
  shows "\<exists>r w'. finish_canary_span env status (Some msg) st w =
      (Inr (), st\<lparr>sd_aggregator := add_result (sd_aggregator st) r, sd_active_span := None\<rparr>, w')
    \<and> cr_output_length r = 0 \<and> \<not> cr_json_valid r \<and> cr_output_tokens r = None
    \<and> cr_model_tuple r = oc_model_tuple ctx \<and> cr_suite_version r = pc_suite_version (sd_config st)"
  using assms
  by (auto simp: finish_canary_span_def span_counters_def dict_get_def Let_def split: prod.split)

subsection \<open>Examples\<close>

definition null_counter_reply :: json where
  "null_counter_reply = JObj [(''choices'', JArr [JObj [(''message'', JObj [(''content'', JStr ''x'')])]]),
     (''usage'', JObj [(''completion_tokens'', JNull)])]"

text \<open>A fleet whose every provider call gives the same reply.\<close>

definition fleet_example :: "fleet_reply \<Rightarrow> (unit, unit, nat) fleet_env" where
  "fleet_example reply = \<lparr>fl_sdk = example_env, fl_post = (\<lambda>_ _ _ w. (reply, w)), fl_getenv = (\<lambda>_. Some ''k''),
     fl_loads = (\<lambda>_. None), fl_error_text = (\<lambda>_. ''e''), fl_uniform = (\<lambda>a b w. (1, w)), fl_sleep = (\<lambda>s w. w)\<rparr>"

definition fleet_example_settings :: fleet_settings where
  "fleet_example_settings = \<lparr>fs_gateway_url = ''u'', fs_probe_interval_seconds = 14400, fs_daily_epsilon_budget = 10,
     fs_min_flush_interval_seconds = 17280\<rparr>"

definition fleet_example_probe :: "(unit, unit) probe_sdk" where
  "fleet_example_probe = example_probe\<lparr>sd_aggregator := init_aggregator ''c'' ()\<rparr>"

lemma fleet_example_start:
  "\<exists>ctx. start_canary_span (fl_sdk (fleet_example reply)) 1 fleet_example_probe 0 = (Inr ctx, fleet_example_probe\<lparr>sd_active_span := Some ctx\<rparr>, 0)"
  by (simp add: start_canary_span_def fleet_example_def fleet_example_probe_def example_probe_def example_env_def Let_def)

lemma known_model: "map_of API_MODEL_MAP ''openai/gpt-4o'' = Some ''gpt-4o''"
  by (simp add: API_MODEL_MAP_def)

subsection \<open>Properties\<close>

text \<open>The fleet keeps every probe sound for ever. Whatever the providers, the gateway and the clocks answer, after
  any number of rounds the fleet still has one probe for each target model, in order, and each probe satisfies its
  invariant under its own configuration: only results of its own model are queued, and its budget is never overspent.\<close>

theorem fleet_stays_sound:
  assumes "build_fleet env fs key g disk TARGET_MODELS w = (Inr fleet, w')"
  shows "map fe_model_tuple (fst (fleet_rounds env fs n fleet w')) = TARGET_MODELS
     \<and> list_all (\<lambda>en. sdk_ok (fleet_config env fs (fe_model_tuple en)) (fe_sdk en)) (fst (fleet_rounds env fs n fleet w'))"
  using build_fleet_ok [OF assms] fleet_rounds_map [of env fs n fleet w'] fleet_rounds_ok by auto

theorem fleet_stays_sound_witness:
  "\<exists>fleet w'. build_fleet (fleet_example (FleetUnreachable ''x'')) fleet_example_settings () () [] TARGET_MODELS 0 = (Inr fleet, w')
     \<and> map fe_model_tuple (fst (fleet_rounds (fleet_example (FleetUnreachable ''x'')) fleet_example_settings 7 fleet w'))
        = [''openai/gpt-4o'', ''openai/gpt-4o-mini'', ''anthropic/claude-3-5-sonnet'', ''anthropic/claude-3-haiku'']"
proof -
  obtain fleet w' where b: "build_fleet (fleet_example (FleetUnreachable ''x'')) fleet_example_settings () () [] TARGET_MODELS 0 = (Inr fleet, w')"
    by (simp add: TARGET_MODELS_def API_MODEL_MAP_def fleet_example_def fleet_example_settings_def example_env_def Let_def
        init_sdk_def fleet_config_def default_config_def init_accountant_def load_budget_def)
  with fleet_stays_sound [OF b, of 7] show ?thesis by (auto simp: TARGET_MODELS_def API_MODEL_MAP_def)
qed

text \<open>C35: One unreadable usage counter silences a model for ever. When the provider answers with a counter that \<^verbatim>\<open>int\<close>
  refuses, such as null, neither the regular end of the span nor the one of the error handler closes it: the probe raises with
  nothing staged and its span still open, and from then on no round, whatever is answered, changes that probe again.\<close>

theorem unreadable_counter_silences_model:
  assumes "map_of API_MODEL_MAP mt = Some api" and "sd_active_span st = None"
    and "start_canary_span (fl_sdk env) 1 st w = (q, st1, w1)"
    and "ask_provider env mt api mock w1 = (Some (Inr res), w2)"
    and "to_int (sv_int (fl_sdk env)) (fr_output_tokens res) = Inl e"
    and "probe_model env mt mock st w = (r, st', w')"
  shows "(\<exists>e. r = Inl e) \<and> sd_aggregator st' = sd_aggregator st
     \<and> (\<forall>i fleet n v. i < length fleet \<and> fe_sdk (fleet ! i) = st' \<longrightarrow> fst (fleet_rounds env fs n fleet v) ! i = fleet ! i)"
proof -
  obtain ctx where ctx: "q = Inr ctx" "st1 = st\<lparr>sd_active_span := Some ctx\<rparr>"
    using start_fresh [OF assms(2,3)] by blast
  define st2 where "st2 = set_attribute ''gen_ai.response.json_valid'' (JBool (fr_json_valid res))
    (set_attribute ''gen_ai.usage.output_tokens'' (fr_output_tokens res) st1)"
  obtain ctx2 where st2: "st2 = st\<lparr>sd_active_span := Some ctx2\<rparr>"
      "map_of (oc_attributes ctx2) ''gen_ai.usage.output_tokens'' = Some (fr_output_tokens res)"
    by (simp add: st2_def ctx set_attribute_def)
  obtain r3 st3 w3 where f1: "finish_canary_span (fl_sdk env) (str_of_int 200) None st2 w2 = (r3, st3, w3)" by (metis prod.exhaust)
  obtain e3 ctx3 where st3: "r3 = Inl e3" "st3 = st\<lparr>sd_active_span := Some ctx3\<rparr>"
      "map_of (oc_attributes ctx3) ''gen_ai.usage.output_tokens'' = Some (fr_output_tokens res)"
    using finish_unreadable [OF _ _ assms(5) f1] st2 by auto
  have f2: "finish_canary_span (fl_sdk env) (str_of_int 500) (Some (fl_error_text env (FleetException e3))) st3 w3 = (r, st', w')"
    using assms(1,3,4,6) f1 ctx(1) by (simp add: probe_model_def probe_body_def Let_def st3(1) flip: st2_def)
  obtain e4 ctx4 where "r = Inl e4" "st' = st\<lparr>sd_active_span := Some ctx4\<rparr>"
    using finish_unreadable [OF _ st3(3) assms(5) f2] by (auto simp: st3(2))
  then show ?thesis by (auto intro: fleet_rounds_stuck)
qed

theorem unreadable_counter_silences_model_witness:
  "\<exists>e st w. probe_model (fleet_example (FleetResponse 200 (Some null_counter_reply))) ''openai/gpt-4o'' False fleet_example_probe 0 = (Inl e, st, w)
     \<and> fst (fleet_rounds (fleet_example (FleetResponse 200 (Some null_counter_reply))) fleet_example_settings 9
          [\<lparr>fe_model_tuple = ''openai/gpt-4o'', fe_sdk = st, fe_mock = True\<rparr>] w)
        = [\<lparr>fe_model_tuple = ''openai/gpt-4o'', fe_sdk = st, fe_mock = True\<rparr>]"
proof -
  let ?env = "fleet_example (FleetResponse 200 (Some null_counter_reply))"
  obtain ctx where start: "start_canary_span (fl_sdk ?env) 1 fleet_example_probe 0 = (Inr ctx, fleet_example_probe\<lparr>sd_active_span := Some ctx\<rparr>, 0)"
    using fleet_example_start by blast
  obtain res where ask: "ask_provider ?env ''openai/gpt-4o'' ''gpt-4o'' False 0 = (Some (Inr res), 0)" and res: "fr_output_tokens res = JNull"
    by (simp add: ask_provider_def before_char_def call_openai_def fleet_example_def read_fleet_reply_def null_counter_reply_def
        item_of_def head_of_def dict_get_def)
  obtain r st w where run: "probe_model ?env ''openai/gpt-4o'' False fleet_example_probe 0 = (r, st, w)" by (metis prod.exhaust)
  have idle: "sd_active_span fleet_example_probe = None" by (simp add: fleet_example_probe_def example_probe_def)
  have bad: "to_int (sv_int (fl_sdk ?env)) (fr_output_tokens res) = Inl (TypeError ''int() argument'')" by (simp add: res)
  let ?fleet = "[\<lparr>fe_model_tuple = ''openai/gpt-4o'', fe_sdk = st, fe_mock = True\<rparr>]"
  have "(\<exists>e. r = Inl e) \<and> fst (fleet_rounds ?env fleet_example_settings 9 ?fleet w) ! 0 = ?fleet ! 0"
    using unreadable_counter_silences_model [OF known_model idle start ask bad run, of fleet_example_settings] by auto
  moreover have "length (fst (fleet_rounds ?env fleet_example_settings 9 ?fleet w)) = 1"
    using fleet_rounds_map [of ?env fleet_example_settings 9 ?fleet w] by (auto dest: map_eq_imp_length_eq)
  ultimately show ?thesis using run by (cases "fst (fleet_rounds ?env fleet_example_settings 9 ?fleet w)") auto
qed

text \<open>An outage is recorded as bad answers. When a provider call fails (an HTTP status, an unreachable host, an unreadable
  body), the handler closes the span, which stages a result of length zero whose JSON is invalid, indistinguishable in the
  next batch from an answer of the model; nothing is flushed in that round.\<close>

theorem failed_call_staged_as_invalid:
  assumes "map_of API_MODEL_MAP mt = Some api" and "sd_active_span st = None"
    and "start_canary_span (fl_sdk env) 1 st w = (q, st1, w1)"
    and "ask_provider env mt api mock w1 = (Some (Inl e), w2)"
  shows "\<exists>r w'. probe_model env mt mock st w = (Inr (), st\<lparr>sd_aggregator := add_result (sd_aggregator st) r\<rparr>, w')
     \<and> cr_output_length r = 0 \<and> \<not> cr_json_valid r \<and> cr_output_tokens r = None
     \<and> cr_model_tuple r = pc_model_tuple (sd_config st) \<and> cr_suite_version r = pc_suite_version (sd_config st)"
proof -
  obtain ctx where ctx: "q = Inr ctx" "st1 = st\<lparr>sd_active_span := Some ctx\<rparr>" "oc_attributes ctx = []"
      "oc_model_tuple ctx = pc_model_tuple (sd_config st)"
    using start_fresh [OF assms(2,3)] by blast
  have st1: "sd_active_span st1 = Some ctx" by (simp add: ctx)
  have same: "st1\<lparr>sd_aggregator := add_result (sd_aggregator st1) r, sd_active_span := None\<rparr> = st\<lparr>sd_aggregator := add_result (sd_aggregator st) r\<rparr>" for r
    using assms(2) by (simp add: ctx)
  show ?thesis
    using finish_plain [OF st1 ctx(3), of "fl_sdk env" "str_of_int (handler_status e)" "fl_error_text env e" w2] assms(1,3,4) ctx(1,4)
    unfolding same by (auto simp: probe_model_def probe_body_def ctx(2))
qed

theorem failed_call_staged_as_invalid_witness:
  "\<exists>r w. probe_model (fleet_example (FleetResponse 503 None)) ''openai/gpt-4o'' False fleet_example_probe 0
       = (Inr (), fleet_example_probe\<lparr>sd_aggregator := add_result (init_aggregator ''c'' ()) r\<rparr>, w) \<and> \<not> cr_json_valid r"
proof -
  let ?env = "fleet_example (FleetResponse 503 None)"
  obtain ctx where start: "start_canary_span (fl_sdk ?env) 1 fleet_example_probe 0 = (Inr ctx, fleet_example_probe\<lparr>sd_active_span := Some ctx\<rparr>, 0)"
    using fleet_example_start by blast
  have ask: "ask_provider ?env ''openai/gpt-4o'' ''gpt-4o'' False 0 = (Some (Inl (HTTPStatusError 503)), 0)"
    by (simp add: ask_provider_def before_char_def call_openai_def fleet_example_def read_fleet_reply_def)
  have idle: "sd_active_span fleet_example_probe = None" by (simp add: fleet_example_probe_def example_probe_def)
  show ?thesis
    using failed_call_staged_as_invalid [OF known_model idle start ask] by (auto simp: fleet_example_probe_def)
qed

end
