(* ===== verification/LiveEmit.thy ===== *)
theory LiveEmit
  imports Fleet Canary
begin

section \<open>Live emission (scripts/live_emit.py)\<close>

text \<open>
  One run of the live emitter: the backlog of the spool, a strict run of the suite, the signed request, its delivery and the
  look at the weather. The environment carries the parameters of the probe (\<open>em_sdk\<close>) and of the executor
  (\<open>em_canary\<close>); the posts of \<^verbatim>\<open>urllib\<close> and the read of the weather are operations of the world. The printed lines have no counterpart,
  except where printing them can raise.
\<close>

subsection \<open>Environment and settings\<close>

text \<open>
  What \<^verbatim>\<open>urlopen\<close> gives: a response with its decoded text, an \<^verbatim>\<open>HTTPError\<close> with its decoded text, an \<^verbatim>\<open>URLError\<close> or \<^verbatim>\<open>OSError\<close>
  with its reason, or any other exception (\<^verbatim>\<open>http.client\<close> raises its own).
\<close>

datatype url_outcome =
    UrlResponse int string
  | UrlHttpError int string
  | UrlFailure string
  | UrlRaised py_error

record ('g, 'sk, 'w) emit_env =
  em_sdk :: "('g, 'sk, 'w) sdk_env"
  em_canary :: "'w canary_env"
  em_dumps :: "json \<Rightarrow> string"
  em_dumps_sorted :: "json \<Rightarrow> string"
  em_perf :: "'w \<Rightarrow> real"
  em_transport :: "'w transport"
  em_sleeper :: "real \<Rightarrow> 'w \<Rightarrow> 'w"
  em_loads :: "string \<Rightarrow> json option"
  em_post :: "string \<Rightarrow> bytes \<Rightarrow> (string, string) dict \<Rightarrow> 'w \<Rightarrow> url_outcome \<times> 'w"
  em_get :: "string \<Rightarrow> 'w \<Rightarrow> url_outcome \<times> 'w"
  em_load_key :: "bytes \<Rightarrow> 'sk option"
  em_raw_key :: "'sk \<Rightarrow> bytes"
  em_fresh_key :: 'sk
  em_rng :: 'g
  em_path :: "string \<Rightarrow> string \<Rightarrow> string"

record emit_settings =
  es_base_url :: string
  es_api_key :: "string option"
  es_model_tuple :: string
  es_max_tokens :: int
  es_delay_ms :: int
  es_max_retries :: int
  es_gateway :: string

definition get_default :: "(string \<Rightarrow> string option) \<Rightarrow> string \<Rightarrow> string \<Rightarrow> string" where
  "get_default getenv k v0 = (case getenv k of None \<Rightarrow> v0 | Some s \<Rightarrow> s)"

definition emit_settings_of :: "(string \<Rightarrow> string option) \<Rightarrow> (string \<Rightarrow> int option) \<Rightarrow> py_error + emit_settings" where
  "emit_settings_of getenv int_of =
     sum_bind (convert_or int_of (getenv ''SEISMOGRAPH_PROBE_MAX_TOKENS'') 64) (\<lambda>max_tokens.
     sum_bind (convert_or int_of (getenv ''SEISMOGRAPH_PROBE_DELAY_MS'') 0) (\<lambda>delay_ms.
     sum_bind (convert_or int_of (getenv ''SEISMOGRAPH_PROBE_MAX_RETRIES'') DEFAULT_MAX_RETRIES) (\<lambda>max_retries.
       Inr \<lparr>es_base_url = get_default getenv ''SEISMOGRAPH_PROBE_BASE_URL'' ''http://localhost:11434/v1'',
            es_api_key = (case getenv ''SEISMOGRAPH_PROBE_API_KEY'' of Some (c # cs) \<Rightarrow> Some (c # cs) | _ \<Rightarrow> None),
            es_model_tuple = get_default getenv ''SEISMOGRAPH_PROBE_MODEL_TUPLE'' ''ollama/llama3.1'',
            es_max_tokens = max_tokens, es_delay_ms = delay_ms, es_max_retries = max_retries,
            es_gateway = get_default getenv ''SEISMOGRAPH_GATEWAY_ENDPOINT'' ''http://localhost:8000/v1/signals''\<rparr>)))"

text \<open>\<^verbatim>\<open>s.split(sub)[0]\<close> for a non-empty \<open>sub\<close>.\<close>

fun before_text :: "string \<Rightarrow> string \<Rightarrow> string" where
  "before_text sub [] = []"
| "before_text sub (c # cs) = (if take (length sub) (c # cs) = sub then [] else c # before_text sub cs)"

subsection \<open>The signed request\<close>

text \<open>The request, its payload as a batch, and the key file after the key manager was built.\<close>

definition build_signed_request ::
  "('g, 'sk, 'w) emit_env \<Rightarrow> canary_result list \<Rightarrow> string \<Rightarrow> bytes option \<Rightarrow> 'w
    \<Rightarrow> (py_error + bytes \<times> (string, string) dict \<times> signal_batch) \<times> bytes option \<times> 'w" where
  "build_signed_request env results model_tuple key_file w =
     (let sdk = em_sdk env;
          (client, w) = sv_uuid sdk w;
          ag = fold (\<lambda>r ag. add_result ag r) results (init_aggregator client (em_rng env));
          (fresh, w) = sv_uuid sdk w
      in case agg_flush (sv_expo sdk) (sv_fromiso sdk) (sv_toiso sdk) (sc_is_uuid (sv_codec sdk)) fresh model_tuple None ag of
           (Inl e, _) \<Rightarrow> (Inl e, key_file, w)
         | (Inr sb, _) \<Rightarrow>
             (case load_or_generate (em_load_key env) (em_raw_key env) (em_fresh_key env) key_file of
                Inl e \<Rightarrow> (Inl e, key_file, w)
              | Inr (sk, key_file) \<Rightarrow> (Inr (batch_body sdk sb, batch_headers sdk sk sb, sb), key_file, w)))"

subsection \<open>Delivery\<close>

datatype post_failure = GatewayTransportError string | PostRaised py_error

definition emit_post_status ::
  "('g, 'sk, 'w) emit_env \<Rightarrow> string \<Rightarrow> bytes \<Rightarrow> (string, string) dict \<Rightarrow> 'w \<Rightarrow> (post_failure + int \<times> json option) \<times> 'w" where
  "emit_post_status env endpoint body headers w =
     (case em_post env endpoint body headers w of
        (UrlResponse status raw, w) \<Rightarrow> (Inr (status, em_loads env raw), w)
      | (UrlHttpError code text, w) \<Rightarrow>
          (let detail = take 300 text
           in case em_loads env detail of
                Some j \<Rightarrow> (Inr (code, Some j), w)
              | None \<Rightarrow> (Inr (code, Some (JObj [(''detail'', JStr detail)])), w))
      | (UrlFailure reason, w) \<Rightarrow> (Inl (GatewayTransportError (''gateway unreachable: '' @ reason)), w)
      | (UrlRaised e, w) \<Rightarrow> (Inl (PostRaised e), w))"

text \<open>The spool the setting names; \<open>dirs\<close> gives what a directory and its quarantine hold.\<close>

definition DEFAULT_SPOOL_DIR :: string where
  "DEFAULT_SPOOL_DIR = ''.seismograph_spool''"

definition open_spool :: "(string \<Rightarrow> directory \<times> directory) \<Rightarrow> string option \<Rightarrow> py_error + (string \<times> spool) option" where
  "open_spool dirs value =
     (let value = (if value \<in> {None, Some []} then DEFAULT_SPOOL_DIR else the value)
      in if map lower_char (strip value) = ''off'' then Inr None
         else (case dirs value of (files, quarantined) \<Rightarrow>
                 map_sum id (\<lambda>sp. Some (value, sp)) (init_spool DEFAULT_MAX_AGE_HOURS DEFAULT_MAX_FILES files quarantined)))"

text \<open>\<^verbatim>\<open>{**base, **(resp or {})}\<close>: what is neither falsy nor an object cannot be unpacked.\<close>

definition unpacked :: "(string, json) dict \<Rightarrow> json option \<Rightarrow> py_error + json" where
  "unpacked base resp =
     (case resp of
        None \<Rightarrow> Inr (JObj base)
      | Some (JObj d) \<Rightarrow> Inr (JObj (fold (\<lambda>(k, v). AList.update k v) d base))
      | Some j \<Rightarrow> if truthy j then Inl (TypeError ''not a mapping'') else Inr (JObj base))"

datatype delivery = Accepted | Duplicate | Rejected | SpooledAway | LostBatch

definition status_json :: "int option \<Rightarrow> json" where
  "status_json status = (case status of None \<Rightarrow> JNull | Some s \<Rightarrow> JInt s)"

definition deliver ::
  "('g, 'sk, 'w) emit_env \<Rightarrow> string \<Rightarrow> bytes \<Rightarrow> (string, string) dict \<Rightarrow> (string \<times> spool) option \<Rightarrow> 'w
    \<Rightarrow> (py_error + delivery \<times> json option) \<times> (string \<times> spool) option \<times> 'w" where
  "deliver env endpoint body headers sp w =
     (case emit_post_status env endpoint body headers w of
        (Inl (PostRaised e), w) \<Rightarrow> (Inl e, sp, w)
      | (r, w) \<Rightarrow>
          let (status, resp) = (case r of Inr (s, resp) \<Rightarrow> (Some s, resp)
                                | Inl (GatewayTransportError m) \<Rightarrow> (None, Some (JObj [(''detail'', JStr m)]))
                                | Inl (PostRaised e) \<Rightarrow> (None, None))
          in if status = Some 202 then (Inr (Accepted, resp), sp, w)
             else if status = Some 409 then (Inr (Duplicate, resp), sp, w)
             else if (case status of None \<Rightarrow> False | Some s \<Rightarrow> 400 \<le> s \<and> s < 500)
             then (map_sum id (\<lambda>j. (Rejected, Some j)) (unpacked [(''status'', status_json status)] resp), sp, w)
             else (case sp of
                     None \<Rightarrow> (map_sum id (\<lambda>j. (LostBatch, Some j)) (unpacked [(''status'', status_json status)] resp), sp, w)
                   | Some (d, s) \<Rightarrow>
                       let (now, w) = sv_epoch (em_sdk env) w
                       in (case spool_put (sv_codec (em_sdk env)) now body headers s of
                             Inl e \<Rightarrow> (Inl e, sp, w)
                           | Inr (name, s) \<Rightarrow>
                               (map_sum id (\<lambda>j. (SpooledAway, Some j))
                                  (unpacked [(''status'', status_json status), (''path'', JStr (em_path env d name))] resp),
                                Some (d, s), w))))"

text \<open>
  The weather row of the model: an HTTP error status is an \<^verbatim>\<open>URLError\<close>, and so is a refused connection; a timeout while
  reading is not.
\<close>

fun find_row :: "string \<Rightarrow> json list \<Rightarrow> py_error + json option" where
  "find_row model_tuple [] = Inr None"
| "find_row model_tuple (JObj d # rows) =
     (if dict_get d ''model_tuple'' JNull = JStr model_tuple then Inr (Some (JObj d)) else find_row model_tuple rows)"
| "find_row model_tuple (_ # rows) = Inl (AttributeError ''get'')"

definition weather_for :: "('g, 'sk, 'w) emit_env \<Rightarrow> string \<Rightarrow> string \<Rightarrow> 'w \<Rightarrow> (py_error + json option) \<times> 'w" where
  "weather_for env base model_tuple w =
     (case em_get env (rstrip_char (CHR ''/'') base @ ''/v1/weather'') w of
        (UrlResponse status raw, w) \<Rightarrow>
          (case em_loads env raw of
             None \<Rightarrow> (Inr None, w)
           | Some (JArr rows) \<Rightarrow> (find_row model_tuple rows, w)
           | Some (JObj d) \<Rightarrow> (if d = [] then Inr None else Inl (AttributeError ''get''), w)
           | Some (JStr s) \<Rightarrow> (if s = [] then Inr None else Inl (AttributeError ''get''), w)
           | Some j \<Rightarrow> (Inl (TypeError ''not iterable''), w))
      | (UrlHttpError code text, w) \<Rightarrow> (Inr None, w)
      | (UrlFailure reason, w) \<Rightarrow> (Inr None, w)
      | (UrlRaised e, w) \<Rightarrow> (Inl e, w))"

subsection \<open>The run\<close>

text \<open>\<^verbatim>\<open>_send\<close>, whose exceptions the drain takes as the end of the delivery.\<close>

definition backlog_sender :: "('g, 'sk, 'w) emit_env \<Rightarrow> string \<Rightarrow> 'w sender" where
  "backlog_sender env gateway body headers w =
     (case emit_post_status env gateway body headers w of
        (Inl (GatewayTransportError m), w) \<Rightarrow> (Inl (''GatewayTransportError: '' @ m), w)
      | (Inl (PostRaised e), w) \<Rightarrow> (Inl ''exception'', w)
      | (Inr (status, resp), w) \<Rightarrow> (Inr status, w))"

definition drain_spool ::
  "('g, 'sk, 'w) emit_env \<Rightarrow> string \<Rightarrow> (string \<times> spool) option \<Rightarrow> 'w \<Rightarrow> (py_error + unit) \<times> (string \<times> spool) option \<times> 'w" where
  "drain_spool env gateway sp w =
     (case sp of
        None \<Rightarrow> (Inr (), None, w)
      | Some (d, s) \<Rightarrow>
          let (now, w) = sv_epoch (em_sdk env) w
          in (case spool_drain (sv_codec (em_sdk env)) now (backlog_sender env gateway) s w of
                (r, s, w) \<Rightarrow> (map_sum id (\<lambda>_. ()) r, Some (d, s), w)))"

definition emit_provider :: "('g, 'sk, 'w) emit_env \<Rightarrow> emit_settings \<Rightarrow> provider_error + 'w provider" where
  "emit_provider env es =
     map_sum id (client_provider (em_dumps env) (em_dumps_sorted env) (em_perf env) (em_transport env))
       (init_provider (es_base_url es) (es_api_key es) (es_max_tokens es) 30)"

definition emit_pacing :: "('g, 'sk, 'w) emit_env \<Rightarrow> emit_settings \<Rightarrow> 'w pacing" where
  "emit_pacing env es =
     \<lparr>pc_delay_ms = es_delay_ms es, pc_max_retries = es_max_retries es, pc_backoff_base_ms = RETRY_BACKOFF_BASE_MS,
      pc_max_total_backoff_ms = DEFAULT_MAX_TOTAL_BACKOFF_MS, pc_sleeper = em_sleeper env\<rparr>"

text \<open>The last part of \<^verbatim>\<open>main\<close>: the exit code from the outcome, after what the printing of it needs.\<close>

definition emit_outcome ::
  "('g, 'sk, 'w) emit_env \<Rightarrow> emit_settings \<Rightarrow> delivery \<times> json option \<Rightarrow> 'w \<Rightarrow> (py_error + int) \<times> 'w" where
  "emit_outcome env es out w =
     (case out of (outcome, resp) \<Rightarrow>
        if outcome \<in> {SpooledAway, Rejected, LostBatch} then (Inr 1, w)
        else (case get_or (case resp of Some j \<Rightarrow> if truthy j then j else JObj [] | None \<Rightarrow> JObj []) ''batch_id'' JNull of
                Inl e \<Rightarrow> (Inl e, w)
              | Inr _ \<Rightarrow>
                  (case weather_for env (before_text ''/v1/signals'' (es_gateway es)) (es_model_tuple es) w of
                     (Inl e, w) \<Rightarrow> (Inl e, w)
                   | (Inr row, w) \<Rightarrow> (Inr 0, w))))"

definition emit_batch ::
  "('g, 'sk, 'w) emit_env \<Rightarrow> emit_settings \<Rightarrow> canary_result list \<Rightarrow> (string \<times> spool) option \<Rightarrow> bytes option \<Rightarrow> 'w
    \<Rightarrow> (py_error + int) \<times> (string \<times> spool) option \<times> bytes option \<times> 'w" where
  "emit_batch env es results sp key_file w =
     (case build_signed_request env results (es_model_tuple es) key_file w of
        (Inl e, key_file, w) \<Rightarrow> (Inl e, sp, key_file, w)
      | (Inr (body, headers, sb), key_file, w) \<Rightarrow>
          (case deliver env (es_gateway es) body headers sp w of
             (Inl e, sp, w) \<Rightarrow> (Inl e, sp, key_file, w)
           | (Inr out, sp, w) \<Rightarrow>
               (case emit_outcome env es out w of (r, w) \<Rightarrow> (r, sp, key_file, w))))"

definition emit_main ::
  "('g, 'sk, 'w) emit_env \<Rightarrow> emit_settings \<Rightarrow> (string \<times> spool) option \<Rightarrow> bytes option \<Rightarrow> 'w
    \<Rightarrow> (py_error + int) \<times> (string \<times> spool) option \<times> bytes option \<times> 'w" where
  "emit_main env es sp key_file w =
     (case drain_spool env (es_gateway es) sp w of
        (Inl e, sp, w) \<Rightarrow> (Inl e, sp, key_file, w)
      | (Inr _, sp, w) \<Rightarrow>
          (case emit_provider env es of
             Inl e \<Rightarrow> (Inr 1, sp, key_file, w)
           | Inr provider \<Rightarrow>
               (case execute_canary_strict (em_canary env) (es_model_tuple es) (Some CANARY_SUITE_V2) False (Some provider)
                       (Some SUITE_VERSION_V2) (emit_pacing env es) w of
                  (Inl (CanaryCall (CallRaised e)), w) \<Rightarrow> (Inl e, sp, key_file, w)
                | (Inl _, w) \<Rightarrow> (Inr 1, sp, key_file, w)
                | (Inr results, w) \<Rightarrow> emit_batch env es results sp key_file w)))"

text \<open>The whole command: the settings and the spool are read before anything else.\<close>

definition live_emit ::
  "('g, 'sk, 'w) emit_env \<Rightarrow> (string \<Rightarrow> string option) \<Rightarrow> (string \<Rightarrow> int option) \<Rightarrow> (string \<Rightarrow> directory \<times> directory)
    \<Rightarrow> bytes option \<Rightarrow> 'w \<Rightarrow> (py_error + int) \<times> (string \<times> spool) option \<times> bytes option \<times> 'w" where
  "live_emit env getenv int_of dirs key_file w =
     (case emit_settings_of getenv int_of of
        Inl e \<Rightarrow> (Inl e, None, key_file, w)
      | Inr es \<Rightarrow>
          (case open_spool dirs (getenv ''SEISMOGRAPH_SPOOL_DIR'') of
             Inl e \<Rightarrow> (Inl e, None, key_file, w)
           | Inr sp \<Rightarrow> emit_main env es sp key_file w))"

subsection \<open>Lemmas\<close>

lemma staged_all:
  assumes "\<And>r. r \<in> set rs \<Longrightarrow> cr_model_tuple r = mt"
  shows "dict_get (ag_pending (fold (\<lambda>r ag. add_result ag r) rs (init_aggregator client g))) mt [] = rs"
proof -
  have "dict_get (ag_pending (fold (\<lambda>r ag. add_result ag r) rs ag)) mt [] = dict_get (ag_pending ag) mt [] @ rs" for ag
    using assms by (induction rs arbitrary: ag) (auto simp: add_result_def Let_def)
  from this [of "init_aggregator client g"] show ?thesis
    by (simp only:) (simp add: init_aggregator_def dict_get_def)
qed

lemma build_signed_request_Inr:
  assumes "build_signed_request env rs mt kf w = (Inr (body, headers, sb), kf', w')"
  obtains sk ag fresh ag' where "agg_flush (sv_expo (em_sdk env)) (sv_fromiso (em_sdk env)) (sv_toiso (em_sdk env))
        (sc_is_uuid (sv_codec (em_sdk env))) fresh mt None ag = (Inr sb, ag')"
    and "\<exists>client. ag = fold (\<lambda>r ag. add_result ag r) rs (init_aggregator client (em_rng env))"
    and "load_or_generate (em_load_key env) (em_raw_key env) (em_fresh_key env) kf = Inr (sk, kf')"
    and "body = batch_body (em_sdk env) sb" "headers = batch_headers (em_sdk env) sk sb"
  using assms by (auto simp: build_signed_request_def Let_def split: prod.splits sum.splits)

text \<open>The status with which a post ended, as \<^verbatim>\<open>deliver\<close> reads it.\<close>

definition transient :: "post_failure + int \<times> json option \<Rightarrow> bool" where
  "transient out = (case out of
      Inl (GatewayTransportError m) \<Rightarrow> True
    | Inl (PostRaised e) \<Rightarrow> False
    | Inr (status, resp) \<Rightarrow> status \<noteq> 202 \<and> \<not> (400 \<le> status \<and> status < 500))"

lemma deliver_delivered:
  assumes "deliver env gw body headers sp w = (Inr (d, j), sp', w')" and "d \<in> {Accepted, Duplicate}"
  shows "\<exists>status. emit_post_status env gw body headers w = (Inr (status, j), w') \<and> status \<in> {202, 409} \<and> sp' = sp"
  using assms
  by (auto simp: deliver_def Let_def map_sum_Inr split: prod.splits sum.splits post_failure.splits if_splits option.splits)

lemma deliver_transient:
  assumes "emit_post_status env gw body headers w = (out, w1)" and "transient out"
    and "sv_epoch (em_sdk env) w1 = (now, w2)" and "spool_put (sv_codec (em_sdk env)) now body headers s = Inr (name, s')"
  shows "\<exists>r. deliver env gw body headers (Some (d, s)) w = (r, Some (d, s'), w2)
     \<and> (\<forall>dl j. r = Inr (dl, j) \<longrightarrow> dl = SpooledAway)"
  using assms
  by (cases out) (auto simp: deliver_def transient_def Let_def map_sum_Inr split: prod.splits sum.splits post_failure.splits if_splits option.splits)

subsection \<open>Properties\<close>

lemma emit_batch_success:
  assumes "emit_batch env es rs sp kf w = (Inr 0, sp', kf', w')" and "\<And>r. r \<in> set rs \<Longrightarrow> cr_model_tuple r = es_model_tuple es"
  shows "\<exists>body headers sb w1 status resp w2. build_signed_request env rs (es_model_tuple es) kf w = (Inr (body, headers, sb), kf', w1)
     \<and> emit_post_status env (es_gateway es) body headers w1 = (Inr (status, resp), w2) \<and> status \<in> {202, 409} \<and> sp' = sp
     \<and> sb_model_tuple sb = es_model_tuple es \<and> sb_fleet_id sb = None \<and> sb_result_count sb = int (length rs)
     \<and> sb_suite_version sb = cr_suite_version (hd rs)"
proof -
  obtain body headers sb w1 out w2 where
    request: "build_signed_request env rs (es_model_tuple es) kf w = (Inr (body, headers, sb), kf', w1)"
    and sent: "deliver env (es_gateway es) body headers sp w1 = (Inr out, sp', w2)"
    and exit: "emit_outcome env es out w2 = (Inr 0, w')"
    using assms(1) by (auto simp: emit_batch_def split: prod.splits sum.splits)
  obtain d j where out: "out = (d, j)" by fastforce
  with exit have "d \<in> {Accepted, Duplicate}"
    by (cases d) (auto simp: emit_outcome_def)
  from deliver_delivered [OF sent [unfolded out] this] obtain status where
    "emit_post_status env (es_gateway es) body headers w1 = (Inr (status, j), w2)" "status \<in> {202, 409}" "sp' = sp" by blast
  moreover obtain fresh ag client ag' where flush: "agg_flush (sv_expo (em_sdk env)) (sv_fromiso (em_sdk env)) (sv_toiso (em_sdk env))
        (sc_is_uuid (sv_codec (em_sdk env))) fresh (es_model_tuple es) None ag = (Inr sb, ag')"
    and ag: "ag = fold (\<lambda>r ag. add_result ag r) rs (init_aggregator client (em_rng env))"
    by (rule build_signed_request_Inr [OF request]) blast
  moreover have "dict_get (ag_pending ag) (es_model_tuple es) [] = rs"
    unfolding ag using assms(2) by (rule staged_all)
  ultimately show ?thesis using request agg_flush_Inr(5,6,9,11) [OF flush] by auto
qed

text \<open>C13: A live run emits the whole suite or nothing. When the suite did not complete, nothing is signed, posted or spooled: the world
  is the one the suite left, the key file is untouched and the exit code is not zero. When the exit code is zero, one
  batch of exactly 50 results of the published suite was signed for the model, on the public network path, its post was answered
  by 202 or 409, and the spool is as the drain left it.\<close>

theorem emission_all_or_nothing:
  assumes "drain_spool env (es_gateway es) sp w = (Inr (), sp1, w1)" and "emit_provider env es = Inr provider"
    and "execute_canary_strict (em_canary env) (es_model_tuple es) (Some CANARY_SUITE_V2) False (Some provider)
           (Some SUITE_VERSION_V2) (emit_pacing env es) w1 = (run, w2)"
    and "emit_main env es sp kf w = (r, sp', kf', w')"
  shows "case run of
      Inl e \<Rightarrow> r \<noteq> Inr 0 \<and> sp' = sp1 \<and> kf' = kf \<and> w' = w2
    | Inr rs \<Rightarrow> r = Inr 0 \<longrightarrow>
        (\<exists>body headers sb w3 status resp w4. build_signed_request env rs (es_model_tuple es) kf w2 = (Inr (body, headers, sb), kf', w3)
           \<and> emit_post_status env (es_gateway es) body headers w3 = (Inr (status, resp), w4) \<and> status \<in> {202, 409} \<and> sp' = sp1
           \<and> sb_model_tuple sb = es_model_tuple es \<and> sb_fleet_id sb = None \<and> sb_result_count sb = 50
           \<and> sb_suite_version sb = SUITE_VERSION_V2)"
proof (cases run)
  case (Inl e)
  with assms show ?thesis
    by (auto simp: emit_main_def split: canary_error.splits call_error.splits)
next
  case (Inr rs)
  have all: "list_all2 (result_for (em_canary env) (es_model_tuple es) SUITE_VERSION_V2) CANARY_SUITE_V2 rs"
    using strict_run_results [OF assms(3) [unfolded Inr]] by (simp add: version_of_def)
  then have each: "cr_model_tuple r = es_model_tuple es \<and> cr_suite_version r = SUITE_VERSION_V2" if "r \<in> set rs" for r
    using that by (auto simp: in_set_conv_nth list_all2_conv_all_nth result_for_def)
  have "length rs = 50" using list_all2_lengthD [OF all] corpus_append_only(3) by simp
  then have "cr_suite_version (hd rs) = SUITE_VERSION_V2" using each by (metis hd_in_set list.size(3) zero_neq_numeral)
  moreover have "emit_batch env es rs sp1 kf w2 = (r, sp', kf', w')"
    using assms Inr by (simp add: emit_main_def)
  ultimately show ?thesis
    using emit_batch_success [of env es rs sp1 kf w2 sp' kf' w'] each \<open>length rs = 50\<close> Inr by auto
qed

lemma live_run_succeeds:
  assumes "pr_complete_ex pr = Some cex" and "\<And>model p tool w. \<exists>c. cex model p tool w = (Inr c, w)" and "pc_delay_ms pc \<le> 0"
  shows "\<exists>rs. execute_canary_strict env mt (Some suite) False (Some pr) ver pc w = (Inr rs, w)"
proof -
  have one: "\<exists>r. run_prompt env False (Some pr) ts mt v p w = (Inr r, w)" for ts v p
  proof -
    obtain c where "cex (model_name_from_tuple mt) p (is_tool_prompt p) w = (Inr c, w)" using assms(2) by blast
    then show ?thesis by (simp add: run_prompt_def assms(1) Let_def)
  qed
  have "\<exists>rs. run_prompts (run_prompt env False (Some pr) ts mt v) ps w = (Inr rs, w)" for ts v ps
  proof (induction ps)
    case (Cons p ps)
    with one [of ts v p] show ?case by auto
  qed simp
  then obtain rs where "run_prompts (run_prompt env False (Some pr) (ce_now env w) mt (case ver of None \<Rightarrow> SUITE_VERSION | Some v \<Rightarrow> v))
      suite w = (Inr rs, w)" by blast
  then have "execute_canary env mt (Some suite) False (Some pr) ver w = (Inr rs, w)"
    by (simp add: execute_canary_def Let_def)
  from strict_run_plain [OF this assms(3)] show ?thesis by blast
qed

definition example_answer :: json where
  "example_answer = JObj [(''choices'', JArr [JObj [(''message'', JObj [(''content'', JStr ''ok'')])]])]"

lemma example_answer_read: "\<exists>c. read_completion dumps opts latency example_answer = Inr c"
  by (simp add: example_answer_def read_completion_def read_message_def message_text_def parse_usage_def dict_get_def)

text \<open>An environment in which every call is answered and every post is answered by 202, under the default settings.\<close>

definition example_emit :: "(unit, unit, nat) emit_env" where
  "example_emit = \<lparr>em_sdk = example_env,
     em_canary = silent_env\<lparr>ce_sha256 := (\<lambda>_. replicate 64 (CHR ''0'')), ce_now := (\<lambda>_. unary_stamp (utc 3))\<rparr>,
     em_dumps = (\<lambda>_. []), em_dumps_sorted = (\<lambda>_. []), em_perf = (\<lambda>_. 0),
     em_transport = (\<lambda>_ _ _ _ w. (Inr example_answer, w)),
     em_sleeper = (\<lambda>_ w. w), em_loads = (\<lambda>_. Some (JObj [])), em_post = (\<lambda>_ _ _ w. (UrlResponse 202 [], w + 1)),
     em_get = (\<lambda>_ w. (UrlFailure ''refused'', w)), em_load_key = (\<lambda>_. Some ()), em_raw_key = (\<lambda>_. [1]), em_fresh_key = (),
     em_rng = (), em_path = (@)\<rparr>"

definition default_settings :: emit_settings where
  "default_settings = (case emit_settings_of (\<lambda>_. None) (\<lambda>_. None) of Inr es \<Rightarrow> es)"

lemma default_settings: "emit_settings_of (\<lambda>_. None) (\<lambda>_. None) = Inr default_settings"
  "es_api_key default_settings = None" "es_delay_ms default_settings = 0"
  by (simp_all add: default_settings_def emit_settings_of_def convert_or_def)

lemma example_request:
  assumes "rs \<noteq> []" and "\<And>r. r \<in> set rs \<Longrightarrow> cr_model_tuple r = mt \<and> cr_suite_version r = v \<and> cr_timestamp r = unary_stamp (utc 3)"
  shows "\<exists>body headers sb. build_signed_request example_emit rs mt None w = (Inr (body, headers, sb), Some [1], w)"
proof -
  let ?ag = "fold (\<lambda>r ag. add_result ag r) rs (init_aggregator ''b'' ())"
  have staged: "dict_get (ag_pending ?ag) mt [] = rs" using assms(2) by (intro staged_all) simp
  have const: "cr_suite_version ` set rs = {v}" "cr_timestamp ` set rs = {unary_stamp (utc 3)}"
    using assms by (auto simp: image_def) (use hd_in_set in blast)+
  have "flush_window unary_parse unary_stamp rs = Inr (unary_stamp (utc 3), unary_stamp (utc 4))"
    using const(2) by (simp add: flush_window_def unary_parse_def Let_def) (simp add: unary_stamp_def utc_def)
  then obtain sb ag' where "agg_flush (\<lambda>_ g. (0, g)) unary_parse unary_stamp (\<lambda>_. True) ''b'' mt None ?ag = (Inr sb, ag')"
    using agg_flush_total [of ?ag mt "\<lambda>_. True" "''b''" unary_parse unary_stamp _ "\<lambda>_ g. (0, g)" None] const(1) assms(1)
    by (auto simp: staged)
  then show ?thesis
    by (simp add: build_signed_request_def example_emit_def example_env_def example_codec_def load_or_generate_def Let_def)
qed

theorem emission_all_or_nothing_witness:
  "\<exists>rs body headers sb w3 resp w4. build_signed_request example_emit rs ''ollama/llama3.1'' None 0 = (Inr (body, headers, sb), Some [1], w3)
     \<and> emit_post_status example_emit (es_gateway default_settings) body headers w3 = (Inr (202, resp), w4)
     \<and> sb_result_count sb = 50 \<and> fst (emit_main example_emit default_settings None None 0) = Inr 0"
proof -
  let ?es = default_settings
  have mt: "es_model_tuple ?es = ''ollama/llama3.1''"
    by (simp add: default_settings_def emit_settings_of_def convert_or_def get_default_def)
  obtain provider where provider: "emit_provider example_emit ?es = Inr provider"
    and calls: "\<exists>cex. pr_complete_ex provider = Some cex \<and> (\<forall>model p tool w. \<exists>c. cex model p tool w = (Inr c, w))"
    by (simp add: emit_provider_def init_provider_def default_settings(2) client_provider_def complete_ex_def example_emit_def
        example_answer_read)
  obtain rs where run: "execute_canary_strict (em_canary example_emit) (es_model_tuple ?es) (Some CANARY_SUITE_V2) False (Some provider)
      (Some SUITE_VERSION_V2) (emit_pacing example_emit ?es) 0 = (Inr rs, 0)"
  proof -
    have "pc_delay_ms (emit_pacing example_emit ?es) \<le> 0" by (simp add: emit_pacing_def default_settings(3))
    with calls show ?thesis using live_run_succeeds that by meson
  qed
  have all: "list_all2 (result_for (em_canary example_emit) (es_model_tuple ?es) SUITE_VERSION_V2) CANARY_SUITE_V2 rs"
    using strict_run_results [OF run] by (simp add: version_of_def)
  have "length rs = 50" using list_all2_lengthD [OF all] corpus_append_only(3) by simp
  then have "rs \<noteq> []" by auto
  moreover have "cr_model_tuple r = es_model_tuple ?es \<and> cr_suite_version r = SUITE_VERSION_V2 \<and> cr_timestamp r = unary_stamp (utc 3)"
    if "r \<in> set rs" for r
    using all that by (auto simp: in_set_conv_nth list_all2_conv_all_nth result_for_def example_emit_def)
  ultimately obtain body headers sb where request: "build_signed_request example_emit rs (es_model_tuple ?es) None 0 = (Inr (body, headers, sb), Some [1], 0)"
    using example_request by blast
  have post: "emit_post_status example_emit gw body headers w = (Inr (202, Some (JObj [])), w + 1)" for gw w
    by (simp add: emit_post_status_def example_emit_def)
  have drain: "drain_spool example_emit (es_gateway ?es) None 0 = (Inr (), None, 0)" by (simp add: drain_spool_def)
  have weather: "weather_for example_emit base mt w = (Inr None, w)" for base mt w
    by (simp add: weather_for_def example_emit_def)
  have main: "emit_main example_emit ?es None None 0 = (Inr 0, None, Some [1], 1)"
    by (simp add: emit_main_def drain provider run emit_batch_def request deliver_def post emit_outcome_def dict_get_def weather)
  from emission_all_or_nothing [OF drain provider run main] request main have "sb_result_count sb = 50" by (simp add: post)
  with request main post show ?thesis unfolding mt by (metis fst_conv)
qed

text \<open>The drain of a spool that holds one fresh file, which the gateway takes.\<close>

lemma drain_single:
  assumes "spool_load codec name (Some content) = Inr e" and "se_path e = name" and "ends_with name batch_suffix"
    and "\<not> expired now sp e" and "sp_files sp = [(name, Some content)]"
    and "send (se_body e) (se_headers e) w = (Inr status, w')" and "status \<in> {202, 409}"
  shows "\<exists>report. spool_drain codec now send sp w = (Inr report, sp\<lparr>sp_files := []\<rparr>, w')"
proof -
  have "waiting sp = [name]" using assms(3,5) by (simp add: waiting_def)
  then have "spool_scan codec now sp = (Inr (empty_report, [e]), sp)"
    using assms(1,4,5) by (simp add: spool_scan_def dict_get_def)
  then show ?thesis using assms(2,5-7) by (auto simp: spool_drain_def unlink_def)
qed

text \<open>C14: A signed batch that could not be delivered reaches the gateway on a later run that reaches it. When the post of a live emission
  ends without a verdict of the gateway (no status, or one that is neither 202 nor 4xx), the batch is put in the (until then empty)
  spool, and a later run within the age limit whose post of the same bytes under the same headers is answered by 202 or 409
  starts by delivering it and leaves the spool empty. Assumed: the JSON codec reads its own canonical output, base64
  decodes what it encoded, hashes are 64 hex digits, signatures have 64 bytes and public keys 32.\<close>

theorem undelivered_batch_reaches_gateway_later:
  assumes "build_signed_request env rs mt kf w0 = (Inr (body, headers, sb), kf', w1)"
    and "\<And>r. r \<in> set rs \<Longrightarrow> cr_model_tuple r = mt \<and> hex_text 64 (cr_response_hash r)"
    and "sc_loads (sv_codec (em_sdk env)) body = Some (sort_json (JObj (batch_to_dict sb)))"
    and "sc_canonical (sv_codec (em_sdk env)) (sort_json (JObj (batch_to_dict sb))) = body"
    and "sc_b64decode (sv_codec (em_sdk env)) (sc_b64encode (sv_codec (em_sdk env)) body) = Some body"
    and "\<And>sk. length (sv_sign (em_sdk env) sk body) = 64" and "\<And>sk. length (sv_public_bytes (em_sdk env) sk) = 32"
    and "sp_files s = []" and "1 \<le> sp_max_files s"
    and "emit_post_status env gw body headers w1 = (out, w2)" and "transient out" and "sv_epoch (em_sdk env) w2 = (now, w3)"
    and "sv_epoch (em_sdk env) w4 = (later, w5)" and "later - now \<le> sp_max_age_seconds s"
    and "\<And>h. map_of h = map_of headers \<Longrightarrow> emit_post_status env gw body h w5 = (Inr (status, resp), w6)" and "status \<in> {202, 409}"
  shows "\<exists>r s1. deliver env gw body headers (Some (d, s)) w1 = (r, Some (d, s1), w3) \<and> length (waiting s1) = 1
     \<and> drain_spool env gw (Some (d, s1)) w4 = (Inr (), Some (d, s), w6)"
proof -
  let ?sdk = "em_sdk env" and ?codec = "sv_codec (em_sdk env)"
  obtain sk ag fresh ag' client where flush: "agg_flush (sv_expo ?sdk) (sv_fromiso ?sdk) (sv_toiso ?sdk) (sc_is_uuid ?codec) fresh mt None ag = (Inr sb, ag')"
    and ag: "ag = fold (\<lambda>r ag. add_result ag r) rs (init_aggregator client (em_rng env))"
    and body: "body = batch_body ?sdk sb" and headers: "headers = batch_headers ?sdk sk sb"
    by (rule build_signed_request_Inr [OF assms(1)]) blast
  have "dict_get (ag_pending ag) mt [] = rs" unfolding ag using assms(2) by (intro staged_all) simp
  then have "list_all (\<lambda>r. hex_text 64 (cr_response_hash r)) (dict_get (ag_pending ag) mt [])" using assms(2) by (simp add: list_all_iff)
  note kept = signed_batch_put [where sk = sk, OF flush this assms(3-7) [unfolded body]]
  define sign where "sign = [(''x-signature'', bytes_hex (sv_sign ?sdk sk body)), (''x-public-key'', public_key_hex (sv_public_bytes ?sdk) sk)]"
  define name where "name = file_name now (sb_batch_id sb)"
  define content where "content = file_record ?codec now (sb_batch_id sb) body sign"
  define s1 where "s1 = s\<lparr>sp_files := [(name, Some content)]\<rparr>"
  define e where "e = \<lparr>se_path = name, se_batch_id = sb_batch_id sb, se_created_at = Some now, se_body = body,
    se_headers = AList.update ''Content-Type'' ''application/json'' sign\<rparr>"
  have suffix: "ends_with name batch_suffix" by (simp add: name_def file_name_suffix)
  have one: "waiting s1 = [name]" by (simp add: waiting_def s1_def suffix)
  have "spool_put ?codec now body headers s = Inr (name, enforce_cap s1)"
    using kept(1) [where sp = s and now = now] assms(8) by (simp add: body headers name_def content_def sign_def s1_def)
  moreover have "enforce_cap s1 = s1" using one assms(9) by (simp add: enforce_cap_def Let_def) (simp add: s1_def)
  ultimately obtain r where "deliver env gw body headers (Some (d, s)) w1 = (r, Some (d, s1), w3)"
    using deliver_transient [OF assms(10,11,12)] by metis
  moreover have "\<exists>report. spool_drain ?codec later (backlog_sender env gw) s1 w5 = (Inr report, s1\<lparr>sp_files := []\<rparr>, w6)"
  proof (rule drain_single)
    show "spool_load ?codec name (Some content) = Inr e"
      using kept(2) [where path = name and now = now] by (simp add: body name_def content_def sign_def e_def)
    show "\<not> expired later s1 e" using assms(14) by (simp add: expired_def e_def s1_def)
    have "map_of (AList.update ''Content-Type'' ''application/json'' sign) = map_of headers"
      by (simp add: headers batch_headers_def sign_def body fun_eq_iff)
    from assms(15) [OF this] show "backlog_sender env gw (se_body e) (se_headers e) w5 = (Inr status, w6)"
      by (simp add: backlog_sender_def e_def)
  qed (use assms(16) suffix in \<open>simp_all add: s1_def e_def\<close>)
  then have "drain_spool env gw (Some (d, s1)) w4 = (Inr (), Some (d, s), w6)"
    using assms(8,13) by (auto simp: drain_spool_def s1_def)
  ultimately show ?thesis using one by auto
qed

definition outage_emit :: "signal_batch \<Rightarrow> (unit, unit, nat) emit_env" where
  "outage_emit sb = example_emit\<lparr>em_sdk := example_env\<lparr>sv_codec := example_codec\<lparr>sc_loads := (\<lambda>_. Some (sort_json (JObj (batch_to_dict sb))))\<rparr>\<rparr>,
     em_post := (\<lambda>_ _ _ w. (if w = 0 then UrlFailure ''refused'' else UrlResponse 202 [], w + 1))\<rparr>"

theorem undelivered_batch_reaches_gateway_later_witness:
  "\<exists>env :: (unit, unit, nat) emit_env. \<exists>rs body headers sb r s1. build_signed_request env rs ''m'' None 0 = (Inr (body, headers, sb), Some [1], 0)
     \<and> deliver env ''u'' body headers (Some (''s'', example_spool\<lparr>sp_files := []\<rparr>)) 0 = (r, Some (''s'', s1), 1) \<and> length (waiting s1) = 1
     \<and> drain_spool env ''u'' (Some (''s'', s1)) 1 = (Inr (), Some (''s'', example_spool\<lparr>sp_files := []\<rparr>), 2)"
proof -
  let ?r = "(example_result 5 True)\<lparr>cr_timestamp := unary_stamp (utc 3)\<rparr>"
  have r: "cr_model_tuple ?r = ''m''" "hex_text 64 (cr_response_hash ?r)" by (simp_all add: example_result_def hex_text_def)
  obtain body headers sb where "build_signed_request example_emit [?r] ''m'' None 0 = (Inr (body, headers, sb), Some [1], 0 :: nat)"
    using example_request [of "[?r]" "''m''" "cr_suite_version ?r" 0] r(1) by auto
  then have request: "build_signed_request (outage_emit sb) [?r] ''m'' None 0 = (Inr (body, headers, sb), Some [1], 0)"
    by (simp add: build_signed_request_def outage_emit_def example_emit_def example_env_def example_codec_def batch_body_def batch_headers_def
        Let_def split: prod.splits sum.splits)
  then have body: "body = [1]"
    by (auto simp: build_signed_request_def outage_emit_def example_codec_def batch_body_def Let_def split: prod.splits sum.splits)
  have codec: "sc_loads (sv_codec (em_sdk (outage_emit sb))) body = Some (sort_json (JObj (batch_to_dict sb)))"
    "sc_canonical (sv_codec (em_sdk (outage_emit sb))) (sort_json (JObj (batch_to_dict sb))) = body"
    "sc_b64decode (sv_codec (em_sdk (outage_emit sb))) (sc_b64encode (sv_codec (em_sdk (outage_emit sb))) body) = Some body"
    "\<And>sk. length (sv_sign (em_sdk (outage_emit sb)) sk body) = 64" "\<And>sk. length (sv_public_bytes (em_sdk (outage_emit sb)) sk) = 32"
    "\<And>w. sv_epoch (em_sdk (outage_emit sb)) w = (2, w)"
    by (simp_all add: outage_emit_def example_codec_def example_env_def body)
  have down: "emit_post_status (outage_emit sb) ''u'' body headers 0 = (Inl (GatewayTransportError ''gateway unreachable: refused''), 1)"
    and up: "emit_post_status (outage_emit sb) ''u'' body h 1 = (Inr (202, Some (JObj [])), 2)" for h
    by (simp_all add: emit_post_status_def outage_emit_def example_emit_def)
  have "\<exists>r s1. deliver (outage_emit sb) ''u'' body headers (Some (''s'', example_spool\<lparr>sp_files := []\<rparr>)) 0 = (r, Some (''s'', s1), 1)
     \<and> length (waiting s1) = 1 \<and> drain_spool (outage_emit sb) ''u'' (Some (''s'', s1)) 1 = (Inr (), Some (''s'', example_spool\<lparr>sp_files := []\<rparr>), 2)"
    using r by (intro undelivered_batch_reaches_gateway_later [OF request _ codec(1-5) _ _ down _ codec(6) codec(6) _ up])
      (auto simp: transient_def example_spool_def)
  with request show ?thesis by blast
qed

end
