(* ===== verification/QuorumBound.thy ===== *)
theory QuorumBound
  imports Correlation
begin

section \<open>The quorum calibration (scripts/experiment_quorum_bound.py, scripts/quorum_seismo_pick.py)\<close>

text \<open>
  The two scripts from which the constants of the quorum policy come: binomial and beta-binomial tails, the band of quorums that
  keep the false-positive and the miss budget, and the checks of a schedule. Floats are reals; \<^verbatim>\<open>math.lgamma\<close> is
  the argument \<open>lg\<close>. Printing has no counterpart.
\<close>

subsection \<open>Binomial tails\<close>

definition M_MAX :: nat where "M_MAX = 20"
definition HARD_FLOOR :: int where "HARD_FLOOR = 2"
definition P_GRID :: "real list" where "P_GRID = [0.001, 0.005, 0.01, 0.02, 0.05]"
definition D_GRID :: "real list" where "D_GRID = [0.3, 0.5, 0.7, 0.9]"
definition BETA_GRID :: "real list" where "BETA_GRID = [0.01, 0.05]"
definition GAMMA :: real where "GAMMA = 0.10"

definition binom_term :: "nat \<Rightarrow> real \<Rightarrow> nat \<Rightarrow> real" where
  "binom_term m prob i = real (m choose i) * prob ^ i * (1 - prob) ^ (m - i)"

definition binom_sf_ge :: "nat \<Rightarrow> int \<Rightarrow> real \<Rightarrow> real" where
  "binom_sf_ge m q prob =
     (if q \<le> 0 then 1 else if q > int m then 0
      else sum_list (map (binom_term m prob) [nat q..<m + 1]))"

text \<open>\<^verbatim>\<open>range(a, m + 1)\<close>.\<close>

definition quorums :: "int \<Rightarrow> nat \<Rightarrow> int list" where
  "quorums a m = map int [nat a..<m + 1]"

definition q_min_fp :: "nat \<Rightarrow> real \<Rightarrow> real \<Rightarrow> int option" where
  "q_min_fp m p beta = find (\<lambda>q. binom_sf_ge m q p \<le> beta) (quorums (max 1 HARD_FLOOR) m)"

definition q_max_power :: "nat \<Rightarrow> real \<Rightarrow> real \<Rightarrow> int" where
  "q_max_power m d gamma = fold (\<lambda>q best. if binom_sf_ge m q d \<ge> 1 - gamma then q else best) (quorums 1 m) 0"

definition shipped_q :: "nat \<Rightarrow> int \<Rightarrow> int \<Rightarrow> int \<Rightarrow> int" where
  "shipped_q m q_floor num den = max q_floor ((num * int m + den - 1) div den)"

text \<open>The flags of one line of the band scan: whether some quorum is feasible, and whether the shipped one is.\<close>

definition band_flags :: "nat \<Rightarrow> real \<Rightarrow> real \<Rightarrow> real \<Rightarrow> bool \<times> bool" where
  "band_flags m p d beta =
     (let qmx = q_max_power m d GAMMA; ship = shipped_q m 3 1 2
      in case q_min_fp m p beta of
           None \<Rightarrow> (False, False)
         | Some qmn \<Rightarrow> (qmn \<le> qmx \<and> HARD_FLOOR \<le> qmx, qmn \<le> ship \<and> ship \<le> qmx))"

text \<open>The populations at which somebody could keep both budgets, and whether a schedule does there.\<close>

definition feasible_band :: "real \<Rightarrow> real \<Rightarrow> real \<Rightarrow> nat \<Rightarrow> (int \<times> int) option" where
  "feasible_band p d beta m =
     (case q_min_fp m p beta of
        None \<Rightarrow> None
      | Some qmn \<Rightarrow> if qmn > q_max_power m d GAMMA then None else Some (qmn, q_max_power m d GAMMA))"

definition frac_candidates :: "(int \<times> int) list" where
  "frac_candidates = [(1, 2), (1, 3), (1, 4), (1, 5), (1, 6), (2, 5), (2, 7), (1, 8), (1, 10)]"

definition frac_fits :: "real \<Rightarrow> real \<Rightarrow> real \<Rightarrow> int \<times> int \<Rightarrow> bool" where
  "frac_fits p d beta c =
     (let bands = map (\<lambda>m. (m, feasible_band p d beta m)) [2..<M_MAX + 1]
      in list_all (\<lambda>(m, band). case band of None \<Rightarrow> True
                     | Some (lo, hi) \<Rightarrow> lo \<le> shipped_q m 3 (fst c) (snd c) \<and> shipped_q m 3 (fst c) (snd c) \<le> hi) bands
         \<and> list_ex (\<lambda>(m, band). band \<noteq> None) bands)"

definition recommend_frac :: "real \<Rightarrow> real \<Rightarrow> real \<Rightarrow> int \<times> int \<times> bool" where
  "recommend_frac p d beta =
     (case find (frac_fits p d beta) frac_candidates of
        Some (num, den) \<Rightarrow> (num, den, True)
      | None \<Rightarrow> (0, 0, False))"

datatype band_failure = FailsFP | FailsPower

text \<open>The sweep over the grid: for each point, the populations at which the shipped quorum leaves a feasible band.\<close>

definition ship_failures :: "real \<Rightarrow> real \<Rightarrow> real \<Rightarrow> (nat \<times> int \<times> int \<times> int \<times> band_failure) list" where
  "ship_failures p d beta =
     List.map_filter (\<lambda>m. case feasible_band p d beta m of
         None \<Rightarrow> None
       | Some (lo, hi) \<Rightarrow>
           let ship = shipped_q m 3 1 2
           in if lo \<le> ship \<and> ship \<le> hi then None else Some (m, ship, lo, hi, if ship < lo then FailsFP else FailsPower))
       [2..<M_MAX + 1]"

definition ship_fail_rows :: "(real \<times> real \<times> real \<times> (nat \<times> int \<times> int \<times> int \<times> band_failure) list) list" where
  "ship_fail_rows =
     filter (\<lambda>(p, d, beta, fails). fails \<noteq> [])
       (concat (map (\<lambda>p. concat (map (\<lambda>d. map (\<lambda>beta. (p, d, beta, ship_failures p d beta)) BETA_GRID) D_GRID)) P_GRID))"

subsection \<open>Anchoring\<close>

definition ARL0 :: real where "ARL0 = 500"
definition D_ONSET_SPREAD :: real where "D_ONSET_SPREAD = 5"

definition p_of_window :: "real \<Rightarrow> real \<Rightarrow> real \<Rightarrow> real" where
  "p_of_window cadence_per_day ttl_days arl0 = 1 - exp (- (cadence_per_day * ttl_days / arl0))"

definition ttl_ceiling :: "real \<Rightarrow> real" where
  "ttl_ceiling c = ARL0 * ln (1 / 0.95) / c"

definition ttl_in_band :: "real \<Rightarrow> bool" where
  "ttl_in_band c \<longleftrightarrow> D_ONSET_SPREAD \<le> 14 \<and> 14 \<le> ttl_ceiling c"

definition q_min_table :: "real \<Rightarrow> real \<Rightarrow> nat \<Rightarrow> int list" where
  "q_min_table p beta m_max =
     map (\<lambda>m. min (case q_min_fp m p beta of None \<Rightarrow> 3 | Some qmn \<Rightarrow> max 3 qmn) (int m)) [1..<m_max + 1]"

subsection \<open>The schedule picker\<close>

definition BETA :: real where "BETA = 0.05"
definition P_OP :: real where "P_OP = 0.0276"
definition P_HI :: real where "P_HI = 0.074"
definition RHO :: real where "RHO = 0.10"

definition binom_ge :: "nat \<Rightarrow> int \<Rightarrow> real \<Rightarrow> real" where
  "binom_ge m q p =
     (if q \<le> 0 then 1 else if q > int m then 0
      else sum_list (map (\<lambda>i. real (m choose i) * p ^ i * (1 - p) ^ (m - i)) [nat q..<m + 1]))"

definition lbeta :: "(real \<Rightarrow> real) \<Rightarrow> real \<Rightarrow> real \<Rightarrow> real" where
  "lbeta lg x y = lg x + lg y - lg (x + y)"

definition betabinom_ge :: "(real \<Rightarrow> real) \<Rightarrow> nat \<Rightarrow> int \<Rightarrow> real \<Rightarrow> real \<Rightarrow> real" where
  "betabinom_ge lg m q p rho =
     (if q \<le> 0 then 1 else if q > int m then 0
      else if rho \<le> 0 then binom_ge m q p
      else (let s = (1 - rho) / rho; a = p * s; b = (1 - p) * s; lbab = lbeta lg a b
            in sum_list (map (\<lambda>i. exp (ln (real (m choose i)) + lbeta lg (real i + a) (real (m - i) + b) - lbab)) [nat q..<m + 1])))"

definition q_max_power_pick :: "nat \<Rightarrow> real \<Rightarrow> real \<Rightarrow> int" where
  "q_max_power_pick m d gamma = fold (\<lambda>q best. if binom_ge m q d \<ge> 1 - gamma then q else best) (quorums 1 m) 0"

definition frac :: "nat \<Rightarrow> int \<Rightarrow> int \<Rightarrow> int \<Rightarrow> int" where
  "frac m num den q_floor = max q_floor ((num * int m + den - 1) div den)"

definition knee :: "nat \<Rightarrow> int \<Rightarrow> int \<Rightarrow> int \<Rightarrow> int" where
  "knee m q_floor knee_at step = max q_floor (q_floor + max 0 (int m - knee_at) div step)"

definition CANDS :: "(string \<times> (nat \<Rightarrow> int)) list" where
  "CANDS =
     [(''flat q=3'', \<lambda>m. frac m 0 1 3), (''ceil(M/6)'', \<lambda>m. frac m 1 6 3), (''ceil(M/5)'', \<lambda>m. frac m 1 5 3),
      (''ceil(M/4)'', \<lambda>m. frac m 1 4 3), (''ceil(M/3)'', \<lambda>m. frac m 1 3 3), (''knee@8 step6'', \<lambda>m. knee m 3 8 6),
      (''knee@8 step4'', \<lambda>m. knee m 3 8 4), (''knee@6 step4'', \<lambda>m. knee m 3 6 4), (''shipped ceil(M/2)'', \<lambda>m. frac m 1 2 3)]"

definition MS :: "nat list" where "MS = [2..<21]"

definition c1_flat :: "(nat \<Rightarrow> int) \<Rightarrow> bool" where
  "c1_flat fn \<longleftrightarrow> list_all (\<lambda>m. fn m = 3) [2..<7]"

definition c2_honest :: "(nat \<Rightarrow> int) \<Rightarrow> bool" where
  "c2_honest fn \<longleftrightarrow> list_all (\<lambda>m. binom_ge m (fn m) P_OP \<le> BETA) MS"

definition c3_worst :: "(real \<Rightarrow> real) \<Rightarrow> (nat \<Rightarrow> int) \<Rightarrow> bool" where
  "c3_worst lg fn \<longleftrightarrow> list_all (\<lambda>m. betabinom_ge lg m (fn m) P_HI RHO \<le> BETA) [10, 15, 20]"

definition c4_ceiling :: "(nat \<Rightarrow> int) \<Rightarrow> bool" where
  "c4_ceiling fn \<longleftrightarrow> list_all (\<lambda>m. q_max_power_pick m 0.7 0.10 \<ge> 3 \<longrightarrow> fn m \<le> q_max_power_pick m 0.7 0.10) MS"

definition passes :: "(real \<Rightarrow> real) \<Rightarrow> (nat \<Rightarrow> int) \<Rightarrow> bool" where
  "passes lg fn \<longleftrightarrow> c1_flat fn \<and> c2_honest fn \<and> c3_worst lg fn"

subsection \<open>Lemmas: tails\<close>

lemma sum_upt: "sum_list (map f [a..<Suc m]) = (\<Sum>i = a..m. f i)" for f :: "nat \<Rightarrow> real"
  unfolding interv_sum_list_conv_sum_set_nat by (simp add: atLeastLessThanSuc_atLeastAtMost del: upt_Suc)

lemma binom_tail_sum: "binom_sf_ge m q p = (\<Sum>i = nat q..m. binom_term m p i)"
proof (cases "q \<le> 0")
  case True
  have "(p + (1 - p)) ^ m = (\<Sum>i = 0..m. binom_term m p i)"
    unfolding binomial_ring by (simp add: binom_term_def atMost_atLeast0)
  with True show ?thesis by (simp add: binom_sf_ge_def)
qed (simp add: binom_sf_ge_def sum_upt del: upt_Suc)

lemma binom_ge_same: "binom_ge m q p = binom_sf_ge m q p"
  by (simp add: binom_ge_def binom_sf_ge_def binom_term_def [abs_def])

lemma binom_tail_antitone:
  assumes "0 \<le> p" "p \<le> 1" "q \<le> r"
  shows "binom_sf_ge m r p \<le> binom_sf_ge m q p"
  unfolding binom_tail_sum using assms
  by (intro sum_mono2) (auto simp: binom_term_def)

text \<open>The probability that at least \<open>q\<close> of \<open>m\<close> organisations raise a candidate, each independently with probability \<open>p\<close>.\<close>

definition agreement_prob :: "nat \<Rightarrow> int \<Rightarrow> real \<Rightarrow> real" where
  "agreement_prob m q p = (\<Sum>S\<in>{S. S \<subseteq> {..<m} \<and> q \<le> int (card S)}. p ^ card S * (1 - p) ^ (m - card S))"

lemma binom_tail_is_agreement: "binom_sf_ge m q p = agreement_prob m q p"
proof -
  let ?A = "{S. S \<subseteq> {..<m} \<and> q \<le> int (card S)}" and ?w = "\<lambda>S :: nat set. p ^ card S * (1 - p) ^ (m - card S)"
  have fin: "finite ?A" by (rule finite_subset [of _ "Pow {..<m}"]) auto
  have img: "card ` ?A \<subseteq> {nat q..m}" using card_mono [of "{..<m}"] by fastforce
  have "agreement_prob m q p = (\<Sum>i = nat q..m. sum ?w {S \<in> ?A. card S = i})"
    unfolding agreement_prob_def by (rule sum.group [OF fin _ img, symmetric]) simp
  also have "\<dots> = (\<Sum>i = nat q..m. binom_term m p i)"
  proof (rule sum.cong [OF refl])
    fix i assume "i \<in> {nat q..m}"
    then have "{S \<in> ?A. card S = i} = {S. S \<subseteq> {..<m} \<and> card S = i}" by auto
    moreover have "sum ?w {S. S \<subseteq> {..<m} \<and> card S = i} = binom_term m p i" by (simp add: n_subsets binom_term_def)
    ultimately show "sum ?w {S \<in> ?A. card S = i} = binom_term m p i" by simp
  qed
  finally show ?thesis by (simp add: binom_tail_sum)
qed

subsection \<open>Lemmas: the searches\<close>

lemma find_sorted:
  fixes q :: "'a :: linorder"
  assumes "sorted xs" and "\<And>x y. x \<le> y \<Longrightarrow> P x \<Longrightarrow> P y" and "q \<in> set xs"
  shows "P q \<longleftrightarrow> (\<exists>lo. find P xs = Some lo \<and> lo \<le> q)"
proof
  assume "P q"
  with assms(3) obtain lo where "find P xs = Some lo" by (metis find_None_iff not_None_eq)
  moreover have "lo \<le> q" using assms(1,3) \<open>P q\<close> \<open>find P xs = Some lo\<close> by (induction xs) (auto split: if_splits)
  ultimately show "\<exists>lo. find P xs = Some lo \<and> lo \<le> q" by blast
qed (use assms(2) in \<open>auto simp: find_Some_iff\<close>)

lemma fold_last:
  fixes q :: "'a :: linorder"
  assumes "sorted xs" and "\<And>x y. x \<le> y \<Longrightarrow> P y \<Longrightarrow> P x" and "q \<in> set xs" and "b < q"
  shows "P q \<longleftrightarrow> q \<le> fold (\<lambda>x best. if P x then x else best) xs b"
  using assms
proof (induction xs rule: rev_induct)
  case (snoc x xs)
  let ?f = "fold (\<lambda>x best. if P x then x else best) xs b"
  have le: "?f \<in> insert b (set xs)" by (induction xs rule: rev_induct) auto
  show ?case
  proof (cases "q \<in> set xs")
    case True
    with snoc show ?thesis by (auto simp: sorted_append)
  next
    case False
    then have "q = x" using snoc.prems(3) by simp
    moreover have "\<forall>y \<in> set xs. y < x" using False \<open>q = x\<close> snoc.prems(1) by (auto simp: sorted_append order.strict_iff_order)
    then have "?f < x" using le snoc.prems(4) \<open>q = x\<close> by auto
    ultimately show ?thesis by auto
  qed
qed simp

lemma sorted_quorums: "sorted (quorums a m)"
  by (simp add: quorums_def sorted_map del: upt_Suc)

lemma in_quorums: "0 < a \<Longrightarrow> q \<in> set (quorums a m) \<longleftrightarrow> a \<le> q \<and> q \<le> int m"
  by (auto simp: quorums_def image_iff simp del: upt_Suc intro!: bexI [of _ "nat q"])

subsection \<open>Lemmas: the beta-binomial tail\<close>

lemma lg_pochhammer:
  assumes "\<And>x. 0 < x \<Longrightarrow> lg (x + 1) = lg x + ln x" and "0 < x"
  shows "lg (x + real n) = lg x + ln (pochhammer x n)"
proof (induction n)
  case (Suc n)
  have "lg (x + real (Suc n)) = lg (x + real n) + ln (x + real n)"
    using assms(1) [of "x + real n"] assms(2) by (simp add: algebra_simps)
  with Suc assms(2) pochhammer_pos [OF assms(2), of n] show ?case by (simp add: pochhammer_rec' ln_mult)
qed simp

lemma betabinom_term:
  assumes lg: "\<And>x. 0 < x \<Longrightarrow> lg (x + 1) = lg x + ln x" and "0 < a" "0 < b" "i \<le> m"
  shows "exp (ln (real (m choose i)) + lbeta lg (real i + a) (real (m - i) + b) - lbeta lg a b)
     = real (m choose i) * pochhammer a i * pochhammer b (m - i) / pochhammer (a + b) m"
proof -
  note at = lg_pochhammer [of lg, OF lg]
  have total: "real i + a + (real (m - i) + b) = a + b + real m" using assms(4) by (simp add: of_nat_diff)
  have parts: "lg (real i + a) = lg a + ln (pochhammer a i)" "lg (real (m - i) + b) = lg b + ln (pochhammer b (m - i))"
    "lg (a + b + real m) = lg (a + b) + ln (pochhammer (a + b) m)"
    using at [of a i] at [of b "m - i"] at [of "a + b" m] assms(2,3) by (simp_all add: add.commute)
  have "0 < real (m choose i)" "0 < pochhammer a i" "0 < pochhammer b (m - i)" "0 < pochhammer (a + b) m"
    using assms by (simp_all add: pochhammer_pos)
  moreover have eq: "ln (real (m choose i)) + lbeta lg (real i + a) (real (m - i) + b) - lbeta lg a b
     = ln (real (m choose i)) + ln (pochhammer a i) + ln (pochhammer b (m - i)) - ln (pochhammer (a + b) m)"
    unfolding lbeta_def total parts by simp
  ultimately show ?thesis unfolding eq by (simp add: exp_add exp_diff)
qed

text \<open>The tail at the design point, over the rising products of the parameters scaled by 500.\<close>

primrec rise :: "real \<Rightarrow> nat \<Rightarrow> real" where
  "rise x 0 = 1"
| "rise x (Suc n) = (x + 500 * real n) * rise x n"

lemma rise_pochhammer: "pochhammer (x / 500) n = rise x n / 500 ^ n"
  by (induction n) (simp_all add: pochhammer_rec' field_simps)

lemma rise_numeral: "rise x (numeral k) = (x + 500 * real (pred_numeral k)) * rise x (pred_numeral k)"
  by (simp add: numeral_eq_Suc)

lemma sum_list_over: "sum_list (map (\<lambda>i. f i / c) xs) = sum_list (map f xs) / c" for c :: real
  by (induction xs) (simp_all add: add_divide_distrib)

lemma worst_case_tail:
  assumes lg: "\<And>x. 0 < x \<Longrightarrow> lg (x + 1) = lg x + ln x" and "0 < q" "q \<le> int m"
  shows "betabinom_ge lg m q P_HI RHO
     = sum_list (map (\<lambda>i. real (m choose i) * rise 333 i * rise 4167 (m - i)) [nat q..<m + 1]) / rise 4500 m"
proof -
  have ab: "P_HI * ((1 - RHO) / RHO) = 333 / 500" "(1 - P_HI) * ((1 - RHO) / RHO) = 4167 / 500" "\<not> RHO \<le> 0"
    by (simp_all add: P_HI_def RHO_def)
  have sum9: "pochhammer (9 :: real) m = rise 4500 m / 500 ^ m"
    using rise_pochhammer [of 4500 m] by simp
  have "betabinom_ge lg m q P_HI RHO
     = sum_list (map (\<lambda>i. exp (ln (real (m choose i)) + lbeta lg (real i + 333 / 500) (real (m - i) + 4167 / 500)
         - lbeta lg (333 / 500) (4167 / 500))) [nat q..<m + 1])"
    using assms(2,3) ab(3) unfolding betabinom_ge_def Let_def ab(1,2) by (simp del: upt_Suc)
  also have "\<dots> = sum_list (map (\<lambda>i. real (m choose i) * pochhammer (333 / 500) i * pochhammer (4167 / 500) (m - i)
         / pochhammer (333 / 500 + 4167 / 500) m) [nat q..<m + 1])"
    by (intro arg_cong [of _ _ sum_list] map_cong refl betabinom_term [OF lg]) auto
  also have "\<dots> = sum_list (map (\<lambda>i. real (m choose i) * rise 333 i * rise 4167 (m - i) / rise 4500 m) [nat q..<m + 1])"
    by (intro arg_cong [of _ _ sum_list] map_cong) (auto simp: rise_pochhammer sum9 simp del: upt_Suc simp flip: power_add)
  finally show ?thesis by (simp add: sum_list_over del: upt_Suc)
qed

subsection \<open>Lemmas: the numbers of the design points\<close>

lemmas tail_eval = rise_numeral binomial_code fold_atLeastAtMost_nat.simps fact_numeral upt_rec_numeral

lemma worst_case_numbers:
  assumes lg: "\<And>x. 0 < x \<Longrightarrow> lg (x + 1) = lg x + ln x"
  shows "0.055 < betabinom_ge lg 8 3 P_HI RHO" and "0.069 < betabinom_ge lg 9 3 P_HI RHO"
    and "0.083 < betabinom_ge lg 10 3 P_HI RHO" and "betabinom_ge lg 10 4 P_HI RHO \<le> 0.036"
    and "0.054 < betabinom_ge lg 12 4 P_HI RHO" and "betabinom_ge lg 15 5 P_HI RHO \<le> 0.047"
    and "0.053 < betabinom_ge lg 20 6 P_HI RHO" and "betabinom_ge lg 20 7 P_HI RHO \<le> 0.033"
  by (simp_all add: worst_case_tail [OF lg] tail_eval)

lemma binom_tail_union:
  assumes "0 \<le> p" "p \<le> 1" "k \<le> m"
  shows "binom_sf_ge m (int k) p \<le> real (m choose k) * p ^ k"
proof -
  have "binom_term m p i \<le> real (m choose k) * p ^ k * binom_term (m - k) p (i - k)" if "k \<le> i" "i \<le> m" for i
  proof -
    have "(m choose i) * 1 \<le> (m choose i) * (i choose k)" using that by (intro mult_le_mono2) (simp add: Suc_leI)
    then have "real (m choose i) \<le> real (m choose k) * real ((m - k) choose (i - k))"
      using choose_mult [OF that] by (simp flip: of_nat_mult)
    then have "real (m choose i) * (p ^ i * (1 - p) ^ (m - i))
        \<le> real (m choose k) * real ((m - k) choose (i - k)) * (p ^ i * (1 - p) ^ (m - i))"
      using assms by (intro mult_right_mono) auto
    moreover have "p ^ i = p ^ k * p ^ (i - k)" "m - k - (i - k) = m - i" using that by (simp_all flip: power_add)
    ultimately show ?thesis by (simp add: binom_term_def mult.assoc mult.left_commute)
  qed
  then have "binom_sf_ge m (int k) p \<le> (\<Sum>i = k..m. real (m choose k) * p ^ k * binom_term (m - k) p (i - k))"
    by (auto simp: binom_tail_sum intro!: sum_mono)
  also have "\<dots> = real (m choose k) * p ^ k * binom_sf_ge (m - k) 0 p"
    unfolding sum.atLeastAtMost_shift_0 [OF assms(3)] by (simp add: binom_tail_sum sum_distrib_left)
  finally show ?thesis by (simp add: binom_sf_ge_def)
qed

text \<open>The honest tail stays within the budget at every population of the scan, for any schedule with the floor of three.\<close>

lemma honest_numbers:
  assumes "m \<in> set MS" and "3 \<le> q"
  shows "binom_ge m q P_OP \<le> BETA"
proof (cases "m < 3")
  case True
  with assms(2) show ?thesis by (simp add: binom_ge_def BETA_def)
next
  case False
  have p: "0 \<le> P_OP" "P_OP \<le> 1" by (simp_all add: P_OP_def)
  have "list_all (\<lambda>m. m choose 3 \<le> 1140) MS" by (simp add: MS_def tail_eval)
  with assms(1) have "real (m choose 3) * P_OP ^ 3 \<le> 1140 * P_OP ^ 3"
    using p by (intro mult_right_mono) (auto simp: list_all_iff)
  also have "\<dots> \<le> BETA" by (simp add: P_OP_def BETA_def power_divide)
  finally have "real (m choose 3) * P_OP ^ 3 \<le> BETA" .
  then show ?thesis
    using binom_tail_antitone [OF p assms(2), of m] binom_tail_union [OF p, of 3 m] False by (simp add: binom_ge_same)
qed

lemma worst_case_antitone:
  assumes lg: "\<And>x. 0 < x \<Longrightarrow> lg (x + 1) = lg x + ln x" and "0 < q" "q \<le> r" "r \<le> int m"
  shows "betabinom_ge lg m r P_HI RHO \<le> betabinom_ge lg m q P_HI RHO"
proof -
  have pos: "0 < rise x n" if "0 < x" for x n using that by (induction n) (simp_all add: add_pos_nonneg)
  have "(\<Sum>i = nat r..m. real (m choose i) * rise 333 i * rise 4167 (m - i))
      \<le> (\<Sum>i = nat q..m. real (m choose i) * rise 333 i * rise 4167 (m - i))"
    using assms(3) pos by (intro sum_mono2) (auto intro!: mult_nonneg_nonneg less_imp_le [OF pos])
  then show ?thesis
    using assms(2-4) pos [of 4500 m] unfolding worst_case_tail [OF lg, of q m] worst_case_tail [OF lg, of r m]
    by (simp add: worst_case_tail [OF lg] sum_upt divide_right_mono del: upt_Suc)
qed

lemma required_is_frac: "required_quorum (int m) QUORUM_FLOOR QUORUM_FRAC_NUM QUORUM_FRAC_DEN = Inr (frac m 1 3 3)"
  by (simp add: required_quorum_def QUORUM_FLOOR_def QUORUM_FRAC_NUM_def QUORUM_FRAC_DEN_def frac_def Let_def)

text \<open>The anchoring: the operating point is the window probability at one observation a day, and fourteen days stay in the band
  up to 1.75 observations a day.\<close>

lemma operating_point: "P_OP \<le> p_of_window 1 14 ARL0" and "p_of_window 1 14 ARL0 \<le> 0.028"
proof -
  have "1 + 0.028 + 0.028\<^sup>2 / 2 \<le> exp (0.028 :: real)" by (rule exp_lower_Taylor_quadratic) simp
  then have "exp (- 0.028) \<le> inverse (1.028392 :: real)" by (simp add: exp_minus power2_eq_square inverse_eq_divide divide_le_eq)
  then show "P_OP \<le> p_of_window 1 14 ARL0" by (simp add: P_OP_def p_of_window_def ARL0_def)
  show "p_of_window 1 14 ARL0 \<le> 0.028"
    using exp_ge_add_one_self [of "- 0.028"] by (simp add: p_of_window_def ARL0_def)
qed

lemma fourteen_days_in_band:
  assumes "0 < c" and "c \<le> 1.75"
  shows "ttl_in_band c"
proof -
  have "0.05 \<le> ln (1 / 0.95 :: real)" using ln_le_minus_one [of "0.95 :: real"] by (simp add: ln_div)
  with assms show ?thesis by (simp add: ttl_in_band_def ttl_ceiling_def D_ONSET_SPREAD_def ARL0_def le_divide_eq)
qed

subsection \<open>Properties\<close>

text \<open>The two searches bound exactly the feasible quorums. At every population, a quorum of at least two keeps both
  the false-positive budget and the miss budget, under independent organisations, precisely when it lies between what
  the first search finds and what the second returns; without a find no quorum is feasible.\<close>

theorem quorum_band_exact:
  assumes "0 \<le> p" "p \<le> 1" "0 \<le> d" "d \<le> 1" and "2 \<le> q" "q \<le> int m"
  shows "agreement_prob m q p \<le> beta \<and> 1 - gamma \<le> agreement_prob m q d \<longleftrightarrow>
    (\<exists>lo. q_min_fp m p beta = Some lo \<and> lo \<le> q \<and> q \<le> q_max_power m d gamma)"
proof -
  have "agreement_prob m q p \<le> beta \<longleftrightarrow> (\<exists>lo. q_min_fp m p beta = Some lo \<and> lo \<le> q)"
    unfolding q_min_fp_def binom_tail_is_agreement [symmetric]
    by (rule find_sorted [OF sorted_quorums])
      (use assms(5,6) binom_tail_antitone [OF assms(1,2)] in \<open>auto simp: in_quorums HARD_FLOOR_def intro: order_trans\<close>)
  moreover have "1 - gamma \<le> agreement_prob m q d \<longleftrightarrow> q \<le> q_max_power m d gamma"
    unfolding q_max_power_def binom_tail_is_agreement [symmetric]
    by (rule fold_last [OF sorted_quorums])
      (use assms(5,6) binom_tail_antitone [OF assms(3,4)] in \<open>auto simp: in_quorums intro: order_trans\<close>)
  ultimately show ?thesis by blast
qed

theorem quorum_band_exact_witness:
  "\<exists>lo. q_min_fp 3 0 (1 / 20) = Some lo \<and> lo \<le> 3 \<and> 3 \<le> q_max_power 3 1 (1 / 10)"
  using quorum_band_exact [of 0 1 3 3 "1 / 20" "1 / 10"]
  by (simp add: binom_tail_is_agreement [symmetric] binom_sf_ge_def binom_term_def)

text \<open>C17: What the calibration says of the quorum of the engine. The quorum of the engine is the candidate max(3, ceil(M/3)); of the nine
  candidates exactly that one and ceil(M/2) pass the checks of the picker (flat up to six organisations, the
  honest tail within the budget up to twenty, the worst-case tail at 10, 15 and 20). The worst-case tail is over the budget all the same at 8, 9 and
  12 organisations, which the picker does not evaluate. Assumed of \<^verbatim>\<open>math.lgamma\<close>: its functional equation.\<close>

theorem quorum_schedule_checks:
  assumes "\<And>x. 0 < x \<Longrightarrow> lg (x + 1) = lg x + ln x"
  shows "required_quorum (int m) QUORUM_FLOOR QUORUM_FRAC_NUM QUORUM_FRAC_DEN = Inr (frac m 1 3 3)
     \<and> map fst (filter (\<lambda>c. passes lg (snd c)) CANDS) = [''ceil(M/3)'', ''shipped ceil(M/2)'']
     \<and> list_all (\<lambda>m. BETA < betabinom_ge lg m (frac m 1 3 3) P_HI RHO) [8, 9, 12]"
proof -
  note num = worst_case_numbers [OF assms]
  have honest: "c2_honest fn" if "\<And>m. 3 \<le> fn m" for fn
    using that honest_numbers by (simp add: c2_honest_def list_all_iff)
  have third: "passes lg (\<lambda>m. frac m 1 3 3)"
    using num honest [of "\<lambda>m. frac m 1 3 3"] by (simp add: passes_def c1_flat_def c3_worst_def frac_def BETA_def upt_rec_numeral)
  have half: "passes lg (\<lambda>m. frac m 1 2 3)"
    using num worst_case_antitone [OF assms, of 4 5 10] worst_case_antitone [OF assms, of 5 8 15]
      worst_case_antitone [OF assms, of 7 10 20] honest [of "\<lambda>m. frac m 1 2 3"]
    by (simp add: passes_def c1_flat_def c3_worst_def frac_def BETA_def upt_rec_numeral)
  have flat: "\<not> passes lg fn" if "fn 10 = 3" for fn
    using num(3) that by (simp add: passes_def c3_worst_def BETA_def)
  have knee: "\<not> passes lg (\<lambda>m. knee m 3 6 4)"
    using num(7) by (simp add: passes_def c3_worst_def BETA_def knee_def)
  show ?thesis
    using third half knee num(1,2,5)
    by (simp add: required_is_frac CANDS_def flat) (simp add: flat frac_def knee_def BETA_def)
qed

text \<open>A function with the functional equation: the logarithms of the descending factors.\<close>

definition step_lgamma :: "real \<Rightarrow> real" where
  "step_lgamma x = sum_list (map (\<lambda>k. ln (x - real k)) [1..<nat \<lceil>x\<rceil>])"

lemma step_lgamma_Suc:
  assumes "0 < x"
  shows "step_lgamma (x + 1) = step_lgamma x + ln x"
proof -
  have "nat \<lceil>x + 1\<rceil> = Suc (nat \<lceil>x\<rceil>)" "1 \<le> nat \<lceil>x\<rceil>" using assms by (auto simp: ceiling_add_one) linarith+
  then have "[1..<nat \<lceil>x + 1\<rceil>] = 1 # map Suc [1..<nat \<lceil>x\<rceil>]" 
    using assms upt_conv_Cons [of 1 "Suc (nat \<lceil>x\<rceil>)"] by (simp add: map_Suc_upt del: upt_Suc)
  then show ?thesis by (simp add: step_lgamma_def comp_def algebra_simps)
qed

theorem quorum_schedule_checks_witness:
  "required_quorum 12 QUORUM_FLOOR QUORUM_FRAC_NUM QUORUM_FRAC_DEN = Inr 4 \<and> BETA < betabinom_ge step_lgamma 12 4 P_HI RHO"
  using quorum_schedule_checks [of step_lgamma 12, OF step_lgamma_Suc] by (auto simp: frac_def)

end
