(* ===== verification/WeatherWindows.thy ===== *)
theory WeatherWindows
  imports Weather Fleet CompareReport
begin

section \<open>Collection windows of archived weather (scripts/weather_window_stats.py)\<close>

text \<open>
  The figures a report may quote about one row of an archived weather snapshot: the span of its window, the cadence against the
  schedule of the probe workflow, its age and whether the published status fits that age. \<open>fromiso\<close> is
  \<^verbatim>\<open>datetime.fromisoformat\<close>, \<open>local\<close> the offset of the machine at a naive time, \<open>of_str\<close> and \<open>int_of_str\<close> are \<^verbatim>\<open>float\<close> and \<^verbatim>\<open>int\<close> of a string.
  Floats are reals, so a row whose numbers are not finite is outside the model (the gateway's encoder refuses them).
\<close>

subsection \<open>The schedule\<close>

definition DEGRADED_BELOW :: real where
  "DEGRADED_BELOW = 75 / 100"

definition DARK_BELOW :: real where
  "DARK_BELOW = 40 / 100"

text \<open>
  The matches of \<^verbatim>\<open>^\s*-\s*cron:\s*"([^"]+)"\<close> with \<^verbatim>\<open>re.MULTILINE\<close>: a match gives its group and what follows it. No class of the
  pattern overlaps the character after it, so matching needs no backtracking.
\<close>

definition expect :: "char \<Rightarrow> string \<Rightarrow> string option" where
  "expect c s = (case dropWhile is_space s of [] \<Rightarrow> None | x # rest \<Rightarrow> if x = c then Some rest else None)"

definition match_cron :: "string \<Rightarrow> (string \<times> string) option" where
  "match_cron s =
     Option.bind (expect (CHR ''-'') s) (\<lambda>s1.
       let s2 = dropWhile is_space s1
       in if take 5 s2 \<noteq> ''cron:'' then None
          else Option.bind (expect (CHR 0x22) (drop 5 s2)) (\<lambda>s3.
            let body = takeWhile (\<lambda>x. x \<noteq> CHR 0x22) s3
            in if body = [] \<or> length body = length s3 then None else Some (body, drop (Suc (length body)) s3)))"

lemma expect_shorter: "expect c s = Some rest \<Longrightarrow> length rest < length s"
  using length_dropWhile_le [of is_space s] by (auto simp: expect_def split: list.splits if_splits)

lemma match_cron_shorter: "match_cron s = Some (body, rest) \<Longrightarrow> length rest < length s"
proof -
  assume "match_cron s = Some (body, rest)"
  then obtain s1 s3 where m: "expect (CHR ''-'') s = Some s1" "expect (CHR 0x22) (drop 5 (dropWhile is_space s1)) = Some s3"
    "rest = drop (Suc (length body)) s3"
    by (auto simp: match_cron_def Let_def bind_eq_Some_conv split: if_splits)
  from expect_shorter [OF m(1)] expect_shorter [OF m(2)] m(3) length_dropWhile_le [of is_space s1] show ?thesis by simp
qed

function find_crons :: "bool \<Rightarrow> string \<Rightarrow> string list" where
  "find_crons line_start s =
     (case (if line_start then match_cron s else None) of
        Some (body, rest) \<Rightarrow> body # find_crons False rest
      | None \<Rightarrow> (case s of [] \<Rightarrow> [] | c # cs \<Rightarrow> find_crons (c = CHR 0x0A) cs))"
  by pat_completeness auto
termination
  by (relation "measure (\<lambda>(_, s). length s)") (auto split: if_splits dest: match_cron_shorter)

declare find_crons.simps [simp del]

text \<open>\<^verbatim>\<open>s.split()\<close> and \<^verbatim>\<open>s.split(c)\<close>.\<close>

fun split_space :: "string \<Rightarrow> string \<Rightarrow> string list" where
  "split_space cur [] = (if cur = [] then [] else [cur])"
| "split_space cur (c # cs) =
     (if is_space c then (if cur = [] then split_space [] cs else cur # split_space [] cs) else split_space (cur @ [c]) cs)"

fun split_at :: "(char \<Rightarrow> bool) \<Rightarrow> string \<Rightarrow> string list" where
  "split_at P [] = [[]]"
| "split_at P (c # cs) =
     (if P c then [] # split_at P cs
      else (case split_at P cs of [] \<Rightarrow> [[c]] | f # fs \<Rightarrow> (c # f) # fs))"

definition split_char :: "char \<Rightarrow> string \<Rightarrow> string list" where
  "split_char sep s = split_at (\<lambda>c. c = sep) s"

definition digits_only :: "string \<Rightarrow> bool" where
  "digits_only s \<longleftrightarrow> s \<noteq> [] \<and> list_all (\<lambda>c. CHR ''0'' \<le> c \<and> c \<le> CHR ''9'') s"

text \<open>The patterns \<^verbatim>\<open>\d+\<close> and \<^verbatim>\<open>\d+(,\d+)*\<close>, matched in full.\<close>

definition nominal_interval_hours :: "string \<Rightarrow> py_error + real" where
  "nominal_interval_hours text =
     (case find_crons True text of
        [cron] \<Rightarrow>
          (case split_space [] cron of
             [minute, hour, month_day, month, week_day] \<Rightarrow>
               if month_day \<noteq> ''*'' \<or> month \<noteq> ''*'' \<or> week_day \<noteq> ''*'' then Inl (RuntimeError ''cron is not a plain daily schedule'')
               else if \<not> digits_only minute then Inl (RuntimeError ''unsupported minute field'')
               else if \<not> list_all digits_only (split_char (CHR '','') hour) then Inl (RuntimeError ''unsupported hour field'')
               else Inr (24 / real (length (split_char (CHR '','') hour)))
           | _ \<Rightarrow> Inl (RuntimeError ''malformed cron''))
      | _ \<Rightarrow> Inl (RuntimeError ''expected exactly one cron line''))"

subsection \<open>One row\<close>

definition replace_Z :: "string \<Rightarrow> string" where
  "replace_Z s = concat (map (\<lambda>c. if c = CHR ''Z'' then ''+00:00'' else [c]) s)"

text \<open>\<^verbatim>\<open>_parse\<close>: an instant in UTC. A value that is no string has no \<^verbatim>\<open>replace\<close>.\<close>

definition parse_instant ::
  "(string \<Rightarrow> py_datetime option) \<Rightarrow> (py_datetime \<Rightarrow> int) \<Rightarrow> json \<Rightarrow> py_error + py_datetime" where
  "parse_instant fromiso local ts =
     (case ts of
        JStr s \<Rightarrow>
          (case fromiso (replace_Z s) of
             None \<Rightarrow> Inl (ValueError ''Invalid isoformat string'')
           | Some d \<Rightarrow> Inr (case dt_offset d of
                                None \<Rightarrow> \<lparr>dt_wall = dt_wall d - local d, dt_offset = Some 0\<rparr>
                              | Some off \<Rightarrow> \<lparr>dt_wall = dt_wall d - off, dt_offset = Some 0\<rparr>))
      | _ \<Rightarrow> Inl (AttributeError ''replace''))"

definition hours_between :: "py_datetime \<Rightarrow> py_datetime \<Rightarrow> real" where
  "hours_between a b = of_int (dt_utc b - dt_utc a) / 1000000 / 3600"

fun to_float :: "(string \<Rightarrow> real option) \<Rightarrow> json \<Rightarrow> py_error + real" where
  "to_float of_str (JInt i) = Inr (of_int i)"
| "to_float of_str (JFloat x) = Inr x"
| "to_float of_str (JBool b) = Inr (if b then 1 else 0)"
| "to_float of_str (JStr s) = (case of_str s of None \<Rightarrow> Inl (ValueError ''could not convert string to float'') | Some x \<Rightarrow> Inr x)"
| "to_float of_str JNonFinite = Inl (ValueError ''not finite'')"
| "to_float of_str _ = Inl (TypeError ''float() argument'')"

record leg_figures =
  lw_model_tuple :: string
  lw_published_status :: string
  lw_sample_count :: int
  lw_avg_output_length :: real
  lw_window_start :: json
  lw_window_end :: json
  lw_span_hours :: real
  lw_mean_interval_hours :: "real option"
  lw_nominal_interval_hours :: real
  lw_collection_rate :: "real option"
  lw_collection_class :: string
  lw_age_hours :: "real option"
  lw_age_source :: string
  lw_stale_after_hours :: real
  lw_status_agrees_with_age :: "bool option"
  lw_max_output_length :: int
  lw_saturation_upper_bound :: "real option"

record snapshot_env =
  sn_workflow :: string
  sn_fromiso :: "string \<Rightarrow> py_datetime option"
  sn_local :: "py_datetime \<Rightarrow> int"
  sn_float :: "string \<Rightarrow> real option"
  sn_int :: "string \<Rightarrow> int option"
  sn_repr :: "json \<Rightarrow> string"
  sn_loads :: "string \<Rightarrow> json option"
  sn_dumps :: "json \<Rightarrow> string"

fun leg_item :: "json \<Rightarrow> string \<Rightarrow> py_error + json" where
  "leg_item (JObj d) k = (case map_of d k of None \<Rightarrow> Inl (KeyError k) | Some v \<Rightarrow> Inr v)"
| "leg_item _ k = Inl (TypeError ''not subscriptable by a string'')"

text \<open>The samples bound one interval less; no interval, or one of length zero, gives no rate.\<close>

definition mean_interval :: "int \<Rightarrow> real \<Rightarrow> real option" where
  "mean_interval n width = (if n \<ge> 2 then Some (width / of_int (n - 1)) else None)"

definition collection_rate_of :: "real \<Rightarrow> real option \<Rightarrow> real option" where
  "collection_rate_of nominal interval =
     (case interval of None \<Rightarrow> None | Some i \<Rightarrow> if i = 0 then None else Some (nominal / i))"

definition collection_class_of :: "real option \<Rightarrow> string" where
  "collection_class_of rate =
     (case rate of
        None \<Rightarrow> ''UNDETERMINED''
      | Some x \<Rightarrow> if x < DARK_BELOW then ''DARK'' else if x < DEGRADED_BELOW then ''DEGRADED'' else ''NOMINAL'')"

text \<open>The age and where it comes from; a published age wins over the time of reading.\<close>

definition age_of ::
  "(string \<Rightarrow> real option) \<Rightarrow> json \<Rightarrow> py_datetime option \<Rightarrow> py_datetime \<Rightarrow> py_error + real option \<times> string" where
  "age_of of_str published read_at window_end =
     (if published \<noteq> JNull then map_sum id (\<lambda>x. (Some x, ''published'')) (to_float of_str published)
      else case read_at of
             Some t \<Rightarrow> Inr (Some (hours_between window_end t), ''derived from --read-at'')
           | None \<Rightarrow> Inr (None, ''unavailable''))"

definition status_agrees :: "string \<Rightarrow> real option \<Rightarrow> bool option" where
  "status_agrees status age = map_option (\<lambda>a. (status = ''STALE'') = (a > stale_after_hours)) age"

definition leg_window ::
  "snapshot_env \<Rightarrow> py_datetime option \<Rightarrow> real option \<Rightarrow> json \<Rightarrow> py_error + leg_figures" where
  "leg_window env read_at nominal leg =
     sum_bind (case nominal of None \<Rightarrow> nominal_interval_hours (sn_workflow env) | Some x \<Rightarrow> Inr x) (\<lambda>nominal.
     sum_bind (sum_bind (leg_item leg ''sample_count'') (to_int (sn_int env))) (\<lambda>n.
     sum_bind (sum_bind (leg_item leg ''window_start'') (parse_instant (sn_fromiso env) (sn_local env))) (\<lambda>start.
     sum_bind (sum_bind (leg_item leg ''window_end'') (parse_instant (sn_fromiso env) (sn_local env))) (\<lambda>end_at.
       let width = hours_between start end_at;
           interval = mean_interval n width;
           rate = collection_rate_of nominal interval
       in sum_bind (age_of (sn_float env) (obj_get leg ''window_age_hours'') read_at end_at) (\<lambda>(age, age_source).
          sum_bind (leg_item leg ''status'') (\<lambda>status.
          sum_bind (sum_bind (leg_item leg ''recent_avg_output_length'') (to_float (sn_float env))) (\<lambda>avg.
          sum_bind (leg_item leg ''model_tuple'') (\<lambda>model_tuple.
            Inr \<lparr>lw_model_tuple = to_str (sn_repr env) model_tuple, lw_published_status = to_str (sn_repr env) status,
                 lw_sample_count = n, lw_avg_output_length = avg, lw_window_start = obj_get leg ''window_start'',
                 lw_window_end = obj_get leg ''window_end'', lw_span_hours = width, lw_mean_interval_hours = interval,
                 lw_nominal_interval_hours = nominal, lw_collection_rate = rate,
                 lw_collection_class = collection_class_of rate, lw_age_hours = age, lw_age_source = age_source,
                 lw_stale_after_hours = stale_after_hours,
                 lw_status_agrees_with_age = status_agrees (to_str (sn_repr env) status) age,
                 lw_max_output_length = MAX_OUTPUT_LENGTH,
                 lw_saturation_upper_bound = (if MAX_OUTPUT_LENGTH = 0 then None else Some (avg / of_int MAX_OUTPUT_LENGTH))\<rparr>))))))))"

text \<open>What iterating over a decoded document gives.\<close>

fun json_iter :: "json \<Rightarrow> py_error + json list" where
  "json_iter (JArr xs) = Inr xs"
| "json_iter (JObj d) = Inr (map (\<lambda>(k, v). JStr k) d)"
| "json_iter (JStr s) = Inr (map (\<lambda>c. JStr [c]) s)"
| "json_iter _ = Inl (TypeError ''not iterable'')"

definition snapshot_windows :: "snapshot_env \<Rightarrow> string \<Rightarrow> py_datetime option \<Rightarrow> py_error + leg_figures list" where
  "snapshot_windows env text read_at =
     (case sn_loads env text of
        None \<Rightarrow> Inl (ValueError ''not JSON'')
      | Some rows \<Rightarrow>
          sum_bind (nominal_interval_hours (sn_workflow env)) (\<lambda>nominal.
          sum_bind (json_iter rows) (traverse (leg_window env read_at (Some nominal)))))"

subsection \<open>The report\<close>

definition fmt_hours :: "nat \<Rightarrow> real option \<Rightarrow> string" where
  "fmt_hours digits value = (case value of None \<Rightarrow> ''n/a'' | Some x \<Rightarrow> fixed_point digits x)"

definition bool_text :: "bool option \<Rightarrow> string" where
  "bool_text b = (case b of None \<Rightarrow> ''None'' | Some True \<Rightarrow> ''True'' | Some False \<Rightarrow> ''False'')"

definition leg_lines :: "snapshot_env \<Rightarrow> leg_figures \<Rightarrow> string list" where
  "leg_lines env w =
     [''['' @ lw_model_tuple w @ ''] published status '' @ lw_published_status w,
      ''  window            '' @ to_str (sn_repr env) (lw_window_start w),
      ''                 -> '' @ to_str (sn_repr env) (lw_window_end w),
      ''  samples           '' @ str_of_int (lw_sample_count w),
      ''  span              '' @ fmt_hours 2 (Some (lw_span_hours w)) @ '' h'',
      ''  mean interval     '' @ fmt_hours 2 (lw_mean_interval_hours w) @ '' h (nominal ''
        @ fmt_hours 2 (Some (lw_nominal_interval_hours w)) @ '' h)'',
      ''  collection rate   '' @ fmt_hours 4 (lw_collection_rate w) @ ''  -> '' @ lw_collection_class w,
      ''  age at read       '' @ fmt_hours 2 (lw_age_hours w) @ '' h ('' @ lw_age_source w @ '')'',
      ''  status agrees     '' @ bool_text (lw_status_agrees_with_age w),
      ''  avg_output_length '' @ sn_repr env (JFloat (lw_avg_output_length w)),
      ''  saturation bound  <= '' @ fmt_hours 4 (lw_saturation_upper_bound w) @ ''  (avg / ''
        @ str_of_int (lw_max_output_length w) @ '', upper bound, NOT measured)'',
      []]"

definition render :: "snapshot_env \<Rightarrow> string \<Rightarrow> leg_figures list \<Rightarrow> py_error + string list" where
  "render env name windows =
     sum_bind (nominal_interval_hours (sn_workflow env)) (\<lambda>nominal.
       Inr ([''snapshot: '' @ name,
             ''clamp MAX_OUTPUT_LENGTH = '' @ str_of_int MAX_OUTPUT_LENGTH @ '' (probe.privacy, live)'',
             ''STALE_AFTER_HOURS = '' @ sn_repr env (JFloat stale_after_hours) @ '' (gateway.main, live)'',
             ''nominal interval = '' @ fmt_hours 2 (Some nominal) @ '' h (probe_weather.yml cron, live)'',
             []]
            @ concat (map (leg_lines env) windows)
            @ [''A count of 10 is published by every leg above.  The counts are not the instrument; the window bounds are.'']))"

text \<open>\<^verbatim>\<open>asdict\<close>.\<close>

definition figures_json :: "leg_figures \<Rightarrow> json" where
  "figures_json w =
     (JObj [(''model_tuple'', JStr (lw_model_tuple w)), (''published_status'', JStr (lw_published_status w)),
        (''sample_count'', JInt (lw_sample_count w)), (''avg_output_length'', JFloat (lw_avg_output_length w)),
        (''window_start'', lw_window_start w), (''window_end'', lw_window_end w), (''span_hours'', JFloat (lw_span_hours w)),
        (''mean_interval_hours'', opt_json JFloat (lw_mean_interval_hours w)),
        (''nominal_interval_hours'', JFloat (lw_nominal_interval_hours w)),
        (''collection_rate'', opt_json JFloat (lw_collection_rate w)), (''collection_class'', JStr (lw_collection_class w)),
        (''age_hours'', opt_json JFloat (lw_age_hours w)), (''age_source'', JStr (lw_age_source w)),
        (''stale_after_hours'', JFloat (lw_stale_after_hours w)),
        (''status_agrees_with_age'', (case lw_status_agrees_with_age w of None \<Rightarrow> JNull | Some b \<Rightarrow> JBool b)),
        (''max_output_length'', JInt (lw_max_output_length w)),
        (''saturation_upper_bound'', opt_json JFloat (lw_saturation_upper_bound w))])"

text \<open>
  The snapshots by name and text, one after the other: the lines printed so far, and the error that ended the run or the
  summary by file name.
\<close>

fun summarise ::
  "snapshot_env \<Rightarrow> py_datetime option \<Rightarrow> (string \<times> string) list \<Rightarrow> (string, json) dict
    \<Rightarrow> string list \<times> (py_error + (string, json) dict)" where
  "summarise env read_at [] summary = ([], Inr summary)"
| "summarise env read_at ((name, text) # files) summary =
     (case sum_bind (snapshot_windows env text read_at)
             (\<lambda>windows. sum_bind (render env name windows) (\<lambda>lines. Inr (windows, lines))) of
        Inl e \<Rightarrow> ([], Inl e)
      | Inr (windows, lines) \<Rightarrow>
          (case summarise env read_at files (AList.update name (JArr (map figures_json windows)) summary) of
             (printed, r) \<Rightarrow> (lines @ printed, r)))"

text \<open>The command: what is printed, and the exit code with the file it wrote.\<close>

definition windows_main ::
  "snapshot_env \<Rightarrow> string option \<Rightarrow> (string \<times> string) list \<Rightarrow> string option \<Rightarrow> string
    \<Rightarrow> string list \<times> (py_error + int \<times> (string \<times> string) option)" where
  "windows_main env read_at snapshots out stamp =
     (case (if read_at \<in> {None, Some []} then Inr None
            else map_sum id Some (parse_instant (sn_fromiso env) (sn_local env) (JStr (the read_at)))) of
        Inl e \<Rightarrow> ([], Inl e)
      | Inr t \<Rightarrow>
          (case summarise env t snapshots [] of
             (printed, Inl e) \<Rightarrow> (printed, Inl e)
           | (printed, Inr summary) \<Rightarrow>
               if out \<in> {None, Some []} then (printed, Inr (0, None))
               else (let path = the out @ ''/weather_windows_'' @ stamp @ ''.json''
                     in (printed @ [''wrote '' @ path], Inr (0, Some (path, sn_dumps env (JObj summary) @ [CHR 0x0A]))))))"

subsection \<open>The shipped schedule\<close>

text \<open>The schedule lines of the workflow, comment included, and a comment line that only mentions a schedule.\<close>

definition shipped_schedule :: string where
  "shipped_schedule = ''on:'' @ [CHR 0x0A] @ ''  # - cron: every day'' @ [CHR 0x0A] @ ''  schedule:'' @ [CHR 0x0A] @ ''    - cron: '' @ [CHR 0x22]
     @ ''17 5,17 * * *'' @ [CHR 0x22] @ ''  # 2x/day steady state'' @ [CHR 0x0A]"

lemma shipped_crons: "find_crons True shipped_schedule = [''17 5,17 * * *'']"
  by code_simp

lemma shipped_interval: "nominal_interval_hours shipped_schedule = Inr 12"
proof -
  have "split_space [] ''17 5,17 * * *'' = [''17'', ''5,17'', ''*'', ''*'', ''*'']" "split_char (CHR '','') ''5,17'' = [''5'', ''17'']"
    "digits_only ''17'' \<and> digits_only ''5''"
    by code_simp+
  then show ?thesis by (simp add: nominal_interval_hours_def shipped_crons)
qed

subsection \<open>Properties\<close>

text \<open>The row of the weather endpoint as a document; a missing value is \<^verbatim>\<open>null\<close>.\<close>

definition published_row :: "(py_datetime \<Rightarrow> string) \<Rightarrow> weather_response \<Rightarrow> json" where
  "published_row toiso w =
     (JObj [(''model_tuple'', JStr (wr_model_tuple w)), (''status'', JStr (wr_status w)),
        (''last_alert_timestamp'', opt_json (\<lambda>d. JStr (toiso d)) (wr_last_alert_timestamp w)),
        (''recent_avg_output_length'', opt_json JFloat (wr_recent_avg_output_length w)),
        (''recent_json_success_rate'', opt_json JFloat (wr_recent_json_success_rate w)),
        (''sample_count'', JInt (wr_sample_count w)), (''json_sample_count'', JInt (wr_json_sample_count w)),
        (''length_sample_count'', JInt (wr_length_sample_count w)),
        (''window_start'', opt_json (\<lambda>d. JStr (toiso d)) (wr_window_start w)),
        (''window_end'', opt_json (\<lambda>d. JStr (toiso d)) (wr_window_end w)),
        (''window_age_hours'', opt_json JFloat (wr_window_age_hours w))])"

lemma weather_window:
  assumes "compute_model_weather ops r now mt = Inr w" and "ro_get_recent_signals ops r mt 10 \<noteq> []"
  defines "stamps \<equiv> map sr_timestamp (ro_get_recent_signals ops r mt 10)"
  shows "wr_window_start w = Some (\<lparr>dt_wall = Min (set stamps), dt_offset = Some 0\<rparr>)"
    and "wr_window_end w = Some (\<lparr>dt_wall = Max (set stamps), dt_offset = Some 0\<rparr>)"
    and "wr_window_age_hours w = Some (of_int (now - Max (set stamps)) / 3600000000)"
    and "wr_status w = weather_status (ro_get_recent_alerts ops r now mt 24) stamps now"
    and "wr_recent_avg_output_length w = Weather.mean_of (List.map_filter sr_avg_output_length (ro_get_recent_signals ops r mt 10))"
    and "wr_sample_count w = int (length stamps)" and "wr_model_tuple w = mt"
proof -
  have w: "Inr w = compute_model_weather ops r now mt" and ne: "stamps \<noteq> []" using assms by simp_all
  show "wr_window_start w = Some (\<lparr>dt_wall = Min (set stamps), dt_offset = Some 0\<rparr>)"
    "wr_window_end w = Some (\<lparr>dt_wall = Max (set stamps), dt_offset = Some 0\<rparr>)"
    "wr_window_age_hours w = Some (of_int (now - Max (set stamps)) / 3600000000)"
    using w ne by (simp_all add: compute_model_weather_def weather_post_init_def Let_def stamps_def split: if_splits)
  show "wr_status w = weather_status (ro_get_recent_alerts ops r now mt 24) stamps now"
    "wr_recent_avg_output_length w = Weather.mean_of (List.map_filter sr_avg_output_length (ro_get_recent_signals ops r mt 10))"
    "wr_sample_count w = int (length stamps)" "wr_model_tuple w = mt"
    using w compute_model_weather_eq [of ops r now mt] by (auto simp: stamps_def)
qed

lemma weather_no_window:
  assumes "compute_model_weather ops r now mt = Inr w" and "ro_get_recent_signals ops r mt 10 = []"
  shows "wr_window_start w = None"
  using sym [OF assms(1)] assms(2) by (simp add: compute_model_weather_def weather_post_init_def Let_def split: if_splits)

text \<open>C36: What the instrument reads from a row of the gateway. When the gateway published a window and an average, the figures
  are those of the window: its length in hours, the published age, and a status that agrees with the age except when a model is
  DRIFTING on data older than the limit. A row without samples, or without an average, ends the
  instrument with an exception. Assumed: UTC dates read back from their own text.\<close>

theorem published_row_figures:
  assumes "compute_model_weather ops r now mt = Inr w" and "\<And>t. sn_fromiso env (replace_Z (toiso (utc t))) = Some (utc t)"
  defines "signals \<equiv> ro_get_recent_signals ops r mt 10"
  defines "lengths \<equiv> List.map_filter sr_avg_output_length signals" and "stamps \<equiv> set (map sr_timestamp signals)"
  shows "if signals = [] \<or> lengths = [] then \<exists>e. leg_window env read_at (Some nominal) (published_row toiso w) = Inl e
    else \<exists>f. leg_window env read_at (Some nominal) (published_row toiso w) = Inr f \<and> lw_model_tuple f = mt
      \<and> lw_sample_count f = int (length signals) \<and> lw_span_hours f = of_int (Max stamps - Min stamps) / 3600000000
      \<and> lw_age_source f = ''published'' \<and> lw_age_hours f = Some (of_int (now - Max stamps) / 3600000000)
      \<and> lw_status_agrees_with_age f = Some (\<not> (wr_status w = ''DRIFTING'' \<and> now - Max stamps > hours_us 30))"
proof (cases "signals = []")
  case True
  then show ?thesis
    using weather_no_window [OF assms(1)]
    by (auto simp: signals_def leg_window_def published_row_def Let_def parse_instant_def obj_get_item opt_json_def)
next
  case False
  note w = weather_window [OF assms(1) False [unfolded signals_def], folded signals_def]
  show ?thesis
  proof (cases "lengths = []")
    case True
    then show ?thesis
      using w assms(2) [unfolded utc_def] by (auto simp: leg_window_def published_row_def Let_def parse_instant_def dict_get_def age_of_def lengths_def Weather.mean_of_def opt_json_def)
  next
    case len: False
    then obtain avg where avg: "wr_recent_avg_output_length w = Some avg" using w(5) by (simp add: lengths_def Weather.mean_of_def)
    define e where "e = Max (set (map sr_timestamp signals))"
    define b where "b = Min (set (map sr_timestamp signals))"
    obtain f where f: "leg_window env read_at (Some nominal) (published_row toiso w) = Inr f" "lw_model_tuple f = wr_model_tuple w"
      "lw_sample_count f = wr_sample_count w" "lw_age_source f = ''published''"
      "lw_span_hours f = hours_between \<lparr>dt_wall = b, dt_offset = Some 0\<rparr> \<lparr>dt_wall = e, dt_offset = Some 0\<rparr>"
      "lw_age_hours f = wr_window_age_hours w" "lw_status_agrees_with_age f = status_agrees (wr_status w) (wr_window_age_hours w)"
      using w(1-3) [folded e_def b_def] assms(2) [unfolded utc_def] avg
      by (simp add: leg_window_def published_row_def parse_instant_def dict_get_def age_of_def opt_json_def Let_def)
    have "of_int (now - e) / 3600000000 > stale_after_hours \<longleftrightarrow> hours_us 30 < now - e"
      using age_threshold [of now e] by (simp add: pos_less_divide_eq)
    then have "lw_status_agrees_with_age f = Some (\<not> (wr_status w = ''DRIFTING'' \<and> now - e > hours_us 30))"
      using w(3,4) [folded e_def] False by (auto simp: f(7) status_agrees_def weather_status_def e_def)
    moreover have "lw_span_hours f = of_int (e - b) / 3600000000" by (simp add: f(5) hours_between_def dt_utc_def)
    ultimately show ?thesis
      using f(1-4) f(6) w(3,6,7) False len by (intro if_not_P [THEN iffD2]) (auto simp: stamps_def e_def b_def)
  qed
qed

definition example_snapshot_env :: snapshot_env where
  "example_snapshot_env = \<lparr>sn_workflow = [],
     sn_fromiso = (\<lambda>s. Some (utc (if s \<noteq> [] \<and> hd s = CHR ''b'' then - int (length s) else int (length s)))), sn_local = (\<lambda>_. 0),
     sn_float = (\<lambda>_. None), sn_int = (\<lambda>_. None), sn_repr = (\<lambda>_. []), sn_loads = (\<lambda>_. None), sn_dumps = (\<lambda>_. [])\<rparr>"

definition signed_stamp :: "py_datetime \<Rightarrow> string" where
  "signed_stamp d = (if dt_wall d < 0 then replicate (nat (- dt_wall d)) (CHR ''b'') else replicate (nat (dt_wall d)) (CHR ''a''))"

lemma signed_stamp_reads: "sn_fromiso example_snapshot_env (replace_Z (signed_stamp (utc t))) = Some (utc t)"
proof -
  have "concat (map (\<lambda>c. if c = CHR ''Z'' then u else [c]) (replicate n c)) = replicate n c" if "c \<noteq> CHR ''Z''" for n c u
    using that by (induction n) auto
  then show ?thesis by (auto simp: example_snapshot_env_def signed_stamp_def replace_Z_def utc_def)
qed

theorem published_row_figures_witness:
  "\<exists>w f. compute_model_weather sqlite_ops (save_batch empty_db 0 ((example_batch ''a'' None)\<lparr>ib_metrics := [(''avg_output_length'', 5)]\<rparr>)) (hours_us 31) ''m'' = Inr w
     \<and> leg_window example_snapshot_env None (Some 12) (published_row signed_stamp w) = Inr f
     \<and> lw_age_hours f = Some 31 \<and> lw_status_agrees_with_age f = Some True"
proof -
  let ?db = "save_batch empty_db 0 ((example_batch ''a'' None)\<lparr>ib_metrics := [(''avg_output_length'', 5)]\<rparr>)"
  obtain w where w: "compute_model_weather sqlite_ops ?db (hours_us 31) ''m'' = Inr w"
    using compute_model_weather_eq [of sqlite_ops ?db "hours_us 31" "''m''"] by blast
  have stored: "map sr_timestamp (ro_get_recent_signals sqlite_ops ?db ''m'' 10) = [0]"
    "List.map_filter sr_avg_output_length (ro_get_recent_signals sqlite_ops ?db ''m'' 10) = [5]"
    "ro_get_recent_alerts sqlite_ops ?db (hours_us 31) ''m'' 24 = []"
    by (simp_all add: sqlite_ops_def get_recent_signals_def get_recent_alerts_def save_batch_def empty_db_def example_batch_def order_desc_def
        row_of_signal_def Let_def List.map_filter_def)
  then have "ro_get_recent_signals sqlite_ops ?db ''m'' 10 \<noteq> []" by auto
  with stored published_row_figures [OF w signed_stamp_reads, of None 12] weather_window [OF w] w show ?thesis
    by (auto simp: hours_us_def weather_status_def)
qed

lemma gaps_sum:
  fixes ts :: "real list"
  assumes "ts \<noteq> []" and "\<And>i. Suc i < length ts \<Longrightarrow> ts ! Suc i - ts ! i \<le> g"
  shows "last ts - hd ts \<le> real (length ts - 1) * g"
  using assms
proof (induction ts rule: induct_list012)
  case (3 a b ts)
  have "last (b # ts) - hd (b # ts) \<le> real (length (b # ts) - 1) * g"
  proof (rule "3.IH"(2))
    show "(b # ts) ! Suc i - (b # ts) ! i \<le> g" if "Suc i < length (b # ts)" for i
      using "3.prems"(2) [of "Suc i"] that by simp
  qed simp
  moreover have "b - a \<le> g" using "3.prems"(2) [of 0] by simp
  ultimately show ?case by (simp add: algebra_simps)
qed simp_all

definition cadence_of :: "real \<Rightarrow> int \<Rightarrow> real \<Rightarrow> string" where
  "cadence_of nominal n width = collection_class_of (collection_rate_of nominal (mean_interval n width))"

lemma cadence_bands:
  assumes "0 < nominal" and "0 < width" and "2 \<le> n"
  shows "cadence_of nominal n width = ''NOMINAL'' \<longleftrightarrow> width \<le> of_int (n - 1) * (nominal * 4 / 3)"
    and "cadence_of nominal n width = ''DARK'' \<longleftrightarrow> width > of_int (n - 1) * (nominal * 5 / 2)"
  using assms
  by (auto simp: cadence_of_def collection_class_of_def collection_rate_of_def mean_interval_def DARK_BELOW_def DEGRADED_BELOW_def field_simps)

text \<open>The cadence bands mean what the report says of a leg. Let a leg have sampled at increasing times (in hours) and the nominal
  interval be positive. When no gap exceeded the nominal interval by more than a third it is NOMINAL; when it is DARK, some gap exceeded
  two and a half nominal intervals; and the count of samples alone never decides: for every count from two, some
  windows are NOMINAL and some are DARK.\<close>

theorem cadence_reads_gaps:
  fixes ts :: "real list"
  assumes "0 < nominal" and "sorted_wrt (<) ts" and "2 \<le> length ts"
  shows "((\<forall>i. Suc i < length ts \<longrightarrow> ts ! Suc i - ts ! i \<le> nominal * 4 / 3) \<longrightarrow> cadence_of nominal (int (length ts)) (last ts - hd ts) = ''NOMINAL'')
    \<and> (cadence_of nominal (int (length ts)) (last ts - hd ts) = ''DARK'' \<longrightarrow> (\<exists>i. Suc i < length ts \<and> ts ! Suc i - ts ! i > nominal * 5 / 2))
    \<and> (\<exists>width. cadence_of nominal (int (length ts)) width = ''NOMINAL'') \<and> (\<exists>width. cadence_of nominal (int (length ts)) width = ''DARK'')"
proof -
  let ?n = "int (length ts)" and ?w = "last ts - hd ts"
  have ne: "ts \<noteq> []" and n: "2 \<le> ?n" "real (length ts - 1) = of_int (?n - 1)" using assms(3) by auto
  have "hd ts < last ts"
    using sorted_wrt_nth_less [OF assms(2), of 0 "length ts - 1"] assms(3) ne by (simp add: hd_conv_nth last_conv_nth)
  then have w: "0 < ?w" by simp
  have pos: "0 < of_int (?n - 1) * (nominal * c)" if "0 < c" for c using n assms(1) that by simp
  have "cadence_of nominal ?n (of_int (?n - 1) * (nominal * 1)) = ''NOMINAL''" "cadence_of nominal ?n (of_int (?n - 1) * (nominal * 3)) = ''DARK''"
    using cadence_bands(1) [OF assms(1) pos [of 1] n(1)] cadence_bands(2) [OF assms(1) pos [of 3] n(1)] n(1) assms(1) by simp_all
  moreover have "cadence_of nominal ?n ?w = ''NOMINAL''" if "\<forall>i. Suc i < length ts \<longrightarrow> ts ! Suc i - ts ! i \<le> nominal * 4 / 3"
    using gaps_sum [OF ne, of "nominal * 4 / 3"] that n(2) cadence_bands(1) [OF assms(1) w n(1)] by simp
  moreover have "\<exists>i. Suc i < length ts \<and> ts ! Suc i - ts ! i > nominal * 5 / 2" if "cadence_of nominal ?n ?w = ''DARK''"
    using gaps_sum [OF ne, of "nominal * 5 / 2"] that n(2) cadence_bands(2) [OF assms(1) w n(1)] by (metis not_le)
  ultimately show ?thesis by blast
qed

theorem cadence_reads_gaps_witness:
  "cadence_of 12 10 (last (map (\<lambda>i. 12 * real i) [0..<10]) - hd (map (\<lambda>i. 12 * real i) [0..<10])) = ''NOMINAL''"
proof -
  have "sorted_wrt (<) (map (\<lambda>i. 12 * real i) [0..<10])" by (simp add: sorted_wrt_map)
  from cadence_reads_gaps [OF _ this, of 12] show ?thesis by (auto simp: nth_Cons' upt_rec)
qed

end
