(* ===== verification/ClampStudy.thy ===== *)
theory ClampStudy
  imports WeatherWindows
begin

section \<open>The clamp instrument (scripts/measure_clamp_saturation.py)\<close>

text \<open>
  How much of a length signal survives the clamp of the probe: reading of two run files, the three deltas of a
  comparison (raw, clamped, clamped with one draw of the noise), the share of records at the cap, and the command that writes
  the result. The generators are \<open>'g\<close> with \<open>expo\<close> and \<open>gauss\<close>; \<open>seeded\<close> is \<^verbatim>\<open>random.Random(seed)\<close>. Printing is left out.
\<close>

subsection \<open>Figures\<close>

definition UNINTERPRETABLE_AT :: real where
  "UNINTERPRETABLE_AT = 95 / 100"

definition PRODUCTION_FLUSH_N :: int where
  "PRODUCTION_FLUSH_N = 50"

definition scale_for :: "int \<Rightarrow> py_error + real" where
  "scale_for n = sum_bind (metric_sensitivity ''avg_output_length'' n) (\<lambda>s. Inr (s / EPSILON))"

definition mean_values :: "real list \<Rightarrow> py_error + real" where
  "mean_values values =
     (if values = [] then Inl (ValueError ''mean of an empty sequence'') else Inr (sum_list values / real (length values)))"

definition clamp :: "real list \<Rightarrow> real list" where
  "clamp values = map (\<lambda>v. max 0 (min v (of_int MAX_OUTPUT_LENGTH))) values"

definition saturation :: "real list \<Rightarrow> py_error + real" where
  "saturation values =
     (if values = [] then Inl ZeroDivisionError
      else Inr (real (length (filter (\<lambda>v. v \<ge> of_int MAX_OUTPUT_LENGTH) values)) / real (length values)))"

record clamp_figures =
  cf_n_compared :: real
  cf_n_flush :: real
  cf_noise_scale_paired :: real
  cf_noise_scale_flush :: real
  cf_mean_a_raw :: real
  cf_mean_b_raw :: real
  cf_delta_raw :: real
  cf_mean_a_clamped :: real
  cf_mean_b_clamped :: real
  cf_delta_clamped :: real
  cf_delta_clamped_noised :: real
  cf_saturation_a :: real
  cf_saturation_b :: real
  cf_signal_to_noise_flush :: real
  cf_signal_to_noise_paired :: real

definition compare_lengths ::
  "(real \<Rightarrow> 'g \<Rightarrow> real \<times> 'g) \<Rightarrow> real list \<Rightarrow> real list \<Rightarrow> 'g \<Rightarrow> int \<Rightarrow> py_error + clamp_figures \<times> 'g" where
  "compare_lengths expo a b g flush_n =
     (let n = int (length a); ca = clamp a; cb = clamp b
      in sum_bind (scale_for n) (\<lambda>paired. sum_bind (scale_for flush_n) (\<lambda>flush.
         sum_bind (mean_values ca) (\<lambda>mca. let (xa, g) = laplace_noise expo flush g in
         sum_bind (mean_values cb) (\<lambda>mcb. let (xb, g) = laplace_noise expo flush g in
         sum_bind (mean_values a) (\<lambda>ma. sum_bind (mean_values b) (\<lambda>mb.
         sum_bind (saturation a) (\<lambda>sa. sum_bind (saturation b) (\<lambda>sb.
           Inr (\<lparr>cf_n_compared = of_int n, cf_n_flush = of_int flush_n, cf_noise_scale_paired = paired, cf_noise_scale_flush = flush,
                 cf_mean_a_raw = ma, cf_mean_b_raw = mb, cf_delta_raw = mb - ma, cf_mean_a_clamped = mca, cf_mean_b_clamped = mcb,
                 cf_delta_clamped = mcb - mca, cf_delta_clamped_noised = (mcb + xb) - (mca + xa), cf_saturation_a = sa,
                 cf_saturation_b = sb, cf_signal_to_noise_flush = \<bar>mcb - mca\<bar> / flush,
                 cf_signal_to_noise_paired = \<bar>mcb - mca\<bar> / paired\<rparr>, g))))))))))"

definition clamp_verdict :: "real \<Rightarrow> real \<Rightarrow> string" where
  "clamp_verdict sat_a sat_b = (if max sat_a sat_b \<ge> UNINTERPRETABLE_AT then ''UNINTERPRETABLE'' else ''INTERPRETABLE'')"

subsection \<open>Reading a run\<close>

text \<open>
  The lines of a file opened with \<^verbatim>\<open>newline=""\<close>, without the blank ones: a line ends at a carriage return, a line feed or
  both, and the empty line between the two is dropped with the blank ones.
\<close>

definition text_lines :: "string \<Rightarrow> string list" where
  "text_lines text = filter (\<lambda>l. strip l \<noteq> []) (split_at (\<lambda>c. c = CHR 0x0D \<or> c = CHR 0x0A) text)"

definition index_error :: py_error where
  "index_error = OtherException ''IndexError'' ''list index out of range''"

definition field_at :: "string list \<Rightarrow> nat \<Rightarrow> py_error + string" where
  "field_at cells i = (if i < length cells then Inr (cells ! i) else Inl index_error)"

fun index_of :: "string \<Rightarrow> string list \<Rightarrow> py_error + nat" where
  "index_of x [] = Inl (ValueError ''not in list'')"
| "index_of x (y # ys) = (if x = y then Inr 0 else map_sum id Suc (index_of x ys))"

fun read_rows ::
  "(string \<Rightarrow> int option) \<Rightarrow> nat \<Rightarrow> nat \<Rightarrow> nat \<Rightarrow> string list \<Rightarrow> (string, int) dict \<Rightarrow> py_error + (string, int) dict" where
  "read_rows int_of i_id i_cat i_len [] out = Inr out"
| "read_rows int_of i_id i_cat i_len (line # lines) out =
     (let cells = split_char (CHR '','') line
      in sum_bind (field_at cells i_cat) (\<lambda>cat.
         if cat = ''tool_calling'' then read_rows int_of i_id i_cat i_len lines out
         else sum_bind (field_at cells i_len) (\<lambda>len. sum_bind (to_int int_of (JStr len)) (\<lambda>n.
              sum_bind (field_at cells i_id) (\<lambda>pid. read_rows int_of i_id i_cat i_len lines (AList.update pid n out))))))"

definition read_lengths :: "(string \<Rightarrow> int option) \<Rightarrow> string \<Rightarrow> py_error + (string, int) dict" where
  "read_lengths int_of text =
     (case text_lines text of
        [] \<Rightarrow> Inl index_error
      | header # lines \<Rightarrow>
          let cells = split_char (CHR '','') header
          in sum_bind (index_of ''prompt_id'' cells) (\<lambda>i_id. sum_bind (index_of ''category'' cells) (\<lambda>i_cat.
             sum_bind (index_of ''output_length'' cells) (\<lambda>i_len. read_rows int_of i_id i_cat i_len lines []))))"

subsection \<open>The command\<close>

text \<open>A corpus of similar long answers, and the same scaled.\<close>

fun gauss_draws :: "(real \<Rightarrow> real \<Rightarrow> 'g \<Rightarrow> real \<times> 'g) \<Rightarrow> real \<Rightarrow> real \<Rightarrow> nat \<Rightarrow> 'g \<Rightarrow> real list" where
  "gauss_draws gauss mu sd 0 g = []"
| "gauss_draws gauss mu sd (Suc n) g = (case gauss mu sd g of (x, g) \<Rightarrow> max 1 x # gauss_draws gauss mu sd n g)"

definition synthetic ::
  "(real \<Rightarrow> real \<Rightarrow> 'g \<Rightarrow> real \<times> 'g) \<Rightarrow> (int \<Rightarrow> 'g) \<Rightarrow> real \<Rightarrow> real \<Rightarrow> real \<Rightarrow> nat \<Rightarrow> int \<Rightarrow> real list \<times> real list" where
  "synthetic gauss seeded mean_l cv ratio n seed =
     (let base = gauss_draws gauss mean_l (mean_l * cv) n (seeded seed) in (base, map (\<lambda>v. v * ratio) base))"

definition clamp_figures_json :: "clamp_figures \<Rightarrow> (string, json) dict" where
  "clamp_figures_json f =
     [(''n_compared'', JFloat (cf_n_compared f)), (''n_flush'', JFloat (cf_n_flush f)),
      (''noise_scale_paired'', JFloat (cf_noise_scale_paired f)), (''noise_scale_flush'', JFloat (cf_noise_scale_flush f)),
      (''mean_a_raw'', JFloat (cf_mean_a_raw f)), (''mean_b_raw'', JFloat (cf_mean_b_raw f)), (''delta_raw'', JFloat (cf_delta_raw f)),
      (''mean_a_clamped'', JFloat (cf_mean_a_clamped f)), (''mean_b_clamped'', JFloat (cf_mean_b_clamped f)),
      (''delta_clamped'', JFloat (cf_delta_clamped f)), (''delta_clamped_noised'', JFloat (cf_delta_clamped_noised f)),
      (''saturation_a'', JFloat (cf_saturation_a f)), (''saturation_b'', JFloat (cf_saturation_b f)),
      (''signal_to_noise_flush'', JFloat (cf_signal_to_noise_flush f)),
      (''signal_to_noise_paired'', JFloat (cf_signal_to_noise_paired f))]"

fun shape_rows ::
  "(real \<Rightarrow> 'g \<Rightarrow> real \<times> 'g) \<Rightarrow> (real \<Rightarrow> real \<Rightarrow> 'g \<Rightarrow> real \<times> 'g) \<Rightarrow> (int \<Rightarrow> 'g) \<Rightarrow> real \<Rightarrow> nat \<Rightarrow> int
    \<Rightarrow> (real \<times> real) list \<Rightarrow> 'g \<Rightarrow> py_error + json list" where
  "shape_rows expo gauss seeded ratio n seed [] g = Inr []"
| "shape_rows expo gauss seeded ratio n seed ((mean_l, cv) # shapes) g =
     (case synthetic gauss seeded mean_l cv ratio n seed of
        (sa, sb) \<Rightarrow>
          sum_bind (compare_lengths expo sa sb g PRODUCTION_FLUSH_N) (\<lambda>(f, g).
          sum_bind (shape_rows expo gauss seeded ratio n seed shapes g) (\<lambda>rows.
            Inr (JObj (clamp_figures_json f @ [(''mean_l'', JFloat mean_l), (''cv'', JFloat cv),
                   (''verdict'', JStr (clamp_verdict (cf_saturation_a f) (cf_saturation_b f)))]) # rows))))"

record clamp_args =
  ca_a :: string
  ca_b :: string
  ca_label :: string
  ca_out :: string
  ca_seed :: int
  ca_force :: bool

text \<open>The exit code and the files after the run; a file of the same label is evidence and stays.\<close>

definition clamp_main ::
  "(real \<Rightarrow> 'g \<Rightarrow> real \<times> 'g) \<Rightarrow> (real \<Rightarrow> real \<Rightarrow> 'g \<Rightarrow> real \<times> 'g) \<Rightarrow> (int \<Rightarrow> 'g) \<Rightarrow> (string \<Rightarrow> int option) \<Rightarrow> (json \<Rightarrow> string)
    \<Rightarrow> clamp_args \<Rightarrow> (string \<rightharpoonup> string) \<Rightarrow> (py_error + int) \<times> (string \<rightharpoonup> string)" where
  "clamp_main expo gauss seeded int_of dumps args files =
     (let path = ca_out args @ ''/clamp_'' @ ca_label args @ ''.json'';
          open_text = (\<lambda>p. case files p of None \<Rightarrow> Inl (OtherException ''FileNotFoundError'' p) | Some t \<Rightarrow> Inr t)
      in if files path \<noteq> None \<and> \<not> ca_force args then (Inr 3, files)
         else case
           sum_bind (sum_bind (open_text (ca_a args)) (read_lengths int_of)) (\<lambda>a_map.
           sum_bind (sum_bind (open_text (ca_b args)) (read_lengths int_of)) (\<lambda>b_map.
             let ids = filter (\<lambda>i. i \<in> fst ` set b_map) (sort (map fst a_map));
                 ra = map (\<lambda>i. of_int (dict_get a_map i 0)) ids;
                 rb = map (\<lambda>i. of_int (dict_get b_map i 0)) ids
             in sum_bind (compare_lengths expo ra rb (seeded (ca_seed args)) PRODUCTION_FLUSH_N) (\<lambda>(real_f, g).
                sum_bind (if cf_mean_a_raw real_f = 0 then Inl ZeroDivisionError else Inr (cf_mean_b_raw real_f / cf_mean_a_raw real_f)) (\<lambda>ratio.
                sum_bind (shape_rows expo gauss seeded ratio (length ids) (ca_seed args)
                            [(400, 1 / 10), (600, 1 / 10), (600, 35 / 100), (1000, 1 / 10)] g) (\<lambda>shapes.
                  Inr (JObj [(''label'', JStr (ca_label args)), (''seed'', JInt (ca_seed args)),
                    (''max_output_length'', JInt MAX_OUTPUT_LENGTH), (''epsilon'', JFloat EPSILON),
                    (''uninterpretable_at'', JFloat UNINTERPRETABLE_AT),
                    (''sources'', JObj [(''a'', JStr (ca_a args)), (''b'', JStr (ca_b args))]),
                    (''generation_ratio'', JFloat ratio), (''real'', JObj (clamp_figures_json real_f)),
                    (''real_verdict'', JStr (clamp_verdict (cf_saturation_a real_f) (cf_saturation_b real_f))),
                    (''synthetic'', JArr shapes)]))))))
         of Inl e \<Rightarrow> (Inl e, files)
          | Inr result \<Rightarrow> (Inr 0, files(path \<mapsto> dumps result @ [CHR 0x0A])))"

subsection \<open>Lemmas\<close>

definition avg :: "real list \<Rightarrow> real" where
  "avg values = sum_list values / real (length values)"

lemma avg_clamp_bounds:
  assumes "values \<noteq> []" and "saturation values = Inr s"
  shows "s * of_int MAX_OUTPUT_LENGTH \<le> avg (clamp values)" and "avg (clamp values) \<le> of_int MAX_OUTPUT_LENGTH"
proof -
  have pos: "0 < real (length values)" using assms(1) by simp
  have "of_int MAX_OUTPUT_LENGTH * real (length (filter (\<lambda>v. v \<ge> of_int MAX_OUTPUT_LENGTH) values)) \<le> sum_list (clamp values)"
    by (induction "values") (auto simp: clamp_def MAX_OUTPUT_LENGTH_def algebra_simps)
  then show "s * of_int MAX_OUTPUT_LENGTH \<le> avg (clamp values)"
    using assms pos by (auto simp: avg_def saturation_def field_simps clamp_def)
  have "sum_list (clamp values) \<le> real (length (clamp values)) * of_int MAX_OUTPUT_LENGTH"
    by (rule sum_list_le_const) (auto simp: clamp_def MAX_OUTPUT_LENGTH_def)
  then show "avg (clamp values) \<le> of_int MAX_OUTPUT_LENGTH"
    using pos by (simp add: avg_def field_simps clamp_def)
qed

lemma mean_values_Inr: "mean_values values = Inr m \<longleftrightarrow> values \<noteq> [] \<and> m = avg values"
  by (auto simp: mean_values_def avg_def)

lemma scale_for_Inr: "scale_for n = Inr s \<longleftrightarrow> 1 \<le> n \<and> s = of_int MAX_OUTPUT_LENGTH / of_int n / EPSILON"
  by (auto simp: scale_for_def metric_sensitivity_def metric_bases_def sum_bind_def)

lemma compare_lengths_Inr:
  assumes "compare_lengths expo a b g flush_n = Inr (f, g')"
  shows "a \<noteq> []" "b \<noteq> []" "1 \<le> flush_n" "saturation a = Inr (cf_saturation_a f)" "saturation b = Inr (cf_saturation_b f)"
    and "cf_delta_clamped f = avg (clamp b) - avg (clamp a)" "cf_delta_raw f = avg b - avg a"
    and "cf_signal_to_noise_flush f = \<bar>cf_delta_clamped f\<bar> * of_int flush_n * EPSILON / of_int MAX_OUTPUT_LENGTH"
    and "cf_signal_to_noise_paired f = \<bar>cf_delta_clamped f\<bar> * real (length a) * EPSILON / of_int MAX_OUTPUT_LENGTH"
  using assms
  by (auto simp: compare_lengths_def Let_def sum_bind_Inr_iff mean_values_Inr scale_for_Inr split: prod.splits)

subsection \<open>Properties\<close>

text \<open>A saturated stream carries no length signal. In every comparison the clamped means differ by at most the part of the cap the
  saturation leaves free, so what the verdict refuses to interpret on both sides differs by at most a twentieth of the cap, and not
  at all when both are fully saturated, whatever the raw difference; the two signal-to-noise ratios are
  one difference at two batch sizes.\<close>

theorem saturated_stream_carries_no_signal:
  assumes "compare_lengths expo a b g flush_n = Inr (f, g')"
  shows "\<bar>cf_delta_clamped f\<bar> \<le> of_int MAX_OUTPUT_LENGTH * (1 - min (cf_saturation_a f) (cf_saturation_b f))
    \<and> (min (cf_saturation_a f) (cf_saturation_b f) \<ge> UNINTERPRETABLE_AT \<longrightarrow>
         \<bar>cf_delta_clamped f\<bar> \<le> of_int MAX_OUTPUT_LENGTH / 20 \<and> clamp_verdict (cf_saturation_a f) (cf_saturation_b f) = ''UNINTERPRETABLE'')
    \<and> cf_signal_to_noise_flush f * real (length a) = cf_signal_to_noise_paired f * of_int flush_n"
proof -
  note f = compare_lengths_Inr [OF assms]
  note a = avg_clamp_bounds [OF f(1) f(4)] and b = avg_clamp_bounds [OF f(2) f(5)]
  have min_le: "min (cf_saturation_a f) (cf_saturation_b f) * of_int MAX_OUTPUT_LENGTH \<le> avg (clamp a)"
    "min (cf_saturation_a f) (cf_saturation_b f) * of_int MAX_OUTPUT_LENGTH \<le> avg (clamp b)"
    using a(1) b(1) by (auto simp: MAX_OUTPUT_LENGTH_def min_def)
  have free: "\<bar>cf_delta_clamped f\<bar> \<le> of_int MAX_OUTPUT_LENGTH * (1 - min (cf_saturation_a f) (cf_saturation_b f))"
    using min_le a(2) b(2) by (simp add: f(6) abs_le_iff algebra_simps)
  moreover have "\<bar>cf_delta_clamped f\<bar> \<le> of_int MAX_OUTPUT_LENGTH / 20" if "min (cf_saturation_a f) (cf_saturation_b f) \<ge> UNINTERPRETABLE_AT"
    using free that by (auto simp: UNINTERPRETABLE_AT_def MAX_OUTPUT_LENGTH_def min_def split: if_splits)
  ultimately show ?thesis by (auto simp: f(8,9) clamp_verdict_def)
qed

theorem saturated_stream_carries_no_signal_witness:
  "\<exists>f g'. compare_lengths (\<lambda>_ g. (0, g)) [400, 500] [4000, 320] () 50 = Inr (f, g') \<and> cf_delta_raw f = 1710 \<and> cf_delta_clamped f = 0"
proof -
  obtain f g' where run: "compare_lengths (\<lambda>_ g. (0, g)) [400, 500] [4000, 320] () 50 = Inr (f, g')"
    and f: "cf_delta_raw f = 1710" "cf_saturation_a f = 1" "cf_saturation_b f = 1"
    by (simp add: compare_lengths_def scale_for_def metric_sensitivity_def metric_bases_def mean_values_def saturation_def clamp_def
        laplace_noise_def MAX_OUTPUT_LENGTH_def Let_def)
  from saturated_stream_carries_no_signal [OF run] f have "cf_delta_clamped f = 0" by simp
  with run f(1) show ?thesis by blast
qed

definition share_at_cap :: "canary_result list \<Rightarrow> real" where
  "share_at_cap rs = real (length (filter (\<lambda>r. cr_output_length r \<ge> MAX_OUTPUT_LENGTH) rs)) / real (length rs)"

text \<open>The saturation bound of the window report holds for the average of the records and fails for the published one. The share of
  records at the cap is at most their clamped average over the cap; but the published average carries noise, and a fully
  saturated batch can publish an average whose bound is below one.\<close>

theorem saturation_bound_ignores_noise:
  "(\<forall>rs. share_at_cap rs \<le> mean_over length_value rs / of_int MAX_OUTPUT_LENGTH)
   \<and> (\<exists>(expo :: real \<Rightarrow> bool \<Rightarrow> real \<times> bool) rs ms g. flush_metrics expo rs False = Inr (ms, g) \<and> share_at_cap rs = 1
        \<and> dict_get ms ''avg_output_length'' 0 / of_int MAX_OUTPUT_LENGTH < 1)"
proof
  show "\<forall>rs. share_at_cap rs \<le> mean_over length_value rs / of_int MAX_OUTPUT_LENGTH"
  proof
    fix rs :: "canary_result list"
    have "of_int MAX_OUTPUT_LENGTH * real (length (filter (\<lambda>r. cr_output_length r \<ge> MAX_OUTPUT_LENGTH) rs)) \<le> sum_list (map length_value rs)"
      by (induction rs) (auto simp: length_value_def clamp_count_def MAX_OUTPUT_LENGTH_def algebra_simps)
    then show "share_at_cap rs \<le> mean_over length_value rs / of_int MAX_OUTPUT_LENGTH"
      by (cases "rs = []") (simp_all add: share_at_cap_def mean_over_def MAX_OUTPUT_LENGTH_def field_simps)
  qed
  let ?expo = "\<lambda>(_ :: real) g. (if g then 1 else 0 :: real, \<not> g)"
  let ?r = "(example_result 320 False)"
  have "mean_over length_value [?r] = 320" "share_at_cap [?r] = 1"
    by (simp_all add: mean_over_def length_value_def clamp_count_def example_result_def share_at_cap_def MAX_OUTPUT_LENGTH_def)
  moreover have "py_round 4 (max 0 (320 + (0 - 1))) < 320"
    using py_round_between(2) [of "319 :: int" "319 :: real" 319 4] by simp
  ultimately show "\<exists>(expo :: real \<Rightarrow> bool \<Rightarrow> real \<times> bool) rs ms g. flush_metrics expo rs False = Inr (ms, g) \<and> share_at_cap rs = 1
      \<and> dict_get ms ''avg_output_length'' 0 / of_int MAX_OUTPUT_LENGTH < 1"
    by (intro exI [of _ ?expo] exI [of _ "[?r]"])
       (simp add: flush_metrics_def noised_def metric_sensitivity_def metric_bases_def laplace_noise_def tool_metric_def token_metric_def
         example_result_def dict_get_def MAX_OUTPUT_LENGTH_def, blast)
qed

lemma split_at_join:
  assumes "\<And>l. l \<in> set ls \<Longrightarrow> \<forall>c \<in> set l. \<not> P c" and "sep \<noteq> []" and "\<forall>c \<in> set sep. P c"
  shows "filter (\<lambda>l. strip l \<noteq> []) (split_at P (concat (map (\<lambda>l. l @ sep) ls))) = filter (\<lambda>l. strip l \<noteq> []) ls"
proof -
  have gap: "filter (\<lambda>l. strip l \<noteq> []) (split_at P (s @ t)) = filter (\<lambda>l. strip l \<noteq> []) (split_at P t)" if "\<forall>c \<in> set s. P c" for s t
    using that by (induction s) (auto simp: strip_def)
  have one: "filter (\<lambda>l. strip l \<noteq> []) (split_at P (l @ sep @ t)) = filter (\<lambda>l. strip l \<noteq> []) (l # split_at P t)" if "\<forall>c \<in> set l. \<not> P c" for l t
  proof -
    obtain x xs where sep: "sep = x # xs" using assms(2) by (cases sep) auto
    then have "split_at P (l @ sep @ t) = l # split_at P (xs @ t)" using that assms(3) by (induction l) auto
    then show ?thesis using gap [of xs t] assms(3) sep by simp
  qed
  show ?thesis using assms(1)
  proof (induction ls)
    case (Cons l ls)
    have "\<forall>c \<in> set l. \<not> P c" by (rule Cons.prems) simp
    note one [OF this, of "concat (map (\<lambda>l. l @ sep) ls)"]
    moreover have "filter (\<lambda>l. strip l \<noteq> []) (split_at P (concat (map (\<lambda>l. l @ sep) ls))) = filter (\<lambda>l. strip l \<noteq> []) ls"
      by (rule Cons.IH) (rule Cons.prems, simp)
    ultimately show ?case by simp
  qed (simp add: strip_def)
qed

text \<open>The reader does not depend on line endings. A run file written with line feeds and the same file written with carriage
  return and line feed are read alike, errors included.\<close>

theorem reader_ignores_line_endings:
  assumes "\<And>l. l \<in> set ls \<Longrightarrow> CHR 0x0D \<notin> set l \<and> CHR 0x0A \<notin> set l"
  shows "read_lengths int_of (concat (map (\<lambda>l. l @ [CHR 0x0D, CHR 0x0A]) ls)) = read_lengths int_of (concat (map (\<lambda>l. l @ [CHR 0x0A]) ls))"
proof -
  let ?P = "\<lambda>c. c = CHR 0x0D \<or> c = CHR 0x0A"
  have clean: "\<forall>c \<in> set l. \<not> ?P c" if "l \<in> set ls" for l using assms [OF that] by blast
  have "text_lines (concat (map (\<lambda>l. l @ [CHR 0x0D, CHR 0x0A]) ls)) = text_lines (concat (map (\<lambda>l. l @ [CHR 0x0A]) ls))"
    unfolding text_lines_def
    using split_at_join [of ls ?P "[CHR 0x0D, CHR 0x0A]", OF clean] split_at_join [of ls ?P "[CHR 0x0A]", OF clean] by simp
  then show ?thesis by (simp add: read_lengths_def)
qed

theorem reader_ignores_line_endings_witness:
  "read_lengths (\<lambda>_. Some 7) (concat (map (\<lambda>l. l @ [CHR 0x0D, CHR 0x0A]) [''prompt_id,category,output_length'', ''p1,reasoning,7''])) =
     read_lengths (\<lambda>_. Some 7) (concat (map (\<lambda>l. l @ [CHR 0x0A]) [''prompt_id,category,output_length'', ''p1,reasoning,7'']))
   \<and> read_lengths (\<lambda>_. Some 7) (concat (map (\<lambda>l. l @ [CHR 0x0A]) [''prompt_id,category,output_length'', ''p1,reasoning,7''])) = Inr [(''p1'', 7)]"
proof (rule conjI)
  show "read_lengths (\<lambda>_. Some 7) (concat (map (\<lambda>l. l @ [CHR 0x0A]) [''prompt_id,category,output_length'', ''p1,reasoning,7''])) = Inr [(''p1'', 7)]"
    by code_simp
qed (rule reader_ignores_line_endings, auto)

end
