(* ===== verification/DriftFloor.thy ===== *)
theory DriftFloor
  imports LiveEmit "HOL-Library.List_Lexorder" "HOL-Library.Char_ord"
begin

section \<open>The drift floor and the preflights (scripts/measure_drift_floor.py, compare_preflight.py, live_probe.py)\<close>

text \<open>
  Three small drivers of a live endpoint: a run of the suite that records every prompt in a CSV file and the comparison of
  two such files, the temperature preflight of one model, and the live probe. The CSV codec of the library is \<open>fd_csv\<close> and
  \<open>fd_rows\<close>, which gives every row under its header; rows shorter than the header are outside the model. Printed lines are the figures a report holds.
\<close>

subsection \<open>One run\<close>

definition MIN_COMPARED :: nat where
  "MIN_COMPARED = 30"

definition VOLATILE_HASH_CATEGORIES :: "string list" where
  "VOLATILE_HASH_CATEGORIES = [''tool_calling'']"

record floor_args =
  fa_model_tuple :: string
  fa_base_url :: string
  fa_label :: string
  fa_out :: string
  fa_max_tokens :: int
  fa_pacing_ms :: int
  fa_timeout :: real
  fa_force :: bool

type_synonym floor_row = "(string, string) dict"

record 'w floor_env =
  fd_canary :: "'w canary_env"
  fd_dumps :: "json \<Rightarrow> string"
  fd_dumps_sorted :: "json \<Rightarrow> string"
  fd_perf :: "'w \<Rightarrow> real"
  fd_transport :: "'w transport"
  fd_sleep :: "real \<Rightarrow> 'w \<Rightarrow> 'w"
  fd_epoch :: "'w \<Rightarrow> int"
  fd_stamp :: "'w \<Rightarrow> string"
  fd_csv :: "floor_row list \<Rightarrow> string"
  fd_rows :: "string \<Rightarrow> floor_row list"
  fd_json :: "json \<Rightarrow> string"

text \<open>\<^verbatim>\<open>type(exc).__name__\<close>.\<close>

fun error_name :: "py_error \<Rightarrow> string" where
  "error_name (ValueError m) = ''ValueError''"
| "error_name (KeyError m) = ''KeyError''"
| "error_name (RuntimeError m) = ''RuntimeError''"
| "error_name ZeroDivisionError = ''ZeroDivisionError''"
| "error_name (NotImplementedError m) = ''NotImplementedError''"
| "error_name (TypeError m) = ''TypeError''"
| "error_name (AttributeError m) = ''AttributeError''"
| "error_name PrivacyBudgetExceeded = ''PrivacyBudgetExceeded''"
| "error_name (TransportError n m) = n"
| "error_name (OtherException n m) = n"

fun failure_class :: "canary_error \<Rightarrow> string" where
  "failure_class (CanaryCall (CallProvider pe)) =
     ''ProviderError:'' @ (case pe_status_code pe of None \<Rightarrow> ''None'' | Some c \<Rightarrow> str_of_int c)"
| "failure_class (CanaryCall (CallRaised e)) = error_name e"
| "failure_class (PartialSuite n m ids) = ''PartialSuiteError''"

definition base_row :: "string \<Rightarrow> floor_args \<Rightarrow> prompt \<Rightarrow> floor_row" where
  "base_row run_id args p =
     [(''run_id'', run_id), (''label'', fa_label args), (''model_tuple'', fa_model_tuple args), (''suite_version'', SUITE_VERSION_V2),
      (''prompt_id'', pm_prompt_id p), (''category'', case pm_category p of None \<Rightarrow> [] | Some c \<Rightarrow> c), (''response_hash'', []),
      (''output_length'', []), (''json_valid'', []), (''latency_ms'', []), (''ok'', ''false''), (''error_class'', [])]"

definition result_row :: "floor_row \<Rightarrow> canary_error + canary_result list \<Rightarrow> floor_row" where
  "result_row row outcome =
     (case outcome of
        Inl e \<Rightarrow> AList.update ''error_class'' (failure_class e) row
      | Inr [] \<Rightarrow> AList.update ''error_class'' ''IndexError'' row
      | Inr (r # rs) \<Rightarrow>
          AList.update ''ok'' ''true'' (AList.update ''latency_ms'' (str_of_int (cr_latency_ms r))
            (AList.update ''json_valid'' (if cr_json_valid r then ''true'' else ''false'')
              (AList.update ''output_length'' (str_of_int (cr_output_length r)) (AList.update ''response_hash'' (cr_response_hash r) row)))))"

text \<open>The loop over the suite with the results of the prompts that succeeded; the pause falls between prompts.\<close>

fun floor_rows ::
  "'w floor_env \<Rightarrow> floor_args \<Rightarrow> 'w provider \<Rightarrow> string \<Rightarrow> prompt list \<Rightarrow> 'w \<Rightarrow> (floor_row \<times> canary_result option) list \<times> 'w" where
  "floor_rows env args pr run_id [] w = ([], w)"
| "floor_rows env args pr run_id (p # ps) w =
     (case execute_canary (fd_canary env) (fa_model_tuple args) (Some [p]) False (Some pr) (Some SUITE_VERSION_V2) w of
        (outcome, w) \<Rightarrow>
          let row = result_row (base_row run_id args p) outcome;
              result = (case outcome of Inr (r # rs) \<Rightarrow> Some r | _ \<Rightarrow> None);
              w = (if ps = [] then w else fd_sleep env (of_int (fa_pacing_ms args) / 1000) w)
          in (case floor_rows env args pr run_id ps w of (rows, w) \<Rightarrow> ((row, result) # rows, w)))"

definition median_of :: "real list \<Rightarrow> real" where
  "median_of xs =
     (let s = sort xs; n = length xs
      in if odd n then s ! (n div 2) else (s ! (n div 2 - 1) + s ! (n div 2)) / 2)"

definition row_is :: "floor_row \<Rightarrow> string \<Rightarrow> string \<Rightarrow> bool" where
  "row_is row k v \<longleftrightarrow> map_of row k = Some v"

definition floor_summary :: "floor_args \<Rightarrow> string \<Rightarrow> string \<Rightarrow> string \<Rightarrow> (floor_row \<times> canary_result option) list \<Rightarrow> json" where
  "floor_summary args run_id started finished rows =
     (let lengths = List.map_filter (\<lambda>(row, r). map_option (\<lambda>r. of_int (cr_output_length r)) r) rows;
          structured = filter (\<lambda>(row, r). row_is row ''ok'' ''true'' \<and> row_is row ''category'' ''structured_output'') rows;
          json_ok = filter (\<lambda>(row, r). row_is row ''json_valid'' ''true'') structured
      in JObj [(''run_id'', JStr run_id), (''label'', JStr (fa_label args)), (''model_tuple'', JStr (fa_model_tuple args)),
        (''suite_version'', JStr SUITE_VERSION_V2), (''base_url'', JStr (fa_base_url args)), (''max_tokens'', JInt (fa_max_tokens args)),
        (''pacing_ms'', JInt (fa_pacing_ms args)), (''started_utc'', JStr started), (''finished_utc'', JStr finished),
        (''n_prompts'', JInt (int (length CANARY_SUITE_V2))),
        (''n_ok'', JInt (int (length (filter (\<lambda>(row, r). r \<noteq> None) rows)))),
        (''n_failed'', JInt (int (length (filter (\<lambda>(row, r). r = None) rows)))),
        (''mean_output_length'', if lengths = [] then JNull else JFloat (py_round 3 (sum_list lengths / real (length lengths)))),
        (''median_output_length'', if lengths = [] then JNull else JFloat (median_of lengths)),
        (''json_valid_numerator'', JInt (int (length json_ok))), (''json_valid_denominator'', JInt (int (length structured))),
        (''csv'', JStr (''run_'' @ fa_label args @ ''.csv''))])"

text \<open>The \<open>run\<close> command: the exit code, the files and the world after it. \<open>key\<close> is the API key of the environment.\<close>

definition floor_run ::
  "'w floor_env \<Rightarrow> floor_args \<Rightarrow> string option \<Rightarrow> (string \<rightharpoonup> string) \<Rightarrow> 'w
    \<Rightarrow> (provider_error + int) \<times> (string \<rightharpoonup> string) \<times> 'w" where
  "floor_run env args key files w =
     (let csv_path = fa_out args @ ''/run_'' @ fa_label args @ ''.csv'';
          json_path = fa_out args @ ''/summary_'' @ fa_label args @ ''.json''
      in if files csv_path \<noteq> None \<and> \<not> fa_force args then (Inr 3, files, w)
         else if key \<in> {None, Some []} then (Inr 2, files, w)
         else case init_provider (fa_base_url args) key (fa_max_tokens args) (fa_timeout args) of
                Inl e \<Rightarrow> (Inl e, files, w)
              | Inr p \<Rightarrow>
                  let pr = client_provider (fd_dumps env) (fd_dumps_sorted env) (fd_perf env) (fd_transport env) p;
                      run_id = fa_label args @ ''-'' @ str_of_int (fd_epoch env w);
                      started = fd_stamp env w
                  in (case floor_rows env args pr run_id CANARY_SUITE_V2 w of
                        (rows, w) \<Rightarrow>
                          (Inr 0, files(csv_path \<mapsto> fd_csv env (map fst rows),
                             json_path \<mapsto> fd_json env (floor_summary args run_id started (fd_stamp env w) rows) @ [CHR 0x0A]), w)))"

subsection \<open>The comparison of two runs\<close>

definition cell :: "floor_row \<Rightarrow> string \<Rightarrow> py_error + string" where
  "cell row k = (case map_of row k of None \<Rightarrow> Inl (KeyError k) | Some v \<Rightarrow> Inr v)"

text \<open>The rows of a file by prompt id; a later row replaces an earlier one.\<close>

type_synonym loaded_run = "(string, floor_row) dict"

fun load_rows :: "floor_row list \<Rightarrow> loaded_run \<Rightarrow> py_error + loaded_run" where
  "load_rows [] d = Inr d"
| "load_rows (row # rows) d = sum_bind (cell row ''prompt_id'') (\<lambda>pid. load_rows rows (AList.update pid row d))"

definition col :: "loaded_run \<Rightarrow> string \<Rightarrow> string \<Rightarrow> py_error + string" where
  "col d k p = cell (dict_get d p []) k"

text \<open>A comprehension whose condition or value may raise.\<close>

fun filter_or :: "('a \<Rightarrow> 'e + bool) \<Rightarrow> 'a list \<Rightarrow> 'e + 'a list" where
  "filter_or f [] = Inr []"
| "filter_or f (x # xs) = sum_bind (f x) (\<lambda>b. map_sum id (\<lambda>ys. if b then x # ys else ys) (filter_or f xs))"

definition same_at :: "loaded_run \<Rightarrow> loaded_run \<Rightarrow> string \<Rightarrow> string \<Rightarrow> py_error + bool" where
  "same_at a b k p = sum_bind (col a k p) (\<lambda>x. sum_bind (col b k p) (\<lambda>y. Inr (x = y)))"

definition int_at :: "(string \<Rightarrow> int option) \<Rightarrow> loaded_run \<Rightarrow> string \<Rightarrow> string \<Rightarrow> py_error + real" where
  "int_at int_of d k p = sum_bind (col d k p) (\<lambda>s. map_sum id of_int (to_int int_of (JStr s)))"

definition category_name :: "string \<Rightarrow> string" where
  "category_name c = (if c = [] then ''(none)'' else c)"

record floor_figures =
  ff_shared :: nat
  ff_ok_both :: nat
  ff_comparable :: nat
  ff_volatile :: nat
  ff_identical :: nat
  ff_mean_a :: real
  ff_mean_b :: real
  ff_volatile_same_length :: nat
  ff_categories :: "(string \<times> nat \<times> nat) list"

datatype floor_report = FloorRefused nat | FloorRates floor_figures

text \<open>The prompts by category, in the order of the first prompt of each.\<close>

definition by_category :: "loaded_run \<Rightarrow> string list \<Rightarrow> py_error + (string, string list) dict" where
  "by_category a ps =
     sum_bind (traverse (\<lambda>p. sum_bind (col a ''category'' p) (\<lambda>c. Inr (p, category_name c))) ps)
       (\<lambda>pcs. Inr (fold (\<lambda>(p, c) d. AList.update c (dict_get d c [] @ [p]) d) pcs []))"

definition floor_rates ::
  "(string \<Rightarrow> int option) \<Rightarrow> loaded_run \<Rightarrow> loaded_run \<Rightarrow> nat \<Rightarrow> string list \<Rightarrow> string list \<Rightarrow> string list \<Rightarrow> py_error + floor_report" where
  "floor_rates int_of a b shared ok_both volatile both_ok =
     sum_bind (filter_or (same_at a b ''response_hash'') both_ok) (\<lambda>identical.
     sum_bind (traverse (int_at int_of a ''output_length'') both_ok) (\<lambda>la.
     sum_bind (traverse (int_at int_of b ''output_length'') both_ok) (\<lambda>lb.
       let mean_a = sum_list la / real (length la); mean_b = sum_list lb / real (length lb)
       in if mean_a = 0 then Inl ZeroDivisionError
          else sum_bind (filter_or (same_at a b ''output_length'') volatile) (\<lambda>same_len.
               sum_bind (by_category a ok_both) (\<lambda>cats.
               sum_bind (traverse (\<lambda>(cat, ids). sum_bind (filter_or (same_at a b ''response_hash'') ids)
                                   (\<lambda>same. Inr (cat, length same, length ids))) (sort_key fst cats)) (\<lambda>table.
                 Inr (FloorRates \<lparr>ff_shared = shared, ff_ok_both = length ok_both, ff_comparable = length both_ok,
                    ff_volatile = length volatile, ff_identical = length identical, ff_mean_a = mean_a, ff_mean_b = mean_b,
                    ff_volatile_same_length = length same_len, ff_categories = table\<rparr>)))))))"

text \<open>The label of a run is that of its first row.\<close>

definition head_cell :: "loaded_run \<Rightarrow> string \<Rightarrow> py_error + string" where
  "head_cell d k = (if d = [] then Inr ''?'' else cell (snd (hd d)) k)"

definition floor_compare :: "(string \<Rightarrow> int option) \<Rightarrow> floor_row list \<Rightarrow> floor_row list \<Rightarrow> py_error + floor_report" where
  "floor_compare int_of rows_a rows_b =
     sum_bind (load_rows rows_a []) (\<lambda>a. sum_bind (load_rows rows_b []) (\<lambda>b.
       let shared = filter (\<lambda>p. p \<in> fst ` set b) (sort (map fst a))
       in sum_bind (filter_or (\<lambda>p. sum_bind (col a ''ok'' p)
                      (\<lambda>x. if x \<noteq> ''true'' then Inr False else sum_bind (col b ''ok'' p) (\<lambda>y. Inr (y = ''true'')))) shared) (\<lambda>ok_both.
          sum_bind (filter_or (\<lambda>p. sum_bind (col a ''category'' p) (\<lambda>c. Inr (c \<in> set VOLATILE_HASH_CATEGORIES))) ok_both) (\<lambda>volatile.
            let both_ok = filter (\<lambda>p. p \<notin> set volatile) ok_both
            in sum_bind (head_cell a ''label'') (\<lambda>_. sum_bind (head_cell b ''label'') (\<lambda>_.
               sum_bind (head_cell a ''model_tuple'') (\<lambda>_. sum_bind (head_cell b ''model_tuple'') (\<lambda>_.
                 if length both_ok < MIN_COMPARED then Inr (FloorRefused (length both_ok))
                 else floor_rates int_of a b (length shared) ok_both volatile both_ok))))))))"

definition compare_exit :: "floor_report \<Rightarrow> int" where
  "compare_exit r = (case r of FloorRefused n \<Rightarrow> 1 | FloorRates f \<Rightarrow> 0)"

subsection \<open>The temperature preflight\<close>

text \<open>The body of a response, or the short error text; \<open>key\<close> is removed from the text of an error. What \<^verbatim>\<open>urlopen\<close> raises
  beside an HTTP error, \<^verbatim>\<open>URLError\<close> and \<^verbatim>\<open>TimeoutError\<close> is not caught: it is a \<open>UrlRaised\<close>.\<close>

datatype preflight_body = Decoded json | ErrorText string

fun replace_text :: "string \<Rightarrow> string \<Rightarrow> string \<Rightarrow> nat \<Rightarrow> string" where
  "replace_text old new [] skip = []"
| "replace_text old new (c # cs) (Suc skip) = replace_text old new cs skip"
| "replace_text old new (c # cs) 0 =
     (if take (length old) (c # cs) = old then new @ replace_text old new cs (length old - 1) else c # replace_text old new cs 0)"

record 'w preflight_env =
  pf_post :: "string \<Rightarrow> string \<Rightarrow> json \<Rightarrow> 'w \<Rightarrow> url_outcome \<times> 'w"
  pf_loads :: "string \<Rightarrow> json option"
  pf_repr :: "json \<Rightarrow> string"
  pf_sleep :: "real \<Rightarrow> 'w \<Rightarrow> 'w"

definition preflight_post ::
  "'w preflight_env \<Rightarrow> string \<Rightarrow> string \<Rightarrow> json \<Rightarrow> 'w \<Rightarrow> (py_error + int \<times> preflight_body) \<times> 'w" where
  "preflight_post env url key payload w =
     (case pf_post env url key payload w of
        (UrlResponse status text, w) \<Rightarrow>
          (case pf_loads env text of None \<Rightarrow> Inl (ValueError ''not JSON'') | Some j \<Rightarrow> Inr (status, Decoded j), w)
      | (UrlHttpError code text, w) \<Rightarrow> (Inr (code, ErrorText (replace_text key ''<KEY>'' (take 300 text) 0)), w)
      | (UrlFailure name, w) \<Rightarrow> (Inr (0, ErrorText (''unreachable: '' @ name)), w)
      | (UrlRaised e, w) \<Rightarrow> (Inl e, w))"

fun type_name :: "json \<Rightarrow> string" where
  "type_name JNull = ''NoneType''"
| "type_name (JBool b) = ''bool''"
| "type_name (JInt i) = ''int''"
| "type_name (JFloat x) = ''float''"
| "type_name JNonFinite = ''float''"
| "type_name (JStr s) = ''str''"
| "type_name (JArr js) = ''list''"
| "type_name (JObj d) = ''dict''"

text \<open>
  One line about the response. Looking up the choice and the message may fail in a way the code reports; a message that
  is no object has no \<^verbatim>\<open>get\<close>, which it does not catch.
\<close>

definition preflight_summary :: "'w preflight_env \<Rightarrow> int \<Rightarrow> preflight_body \<Rightarrow> py_error + string" where
  "preflight_summary env status body =
     (case body of
        ErrorText t \<Rightarrow> Inr (''HTTP '' @ str_of_int status @ '' | error: '' @ t)
      | Decoded (JObj d) \<Rightarrow>
          (case Option.bind (Option.bind (json_item (JObj d) ''choices'') json_head)
                  (\<lambda>choice. map_option (Pair choice) (json_item choice ''message'')) of
             None \<Rightarrow> Inr (''HTTP '' @ str_of_int status @ '' | unexpected schema'')
           | Some (choice, message) \<Rightarrow>
               if \<not> is_obj message then Inl (AttributeError ''get'')
               else let content = obj_get message ''content'';
                        size = (case content of JStr s \<Rightarrow> digits_of (length s) | _ \<Rightarrow> ''-'')
                    in Inr (''HTTP '' @ str_of_int status @ '' | returned model='' @ pf_repr env (obj_get (JObj d) ''model'')
                         @ '' | finish_reason='' @ pf_repr env (obj_get choice ''finish_reason'')
                         @ '' | content='' @ type_name content @ '' len='' @ size))
      | Decoded j \<Rightarrow> Inr (''HTTP '' @ str_of_int status @ '' | error: '' @ to_str (pf_repr env) j))"

definition preflight_payload :: "string \<Rightarrow> bool \<Rightarrow> json" where
  "preflight_payload model temperature =
     JObj ([(''model'', JStr model)] @ (if temperature then [(''temperature'', JInt 0)] else [])
       @ [(''max_tokens'', JInt 16),
          (''messages'', JArr [JObj [(''role'', JStr ''user''), (''content'', JStr ''Reply with the single word OK.'')]])])"

definition preflight_line ::
  "'w preflight_env \<Rightarrow> string \<Rightarrow> string \<Rightarrow> string \<Rightarrow> bool \<Rightarrow> 'w \<Rightarrow> (py_error + int \<times> string) \<times> 'w" where
  "preflight_line env url key model temperature w =
     (case preflight_post env url key (preflight_payload model temperature) w of
        (Inl e, w) \<Rightarrow> (Inl e, w)
      | (Inr (status, body), w) \<Rightarrow>
          (sum_bind (preflight_summary env status body)
             (\<lambda>line. Inr (status, ''['' @ model @ (if temperature then ''] temperature=0 -> '' else ''] no temperature -> '') @ line)), w))"

definition preflight_check ::
  "'w preflight_env \<Rightarrow> string \<Rightarrow> string \<Rightarrow> string \<Rightarrow> 'w \<Rightarrow> string list \<times> (py_error + unit) \<times> 'w" where
  "preflight_check env base_url key model w =
     (let url = rstrip_char (CHR ''/'') base_url @ ''/chat/completions''
      in case preflight_line env url key model True w of
           (Inl e, w) \<Rightarrow> ([], Inl e, w)
         | (Inr (status, line), w) \<Rightarrow>
             if status \<noteq> 400 then ([line], Inr (), w)
             else (case preflight_line env url key model False (pf_sleep env 1 w) of
                     (Inl e, w) \<Rightarrow> ([line], Inl e, w)
                   | (Inr (_, again), w) \<Rightarrow> ([line, again], Inr (), w)))"

fun preflight_models ::
  "'w preflight_env \<Rightarrow> string \<Rightarrow> string \<Rightarrow> string list \<Rightarrow> 'w \<Rightarrow> string list \<times> (py_error + int) \<times> 'w" where
  "preflight_models env base_url key [] w = ([], Inr 0, w)"
| "preflight_models env base_url key (m # ms) w =
     (case preflight_check env base_url key m w of
        (lines, Inl e, w) \<Rightarrow> (lines, Inl e, w)
      | (lines, Inr _, w) \<Rightarrow>
          (case preflight_models env base_url key ms w of (rest, r, w) \<Rightarrow> (lines @ rest, r, w)))"

definition preflight_main ::
  "'w preflight_env \<Rightarrow> string \<Rightarrow> string \<Rightarrow> string \<Rightarrow> string list \<Rightarrow> 'w \<Rightarrow> string list \<times> (py_error + int) \<times> 'w" where
  "preflight_main env base_url key_env key models w =
     (if key = [] then ([''environment variable '' @ key_env @ '' is empty''], Inr 2, w)
      else preflight_models env base_url key models w)"

subsection \<open>The live probe\<close>

text \<open>The exit code, and the results whose hash, length, validity and latency are printed.\<close>

definition live_probe ::
  "('g, 'sk, 'w) emit_env \<Rightarrow> (string \<Rightarrow> string option) \<Rightarrow> (string \<Rightarrow> int option) \<Rightarrow> 'w \<Rightarrow> (py_error + int \<times> canary_result list) \<times> 'w" where
  "live_probe env getenv int_of w =
     (case convert_or int_of (getenv ''SEISMOGRAPH_PROBE_MAX_TOKENS'') 64 of
        Inl e \<Rightarrow> (Inl e, w)
      | Inr max_tokens \<Rightarrow>
          (case init_provider (get_default getenv ''SEISMOGRAPH_PROBE_BASE_URL'' ''http://localhost:11434/v1'')
                  (case getenv ''SEISMOGRAPH_PROBE_API_KEY'' of Some (c # cs) \<Rightarrow> Some (c # cs) | _ \<Rightarrow> None) max_tokens 30 of
             Inl e \<Rightarrow> (Inr (1, []), w)
           | Inr p \<Rightarrow>
               (case execute_canary (em_canary env) (get_default getenv ''SEISMOGRAPH_PROBE_MODEL_TUPLE'' ''ollama/llama3.1'') None False
                       (Some (client_provider (em_dumps env) (em_dumps_sorted env) (em_perf env) (em_transport env) p)) None w of
                  (Inl (CanaryCall (CallRaised e)), w) \<Rightarrow> (Inl e, w)
                | (Inl _, w) \<Rightarrow> (Inr (1, []), w)
                | (Inr rs, w) \<Rightarrow> (Inr (0, rs), w))))"

subsection \<open>Lemmas\<close>

lemma result_row_ids:
  "map_of (result_row (base_row run_id args p) outcome) ''prompt_id'' = Some (pm_prompt_id p)"
  by (simp add: result_row_def base_row_def split: sum.split list.split)

lemma floor_rows_ids:
  "map (\<lambda>(row, r). map_of row ''prompt_id'') (fst (floor_rows env args pr run_id ps w)) = map (\<lambda>p. Some (pm_prompt_id p)) ps"
  by (induction ps arbitrary: w) (simp_all add: Let_def case_prod_beta result_row_ids)

lemma floor_rows_ok:
  "(row, r) \<in> set (fst (floor_rows env args pr run_id ps w)) \<Longrightarrow> row_is row ''ok'' ''true'' \<longleftrightarrow> r \<noteq> None"
proof (induction ps arbitrary: w)
  case (Cons p ps)
  obtain outcome w1 where run: "execute_canary (fd_canary env) (fa_model_tuple args) (Some [p]) False (Some pr) (Some SUITE_VERSION_V2) w = (outcome, w1)"
    by fastforce
  have "row_is (result_row (base_row run_id args p) outcome) ''ok'' ''true'' \<longleftrightarrow> (case outcome of Inr (r # rs) \<Rightarrow> Some r | _ \<Rightarrow> None) \<noteq> None"
    by (simp add: row_is_def result_row_def base_row_def split: sum.split list.split)
  with Cons run show ?case by (auto simp: Let_def case_prod_beta)
qed simp

lemma same_run: "same_at a a k p = sum_bind (col a k p) (\<lambda>_. Inr True)"
  by (cases "col a k p") (simp_all add: same_at_def)

lemma filter_or_same: "filter_or (same_at a a k) ps = Inr qs \<Longrightarrow> qs = ps"
  by (induction ps arbitrary: qs) (auto simp: same_run sum_bind_Inr_iff map_sum_Inr)

lemma self_table:
  "traverse (\<lambda>(cat, ids). sum_bind (filter_or (same_at a a k) ids) (\<lambda>same. Inr (cat, length same, length ids))) cats = Inr table
   \<Longrightarrow> (c, same, n) \<in> set table \<Longrightarrow> same = n"
  by (induction cats arbitrary: table) (auto simp: sum_bind_Inr_iff map_sum_Inr dest: filter_or_same)

lemma floor_rates_Inr:
  assumes "floor_rates int_of a b shared ok_both volatile both_ok = Inr r"
  obtains identical la lb same_len cats table where "filter_or (same_at a b ''response_hash'') both_ok = Inr identical"
    "traverse (int_at int_of a ''output_length'') both_ok = Inr la" "traverse (int_at int_of b ''output_length'') both_ok = Inr lb"
    "filter_or (same_at a b ''output_length'') volatile = Inr same_len"
    "traverse (\<lambda>(cat, ids). sum_bind (filter_or (same_at a b ''response_hash'') ids) (\<lambda>same. Inr (cat, length same, length ids)))
       (sort_key fst cats) = Inr table"
    "r = FloorRates \<lparr>ff_shared = shared, ff_ok_both = length ok_both, ff_comparable = length both_ok, ff_volatile = length volatile,
       ff_identical = length identical, ff_mean_a = sum_list la / real (length la), ff_mean_b = sum_list lb / real (length lb),
       ff_volatile_same_length = length same_len, ff_categories = table\<rparr>"
  using assms by (clarsimp simp: floor_rates_def Let_def sum_bind_Inr_iff split: if_splits)

text \<open>A row for every prompt of the suite, in order, marked ok exactly where the call gave a result.\<close>

definition recorded :: "(floor_row \<times> canary_result option) list \<Rightarrow> bool" where
  "recorded rows \<longleftrightarrow> map (\<lambda>(row, _). map_of row ''prompt_id'') rows = map (\<lambda>p. Some (pm_prompt_id p)) CANARY_SUITE_V2
     \<and> (\<forall>(row, result) \<in> set rows. row_is row ''ok'' ''true'' \<longleftrightarrow> result \<noteq> None)"

lemma recorded_floor_rows: "recorded (fst (floor_rows env args pr run_id CANARY_SUITE_V2 w))"
  unfolding recorded_def by (intro conjI ballI, rule floor_rows_ids) (simp only: split_paired_all prod.case, rule floor_rows_ok)

lemma recorded_length: "recorded rows \<Longrightarrow> length rows = 50"
  unfolding recorded_def corpus_append_only(3) [symmetric] by (elim conjE) (rule map_eq_imp_length_eq)

subsection \<open>Properties\<close>

text \<open>A run of the drift floor never loses evidence and never stops half way. With a file of its label on disk and no force, it exits
  with 3 and touches neither files nor world; otherwise, with an ASCII key, it ends with exit code 0 whatever the calls do and writes
  one row per prompt of the suite, in suite order, marked ok exactly where the call gave a result.\<close>

theorem floor_run_records_every_prompt:
  assumes "floor_run env args key files w = (r, files', w')"
  defines "csv_path \<equiv> fa_out args @ ''/run_'' @ fa_label args @ ''.csv''"
  shows "(files csv_path \<noteq> None \<and> \<not> fa_force args \<longrightarrow> r = Inr 3 \<and> files' = files \<and> w' = w)
    \<and> ((files csv_path = None \<or> fa_force args) \<and> (\<exists>c cs. key = Some (c # cs) \<and> is_ascii (c # cs)) \<longrightarrow> r = Inr 0
        \<and> (\<exists>rows. files' csv_path = Some (fd_csv env (map fst rows)) \<and> recorded rows))"
proof (intro conjI impI)
  assume "files csv_path \<noteq> None \<and> \<not> fa_force args"
  then show "r = Inr 3" "files' = files" "w' = w" using assms by (auto simp: floor_run_def csv_path_def)
next
  assume go: "(files csv_path = None \<or> fa_force args) \<and> (\<exists>c cs. key = Some (c # cs) \<and> is_ascii (c # cs))"
  then obtain p where p: "init_provider (fa_base_url args) key (fa_max_tokens args) (fa_timeout args) = Inr p" by (auto simp: init_provider_def)
  let ?rows = "fst (floor_rows env args (client_provider (fd_dumps env) (fd_dumps_sorted env) (fd_perf env) (fd_transport env) p)
    (fa_label args @ ''-'' @ str_of_int (fd_epoch env w)) CANARY_SUITE_V2 w)"
  have r: "r = Inr 0 \<and> files' csv_path = Some (fd_csv env (map fst ?rows))"
    using assms(1) go p by (auto simp: floor_run_def csv_path_def Let_def case_prod_beta split: if_splits)
  then show "r = Inr 0" by simp
  show "\<exists>rows. files' csv_path = Some (fd_csv env (map fst rows)) \<and> recorded rows"
    using r recorded_floor_rows by (intro exI [of _ ?rows]) simp
qed

definition example_floor :: "unit floor_env" where
  "example_floor = \<lparr>fd_canary = silent_env, fd_dumps = (\<lambda>_. []), fd_dumps_sorted = (\<lambda>_. []), fd_perf = (\<lambda>_. 0),
     fd_transport = (\<lambda>_ _ _ _ w. (Inl (TransportRaised ''down''), w)), fd_sleep = (\<lambda>_ w. w), fd_epoch = (\<lambda>_. 0), fd_stamp = (\<lambda>_. []),
     fd_csv = map (\<lambda>_. CHR ''x''), fd_rows = (\<lambda>_. []), fd_json = (\<lambda>_. [])\<rparr>"

definition example_floor_args :: floor_args where
  "example_floor_args = \<lparr>fa_model_tuple = ''m'', fa_base_url = ''u'', fa_label = ''a1'', fa_out = ''d'', fa_max_tokens = 128,
     fa_pacing_ms = 4500, fa_timeout = 90, fa_force = False\<rparr>"

theorem floor_run_records_every_prompt_witness:
  "\<exists>files' text. floor_run example_floor example_floor_args (Some ''k'') (\<lambda>_. None) () = (Inr 0, files', ())
     \<and> files' ''d/run_a1.csv'' = Some text \<and> length text = 50"
proof -
  obtain r files' where run: "floor_run example_floor example_floor_args (Some ''k'') (\<lambda>_. None) () = (r, files', ())"
    by (cases "floor_run example_floor example_floor_args (Some ''k'') (\<lambda>_. None) ()") auto
  have path: "fa_out example_floor_args @ ''/run_'' @ fa_label example_floor_args @ ''.csv'' = ''d/run_a1.csv''"
    by (simp add: example_floor_args_def)
  have ready: "(None = None \<or> fa_force example_floor_args) \<and> (\<exists>c cs. Some ''k'' = Some (c # cs) \<and> is_ascii (c # cs))"
    by (simp add: is_ascii_def)
  note written = floor_run_records_every_prompt [OF run, unfolded path, THEN conjunct2, THEN mp, OF ready]
  obtain rows where rows: "files' ''d/run_a1.csv'' = Some (fd_csv example_floor (map fst rows))" "recorded rows"
    using written [THEN conjunct2] by (elim exE conjE)
  have "fd_csv example_floor (map fst rows) = map (\<lambda>_. CHR ''x'') (map fst rows)" by (simp add: example_floor_def)
  then have "length (fd_csv example_floor (map fst rows)) = 50" using recorded_length [OF rows(2)] by simp
  with run rows(1) written [THEN conjunct1] show ?thesis by blast
qed

text \<open>The comparison reports rates only on thirty comparable prompts, and finds no change where there is none. Any two files: a refusal
  names fewer than thirty prompts and exits with 1. A file against itself: every comparable answer is identical, the mean lengths
  agree, and so does every row of the table by category, volatile ones included.\<close>

theorem floor_comparison_is_sound:
  "(\<forall>rows_a rows_b n. floor_compare int_of rows_a rows_b = Inr (FloorRefused n) \<longrightarrow> n < 30 \<and> compare_exit (FloorRefused n) = 1)
   \<and> (\<forall>rows_a rows_b f. floor_compare int_of rows_a rows_b = Inr (FloorRates f) \<longrightarrow> 30 \<le> ff_comparable f)
   \<and> (\<forall>rows f. floor_compare int_of rows rows = Inr (FloorRates f) \<longrightarrow> ff_identical f = ff_comparable f \<and> ff_mean_a f = ff_mean_b f
        \<and> ff_volatile_same_length f = ff_volatile f \<and> (\<forall>(c, same, n) \<in> set (ff_categories f). same = n))"
proof (intro conjI allI impI)
  show "n < 30" "compare_exit (FloorRefused n) = 1" if "floor_compare int_of rows_a rows_b = Inr (FloorRefused n)" for rows_a rows_b n
    using that by (auto simp: floor_compare_def floor_rates_def Let_def sum_bind_Inr_iff MIN_COMPARED_def compare_exit_def split: if_splits)
  show "30 \<le> ff_comparable f" if "floor_compare int_of rows_a rows_b = Inr (FloorRates f)" for rows_a rows_b f
    using that by (auto simp: floor_compare_def floor_rates_def Let_def sum_bind_Inr_iff MIN_COMPARED_def split: if_splits)
  fix rows f
  assume "floor_compare int_of rows rows = Inr (FloorRates f)"
  then obtain a shared ok_both volatile both_ok where "floor_rates int_of a a shared ok_both volatile both_ok = Inr (FloorRates f)"
    by (auto simp: floor_compare_def Let_def sum_bind_Inr_iff split: if_splits)
  then show "ff_identical f = ff_comparable f" "ff_mean_a f = ff_mean_b f" "ff_volatile_same_length f = ff_volatile f"
      "\<forall>(c, same, n) \<in> set (ff_categories f). same = n"
    by (rule floor_rates_Inr; auto dest: filter_or_same self_table)+
qed

lemma replace_text_absent:
  assumes "\<And>i. take (length old) (drop i s) \<noteq> old"
  shows "replace_text old new s 0 = s"
  using assms
proof (induction s)
  case (Cons c s)
  have "take (length old) (c # s) \<noteq> old" using Cons.prems [of 0] by simp
  moreover have "take (length old) (drop i s) \<noteq> old" for i using Cons.prems [of "Suc i"] by simp
  ultimately show ?case using Cons.IH by simp
qed simp

text \<open>C37: The preflight can print most of the key. It cuts the error text to 300 characters before it removes the key, so for
  every key without blanks, of any length, there is an error answer that contains the key and makes the command print a line with all of the key
  but its last character (with its first 300 characters when it is longer).\<close>

theorem preflight_prints_truncated_key:
  assumes "key \<noteq> []" and "CHR '' '' \<notin> set key"
  shows "\<exists>text pad. text = pad @ key \<and> (\<forall>env base_url key_env model w w'.
     pf_post env (rstrip_char (CHR ''/'') base_url @ ''/chat/completions'') key (preflight_payload model True) w = (UrlHttpError 401 text, w') \<longrightarrow>
     preflight_main env base_url key_env key [model] w =
       ([''['' @ model @ ''] temperature=0 -> HTTP 401 | error: '' @ pad @ take 300 (butlast key)], Inr 0, w'))"
proof -
  let ?pad = "replicate (301 - length key) (CHR '' '')" and ?shown = "take 300 (butlast key)"
  have n: "1 \<le> length key" using assms(1) by (cases key) auto
  have cut: "take 300 (?pad @ key) = ?pad @ ?shown"
  proof (cases "length key \<le> 300")
    case True
    then have "300 - (301 - length key) = length key - 1" "length (replicate (301 - length key) (CHR '' '')) \<le> 300" using n by auto
    then show ?thesis using n by (simp add: butlast_conv_take)
  next
    case False
    then show ?thesis by (simp add: butlast_conv_take)
  qed
  have shorter: "length ?shown < length key" using n by simp
  have "take (length key) (drop i (?pad @ ?shown)) \<noteq> key" for i
  proof (cases "i < 301 - length key")
    case True
    then obtain k where "301 - length key - i = Suc k" by (metis Suc_diff_Suc)
    with True obtain t where "drop i (?pad @ ?shown) = CHR '' '' # t" by simp
    then show ?thesis using n assms(2) by (cases "length key") (simp, metis list.set_intros(1) take_Suc_Cons)
  next
    case False
    then have "length (take (length key) (drop i (?pad @ ?shown))) < length key" using shorter by simp
    then show ?thesis by (metis less_irrefl)
  qed
  then have "replace_text key ''<KEY>'' (take 300 (?pad @ key)) 0 = ?pad @ ?shown"
    unfolding cut by (rule replace_text_absent)
  moreover have "str_of_int 401 = ''401''" by code_simp
  ultimately show ?thesis
    using assms(1) by (intro exI [of _ "?pad @ key"] exI [of _ ?pad])
      (simp add: preflight_main_def preflight_check_def preflight_line_def preflight_post_def preflight_summary_def)
qed

theorem preflight_prints_truncated_key_witness:
  "\<exists>text pad. text = pad @ ''sk-1234'' \<and> (\<forall>(env :: unit preflight_env) base_url key_env model w w'.
     pf_post env (rstrip_char (CHR ''/'') base_url @ ''/chat/completions'') ''sk-1234'' (preflight_payload model True) w = (UrlHttpError 401 text, w') \<longrightarrow>
     preflight_main env base_url key_env ''sk-1234'' [model] w =
       ([''['' @ model @ ''] temperature=0 -> HTTP 401 | error: '' @ pad @ ''sk-123''], Inr 0, w'))"
  using preflight_prints_truncated_key [where key = "''sk-1234''" and 'a = unit] by simp

end
