(* ===== verification/Backtests.thy ===== *)
theory Backtests
  imports Sdk Detector "HOL-Library.List_Lexorder" "HOL-Library.Char_ord"
begin

section \<open>The backtests of the detector (scripts/anthropic_backtest.py and three experiments)\<close>

text \<open>
  The seeded reconstruction of an incident and what is measured on it: the backtest itself, the stable windows
  (experiment_stable_fp.py), the run under noise (experiment_dp_backtest.py) and the sweep over detector settings
  (experiment_sensitivity.py). A date is its ordinal (\<^verbatim>\<open>date.toordinal\<close>); \<open>'g rng\<close> is Python's generator: \<open>rng_seed\<close> is
  \<^verbatim>\<open>random.Random\<close>, the others its draws. The noise constants, module globals that the sweep patches, are a record. Figures and report texts
  are left out; what they print of the runs is computed here.
\<close>

subsection \<open>The generator\<close>

record 'g rng =
  rng_seed :: "int \<Rightarrow> 'g"
  rng_gauss :: "real \<Rightarrow> real \<Rightarrow> 'g \<Rightarrow> real \<times> 'g"
  rng_random :: "'g \<Rightarrow> real \<times> 'g"
  rng_expo :: "real \<Rightarrow> 'g \<Rightarrow> real \<times> 'g"
  rng_below :: "int \<Rightarrow> 'g \<Rightarrow> int \<times> 'g"

definition BASELINE_START :: int where "BASELINE_START = 739433"
definition BUG_DATE :: int where "BUG_DATE = 739468"
definition ESCALATION_DATE :: int where "ESCALATION_DATE = 739492"
definition POSTMORTEM_DATE :: int where "POSTMORTEM_DATE = 739511"

definition MODEL :: string where "MODEL = ''anthropic/claude-sonnet-4@global''"
definition SEED :: int where "SEED = 42"

definition BASE_RATE :: real where "BASE_RATE = 990 / 1000"
definition BASE_LEN :: real where "BASE_LEN = 450"
definition P1_RATE :: real where "P1_RATE = 982 / 1000"
definition P1_LEN :: real where "P1_LEN = 447"
definition P2_RATE :: real where "P2_RATE = 840 / 1000"
definition P2_LEN_NORMAL :: real where "P2_LEN_NORMAL = 450"
definition P2_LEN_ERRATIC :: real where "P2_LEN_ERRATIC = 1850"

record noise_constants =
  nc_base_rate :: real
  nc_base_len :: real
  nc_p1_rate :: real
  nc_p1_len :: real
  nc_p2_rate :: real
  nc_p2_len :: real

definition shipped_noise :: noise_constants where
  "shipped_noise = \<lparr>nc_base_rate = 6 / 1000, nc_base_len = 20, nc_p1_rate = 6 / 1000, nc_p1_len = 25, nc_p2_rate = 15 / 1000, nc_p2_len = 30\<rparr>"

definition CUSUM_H :: real where "CUSUM_H = 5"
definition CUSUM_K :: real where "CUSUM_K = 1 / 2"

definition get_phase :: "int \<Rightarrow> nat" where
  "get_phase d = (if d < BUG_DATE then 0 else if d < ESCALATION_DATE then 1 else 2)"

text \<open>The metrics of a day, in the order of the dictionary.\<close>

type_synonym day_metrics = "(string, real) dict"

definition METRIC_NAMES :: "string list" where
  "METRIC_NAMES = [''json_success_rate'', ''avg_output_length'']"

definition simulate_day :: "'g rng \<Rightarrow> noise_constants \<Rightarrow> int \<Rightarrow> 'g \<Rightarrow> day_metrics \<times> 'g" where
  "simulate_day R nc d g =
     (let ((rate, len), g) =
            (if get_phase d = 0 then
               let (x, g) = rng_gauss R 0 (nc_base_rate nc) g; (y, g) = rng_gauss R 0 (nc_base_len nc) g
               in ((BASE_RATE + x, BASE_LEN + y), g)
             else if get_phase d = 1 then
               let (x, g) = rng_gauss R 0 (nc_p1_rate nc) g; (y, g) = rng_gauss R 0 (nc_p1_len nc) g
               in ((P1_RATE + x, P1_LEN + y), g)
             else
               let (x, g) = rng_gauss R 0 (nc_p2_rate nc) g; (u, g) = rng_random R g
               in if u < 16 / 100
                  then let (y, g) = rng_gauss R 0 (nc_p2_len nc * 8) g in ((P2_RATE + x, P2_LEN_ERRATIC + y), g)
                  else let (y, g) = rng_gauss R 0 (nc_p2_len nc) g in ((P2_RATE + x, P2_LEN_NORMAL + y), g))
      in ([(''json_success_rate'', max 0 (min 1 rate)), (''avg_output_length'', max 0 len)], g))"

text \<open>One simulated day for every date of a list, from one generator.\<close>

fun simulate_days :: "'g rng \<Rightarrow> noise_constants \<Rightarrow> int list \<Rightarrow> 'g \<Rightarrow> day_metrics list \<times> 'g" where
  "simulate_days R nc [] g = ([], g)"
| "simulate_days R nc (d # ds) g =
     (case simulate_day R nc d g of (m, g) \<Rightarrow> (case simulate_days R nc ds g of (ms, g) \<Rightarrow> (m # ms, g)))"

definition DAY_NS :: int where "DAY_NS = 86400000000000"

text \<open>The fresh detector of every harness.\<close>

definition harness_detector :: "real \<Rightarrow> real \<Rightarrow> int \<Rightarrow> cusum_detector" where
  "harness_detector h k baseline = init_detector h k (Some baseline)"

definition BASELINE_SAMPLES :: int where "BASELINE_SAMPLES = 30"

subsection \<open>The backtest (anthropic_backtest.py)\<close>

record backtest_row =
  br_date :: int
  br_phase :: nat
  br_rate :: real
  br_length :: real
  br_s_neg :: "real option"
  br_s_pos :: "real option"
  br_mu0 :: "real option"
  br_sigma0 :: "real option"
  br_alert :: "drift_alert option"

text \<open>The metrics of one day through the detector: the first alert ever, with its date, and the first alert of the day if it is that one.\<close>

fun backtest_metrics ::
  "int \<Rightarrow> int \<Rightarrow> day_metrics \<Rightarrow> cusum_detector \<Rightarrow> (drift_alert \<times> int) option \<Rightarrow> drift_alert option
    \<Rightarrow> cusum_detector \<times> (drift_alert \<times> int) option \<times> drift_alert option" where
  "backtest_metrics day num [] det first today = (det, first, today)"
| "backtest_metrics day num ((name, v) # rest) det first today =
     (case detector_update det 0 MODEL name v (Some (num * DAY_NS)) [] of
        (det, alert) \<Rightarrow>
          (case (alert, first) of
             (Some a, None) \<Rightarrow> backtest_metrics day num rest det (Some (a, day)) (Some a)
           | _ \<Rightarrow> backtest_metrics day num rest det first today))"

definition backtest_row_of :: "int \<Rightarrow> day_metrics \<Rightarrow> cusum_detector \<Rightarrow> drift_alert option \<Rightarrow> backtest_row" where
  "backtest_row_of day metrics det today =
     (let st = map_of (cd_states det) (MODEL, [], ''json_success_rate'');
          ready = (\<lambda>f. Option.bind st (\<lambda>s. map_option (\<lambda>base. f s base) (ms_base s)))
      in \<lparr>br_date = day, br_phase = get_phase day, br_rate = py_round 4 (dict_get metrics ''json_success_rate'' 0),
          br_length = py_round 1 (dict_get metrics ''avg_output_length'' 0), br_s_neg = ready (\<lambda>s _. py_round 3 (ms_s_neg s)),
          br_s_pos = ready (\<lambda>s _. py_round 3 (ms_s_pos s)), br_mu0 = ready (\<lambda>_ (mu, _). py_round 4 mu),
          br_sigma0 = ready (\<lambda>_ (_, sigma). py_round 5 sigma), br_alert = today\<rparr>)"

fun backtest_days ::
  "(int \<times> day_metrics) list \<Rightarrow> int \<Rightarrow> cusum_detector \<Rightarrow> (drift_alert \<times> int) option
    \<Rightarrow> backtest_row list \<times> (drift_alert \<times> int) option" where
  "backtest_days [] num det first = ([], first)"
| "backtest_days ((day, metrics) # days) num det first =
     (case backtest_metrics day num metrics det first None of
        (det, first, today) \<Rightarrow>
          (case backtest_days days (num + 1) det first of
             (rows, last_first) \<Rightarrow> (backtest_row_of day metrics det today # rows, last_first)))"

record backtest_report =
  bk_first :: drift_alert
  bk_first_date :: int
  bk_in_phase1 :: bool
  bk_lead_days :: int
  bk_lead_escalation :: int
  bk_mu0 :: "real option"
  bk_sigma0 :: "real option"
  bk_trace :: "backtest_row list"
  bk_table :: "backtest_row list"

definition assertion_error :: "string \<Rightarrow> py_error" where
  "assertion_error m = OtherException ''AssertionError'' m"

definition backtest_series :: "'g rng \<Rightarrow> (int \<times> day_metrics) list" where
  "backtest_series R =
     (let dates = [BASELINE_START..POSTMORTEM_DATE]
      in zip dates (fst (simulate_days R shipped_noise dates (rng_seed R SEED))))"

definition backtest_run :: "'g rng \<Rightarrow> py_error + backtest_report" where
  "backtest_run R =
     (case backtest_days (backtest_series R) 0 (harness_detector CUSUM_H CUSUM_K BASELINE_SAMPLES) None of
        (rows, None) \<Rightarrow> Inl (assertion_error ''FAIL: no alert before postmortem'')
      | (rows, Some (alert, day)) \<Rightarrow>
          if \<not> day < POSTMORTEM_DATE then Inl (assertion_error ''FAIL: alert after postmortem'')
          else (case filter (\<lambda>r. br_mu0 r \<noteq> None) rows of
                  [] \<Rightarrow> Inl (OtherException ''StopIteration'' [])
                | bs # _ \<Rightarrow>
                    Inr \<lparr>bk_first = alert, bk_first_date = day, bk_in_phase1 = (day < ESCALATION_DATE),
                         bk_lead_days = POSTMORTEM_DATE - day, bk_lead_escalation = ESCALATION_DATE - day,
                         bk_mu0 = br_mu0 bs, bk_sigma0 = br_sigma0 bs,
                         bk_trace = filter (\<lambda>r. day - 7 \<le> br_date r \<and> br_date r \<le> day + 5) rows,
                         bk_table = filter (\<lambda>r. day - 7 \<le> br_date r \<and> br_date r \<le> day + 6) rows\<rparr>))"

subsection \<open>Stable windows (experiment_stable_fp.py)\<close>

definition N_RUNS :: nat where "N_RUNS = 200"
definition WINDOW_DAYS :: int where "WINDOW_DAYS = 90"
definition STABLE_END :: int where "STABLE_END = BUG_DATE - 1"
definition STABLE_START :: int where "STABLE_START = BUG_DATE - WINDOW_DAYS"
definition C1_DATA_BASE :: int where "C1_DATA_BASE = 10000"
definition C2_NOISE_BASE :: int where "C2_NOISE_BASE = 20000"
definition C3_DATA_BASE :: int where "C3_DATA_BASE = 30000"
definition C3_NOISE_BASE :: int where "C3_NOISE_BASE = 40000"

definition synth_stable_window :: "'g rng \<Rightarrow> int \<Rightarrow> py_error + day_metrics list" where
  "synth_stable_window R data_seed =
     (if \<exists>d \<in> set [STABLE_START..STABLE_END]. get_phase d \<noteq> 0 then Inl (assertion_error ''non-stable date in window'')
      else Inr (fst (simulate_days R shipped_noise [STABLE_START..STABLE_END] (rng_seed R data_seed))))"

text \<open>The noise of one flush on the two metrics of a day; \<open>n\<close> is the batch size of the environment.\<close>

definition apply_dp :: "'g rng \<Rightarrow> int \<Rightarrow> day_metrics \<Rightarrow> 'g \<Rightarrow> py_error + day_metrics \<times> 'g" where
  "apply_dp R n metrics g =
     sum_bind (noised (rng_expo R) ''avg_output_length'' n (dict_get metrics ''avg_output_length'' 0) g) (\<lambda>(len, g).
     sum_bind (noised (rng_expo R) ''json_success_rate'' n (dict_get metrics ''json_success_rate'' 0) g) (\<lambda>(rate, g).
       Inr ([(''json_success_rate'', py_round 4 (max 0 (min 1 rate))), (''avg_output_length'', py_round 4 (max 0 len))], g)))"

text \<open>One window: the metrics that alerted, with the day and the direction of their first alert. An alerted stream is fed no further.\<close>

type_synonym window_alerts = "(string, int \<times> string) dict"

fun window_metrics :: "int \<Rightarrow> day_metrics \<Rightarrow> string list \<Rightarrow> cusum_detector \<Rightarrow> window_alerts \<Rightarrow> cusum_detector \<times> window_alerts" where
  "window_metrics i m [] det alerted = (det, alerted)"
| "window_metrics i m (name # names) det alerted =
     (if map_of alerted name \<noteq> None then window_metrics i m names det alerted
      else case detector_update det 0 MODEL name (dict_get m name 0) (Some (i * DAY_NS)) [] of
             (det, None) \<Rightarrow> window_metrics i m names det alerted
           | (det, Some a) \<Rightarrow> window_metrics i m names det (AList.update name (i, da_direction a) alerted))"

fun window_days ::
  "'g rng \<Rightarrow> int \<Rightarrow> int \<Rightarrow> day_metrics list \<Rightarrow> 'g option \<Rightarrow> cusum_detector \<Rightarrow> window_alerts \<Rightarrow> py_error + window_alerts" where
  "window_days R n i [] noise det alerted = Inr alerted"
| "window_days R n i (raw # days) noise det alerted =
     (case (case noise of None \<Rightarrow> Inr (raw, None)
                        | Some g \<Rightarrow> map_sum id (\<lambda>(m, g). (m, Some g)) (apply_dp R n raw g)) of
        Inl e \<Rightarrow> Inl e
      | Inr (m, noise) \<Rightarrow>
          (case window_metrics i m METRIC_NAMES det alerted of
             (det, alerted) \<Rightarrow> window_days R n (i + 1) days noise det alerted))"

definition run_window :: "'g rng \<Rightarrow> int \<Rightarrow> day_metrics list \<Rightarrow> int option \<Rightarrow> py_error + window_alerts" where
  "run_window R n days noise_seed =
     window_days R n 0 days (map_option (rng_seed R) noise_seed) (harness_detector CUSUM_H CUSUM_K BASELINE_SAMPLES) []"

text \<open>What \<^verbatim>\<open>summarize\<close> prints of the windows of one condition; per metric the alerts, their first and last day, and the directions.\<close>

record window_summary =
  ws_windows :: nat
  ws_fp_windows :: nat
  ws_fp_rate :: real
  ws_total_alerts :: nat
  ws_metrics :: "(string \<times> (nat \<times> int \<times> int \<times> string list) option) list"

definition metric_hits :: "window_alerts list \<Rightarrow> string \<Rightarrow> (int \<times> string) list" where
  "metric_hits results metric = List.map_filter (\<lambda>r. map_of r metric) results"

definition summarize :: "window_alerts list \<Rightarrow> py_error + window_summary" where
  "summarize results =
     (let n = length results; n_fp = length (filter (\<lambda>r. r \<noteq> []) results)
      in if n = 0 then Inl ZeroDivisionError
         else Inr \<lparr>ws_windows = n, ws_fp_windows = n_fp, ws_fp_rate = real n_fp / real n,
           ws_total_alerts = sum_list (map length results),
           ws_metrics = map (\<lambda>metric.
             (metric, let hits = metric_hits results metric
                      in if hits = [] then None
                         else Some (length hits, Min (set (map fst hits)), Max (set (map fst hits)),
                                sort (remdups (map snd hits))))) METRIC_NAMES\<rparr>)"

definition stable_window :: "'g rng \<Rightarrow> int \<Rightarrow> int \<Rightarrow> int option \<Rightarrow> py_error + window_alerts" where
  "stable_window R n data_seed noise_seed =
     sum_bind (synth_stable_window R data_seed) (\<lambda>days. run_window R n days noise_seed)"

definition stable_fp_run :: "'g rng \<Rightarrow> int \<Rightarrow> py_error + window_summary list" where
  "stable_fp_run R n =
     (let seeds = map int [0..<N_RUNS]
      in sum_bind (metric_sensitivity ''avg_output_length'' n) (\<lambda>_. sum_bind (metric_sensitivity ''json_success_rate'' n) (\<lambda>_.
         sum_bind (sum_bind (traverse (\<lambda>i. stable_window R n (C1_DATA_BASE + i) None) seeds) summarize) (\<lambda>c1.
         sum_bind (sum_bind (traverse (\<lambda>i. stable_window R n SEED (Some (C2_NOISE_BASE + i))) seeds) summarize) (\<lambda>c2.
         sum_bind (sum_bind (traverse (\<lambda>i. stable_window R n (C3_DATA_BASE + i) (Some (C3_NOISE_BASE + i))) seeds) summarize) (\<lambda>c3.
           Inr [c1, c2, c3]))))))"

subsection \<open>The backtest under noise (experiment_dp_backtest.py)\<close>

definition N_NOISE_SEEDS :: nat where "N_NOISE_SEEDS = 200"
definition NOISE_MASTER_SEED :: int where "NOISE_MASTER_SEED = 1337"
definition NOISE_OFF_ALERT_DATE :: int where "NOISE_OFF_ALERT_DATE = 739473"

type_synonym day_series = "(int \<times> day_metrics) list"

definition generate_series :: "'g rng \<Rightarrow> day_series" where
  "generate_series R =
     (let dates = [BASELINE_START..POSTMORTEM_DATE]
      in zip dates (fst (simulate_days R shipped_noise dates (rng_seed R SEED))))"

definition generate_null_series :: "'g rng \<Rightarrow> day_series" where
  "generate_null_series R =
     (let dates = [BASELINE_START..POSTMORTEM_DATE]
      in zip dates (fst (simulate_days R shipped_noise (map (\<lambda>_. BASELINE_START) dates) (rng_seed R SEED))))"

definition apply_dp_noise :: "'g rng \<Rightarrow> int \<Rightarrow> day_metrics \<Rightarrow> 'g \<Rightarrow> py_error + day_metrics \<times> 'g" where
  "apply_dp_noise R n metrics g =
     sum_bind (noised (rng_expo R) ''avg_output_length'' n (dict_get metrics ''avg_output_length'' 0) g) (\<lambda>(len, g).
     sum_bind (noised (rng_expo R) ''json_success_rate'' n (dict_get metrics ''json_success_rate'' 0) g) (\<lambda>(rate, g).
       Inr ([(''json_success_rate'', py_round 4 (max 0 (min 1 rate))), (''avg_output_length'', py_round 4 (max 0 len))], g)))"

fun noise_series :: "'g rng \<Rightarrow> int \<Rightarrow> day_series \<Rightarrow> 'g \<Rightarrow> py_error + day_series" where
  "noise_series R n [] g = Inr []"
| "noise_series R n ((day, metrics) # series) g =
     sum_bind (apply_dp_noise R n metrics g) (\<lambda>(m, g). map_sum id ((#) (day, m)) (noise_series R n series g))"

text \<open>The first alert date of every metric; an alerted stream is fed on.\<close>

fun detector_metrics ::
  "int \<Rightarrow> int \<Rightarrow> day_metrics \<Rightarrow> string list \<Rightarrow> cusum_detector \<Rightarrow> (string, int option) dict \<Rightarrow> cusum_detector \<times> (string, int option) dict" where
  "detector_metrics day num m [] det first = (det, first)"
| "detector_metrics day num m (name # names) det first =
     (case detector_update det 0 MODEL name (dict_get m name 0) (Some (num * DAY_NS)) [] of
        (det, alert) \<Rightarrow>
          detector_metrics day num m names det
            (if alert \<noteq> None \<and> dict_get first name None = None then AList.update name (Some day) first else first))"

fun detector_days :: "day_series \<Rightarrow> int \<Rightarrow> cusum_detector \<Rightarrow> (string, int option) dict \<Rightarrow> (string, int option) dict" where
  "detector_days [] num det first = first"
| "detector_days ((day, m) # series) num det first =
     (case detector_metrics day num m METRIC_NAMES det first of (det, first) \<Rightarrow> detector_days series (num + 1) det first)"

definition run_detector :: "day_series \<Rightarrow> (string, int option) dict" where
  "run_detector series =
     detector_days series 0 (harness_detector CUSUM_H CUSUM_K BASELINE_SAMPLES) (map (\<lambda>m. (m, None)) METRIC_NAMES)"

definition overall_first :: "(string, int option) dict \<Rightarrow> int option" where
  "overall_first first =
     (let dates = List.map_filter snd first in if dates = [] then None else Some (Min (set dates)))"

text \<open>Indexing raises on an empty list; \<open>q\<close> is a percentage.\<close>

definition nearest_rank :: "int list \<Rightarrow> real \<Rightarrow> int" where
  "nearest_rank sorted_vals q = sorted_vals ! nat (max 0 (\<lceil>q / 100 * real (length sorted_vals)\<rceil> - 1))"

fun draw_seeds :: "'g rng \<Rightarrow> nat \<Rightarrow> 'g \<Rightarrow> int list" where
  "draw_seeds R 0 g = []"
| "draw_seeds R (Suc k) g = (case rng_below R (2 ^ 32) g of (s, g) \<Rightarrow> s # draw_seeds R k g)"

record noise_report =
  nr_detected :: "int list"
  nr_detection_rate :: real
  nr_per_metric :: "(string \<times> nat) list"
  nr_pre_onset :: nat
  nr_on_postmortem :: nat
  nr_no_alert :: nat
  nr_null_alerts :: nat
  nr_null_rate :: real
  nr_quartet :: "(int \<times> int \<times> int \<times> int) option"
  nr_delay :: "int option"
  nr_lead :: "int option"

definition before_postmortem :: "int option \<Rightarrow> bool" where
  "before_postmortem d = (case d of None \<Rightarrow> False | Some d \<Rightarrow> d < POSTMORTEM_DATE)"

definition noise_figures :: "(string, int option) dict list \<Rightarrow> int option list \<Rightarrow> noise_report" where
  "noise_figures firsts null_firsts =
     (let per_seed_first = map overall_first firsts;
          detected = sort (List.map_filter (\<lambda>d. if before_postmortem d then d else None) per_seed_first);
          null_alerts = length (filter before_postmortem null_firsts);
          med = nearest_rank detected 50; p90 = nearest_rank detected 90
      in \<lparr>nr_detected = detected, nr_detection_rate = 100 * real (length detected) / real N_NOISE_SEEDS,
          nr_per_metric = map (\<lambda>m. (m, length (filter (\<lambda>f. before_postmortem (dict_get f m None)) firsts))) METRIC_NAMES,
          nr_pre_onset = length (filter (\<lambda>d. d < BUG_DATE) detected),
          nr_on_postmortem = length (filter (\<lambda>d. d = Some POSTMORTEM_DATE) per_seed_first),
          nr_no_alert = length (filter (\<lambda>d. d = None) per_seed_first), nr_null_alerts = null_alerts,
          nr_null_rate = 100 * real null_alerts / real N_NOISE_SEEDS,
          nr_quartet = (if detected = [] then None else Some (hd detected, med, p90, last detected)),
          nr_delay = (if detected = [] then None else Some (med - NOISE_OFF_ALERT_DATE)),
          nr_lead = (if detected = [] then None else Some (POSTMORTEM_DATE - med))\<rparr>)"

definition noised_first :: "'g rng \<Rightarrow> int \<Rightarrow> day_series \<Rightarrow> int \<Rightarrow> py_error + (string, int option) dict" where
  "noised_first R n series seed = map_sum id run_detector (noise_series R n series (rng_seed R seed))"

definition dp_backtest_main :: "'g rng \<Rightarrow> int \<Rightarrow> py_error + noise_report" where
  "dp_backtest_main R n =
     (let series = generate_series R
      in if overall_first (run_detector series) \<noteq> Some NOISE_OFF_ALERT_DATE then Inl (assertion_error ''Control mismatch'')
         else let seeds = draw_seeds R N_NOISE_SEEDS (rng_seed R NOISE_MASTER_SEED)
              in sum_bind (traverse (noised_first R n series) seeds) (\<lambda>firsts.
                 sum_bind (traverse (noised_first R n (generate_null_series R)) seeds) (\<lambda>nulls.
                   Inr (noise_figures firsts (map overall_first nulls)))))"

subsection \<open>The sweep (experiment_sensitivity.py)\<close>

definition H_GRID :: "real list" where "H_GRID = [3, 4, 5, 6, 8]"
definition K_GRID :: "real list" where "K_GRID = [1 / 4, 1 / 2, 3 / 4, 1]"
definition BASELINE_GRID :: "int list" where "BASELINE_GRID = [10, 30, 50]"
definition SIGMA_GRID :: "real list" where "SIGMA_GRID = [1 / 2, 1, 2]"
definition N_DAYS :: int where "N_DAYS = POSTMORTEM_DATE - BASELINE_START + 1"
definition MAX_LEAD :: int where "MAX_LEAD = POSTMORTEM_DATE - BUG_DATE"

definition scaled_noise :: "real \<Rightarrow> noise_constants" where
  "scaled_noise factor =
     \<lparr>nc_base_rate = nc_base_rate shipped_noise * factor, nc_base_len = nc_base_len shipped_noise * factor,
      nc_p1_rate = nc_p1_rate shipped_noise * factor, nc_p1_len = nc_p1_len shipped_noise * factor,
      nc_p2_rate = nc_p2_rate shipped_noise * factor, nc_p2_len = nc_p2_len shipped_noise * factor\<rparr>"

text \<open>The incident: an alert before the bug is counted and resets its stream, the first one after it is the detection.\<close>

record incident =
  in_first :: "(int \<times> string) option"
  in_pre_onset :: nat

fun incident_metrics :: "int \<Rightarrow> int \<Rightarrow> day_metrics \<Rightarrow> cusum_detector \<Rightarrow> incident \<Rightarrow> cusum_detector \<times> incident" where
  "incident_metrics day num [] det r = (det, r)"
| "incident_metrics day num ((name, v) # rest) det r =
     (case detector_update det 0 MODEL name v (Some (num * DAY_NS)) [] of
        (det, None) \<Rightarrow> incident_metrics day num rest det r
      | (det, Some a) \<Rightarrow>
          if day < BUG_DATE
          then incident_metrics day num rest (detector_reset det MODEL (Some name) None) (r\<lparr>in_pre_onset := in_pre_onset r + 1\<rparr>)
          else incident_metrics day num rest det (if in_first r = None then r\<lparr>in_first := Some (day, name)\<rparr> else r))"

fun incident_days :: "day_series \<Rightarrow> int \<Rightarrow> cusum_detector \<Rightarrow> incident \<Rightarrow> incident" where
  "incident_days [] num det r = r"
| "incident_days ((day, m) # days) num det r =
     (case incident_metrics day num m det r of (det, r) \<Rightarrow> incident_days days (num + 1) det r)"

definition run_incident :: "'g rng \<Rightarrow> real \<Rightarrow> real \<Rightarrow> int \<Rightarrow> real \<Rightarrow> incident" where
  "run_incident R h k baseline sigma_mult =
     (let dates = [BASELINE_START..POSTMORTEM_DATE]
      in incident_days (zip dates (fst (simulate_days R (scaled_noise sigma_mult) dates (rng_seed R SEED)))) 0
           (harness_detector h k baseline) \<lparr>in_first = None, in_pre_onset = 0\<rparr>)"

text \<open>The stable window: every alert is a false positive, counted by direction, and resets its stream.\<close>

fun stable_metrics :: "int \<Rightarrow> day_metrics \<Rightarrow> cusum_detector \<Rightarrow> nat \<times> nat \<Rightarrow> cusum_detector \<times> nat \<times> nat" where
  "stable_metrics num [] det fp = (det, fp)"
| "stable_metrics num ((name, v) # rest) det (fp_neg, fp_pos) =
     (case detector_update det 0 MODEL name v (Some (num * DAY_NS)) [] of
        (det, None) \<Rightarrow> stable_metrics num rest det (fp_neg, fp_pos)
      | (det, Some a) \<Rightarrow>
          stable_metrics num rest (detector_reset det MODEL (Some name) None)
            (if da_direction a = ''negative'' then (fp_neg + 1, fp_pos) else (fp_neg, fp_pos + 1)))"

fun stable_days :: "day_metrics list \<Rightarrow> int \<Rightarrow> cusum_detector \<Rightarrow> nat \<times> nat \<Rightarrow> nat \<times> nat" where
  "stable_days [] num det fp = fp"
| "stable_days (m # days) num det fp =
     (case stable_metrics num m det fp of (det, fp) \<Rightarrow> stable_days days (num + 1) det fp)"

definition run_stable :: "'g rng \<Rightarrow> real \<Rightarrow> real \<Rightarrow> int \<Rightarrow> real \<Rightarrow> nat \<times> nat" where
  "run_stable R h k baseline sigma_mult =
     stable_days (fst (simulate_days R (scaled_noise sigma_mult) (replicate (nat N_DAYS) BASELINE_START) (rng_seed R SEED))) 0
       (harness_detector h k baseline) (0, 0)"

record sweep_row =
  sw_h :: real
  sw_k :: real
  sw_baseline :: int
  sw_sigma :: real
  sw_first :: "(int \<times> string) option"
  sw_lead :: "int option"
  sw_missed :: bool
  sw_pre_onset :: nat
  sw_fp_total :: nat
  sw_fp_neg :: nat
  sw_fp_pos :: nat

definition sweep_config :: "'g rng \<Rightarrow> real \<times> real \<times> int \<times> real \<Rightarrow> py_error + sweep_row" where
  "sweep_config R = (\<lambda>(h, k, baseline, sigma).
     (let r = run_incident R h k baseline sigma; (fp_neg, fp_pos) = run_stable R h k baseline sigma;
          lead = map_option (\<lambda>(day, _). POSTMORTEM_DATE - day) (in_first r)
      in if \<not> (case lead of None \<Rightarrow> True | Some l \<Rightarrow> l \<le> MAX_LEAD) then Inl (assertion_error [])
         else Inr \<lparr>sw_h = h, sw_k = k, sw_baseline = baseline, sw_sigma = sigma, sw_first = in_first r, sw_lead = lead,
                sw_missed = (in_first r = None), sw_pre_onset = in_pre_onset r, sw_fp_total = fp_neg + fp_pos,
                sw_fp_neg = fp_neg, sw_fp_pos = fp_pos\<rparr>))"

definition sweep_grid :: "(real \<times> real \<times> int \<times> real) list" where
  "sweep_grid = concat (map (\<lambda>h. concat (map (\<lambda>k. concat (map (\<lambda>b. map (\<lambda>s. (h, k, b, s)) SIGMA_GRID) BASELINE_GRID)) K_GRID)) H_GRID)"

definition sweep :: "'g rng \<Rightarrow> py_error + sweep_row list" where
  "sweep R = traverse (sweep_config R) sweep_grid"

definition sanity_gate :: "'g rng \<Rightarrow> py_error + unit" where
  "sanity_gate R =
     (if map_option fst (in_first (run_incident R 5 (1 / 2) 30 1)) = Some NOISE_OFF_ALERT_DATE then Inr ()
      else Inl (OtherException ''SystemExit'' ''SANITY GATE FAILED''))"

definition sweep_find :: "sweep_row list \<Rightarrow> real \<times> real \<times> int \<times> real \<Rightarrow> py_error + sweep_row" where
  "sweep_find rows = (\<lambda>(h, k, baseline, sigma).
     (case filter (\<lambda>r. sw_h r = h \<and> sw_k r = k \<and> sw_baseline r = baseline \<and> sw_sigma r = sigma) rows of
        [] \<Rightarrow> Inl (KeyError []) | r # _ \<Rightarrow> Inr r))"

text \<open>The figures of the report; an integer of a missing lead raises.\<close>

definition int_lead :: "sweep_row \<Rightarrow> py_error + int" where
  "int_lead r = (case sw_lead r of None \<Rightarrow> Inl (TypeError ''int() argument'') | Some l \<Rightarrow> Inr l)"

fun best_lead :: "(sweep_row \<times> int) list \<Rightarrow> py_error + sweep_row \<times> int" where
  "best_lead [] = Inl (ValueError ''max() arg is an empty sequence'')"
| "best_lead [r] = Inr r"
| "best_lead (r # s # rows) = best_lead ((if snd s > snd r then s else r) # rows)"

record sweep_figures =
  sf_detected :: nat
  sf_missed :: "sweep_row list"
  sf_fp_free :: nat
  sf_neg_fp :: nat
  sf_neg_short :: nat
  sf_neg_rest :: nat
  sf_rest_max_h :: real
  sf_rest_max_k :: real
  sf_pos_fp :: nat
  sf_pre_onset :: nat
  sf_pre_onset_baselines :: "int list"
  sf_lead_range :: "int \<times> int"
  sf_op :: sweep_row
  sf_op_lead :: int
  sf_best_clean :: sweep_row
  sf_best_clean_lead :: int
  sf_lead_by_h :: "int option list"
  sf_h_cost :: int
  sf_lead_by_baseline :: "int option list"
  sf_lead_by_sigma :: "int option list"

definition lead_at :: "sweep_row list \<Rightarrow> real \<times> real \<times> int \<times> real \<Rightarrow> py_error + int option" where
  "lead_at rows c = map_sum id sw_lead (sweep_find rows c)"

definition build_figures :: "sweep_row list \<Rightarrow> py_error + sweep_figures" where
  "build_figures rows =
     (let detected = filter (\<lambda>r. \<not> sw_missed r) rows; neg = filter (\<lambda>r. sw_fp_neg r \<noteq> 0) rows;
          neg_rest = filter (\<lambda>r. sw_baseline r \<noteq> 10) neg; pre = filter (\<lambda>r. sw_pre_onset r \<noteq> 0) rows;
          clean = filter (\<lambda>r. sw_baseline r = 30 \<and> sw_sigma r = 1 \<and> sw_fp_total r = 0 \<and> sw_pre_onset r = 0 \<and> \<not> sw_missed r) rows;
          with_lead = (\<lambda>r. map_sum id (Pair r) (int_lead r))
      in sum_bind (traverse int_lead detected) (\<lambda>leads.
         if leads = [] then Inl (OtherException ''IndexError'' ''list index out of range'')
         else sum_bind (sweep_find rows (5, 1 / 2, 30, 1)) (\<lambda>op. sum_bind (int_lead op) (\<lambda>op_lead.
              sum_bind (sum_bind (traverse with_lead clean) best_lead) (\<lambda>(best, best_clean_lead).
              sum_bind (traverse (\<lambda>h. lead_at rows (h, 1 / 2, 30, 1)) H_GRID) (\<lambda>by_h.
              sum_bind (sum_bind (sweep_find rows (hd H_GRID, 1 / 2, 30, 1)) int_lead) (\<lambda>h_lo.
              sum_bind (sum_bind (sweep_find rows (last H_GRID, 1 / 2, 30, 1)) int_lead) (\<lambda>h_hi.
              sum_bind (traverse (\<lambda>b. lead_at rows (5, 1 / 2, b, 1)) BASELINE_GRID) (\<lambda>by_baseline.
              sum_bind (traverse (\<lambda>s. lead_at rows (5, 1 / 2, 30, s)) SIGMA_GRID) (\<lambda>by_sigma.
                Inr \<lparr>sf_detected = length detected, sf_missed = filter sw_missed rows,
                  sf_fp_free = length (filter (\<lambda>r. sw_fp_total r = 0) rows), sf_neg_fp = length neg,
                  sf_neg_short = length (filter (\<lambda>r. sw_baseline r = 10) neg), sf_neg_rest = length neg_rest,
                  sf_rest_max_h = (if neg_rest = [] then 0 else Max (set (map sw_h neg_rest))),
                  sf_rest_max_k = (if neg_rest = [] then 0 else Max (set (map sw_k neg_rest))),
                  sf_pos_fp = length (filter (\<lambda>r. sw_fp_pos r \<noteq> 0) rows), sf_pre_onset = length pre,
                  sf_pre_onset_baselines = sort (remdups (map sw_baseline pre)),
                  sf_lead_range = (Min (set leads), Max (set leads)), sf_op = op, sf_op_lead = op_lead, sf_best_clean = best,
                  sf_best_clean_lead = best_clean_lead, sf_lead_by_h = by_h, sf_h_cost = h_lo - h_hi,
                  sf_lead_by_baseline = by_baseline, sf_lead_by_sigma = by_sigma\<rparr>))))))))))"

text \<open>\<^verbatim>\<open>main\<close>: the gate, the rows it writes to the CSV file, and then the figures of its report.\<close>

definition sensitivity_main :: "'g rng \<Rightarrow> py_error + sweep_row list \<times> (py_error + sweep_figures)" where
  "sensitivity_main R =
     sum_bind (sanity_gate R) (\<lambda>_. sum_bind (sweep R) (\<lambda>rows. Inr (rows, build_figures rows)))"

subsection \<open>Lemmas: streams of a harness\<close>

definition lane :: "string \<Rightarrow> stream_key" where
  "lane name = (MODEL, [], name)"

lemma lane_eq [simp]: "lane a = lane b \<longleftrightarrow> a = b"
  by (simp add: lane_def)

lemma feed_lane:
  assumes "detector_update det clk MODEL name v ts [] = (det', alert)"
  shows "alert \<noteq> None \<longleftrightarrow> stream_alert v (stream_of det (lane name))"
    and "stream_of det' (lane name') = (if name' = name then stream_next v (stream_of det (lane name)) else stream_of det (lane name'))"
  using alert_detector_update [of det clk MODEL name v ts "[]"] stream_of_detector_update [of det clk MODEL name v ts "[]" "lane name'"] assms
  by (auto simp: lane_def)

text \<open>Consecutive dates.\<close>

fun dated :: "int \<Rightarrow> 'a list \<Rightarrow> (int \<times> 'a) list" where
  "dated d [] = []"
| "dated d (x # xs) = (d, x) # dated (d + 1) xs"

lemma zip_upto_dated: "length xs = nat (b - a + 1) \<Longrightarrow> zip [a..b] xs = dated a xs"
proof (induction xs arbitrary: a)
  case (Cons x xs)
  then have "a \<le> b" by (cases "a \<le> b") auto
  with Cons show ?case by (simp add: upto_rec1)
qed simp

lemma simulate_days_length [simp]: "length (fst (simulate_days R nc ds g)) = length ds"
  by (induction ds arbitrary: g) (simp_all add: case_prod_beta)

lemma simulate_day_keys: "map fst (fst (simulate_day R nc d g)) = METRIC_NAMES"
  by (simp add: simulate_day_def METRIC_NAMES_def Let_def case_prod_beta)

lemma simulate_days_keys: "m \<in> set (fst (simulate_days R nc ds g)) \<Longrightarrow> map fst m = METRIC_NAMES"
  by (induction ds arbitrary: g) (auto simp: case_prod_beta simulate_day_keys)

lemma series_dated: "generate_series R = dated BASELINE_START (fst (simulate_days R shipped_noise [BASELINE_START..POSTMORTEM_DATE] (rng_seed R SEED)))"
  unfolding generate_series_def Let_def by (rule zip_upto_dated) simp

lemma dated_dates: "(d, x) \<in> set (dated a xs) \<Longrightarrow> a \<le> d \<and> d < a + int (length xs)"
  by (induction xs arbitrary: a) force+

lemma dated_snd: "map snd (dated a xs) = xs"
  by (induction xs arbitrary: a) simp_all

subsection \<open>Lemmas: the two harnesses in lockstep\<close>

text \<open>One stops feeding an alerted stream, the other goes on; the streams that have not alerted agree.\<close>

definition in_step :: "int \<Rightarrow> cusum_detector \<Rightarrow> window_alerts \<Rightarrow> cusum_detector \<Rightarrow> (string, int option) dict \<Rightarrow> bool" where
  "in_step start dw al dd first \<longleftrightarrow>
     (\<forall>name. dict_get first name None = map_option (\<lambda>(j, _). start + j) (map_of al name)
       \<and> (map_of al name = None \<longrightarrow> stream_of dw (lane name) = stream_of dd (lane name)))"

lemma in_step_metrics:
  assumes "in_step start dw al dd first"
  shows "in_step start (fst (window_metrics i m names dw al)) (snd (window_metrics i m names dw al))
    (fst (detector_metrics (start + i) num m names dd first)) (snd (detector_metrics (start + i) num m names dd first))"
  using assms
proof (induction names arbitrary: dw al dd first)
  case (Cons name names)
  let ?v = "dict_get m name 0"
  obtain dw' aw where w: "detector_update dw 0 MODEL name ?v (Some (i * DAY_NS)) [] = (dw', aw)" by fastforce
  obtain dd' ad where d: "detector_update dd 0 MODEL name ?v (Some (num * DAY_NS)) [] = (dd', ad)" by fastforce
  note fw = feed_lane [OF w] and fd = feed_lane [OF d]
  show ?case
  proof (cases "map_of al name")
    case (Some x)
    then have "in_step start dw al dd' first"
      using Cons.prems fd(2) by (auto simp: in_step_def)
    moreover have "dict_get first name None \<noteq> None" using Cons.prems Some by (auto simp: in_step_def split: prod.splits)
    ultimately show ?thesis using Cons.IH [of dw al dd' first] Some d by auto
  next
    case None
    then have same: "stream_of dw (lane name) = stream_of dd (lane name)" and unset: "dict_get first name None = None"
      using Cons.prems by (auto simp: in_step_def)
    then have "(aw \<noteq> None) = (ad \<noteq> None)" using fw(1) fd(1) by simp
    then consider "aw = None" "ad = None" | a b where "aw = Some a" "ad = Some b" by auto
    then show ?thesis
    proof cases
      case 1
      then have "in_step start dw' al dd' first"
        using Cons.prems fw(2) fd(2) same by (auto simp: in_step_def)
      then show ?thesis using Cons.IH [of dw' al dd' first] None w d 1 by simp
    next
      case 2
      then have "in_step start dw' (AList.update name (i, da_direction a) al) dd' (AList.update name (Some (start + i)) first)"
        using Cons.prems fw(2) fd(2) by (auto simp: in_step_def)
      then show ?thesis
        using Cons.IH [of dw' "AList.update name (i, da_direction a) al" dd' "AList.update name (Some (start + i)) first"] None w d 2 unset by simp
    qed
  qed
qed simp

lemma in_step_days:
  assumes "in_step start dw al dd first"
  shows "\<exists>al'. window_days R n i days None dw al = Inr al'
    \<and> (\<forall>name. dict_get (detector_days (dated (start + i) days) i dd first) name None = map_option (\<lambda>(j, _). start + j) (map_of al' name))"
  using assms
proof (induction days arbitrary: dw al dd first i)
  case (Cons m days)
  have "in_step start (fst (window_metrics i m METRIC_NAMES dw al)) (snd (window_metrics i m METRIC_NAMES dw al))
    (fst (detector_metrics (start + i) i m METRIC_NAMES dd first)) (snd (detector_metrics (start + i) i m METRIC_NAMES dd first))"
    by (rule in_step_metrics) (rule Cons.prems)
  from Cons.IH [OF this, of "i + 1"] show ?case by (simp add: case_prod_beta add.assoc)
qed (auto simp: in_step_def)

subsection \<open>Lemmas: the first alert of a series\<close>

text \<open>No alert on a day leaves all harnesses with one detector; an alert fixes the date.\<close>

lemma first_dates:
  assumes "distinct (map fst first)"
  shows "set (List.map_filter snd first) = {d. \<exists>k. map_of first k = Some (Some d)}"
proof -
  have "set (List.map_filter snd first) = {d. \<exists>k. (k, Some d) \<in> set first}" by (force simp: List.map_filter_def)
  then show ?thesis using assms by simp
qed

lemma detector_metrics_dates:
  assumes "detector_metrics day num m names det first = (det', first')" and "distinct (map fst first)"
  shows "set (List.map_filter snd first') \<subseteq> insert day (set (List.map_filter snd first))"
    and "set (List.map_filter snd first) \<subseteq> set (List.map_filter snd first')" and "distinct (map fst first')"
proof -
  have one: "set (List.map_filter snd (AList.update name (Some day) first)) \<subseteq> insert day (set (List.map_filter snd first))
    \<and> (dict_get first name None = None \<longrightarrow> set (List.map_filter snd first) \<subseteq> set (List.map_filter snd (AList.update name (Some day) first)))"
    if "distinct (map fst first)" for name and first :: "(string, int option) dict"
  proof -
    have upd: "set (List.map_filter snd (AList.update name (Some day) first)) =
        {d. \<exists>k. (if k = name then Some (Some day) else map_of first k) = Some (Some d)}"
      using first_dates [of "AList.update name (Some day) first"] that by (simp add: update_conv' fun_upd_def)
    have keep: "k \<noteq> name" if "dict_get first name None = None" "map_of first k = Some (Some d)" for k d
      using that by (auto simp: dict_get_def)
    show ?thesis unfolding upd first_dates [OF that]
    proof (intro conjI impI subsetI)
      fix d assume "dict_get first name None = None" and "d \<in> {d. \<exists>k. map_of first k = Some (Some d)}"
      then obtain k where "map_of first k = Some (Some d)" "k \<noteq> name" using keep by blast
      then show "d \<in> {d. \<exists>k. (if k = name then Some (Some day) else map_of first k) = Some (Some d)}"
        by (intro CollectI exI [of _ k]) simp
    qed (auto split: if_splits)
  qed
  have "set (List.map_filter snd first') \<subseteq> insert day (set (List.map_filter snd first))
    \<and> set (List.map_filter snd first) \<subseteq> set (List.map_filter snd first') \<and> distinct (map fst first')"
    using assms
  proof (induction names arbitrary: det first)
    case (Cons name names)
    obtain det1 a where u: "detector_update det 0 MODEL name (dict_get m name 0) (Some (num * DAY_NS)) [] = (det1, a)" by fastforce
    let ?first1 = "if a \<noteq> None \<and> dict_get first name None = None then AList.update name (Some day) first else first"
    have "distinct (map fst ?first1)" using Cons.prems(2) by (simp add: distinct_update)
    with Cons.IH [of det1 ?first1] Cons.prems(1) u
    have "set (List.map_filter snd first') \<subseteq> insert day (set (List.map_filter snd ?first1))
      \<and> set (List.map_filter snd ?first1) \<subseteq> set (List.map_filter snd first') \<and> distinct (map fst first')" by simp
    with one [OF Cons.prems(2), of name] show ?case by (auto split: if_splits)
  qed auto
  then show "set (List.map_filter snd first') \<subseteq> insert day (set (List.map_filter snd first))"
    and "set (List.map_filter snd first) \<subseteq> set (List.map_filter snd first')" and "distinct (map fst first')" by blast+
qed

lemma overall_first_known:
  assumes "distinct (map fst first)" and "d \<in> set (List.map_filter snd first)" and "\<And>e. e \<in> set (List.map_filter snd first) \<Longrightarrow> d \<le> e"
    and "\<And>e. e \<in> fst ` set series \<Longrightarrow> d \<le> e"
  shows "overall_first (detector_days series num det first) = Some d"
  using assms
proof (induction series arbitrary: num det first)
  case Nil
  then have "Min (set (List.map_filter snd first)) = d" by (intro Min_eqI) auto
  with Nil(2) show ?case by (auto simp: overall_first_def Let_def)
next
  case (Cons x series)
  obtain day m where x: "x = (day, m)" by fastforce
  obtain det' first' where u: "detector_metrics day num m METRIC_NAMES det first = (det', first')" by fastforce
  note s = detector_metrics_dates [OF u Cons.prems(1)]
  have "overall_first (detector_days series (num + 1) det' first') = Some d"
  proof (rule Cons.IH)
    show "d \<le> e" if "e \<in> set (List.map_filter snd first')" for e using that s(1) Cons.prems(3,4) x by force
  qed (use s Cons.prems in auto)
  then show ?case by (simp add: x u)
qed

definition unset :: "(string, int option) dict \<Rightarrow> bool" where
  "unset first \<longleftrightarrow> distinct (map fst first) \<and> List.map_filter snd first = []"

lemma unset_get: "unset first \<Longrightarrow> dict_get first name None = None"
  by (induction first) (auto simp: unset_def List.map_filter_def dict_get_def split: if_splits option.splits)

text \<open>A day whose keys are the two metrics, through the four loops.\<close>

lemma day_two: "map fst m = METRIC_NAMES \<Longrightarrow> \<exists>a b. m = [(''json_success_rate'', a), (''avg_output_length'', b)]"
  by (auto simp: METRIC_NAMES_def map_eq_Cons_conv)

lemma one_day:
  assumes "map fst m = METRIC_NAMES" and "unset first" and "backtest_metrics day num m det None None = (det', r, today)"
    and "detector_metrics day num m METRIC_NAMES det first = (det2, first')"
    and "incident_metrics day num m det inc = (det3, inc')" and "in_first inc = None"
  shows "det2 = det'"
    and "r = None \<Longrightarrow> first' = first \<and> det3 = det' \<and> inc' = inc"
    and "r \<noteq> None \<Longrightarrow> map_option snd r = Some day \<and> day \<in> set (List.map_filter snd first')"
    and "r \<noteq> None \<Longrightarrow> BUG_DATE \<le> day \<Longrightarrow> map_option fst (in_first inc') = Some day \<and> in_pre_onset inc' = in_pre_onset inc"
proof -
  obtain a b where m: "m = [(''json_success_rate'', a), (''avg_output_length'', b)]" using day_two [OF assms(1)] by blast
  obtain d1 x1 where u1: "detector_update det 0 MODEL ''json_success_rate'' a (Some (num * DAY_NS)) [] = (d1, x1)" by fastforce
  obtain d2 x2 where u2: "detector_update d1 0 MODEL ''avg_output_length'' b (Some (num * DAY_NS)) [] = (d2, x2)" by fastforce
  have get: "dict_get m ''json_success_rate'' 0 = a" "dict_get m ''avg_output_length'' 0 = b" by (simp_all add: m dict_get_def)
  have unset: "dict_get first name None = None" for name by (rule unset_get [OF assms(2)])
  have upd: "day \<in> set (List.map_filter snd (AList.update name (Some day) f))" if "distinct (map fst f)" for name and f :: "(string, int option) dict"
    using that by (auto simp: first_dates distinct_update)
  have wf: "distinct (map fst first)" "distinct (map fst (AList.update name (Some day) first))" for name
    using assms(2) by (simp_all add: unset_def distinct_update)
  show "det2 = det'"
    using assms(3,4) u1 u2 get by (auto simp: m METRIC_NAMES_def split: option.splits)
  show "r = None \<Longrightarrow> first' = first \<and> det3 = det' \<and> inc' = inc"
    using assms(3,4,5) u1 u2 get unset by (auto simp: m METRIC_NAMES_def split: option.splits)
  show "r \<noteq> None \<Longrightarrow> map_option snd r = Some day \<and> day \<in> set (List.map_filter snd first')"
    using assms(3,4) u1 u2 get unset upd [OF wf(1)] upd [OF wf(2)] by (auto simp: m METRIC_NAMES_def split: option.splits)
  show "r \<noteq> None \<Longrightarrow> BUG_DATE \<le> day \<Longrightarrow> map_option fst (in_first inc') = Some day \<and> in_pre_onset inc' = in_pre_onset inc"
    using assms(3,5,6) u1 u2 by (auto simp: m split: option.splits if_splits)
qed

lemma first_alert_kept: "snd (backtest_days series n det (Some a)) = Some a"
proof (induction series arbitrary: n det)
  case (Cons y ys)
  have "fst (snd (backtest_metrics dy k m dt (Some a) td)) = Some a" for dy k m dt td
    by (induction m arbitrary: dt) (auto split: option.splits prod.splits)
  with Cons show ?case by (cases y) (simp add: case_prod_beta)
qed simp

lemma same_first:
  assumes "\<forall>x \<in> set series. map fst (snd x) = METRIC_NAMES" and "sorted (map fst series)" and "unset first" and "in_first inc = None"
  shows "overall_first (detector_days series num det first) = map_option snd (snd (backtest_days series num det None))
    \<and> (\<forall>d. map_option snd (snd (backtest_days series num det None)) = Some d \<and> BUG_DATE \<le> d \<longrightarrow>
         map_option fst (in_first (incident_days series num det inc)) = Some d \<and> in_pre_onset (incident_days series num det inc) = in_pre_onset inc)"
  using assms
proof (induction series arbitrary: num det)
  case Nil
  then show ?case by (simp add: overall_first_def unset_def)
next
  case (Cons x series)
  obtain day m where x: "x = (day, m)" by fastforce
  obtain det' r today where b: "backtest_metrics day num m det None None = (det', r, today)" by (cases "backtest_metrics day num m det None None") auto
  obtain det2 first' where d: "detector_metrics day num m METRIC_NAMES det first = (det2, first')" by fastforce
  obtain det3 inc' where i: "incident_metrics day num m det inc = (det3, inc')" by fastforce
  have keys: "map fst m = METRIC_NAMES" using Cons.prems(1) x by simp
  note day = one_day [OF keys Cons.prems(3) b d i Cons.prems(4)]
  have wf: "dict_wf first" and none: "set (List.map_filter snd first) = {}" using Cons.prems(3) by (simp_all add: unset_def)
  note dates = detector_metrics_dates [OF d wf, unfolded none]
  show ?case
  proof (cases r)
    case None
    have "overall_first (detector_days series (num + 1) det' first) = map_option snd (snd (backtest_days series (num + 1) det' None))
      \<and> (\<forall>d. map_option snd (snd (backtest_days series (num + 1) det' None)) = Some d \<and> BUG_DATE \<le> d \<longrightarrow>
           map_option fst (in_first (incident_days series (num + 1) det' inc)) = Some d \<and> in_pre_onset (incident_days series (num + 1) det' inc) = in_pre_onset inc)"
      by (rule Cons.IH) (use Cons.prems in auto)
    with day(1) day(2) [OF None] x b d i None show ?thesis by (simp add: case_prod_beta)
  next
    case (Some a)
    note kept = first_alert_kept
    have on: "map_option snd r = Some day" "day \<in> set (List.map_filter snd first')" using day(3) Some by auto
    have "overall_first (detector_days series (num + 1) det2 first') = Some day"
      by (rule overall_first_known [OF dates(3) on(2)]) (use dates(1) Cons.prems(2) x in auto)
    moreover have "in_first (incident_days series n det'' inc') = in_first inc' \<and> in_pre_onset (incident_days series n det'' inc') = in_pre_onset inc'"
      if "BUG_DATE \<le> day" for n det''
    proof -
      have set: "in_first inc' \<noteq> None" using day(4) Some that by auto
      have "\<forall>(e, m) \<in> set series. BUG_DATE \<le> e" using Cons.prems(2) x that by force
      then show ?thesis
      proof (induction series arbitrary: n det'')
        case (Cons y ys)
        obtain e m' where y: "y = (e, m')" by fastforce
        have "BUG_DATE \<le> e" using Cons.prems y by simp
        then have "snd (incident_metrics e k ms dt inc') = inc'" for k ms dt
          using set by (induction ms arbitrary: dt) (auto split: option.splits prod.splits)
        with Cons y show ?case by (simp add: case_prod_beta)
      qed simp
    qed
    ultimately show ?thesis using x b d i Some on(1) day(4) kept by (auto simp: case_prod_beta)
  qed
qed

text \<open>Both streams of a harness have seen the same number of values, so a row after an alert has its baseline.\<close>

definition twins :: "cusum_detector \<Rightarrow> bool" where
  "twins det \<longleftrightarrow>
     (let a = stream_of det (lane ''json_success_rate''); b = stream_of det (lane ''avg_output_length'')
      in (ms_base a = None \<longleftrightarrow> ms_base b = None) \<and> (ms_base a = None \<longrightarrow> length (ms_buf a) = length (ms_buf b))
         \<and> ms_min_baseline a = ms_min_baseline b)"

lemma base_kept: "ms_base st \<noteq> None \<Longrightarrow> ms_base (stream_next v st) = ms_base st"
  by (cases "ms_base st") (auto simp: stream_next_active)

lemma alert_needs_base: "stream_alert v st \<Longrightarrow> ms_base st \<noteq> None"
  using stream_next_baseline by blast

lemma twins_next:
  assumes "ms_base a = None \<longleftrightarrow> ms_base b = None" and "ms_base a = None \<Longrightarrow> length (ms_buf a) = length (ms_buf b)"
    and "ms_min_baseline a = ms_min_baseline b"
  shows "(ms_base (stream_next v a) = None \<longleftrightarrow> ms_base (stream_next w b) = None)
    \<and> (ms_base (stream_next v a) = None \<longrightarrow> length (ms_buf (stream_next v a)) = length (ms_buf (stream_next w b)))"
  using assms stream_next_baseline [of a v] stream_next_baseline [of b w] base_kept [of a v] base_kept [of b w]
  by (cases "ms_base a"; cases "ms_base b") (simp_all split: if_splits)

lemma backtest_day_streams:
  assumes "map fst m = METRIC_NAMES" and "backtest_metrics day num m det first None = (det', r, today)"
  obtains a b where "stream_of det' (lane ''json_success_rate'') = stream_next a (stream_of det (lane ''json_success_rate''))"
    and "stream_of det' (lane ''avg_output_length'') = stream_next b (stream_of det (lane ''avg_output_length''))"
    and "first = None \<Longrightarrow> r \<noteq> None \<longleftrightarrow> stream_alert a (stream_of det (lane ''json_success_rate''))
      \<or> stream_alert b (stream_of det (lane ''avg_output_length''))"
proof -
  obtain a b where m: "m = [(''json_success_rate'', a), (''avg_output_length'', b)]" using day_two [OF assms(1)] by blast
  obtain d1 x1 where u1: "detector_update det 0 MODEL ''json_success_rate'' a (Some (num * DAY_NS)) [] = (d1, x1)" by fastforce
  obtain d2 x2 where u2: "detector_update d1 0 MODEL ''avg_output_length'' b (Some (num * DAY_NS)) [] = (d2, x2)" by fastforce
  note s = feed_lane(2) [OF u1] feed_lane(2) [OF u2] feed_lane(1) [OF u1] feed_lane(1) [OF u2]
  have "det' = d2" using assms(2) u1 u2 by (auto simp: m split: option.splits)
  moreover have "r \<noteq> None \<longleftrightarrow> x1 \<noteq> None \<or> x2 \<noteq> None" if "first = None"
    using assms(2) u1 u2 that by (auto simp: m split: option.splits)
  ultimately show thesis using s by (intro that [of a b]) simp_all
qed

lemma backtest_rows_ready:
  assumes "\<forall>x \<in> set series. map fst (snd x) = METRIC_NAMES" and "twins det" and "backtest_days series num det None = (rows, Some x)"
  shows "filter (\<lambda>r. br_mu0 r \<noteq> None) rows \<noteq> []"
  using assms
proof (induction series arbitrary: num det rows)
  case (Cons y series)
  obtain day m where y: "y = (day, m)" by fastforce
  obtain det' r today where b: "backtest_metrics day num m det None None = (det', r, today)" by (cases "backtest_metrics day num m det None None") auto
  have "map fst m = METRIC_NAMES" using Cons.prems(1) y by simp
  from this b obtain u v where s: "stream_of det' (lane ''json_success_rate'') = stream_next u (stream_of det (lane ''json_success_rate''))"
    "stream_of det' (lane ''avg_output_length'') = stream_next v (stream_of det (lane ''avg_output_length''))"
    "r \<noteq> None \<longleftrightarrow> stream_alert u (stream_of det (lane ''json_success_rate'')) \<or> stream_alert v (stream_of det (lane ''avg_output_length''))"
    by (rule backtest_day_streams) blast
  have twins: "twins det'"
    using Cons.prems(2) twins_next [of "stream_of det (lane ''json_success_rate'')" "stream_of det (lane ''avg_output_length'')" u v]
    by (simp add: twins_def Let_def s(1,2))
  show ?case
  proof (cases r)
    case None
    obtain rows' where "backtest_days series (num + 1) det' None = (rows', Some x)" "rows = backtest_row_of day m det' today # rows'"
      using Cons.prems(3) y b None by (auto split: prod.splits)
    with Cons.IH [OF _ twins] Cons.prems(1) show ?thesis by auto
  next
    case (Some a)
    then have "ms_base (stream_of det (lane ''json_success_rate'')) \<noteq> None"
      using s(3) Cons.prems(2) by (auto simp: twins_def Let_def dest: alert_needs_base)
    then have "ms_base (stream_of det' (lane ''json_success_rate'')) \<noteq> None" using base_kept s(1) by simp
    then obtain st base where "map_of (cd_states det') (lane ''json_success_rate'') = Some st" "ms_base st = Some base"
      by (auto simp: stream_of_def fresh_stream_def init_metric_state_def split: option.splits)
    then have "br_mu0 (backtest_row_of day m det' today) \<noteq> None" by (simp add: backtest_row_of_def Let_def lane_def split: prod.splits)
    with Cons.prems(3) y b show ?thesis by (auto split: prod.splits)
  qed
qed simp

lemma stream_of_harness: "stream_of (harness_detector h k b) key = (init_metric_state h k)\<lparr>ms_min_baseline := b\<rparr>"
  by (simp add: harness_detector_def stream_of_init)

lemma scaled_by_one: "scaled_noise 1 = shipped_noise"
  by (simp add: scaled_noise_def)

lemma series_keys: "\<forall>x \<in> set (generate_series R). map fst (snd x) = METRIC_NAMES"
  using simulate_days_keys by (auto simp: generate_series_def Let_def dest!: set_zip_rightD)

lemma series_sorted: "sorted (map fst (generate_series R))"
  by (simp add: generate_series_def Let_def)

subsection \<open>Properties\<close>

text \<open>The three harnesses measure one thing. On the series of any generator the backtest reports the canonical alert date exactly
  when the control of the noise study finds it (and then the gate of the sweep finds it too, with no earlier alarm), and the stable-window harness,
  which stops feeding an alerted stream, gives every metric the same first alert day as the one that feeds on.\<close>

theorem harnesses_agree:
  "(overall_first (run_detector (generate_series R)) = Some NOISE_OFF_ALERT_DATE
      \<longleftrightarrow> (\<exists>rep. backtest_run R = Inr rep \<and> bk_first_date rep = NOISE_OFF_ALERT_DATE))
   \<and> (overall_first (run_detector (generate_series R)) = Some NOISE_OFF_ALERT_DATE
      \<longrightarrow> sanity_gate R = Inr () \<and> in_pre_onset (run_incident R 5 (1 / 2) 30 1) = 0)
   \<and> (\<exists>al. run_window R n (map snd (generate_series R)) None = Inr al
        \<and> (\<forall>name. dict_get (run_detector (generate_series R)) name None = map_option (\<lambda>(i, _). BASELINE_START + i) (map_of al name)))"
proof (intro conjI)
  let ?det = "harness_detector CUSUM_H CUSUM_K BASELINE_SAMPLES" and ?inc = "\<lparr>in_first = None, in_pre_onset = 0\<rparr>"
  let ?none = "map (\<lambda>m. (m, None)) METRIC_NAMES :: (string, int option) dict"
  have "unset ?none" by (simp add: unset_def METRIC_NAMES_def List.map_filter_def)
  note same = same_first [where inc = ?inc and num = 0 and det = ?det, OF series_keys series_sorted [of R] this]
  have first: "overall_first (run_detector (generate_series R)) = map_option snd (snd (backtest_days (generate_series R) 0 ?det None))"
    using same by (simp add: run_detector_def)
  obtain rows fst_alert where run: "backtest_days (generate_series R) 0 ?det None = (rows, fst_alert)" by fastforce
  have twins: "twins ?det" by (simp add: twins_def Let_def stream_of_harness init_metric_state_def)
  have series: "backtest_series R = generate_series R" by (simp add: backtest_series_def generate_series_def)
  show "overall_first (run_detector (generate_series R)) = Some NOISE_OFF_ALERT_DATE
      \<longleftrightarrow> (\<exists>rep. backtest_run R = Inr rep \<and> bk_first_date rep = NOISE_OFF_ALERT_DATE)"
  proof
    assume "overall_first (run_detector (generate_series R)) = Some NOISE_OFF_ALERT_DATE"
    then obtain a where a: "fst_alert = Some (a, NOISE_OFF_ALERT_DATE)" using first run by auto
    then obtain bs rest where "filter (\<lambda>r. br_mu0 r \<noteq> None) rows = bs # rest"
      using backtest_rows_ready [OF series_keys twins run [unfolded a]] by (auto simp: neq_Nil_conv)
    then show "\<exists>rep. backtest_run R = Inr rep \<and> bk_first_date rep = NOISE_OFF_ALERT_DATE"
      using run a by (simp add: backtest_run_def series NOISE_OFF_ALERT_DATE_def POSTMORTEM_DATE_def)
  next
    assume "\<exists>rep. backtest_run R = Inr rep \<and> bk_first_date rep = NOISE_OFF_ALERT_DATE"
    then show "overall_first (run_detector (generate_series R)) = Some NOISE_OFF_ALERT_DATE"
      using run first by (auto simp: backtest_run_def series split: option.splits prod.splits if_splits list.splits)
  qed
  show "overall_first (run_detector (generate_series R)) = Some NOISE_OFF_ALERT_DATE
      \<longrightarrow> sanity_gate R = Inr () \<and> in_pre_onset (run_incident R 5 (1 / 2) 30 1) = 0"
  proof
    assume "overall_first (run_detector (generate_series R)) = Some NOISE_OFF_ALERT_DATE"
    then have "map_option fst (in_first (incident_days (generate_series R) 0 ?det ?inc)) = Some NOISE_OFF_ALERT_DATE
        \<and> in_pre_onset (incident_days (generate_series R) 0 ?det ?inc) = 0"
      using same [THEN conjunct2, THEN spec, of NOISE_OFF_ALERT_DATE] first by (auto simp: NOISE_OFF_ALERT_DATE_def BUG_DATE_def)
    moreover have "run_incident R 5 (1 / 2) 30 1 = incident_days (generate_series R) 0 ?det ?inc"
      by (simp add: run_incident_def scaled_by_one generate_series_def Let_def CUSUM_H_def CUSUM_K_def BASELINE_SAMPLES_def)
    ultimately show "sanity_gate R = Inr () \<and> in_pre_onset (run_incident R 5 (1 / 2) 30 1) = 0" by (simp add: sanity_gate_def)
  qed
  have "in_step BASELINE_START ?det [] ?det ?none" by (simp add: in_step_def METRIC_NAMES_def dict_get_def)
  from in_step_days [OF this, of R n 0]
  show "\<exists>al. run_window R n (map snd (generate_series R)) None = Inr al
      \<and> (\<forall>name. dict_get (run_detector (generate_series R)) name None = map_option (\<lambda>(i, _). BASELINE_START + i) (map_of al name))"
    by (simp add: run_window_def run_detector_def series_dated dated_snd)
qed

text \<open>A generator whose incident shows on the canonical date: lengths keep their baseline for five days after the bug and then jump.\<close>

definition late_rng :: "nat rng" where
  "late_rng = \<lparr>rng_seed = (\<lambda>_. 0), rng_gauss = (\<lambda>mu sd g. if sd = 25 then (if g < 5 then 3 else 100, g + 1) else (0, g)),
     rng_random = (\<lambda>g. (1, g)), rng_expo = (\<lambda>_ g. (0, g)), rng_below = (\<lambda>_ g. (0, g))\<rparr>"

definition calm :: "nat \<Rightarrow> real \<Rightarrow> metric_state \<Rightarrow> bool" where
  "calm n c st \<longleftrightarrow> ms_h st = 5 \<and> ms_k st = 1 / 2 \<and> ms_min_baseline st = 30 \<and> ms_s_pos st = 0 \<and> ms_s_neg st = 0
     \<and> (if n < 30 then ms_base st = None \<and> ms_buf st = replicate n c else ms_base st = Some (c, 1))"

definition near :: "nat \<Rightarrow> real \<Rightarrow> real \<Rightarrow> bool" where
  "near n c v \<longleftrightarrow> v = c \<or> 30 \<le> n \<and> \<bar>v - c\<bar> \<le> 1 / 2"

lemma calm_next:
  assumes "calm n c st" and "near n c v"
  shows "\<not> stream_alert v st" and "calm (Suc n) c (stream_next v st)"
proof -
  have "\<not> stream_alert v st \<and> calm (Suc n) c (stream_next v st)"
  proof (cases "n < 30")
    case True
    have full: "replicate n c @ [c] = replicate (Suc n) c" by (simp add: replicate_append_same)
    have "sum_list (replicate n c @ [c]) / real (n + 1) = c" "clamped_sd (replicate n c @ [c]) = 1"
      unfolding full by (simp_all add: sum_list_replicate del: replicate_Suc, rule clamped_sd_constant [of _ c], auto)
    with True assms stream_next_baseline [of st v] show ?thesis by (auto simp: calm_def near_def full)
  next
    case False
    with assms show ?thesis by (auto simp: calm_def near_def stream_alert_active stream_next_active max_def abs_le_iff)
  qed
  then show "\<not> stream_alert v st" and "calm (Suc n) c (stream_next v st)" by blast+
qed

definition calm_det :: "nat \<Rightarrow> cusum_detector \<Rightarrow> bool" where
  "calm_det n det \<longleftrightarrow> calm n (99 / 100) (stream_of det (lane ''json_success_rate'')) \<and> calm n 450 (stream_of det (lane ''avg_output_length''))"

definition pair_day :: "real \<Rightarrow> real \<Rightarrow> day_metrics" where
  "pair_day a b = [(''json_success_rate'', a), (''avg_output_length'', b)]"

lemma calm_day:
  assumes "calm_det n det" and "near n (99 / 100) a"
  obtains det' today r where "backtest_metrics day num (pair_day a b) det None None = (det', r, today)"
    and "near n 450 b \<Longrightarrow> r = None \<and> calm_det (Suc n) det'"
    and "\<not> stream_alert b (stream_of det (lane ''avg_output_length'')) \<or> map_option snd r = Some day"
proof -
  obtain d1 x1 where u1: "detector_update det 0 MODEL ''json_success_rate'' a (Some (num * DAY_NS)) [] = (d1, x1)" by fastforce
  obtain d2 x2 where u2: "detector_update d1 0 MODEL ''avg_output_length'' b (Some (num * DAY_NS)) [] = (d2, x2)" by fastforce
  note s = feed_lane(2) [OF u1] feed_lane(2) [OF u2] feed_lane(1) [OF u1] feed_lane(1) [OF u2]
  have x1: "x1 = None" using s(3) calm_next(1) [of n "99 / 100"] assms by (auto simp: calm_det_def)
  show thesis
  proof (rule that)
    show "backtest_metrics day num (pair_day a b) det None None = (d2, map_option (\<lambda>x. (x, day)) x2, x2)"
      using u1 u2 x1 by (simp add: pair_day_def split: option.split)
    show "map_option (\<lambda>x. (x, day)) x2 = None \<and> calm_det (Suc n) d2" if "near n 450 b"
      using that assms s calm_next [of n 450 _ b] calm_next [of n "99 / 100" _ a] by (auto simp: calm_det_def)
    show "\<not> stream_alert b (stream_of det (lane ''avg_output_length'')) \<or> map_option snd (map_option (\<lambda>x. (x, day)) x2) = Some day"
      using s by auto
  qed
qed

lemma calm_days:
  assumes "calm_det n det" and "near n (99 / 100) a" and "near n 450 b"
  shows "\<exists>det'. calm_det (n + k) det' \<and> snd (backtest_days (dated d (replicate k (pair_day a b) @ rest)) num det None)
    = snd (backtest_days (dated (d + int k) rest) (num + int k) det' None)"
  using assms
proof (induction k arbitrary: n d num det)
  case (Suc k)
  obtain det' today r where step: "backtest_metrics d num (pair_day a b) det None None = (det', r, today)" "r = None \<and> calm_det (Suc n) det'"
    using calm_day [OF Suc.prems(1,2)] Suc.prems(3) by metis
  have "near (Suc n) (99 / 100) a" "near (Suc n) 450 b" using Suc.prems(2,3) by (auto simp: near_def)
  from Suc.IH [OF _ this, of det' "d + 1" "num + 1"] step show ?case by (auto simp: case_prod_beta algebra_simps)
qed auto

lemma simulate_days_append:
  "simulate_days R nc (ds @ es) g =
     (case simulate_days R nc ds g of (ms, g) \<Rightarrow> (case simulate_days R nc es g of (ns, g) \<Rightarrow> (ms @ ns, g)))"
  by (induction ds arbitrary: g) (simp_all add: case_prod_beta)

lemma late_stable_days:
  "\<forall>d \<in> set ds. d < BUG_DATE \<Longrightarrow> simulate_days late_rng shipped_noise ds g = (replicate (length ds) (pair_day (99 / 100) 450), g)"
  by (induction ds arbitrary: g) (simp_all add: simulate_day_def get_phase_def late_rng_def shipped_noise_def pair_day_def BASE_RATE_def BASE_LEN_def)

lemma late_series:
  "\<exists>rest. generate_series late_rng =
     dated BASELINE_START (replicate 35 (pair_day (99 / 100) 450) @ replicate 5 (pair_day (982 / 1000) 450) @ pair_day (982 / 1000) 547 # rest)"
proof -
  have seed: "rng_seed late_rng SEED = 0" by (simp add: late_rng_def)
  have dates: "[BASELINE_START..POSTMORTEM_DATE] = [BASELINE_START..BUG_DATE - 1] @ [BUG_DATE..BUG_DATE + 5] @ [BUG_DATE + 6..POSTMORTEM_DATE]"
    by (simp add: BASELINE_START_def BUG_DATE_def POSTMORTEM_DATE_def upto_rec1)
  have "fst (simulate_days late_rng shipped_noise [BUG_DATE..BUG_DATE + 5] 0) =
      replicate 5 (pair_day (982 / 1000) 450) @ [pair_day (982 / 1000) 547]"
    by (simp add: BUG_DATE_def upto_rec1 simulate_day_def get_phase_def ESCALATION_DATE_def late_rng_def shipped_noise_def pair_day_def
        P1_RATE_def P1_LEN_def numeral_eq_Suc)
  moreover have "simulate_days late_rng shipped_noise [BASELINE_START..BUG_DATE - 1] 0 = (replicate 35 (pair_day (99 / 100) 450), 0)"
    by (subst late_stable_days) (simp_all add: BASELINE_START_def BUG_DATE_def numeral_eq_Suc)
  ultimately show ?thesis
    unfolding series_dated dates simulate_days_append seed by (simp add: case_prod_beta, blast)
qed

theorem harnesses_agree_witness:
  "(\<exists>rep. backtest_run late_rng = Inr rep \<and> bk_first_date rep = NOISE_OFF_ALERT_DATE) \<and> sanity_gate late_rng = Inr ()"
proof -
  let ?det = "harness_detector CUSUM_H CUSUM_K BASELINE_SAMPLES" and ?none = "map (\<lambda>m. (m, None)) METRIC_NAMES :: (string, int option) dict"
  obtain rest where series: "generate_series late_rng =
      dated BASELINE_START (replicate 35 (pair_day (99 / 100) 450) @ replicate 5 (pair_day (982 / 1000) 450) @ pair_day (982 / 1000) 547 # rest)"
    using late_series by blast
  have "calm_det 0 ?det"
    by (simp add: calm_det_def calm_def stream_of_harness init_metric_state_def CUSUM_H_def CUSUM_K_def BASELINE_SAMPLES_def)
  moreover have "near 0 (99 / 100) (99 / 100)" "near 0 450 450" by (simp_all add: near_def)
  ultimately obtain det1 where d1: "calm_det (0 + 35) det1"
    "snd (backtest_days (generate_series late_rng) 0 ?det None) =
       snd (backtest_days (dated (BASELINE_START + int 35) (replicate 5 (pair_day (982 / 1000) 450) @ pair_day (982 / 1000) 547 # rest)) (0 + int 35) det1 None)"
    unfolding series using calm_days by blast
  have "near (0 + 35) (99 / 100) (982 / 1000)" "near (0 + 35) 450 450" by (simp_all add: near_def)
  from calm_days [OF d1(1) this, of 5 "BASELINE_START + int 35" "pair_day (982 / 1000) 547 # rest" "0 + int 35", folded d1(2)]
  obtain det2 where d2: "calm_det 40 det2"
    "snd (backtest_days (generate_series late_rng) 0 ?det None) =
       snd (backtest_days (dated (BASELINE_START + 40) (pair_day (982 / 1000) 547 # rest)) 40 det2 None)"
    by (elim exE conjE) (simp only: of_nat_numeral add_0 add.assoc numeral_plus_numeral add_num_simps)
  have "stream_alert 547 (stream_of det2 (lane ''avg_output_length''))"
    using d2(1) by (simp add: calm_det_def calm_def stream_alert_active stream_next_active)
  moreover have "near 40 (99 / 100) (982 / 1000)" by (simp add: near_def)
  from calm_day [OF d2(1) this, of "BASELINE_START + 40" 40 547]
  obtain det3 today r where "backtest_metrics (BASELINE_START + 40) 40 (pair_day (982 / 1000) 547) det2 None None = (det3, r, today)"
    "\<not> stream_alert 547 (stream_of det2 (lane ''avg_output_length'')) \<or> map_option snd r = Some (BASELINE_START + 40)" by metis
  ultimately have "map_option snd (snd (backtest_days (dated (BASELINE_START + 40) (pair_day (982 / 1000) 547 # rest)) 40 det2 None))
      = Some (BASELINE_START + 40)"
    by (auto simp: case_prod_beta first_alert_kept)
  then have first: "map_option snd (snd (backtest_days (generate_series late_rng) 0 ?det None)) = Some NOISE_OFF_ALERT_DATE"
    by (simp only: d2(2)) (simp add: BASELINE_START_def NOISE_OFF_ALERT_DATE_def)
  have "unset ?none" by (simp add: unset_def METRIC_NAMES_def List.map_filter_def)
  from same_first [where inc = "\<lparr>in_first = None, in_pre_onset = 0\<rparr>" and num = 0 and det = ?det, OF series_keys series_sorted this, of late_rng] first
  have "overall_first (run_detector (generate_series late_rng)) = Some NOISE_OFF_ALERT_DATE" by (auto simp: run_detector_def)
  with harnesses_agree [of late_rng 1] show ?thesis by blast
qed

subsection \<open>An alarm costs a baseline\<close>

text \<open>A stream with \<open>p\<close> alarms behind it after \<open>n\<close> days: every alarm used up a baseline and one more value.\<close>

definition spent :: "int \<Rightarrow> metric_state \<Rightarrow> bool" where
  "spent b st \<longleftrightarrow> ms_min_baseline st = b \<and> 0 \<le> ms_n st
     \<and> (if ms_base st = None then ms_n st = int (length (ms_buf st)) else b \<le> ms_n st)"

definition ledger :: "int \<Rightarrow> int \<Rightarrow> nat \<Rightarrow> cusum_detector \<Rightarrow> string \<Rightarrow> bool" where
  "ledger b n p det name \<longleftrightarrow> spent b (stream_of det (lane name)) \<and> int p * (b + 1) + ms_n (stream_of det (lane name)) \<le> n"

lemma spent_next: "spent b st \<Longrightarrow> spent b (stream_next v st)"
  using stream_next_baseline [of st v] base_kept [of st v] by (auto simp: spent_def split: if_splits)

lemma stream_of_reset_lane:
  "stream_of (detector_reset det MODEL (Some name) None) (lane name') = (if name' = name then fresh_stream det else stream_of det (lane name'))"
  by (simp add: stream_of_def states_detector_reset lane_def split: option.split)

lemma feed_ledger:
  assumes "detector_update det clk MODEL name v ts [] = (det', alert)" and "ms_min_baseline (fresh_stream det) = b" and "ledger b n p det name" and "0 \<le> b"
  shows "ms_min_baseline (fresh_stream det') = b" and "ledger b (n + 1) p det' name"
    and "alert \<noteq> None \<Longrightarrow> b \<le> n \<and> ledger b (n + 1) (p + 1) (detector_reset det' MODEL (Some name) None) name"
    and "name' \<noteq> name \<Longrightarrow> ledger b m q det' name' = ledger b m q det name'"
    and "name' \<noteq> name \<Longrightarrow> ledger b m q (detector_reset det' MODEL (Some name) None) name' = ledger b m q det name'"
proof -
  note u = feed_lane [OF assms(1)]
  have det': "det' = fst (detector_update det clk MODEL name v ts [])" by (simp add: assms(1))
  show cap: "ms_min_baseline (fresh_stream det') = b" using assms(2) by (simp add: det')
  show "ledger b (n + 1) p det' name" using assms(3) spent_next by (simp add: ledger_def u(2))
  show "b \<le> n \<and> ledger b (n + 1) (p + 1) (detector_reset det' MODEL (Some name) None) name" if "alert \<noteq> None"
  proof -
    have "b \<le> ms_n (stream_of det (lane name))" using that u(1) assms(3) alert_needs_base by (auto simp: ledger_def spent_def)
    moreover have "0 \<le> int p * (b + 1)" using assms(4) by simp
    moreover have "spent b (fresh_stream det')" using cap by (simp add: spent_def fresh_stream_def init_metric_state_def)
    ultimately show ?thesis
      using assms(3) by (auto simp: ledger_def stream_of_reset_lane fresh_stream_def init_metric_state_def algebra_simps)
  qed
  show "ledger b m q det' name' = ledger b m q det name'" if "name' \<noteq> name" using that by (simp add: ledger_def u(2))
  show "ledger b m q (detector_reset det' MODEL (Some name) None) name' = ledger b m q det name'" if "name' \<noteq> name"
    using that by (simp add: ledger_def u(2) stream_of_reset_lane)
qed

definition incident_inv :: "int \<Rightarrow> int \<Rightarrow> cusum_detector \<Rightarrow> incident \<Rightarrow> bool" where
  "incident_inv b n det r \<longleftrightarrow> ms_min_baseline (fresh_stream det) = b
     \<and> (\<exists>p q. in_pre_onset r = p + q \<and> ledger b n p det ''json_success_rate'' \<and> ledger b n q det ''avg_output_length''
          \<and> int p * (b + 1) \<le> 35 \<and> int q * (b + 1) \<le> 35)
     \<and> (case in_first r of None \<Rightarrow> True
         | Some (d, _) \<Rightarrow> BUG_DATE \<le> d \<and> BASELINE_START + b \<le> d \<and> d < BASELINE_START + n)"

lemma incident_one:
  assumes "detector_update det clk MODEL name v ts [] = (det', alert)" and "ms_min_baseline (fresh_stream det) = b" and "ledger b n p det name"
    and "0 \<le> b" and "int p * (b + 1) \<le> 35" and "day = BASELINE_START + n"
  defines "det1 \<equiv> (if alert \<noteq> None \<and> day < BUG_DATE then detector_reset det' MODEL (Some name) None else det')"
    and "p1 \<equiv> (if alert \<noteq> None \<and> day < BUG_DATE then p + 1 else p)"
  shows "ms_min_baseline (fresh_stream det1) = b" and "ledger b (n + 1) p1 det1 name" and "int p1 * (b + 1) \<le> 35"
    and "alert \<noteq> None \<Longrightarrow> BASELINE_START + b \<le> day"
    and "name' \<noteq> name \<Longrightarrow> ledger b m q det1 name' = ledger b m q det name'"
proof -
  note f = feed_ledger [OF assms(1-4)]
  show "ms_min_baseline (fresh_stream det1) = b" using f(1) by (simp add: det1_def)
  show led: "ledger b (n + 1) p1 det1 name" using f(2,3) by (simp add: det1_def p1_def)
  show "int p1 * (b + 1) \<le> 35"
  proof (cases "alert \<noteq> None \<and> day < BUG_DATE")
    case True
    then have "int p1 * (b + 1) \<le> n + 1" using led by (auto simp: ledger_def spent_def)
    then show ?thesis using True assms(6) by (simp add: BUG_DATE_def BASELINE_START_def)
  qed (use assms(5) p1_def in auto)
  show "alert \<noteq> None \<Longrightarrow> BASELINE_START + b \<le> day" using f(3) assms(6) by simp
  show "name' \<noteq> name \<Longrightarrow> ledger b m q det1 name' = ledger b m q det name'" using f(4,5) by (simp add: det1_def)
qed

lemma incident_day:
  assumes "map fst m = METRIC_NAMES" and "incident_inv b n det r" and "0 \<le> b" and "incident_metrics (BASELINE_START + n) num m det r = (det', r')"
  shows "incident_inv b (n + 1) det' r'"
proof -
  let ?day = "BASELINE_START + n" and ?A = "''json_success_rate''" and ?B = "''avg_output_length''"
  obtain x y where m: "m = [(?A, x), (?B, y)]" using day_two [OF assms(1)] by blast
  obtain p q where inv: "ms_min_baseline (fresh_stream det) = b" "in_pre_onset r = p + q" "ledger b n p det ?A" "ledger b n q det ?B"
    "int p * (b + 1) \<le> 35" "int q * (b + 1) \<le> 35"
    using assms(2) by (auto simp: incident_inv_def)
  have found: "case in_first r of None \<Rightarrow> True | Some (d, _) \<Rightarrow> BUG_DATE \<le> d \<and> BASELINE_START + b \<le> d \<and> d < ?day"
    using assms(2) by (simp add: incident_inv_def)
  obtain d1 a1 where u1: "detector_update det 0 MODEL ?A x (Some (num * DAY_NS)) [] = (d1, a1)" by fastforce
  define e1 where "e1 = (if a1 \<noteq> None \<and> ?day < BUG_DATE then detector_reset d1 MODEL (Some ?A) None else d1)"
  obtain d2 a2 where u2: "detector_update e1 0 MODEL ?B y (Some (num * DAY_NS)) [] = (d2, a2)" by fastforce
  note o1 = incident_one [OF u1 inv(1,3) assms(3) inv(5) refl, folded e1_def]
  have led2: "ledger b n q e1 ?B" using inv(4) o1(5) [of ?B] by simp
  note o2 = incident_one [OF u2 o1(1) led2 assms(3) inv(6) refl]
  define e2 where "e2 = (if a2 \<noteq> None \<and> ?day < BUG_DATE then detector_reset d2 MODEL (Some ?B) None else d2)"
  define p1 where "p1 = (if a1 \<noteq> None \<and> ?day < BUG_DATE then p + 1 else p)"
  define q1 where "q1 = (if a2 \<noteq> None \<and> ?day < BUG_DATE then q + 1 else q)"
  have "det' = e2" "in_pre_onset r' = p1 + q1"
    using assms(4) u1 u2 inv(2) by (auto simp: m e1_def e2_def p1_def q1_def split: option.splits if_splits)
  moreover have "case in_first r' of None \<Rightarrow> True | Some (d, _) \<Rightarrow> BUG_DATE \<le> d \<and> BASELINE_START + b \<le> d \<and> d < BASELINE_START + (n + 1)"
    using assms(4) u1 u2 found o1(4) o2(4) by (auto simp: m e1_def split: option.splits if_splits)
  moreover have "ledger b (n + 1) p1 e2 ?A" "ledger b (n + 1) q1 e2 ?B" "ms_min_baseline (fresh_stream e2) = b"
    "int p1 * (b + 1) \<le> 35" "int q1 * (b + 1) \<le> 35"
    using o1(2,3) o2(1,2,3) o2(5) [of ?A] by (simp_all add: e2_def p1_def q1_def)
  ultimately show ?thesis unfolding incident_inv_def by blast
qed

lemma incident_run:
  assumes "\<forall>m \<in> set ms. map fst m = METRIC_NAMES" and "incident_inv b n det r" and "0 \<le> b"
  shows "\<exists>det'. incident_inv b (n + int (length ms)) det' (incident_days (dated (BASELINE_START + n) ms) num det r)"
  using assms
proof (induction ms arbitrary: n num det r)
  case (Cons m ms)
  obtain det' r' where s: "incident_metrics (BASELINE_START + n) num m det r = (det', r')" by fastforce
  have "incident_inv b (n + 1) det' r'" using incident_day [OF _ Cons.prems(2,3) s] Cons.prems(1) by simp
  from Cons.IH [OF _ this, of "num + 1"] Cons.prems(1,3) show ?case by (simp add: s add.assoc)
qed auto

definition stable_inv :: "int \<Rightarrow> int \<Rightarrow> cusum_detector \<Rightarrow> nat \<times> nat \<Rightarrow> bool" where
  "stable_inv b n det fp \<longleftrightarrow> ms_min_baseline (fresh_stream det) = b
     \<and> (\<exists>p q. fst fp + snd fp = p + q \<and> ledger b n p det ''json_success_rate'' \<and> ledger b n q det ''avg_output_length'')"

lemma stable_day:
  assumes "map fst m = METRIC_NAMES" and "stable_inv b n det fp" and "0 \<le> b" and "stable_metrics num m det fp = (det', fp')"
  shows "stable_inv b (n + 1) det' fp'"
proof -
  let ?A = "''json_success_rate''" and ?B = "''avg_output_length''"
  obtain x y where m: "m = [(?A, x), (?B, y)]" using day_two [OF assms(1)] by blast
  obtain p q where inv: "ms_min_baseline (fresh_stream det) = b" "fst fp + snd fp = p + q" "ledger b n p det ?A" "ledger b n q det ?B"
    using assms(2) by (auto simp: stable_inv_def)
  obtain d1 a1 where u1: "detector_update det 0 MODEL ?A x (Some (num * DAY_NS)) [] = (d1, a1)" by fastforce
  define e1 where "e1 = (if a1 \<noteq> None then detector_reset d1 MODEL (Some ?A) None else d1)"
  obtain d2 a2 where u2: "detector_update e1 0 MODEL ?B y (Some (num * DAY_NS)) [] = (d2, a2)" by fastforce
  define e2 where "e2 = (if a2 \<noteq> None then detector_reset d2 MODEL (Some ?B) None else d2)"
  note f1 = feed_ledger [OF u1 inv(1,3) assms(3)]
  have cap1: "ms_min_baseline (fresh_stream e1) = b" and led2: "ledger b n q e1 ?B"
    using f1(1) f1(4,5) [of ?B] inv(4) by (simp_all add: e1_def)
  note f2 = feed_ledger [OF u2 cap1 led2 assms(3)]
  have "det' = e2" "fst fp' + snd fp' = (if a1 \<noteq> None then p + 1 else p) + (if a2 \<noteq> None then q + 1 else q)"
    using assms(4) u1 u2 inv(2) by (cases fp; auto simp: m e1_def e2_def split: option.splits if_splits)+
  moreover have "ledger b (n + 1) (if a1 \<noteq> None then p + 1 else p) e2 ?A" "ledger b (n + 1) (if a2 \<noteq> None then q + 1 else q) e2 ?B"
    "ms_min_baseline (fresh_stream e2) = b"
    using f1(2,3) f2(1,2,3) f2(4,5) [of ?A] by (simp_all add: e1_def e2_def)
  ultimately show ?thesis unfolding stable_inv_def by blast
qed

lemma stable_run:
  assumes "\<forall>m \<in> set ms. map fst m = METRIC_NAMES" and "stable_inv b n det fp" and "0 \<le> b"
  shows "\<exists>det'. stable_inv b (n + int (length ms)) det' (stable_days ms num det fp)"
  using assms
proof (induction ms arbitrary: n num det fp)
  case (Cons m ms)
  obtain det' fp' where s: "stable_metrics num m det fp = (det', fp')" by (rule prod.exhaust)
  have "stable_inv b (n + 1) det' fp'" using stable_day [OF _ Cons.prems(2,3) s] Cons.prems(1) by simp
  from Cons.IH [OF _ this, of "num + 1"] Cons.prems(1,3) show ?case by (simp add: s add.assoc)
qed auto

lemma div_bound: "0 \<le> b \<Longrightarrow> int p * (b + 1) \<le> n \<Longrightarrow> int p \<le> n div (b + 1)"
  using zdiv_mono1 [of "int p * (b + 1)" n "b + 1"] by simp

lemma harness_ledger: "1 \<le> b \<Longrightarrow> ledger b 0 0 (harness_detector h k b) name"
  by (simp add: ledger_def spent_def stream_of_harness init_metric_state_def)

lemma harness_cap: "ms_min_baseline (fresh_stream (harness_detector h k b)) = b"
  by (simp add: harness_detector_def init_detector_def fresh_stream_def)

lemma incident_bounds:
  assumes "1 \<le> baseline"
  shows "int (in_pre_onset (run_incident R h k baseline s)) \<le> 2 * (35 div (baseline + 1))"
    and "case in_first (run_incident R h k baseline s) of None \<Rightarrow> True
         | Some (d, _) \<Rightarrow> BUG_DATE \<le> d \<and> BASELINE_START + baseline \<le> d \<and> d \<le> POSTMORTEM_DATE"
proof -
  let ?ms = "fst (simulate_days R (scaled_noise s) [BASELINE_START..POSTMORTEM_DATE] (rng_seed R SEED))"
  let ?r0 = "\<lparr>in_first = None, in_pre_onset = 0\<rparr>"
  have len: "length ?ms = 79" unfolding simulate_days_length by (simp add: BASELINE_START_def POSTMORTEM_DATE_def)
  have keys: "\<forall>m \<in> set ?ms. map fst m = METRIC_NAMES" by (intro ballI) (rule simulate_days_keys)
  have "incident_inv baseline 0 (harness_detector h k baseline) ?r0"
    using harness_ledger [OF assms] by (auto simp: incident_inv_def harness_cap intro!: exI [of _ 0])
  from incident_run [OF keys this, of 0] assms obtain det'
    where "incident_inv baseline 79 det' (incident_days (dated BASELINE_START ?ms) 0 (harness_detector h k baseline) ?r0)"
    by (auto simp: len simp del: simulate_days_length)
  moreover have "zip [BASELINE_START..POSTMORTEM_DATE] ?ms = dated BASELINE_START ?ms" by (rule zip_upto_dated) simp
  ultimately have inv: "incident_inv baseline 79 det' (run_incident R h k baseline s)" by (simp add: run_incident_def Let_def)
  then obtain p q where "in_pre_onset (run_incident R h k baseline s) = p + q" "int p * (baseline + 1) \<le> 35" "int q * (baseline + 1) \<le> 35"
    by (auto simp: incident_inv_def)
  with div_bound [of baseline p 35] div_bound [of baseline q 35] assms
  show "int (in_pre_onset (run_incident R h k baseline s)) \<le> 2 * (35 div (baseline + 1))" by simp
  show "case in_first (run_incident R h k baseline s) of None \<Rightarrow> True
      | Some (d, _) \<Rightarrow> BUG_DATE \<le> d \<and> BASELINE_START + baseline \<le> d \<and> d \<le> POSTMORTEM_DATE"
    using inv by (auto simp: incident_inv_def BASELINE_START_def POSTMORTEM_DATE_def split: option.splits)
qed

lemma stable_bound:
  assumes "1 \<le> baseline" and "run_stable R h k baseline s = (fp_neg, fp_pos)"
  shows "int (fp_neg + fp_pos) \<le> 2 * (79 div (baseline + 1))"
proof -
  let ?ms = "fst (simulate_days R (scaled_noise s) (replicate (nat N_DAYS) BASELINE_START) (rng_seed R SEED))"
  have len: "length ?ms = 79" unfolding simulate_days_length by (simp add: N_DAYS_def BASELINE_START_def POSTMORTEM_DATE_def)
  have keys: "\<forall>m \<in> set ?ms. map fst m = METRIC_NAMES" by (intro ballI) (rule simulate_days_keys)
  have "stable_inv baseline 0 (harness_detector h k baseline) (0, 0)"
    using harness_ledger [OF assms(1)] by (auto simp: stable_inv_def harness_cap intro!: exI [of _ 0])
  from stable_run [OF keys this, of 0] assms obtain det' where inv: "stable_inv baseline 79 det' (fp_neg, fp_pos)"
    by (auto simp: len run_stable_def simp del: simulate_days_length)
  then obtain p q where pq: "fp_neg + fp_pos = p + q" "ledger baseline 79 p det' ''json_success_rate''" "ledger baseline 79 q det' ''avg_output_length''"
    by (auto simp: stable_inv_def)
  then have "int p * (baseline + 1) \<le> 79" "int q * (baseline + 1) \<le> 79" by (auto simp: ledger_def spent_def)
  with pq(1) div_bound [of baseline p 79] div_bound [of baseline q 79] assms show ?thesis by simp
qed

text \<open>C39: In the sweep every alarm costs a baseline. With a baseline of \<open>b\<close> samples the detection comes neither before the bug nor before day
  \<open>b\<close>, so its lead never exceeds the honest maximum and the sweep completes with one row for each of its 180 settings; a stream alarms at most once in
  \<open>b + 1\<close> days, which bounds the pre-onset alarms of 35 clean days and the false positives of the 79 stable days.\<close>

theorem alarms_cost_a_baseline:
  "\<exists>rows. sweep R = Inr rows \<and> map (\<lambda>r. (sw_h r, sw_k r, sw_baseline r, sw_sigma r)) rows = sweep_grid \<and> length rows = 180
    \<and> list_all (\<lambda>r. int (sw_pre_onset r) \<le> 2 * (35 div (sw_baseline r + 1)) \<and> int (sw_fp_total r) \<le> 2 * (79 div (sw_baseline r + 1))
        \<and> (case sw_first r of None \<Rightarrow> sw_missed r | Some (d, _) \<Rightarrow> BASELINE_START + sw_baseline r \<le> d \<and> sw_lead r = Some (POSTMORTEM_DATE - d)
             \<and> 0 \<le> POSTMORTEM_DATE - d \<and> POSTMORTEM_DATE - d \<le> MAX_LEAD)) rows"
proof -
  define good where "good c r \<longleftrightarrow> (sw_h r, sw_k r, sw_baseline r, sw_sigma r) = c
    \<and> int (sw_pre_onset r) \<le> 2 * (35 div (sw_baseline r + 1)) \<and> int (sw_fp_total r) \<le> 2 * (79 div (sw_baseline r + 1))
    \<and> (case sw_first r of None \<Rightarrow> sw_missed r | Some (d, _) \<Rightarrow> BASELINE_START + sw_baseline r \<le> d \<and> sw_lead r = Some (POSTMORTEM_DATE - d)
         \<and> 0 \<le> POSTMORTEM_DATE - d \<and> POSTMORTEM_DATE - d \<le> MAX_LEAD)" for c and r :: sweep_row
  have one: "\<exists>r. sweep_config R c = Inr r \<and> good c r" if c: "c \<in> set sweep_grid" for c
  proof -
    obtain h k b s where c': "c = (h, k, b, s)" by (rule prod_cases4)
    then have b: "1 \<le> b" using c by (auto simp: sweep_grid_def BASELINE_GRID_def)
    obtain fp_neg fp_pos where st: "run_stable R h k b s = (fp_neg, fp_pos)" by fastforce
    note inc = incident_bounds [OF b, of R h k s] and fp = stable_bound [OF b st]
    show ?thesis
      using inc fp by (cases "in_first (run_incident R h k b s)")
        (auto simp: sweep_config_def c' st good_def Let_def MAX_LEAD_def)
  qed
  have all: "\<exists>rows. traverse (sweep_config R) cs = Inr rows \<and> list_all2 good cs rows" if "set cs \<subseteq> set sweep_grid" for cs
    using that
  proof (induction cs)
    case (Cons c cs)
    then obtain rows where "traverse (sweep_config R) cs = Inr rows" "list_all2 good cs rows" by auto
    moreover obtain r where "sweep_config R c = Inr r" "good c r" using one [of c] Cons.prems by auto
    ultimately show ?case by simp
  qed simp
  then obtain rows where rows: "sweep R = Inr rows" "list_all2 good sweep_grid rows" unfolding sweep_def by blast
  have "map (\<lambda>r. (sw_h r, sw_k r, sw_baseline r, sw_sigma r)) rows = sweep_grid"
    using rows(2) by (induction rule: list_all2_induct) (simp_all add: good_def)
  moreover have "length rows = 180"
    using list_all2_lengthD [OF rows(2)] by (simp add: sweep_grid_def H_GRID_def K_GRID_def BASELINE_GRID_def SIGMA_GRID_def)
  moreover have "\<exists>c. good c r" if "r \<in> set rows" for r
    using rows(2) that unfolding list_all2_conv_all_nth in_set_conv_nth by metis
  ultimately show ?thesis using rows(1) by (auto simp: good_def list_all_iff)
qed

text \<open>The noise of the studies is the noise of the probe. On the means of any batch of \<open>n\<close> results, both copies of the code give, with batch
  size \<open>n\<close> and from the same generator, exactly the two legacy metrics that the flush of the probe publishes.\<close>

theorem study_noise_is_flush_noise:
  assumes "flush_metrics (rng_expo R) rs g = Inr (published, g')"
  defines "day \<equiv> [(''json_success_rate'', mean_over json_value rs), (''avg_output_length'', mean_over length_value rs)]"
  shows "\<exists>m g1. apply_dp R (int (length rs)) day g = Inr (m, g1) \<and> apply_dp_noise R (int (length rs)) day g = Inr (m, g1)
    \<and> map_of m ''avg_output_length'' = map_of published ''avg_output_length'' \<and> map_of m ''json_success_rate'' = map_of published ''json_success_rate''"
proof -
  obtain a g1 j g2 where drawn: "noised (rng_expo R) ''avg_output_length'' (int (length rs)) (mean_over length_value rs) g = Inr (a, g1)"
    "noised (rng_expo R) ''json_success_rate'' (int (length rs)) (mean_over json_value rs) g1 = Inr (j, g2)"
    and rest: "sum_bind (tool_metric (rng_expo R) rs ([(''avg_output_length'', py_round 4 (max 0 a)),
        (''json_success_rate'', py_round 4 (max 0 (min 1 j))), (''result_count'', of_int (int (length rs)))], g2))
      (\<lambda>mg. sum_bind (token_metric (rng_expo R) rs ''avg_output_tokens'' cr_output_tokens mg)
        (token_metric (rng_expo R) rs ''avg_reasoning_tokens'' cr_reasoning_tokens)) = Inr (published, g')"
    using assms(1) by (auto simp: flush_metrics_def Let_def sum_bind_Inr_iff)
  have tool: "tool_metric (rng_expo R) rs mg = Inr mg' \<Longrightarrow> k \<noteq> ''tool_call_validity_rate'' \<Longrightarrow> map_of (fst mg') k = map_of (fst mg) k" for mg mg' k
    by (cases mg) (auto simp: tool_metric_def sum_bind_Inr_iff Let_def update_conv' split: if_splits)
  have token: "token_metric (rng_expo R) rs key f mg = Inr mg' \<Longrightarrow> k \<noteq> key \<Longrightarrow> map_of (fst mg') k = map_of (fst mg) k" for key f mg mg' k
    by (cases mg) (auto simp: token_metric_def sum_bind_Inr_iff Let_def update_conv' split: if_splits)
  have kept: "map_of published k = map_of [(''avg_output_length'', py_round 4 (max 0 a)), (''json_success_rate'', py_round 4 (max 0 (min 1 j))),
      (''result_count'', of_int (int (length rs)))] k" if "k \<in> {''avg_output_length'', ''json_success_rate''}" for k
  proof -
    obtain mg1 mg2 where s: "tool_metric (rng_expo R) rs ([(''avg_output_length'', py_round 4 (max 0 a)),
        (''json_success_rate'', py_round 4 (max 0 (min 1 j))), (''result_count'', of_int (int (length rs)))], g2) = Inr mg1"
      "token_metric (rng_expo R) rs ''avg_output_tokens'' cr_output_tokens mg1 = Inr mg2"
      "token_metric (rng_expo R) rs ''avg_reasoning_tokens'' cr_reasoning_tokens mg2 = Inr (published, g')"
      using rest unfolding sum_bind_Inr_iff by blast
    have "k \<noteq> ''tool_call_validity_rate''" "k \<noteq> ''avg_output_tokens''" "k \<noteq> ''avg_reasoning_tokens''" using that by auto
    with tool [OF s(1)] token [OF s(2)] token [OF s(3)] show ?thesis by simp
  qed
  have "apply_dp R (int (length rs)) day g = Inr ([(''json_success_rate'', py_round 4 (max 0 (min 1 j))), (''avg_output_length'', py_round 4 (max 0 a))], g2)"
    "apply_dp_noise R (int (length rs)) day g = Inr ([(''json_success_rate'', py_round 4 (max 0 (min 1 j))), (''avg_output_length'', py_round 4 (max 0 a))], g2)"
    using drawn by (simp_all add: apply_dp_def apply_dp_noise_def day_def dict_get_def)
  then show ?thesis using kept by simp
qed

theorem study_noise_is_flush_noise_witness:
  "\<exists>m g1. apply_dp late_rng 1 [(''json_success_rate'', mean_over json_value [example_result 5 True]), (''avg_output_length'', mean_over length_value [example_result 5 True])] 0
     = Inr (m, g1) \<and> map_of m ''avg_output_length'' = Some 5 \<and> map_of m ''json_success_rate'' = Some 1"
proof -
  have run: "flush_metrics (rng_expo late_rng) [example_result 5 True] 0 =
      Inr ([(''avg_output_length'', 5), (''json_success_rate'', 1), (''result_count'', 1)], 0)"
    by (simp add: flush_metrics_def noised_def metric_sensitivity_def metric_bases_def laplace_noise_def tool_metric_def token_metric_def
        example_result_def late_rng_def mean_over_def length_value_def json_value_def clamp_count_def MAX_OUTPUT_LENGTH_def py_round_def
        round_half_even_def)
  show ?thesis using study_noise_is_flush_noise [OF run] by auto
qed

text \<open>C4: The noise study accounts for every seed. Detected seeds, first alerts on the day of the postmortem and seeds without alert add up to the
  number of seeds; the detected dates are sorted and lie before the postmortem, the rates are percentages, and the printed median and 90th percentile are
  the earliest dates that at least half and nine tenths of the detected seeds do not exceed.\<close>

definition share_upto :: "int list \<Rightarrow> int \<Rightarrow> real" where
  "share_upto ds d = real (length (filter (\<lambda>e. e \<le> d) ds)) / real (length ds)"

lemma sorted_prefix_count:
  assumes "sorted ds" and "i < length ds"
  shows "Suc i \<le> length (filter (\<lambda>e. e \<le> ds ! i) ds)" and "d < ds ! i \<Longrightarrow> length (filter (\<lambda>e. e \<le> d) ds) \<le> i"
proof -
  have "filter (\<lambda>e. e \<le> ds ! i) (take (Suc i) ds) = take (Suc i) ds"
    using assms sorted_nth_mono [OF assms(1), of _ i] by (auto simp: filter_id_conv in_set_conv_nth less_Suc_eq_le)
  moreover have split: "filter P ds = filter P (take k ds) @ filter P (drop k ds)" for P k
    by (metis append_take_drop_id filter_append)
  ultimately have "length (filter (\<lambda>e. e \<le> ds ! i) ds) \<ge> length (take (Suc i) ds)" by (subst split [of _ "Suc i"]) simp
  then show "Suc i \<le> length (filter (\<lambda>e. e \<le> ds ! i) ds)" using assms(2) by simp
  assume d: "d < ds ! i"
  have "d < e" if e: "e \<in> set (drop i ds)" for e
  proof -
    obtain j where "j < length ds - i" "e = ds ! (i + j)" using e by (auto simp: in_set_conv_nth)
    then have "ds ! i \<le> e" using assms sorted_nth_mono [of ds i "i + j"] by simp
    with d show ?thesis by simp
  qed
  then have "filter (\<lambda>e. e \<le> d) (drop i ds) = []" by (auto simp: filter_empty_conv not_le)
  then show "length (filter (\<lambda>e. e \<le> d) ds) \<le> i"
    using split [of "\<lambda>e. e \<le> d" i] length_filter_le [of "\<lambda>e. e \<le> d" "take i ds"] by simp
qed

lemma nearest_rank_spec:
  assumes "sorted ds" and "ds \<noteq> []" and "0 < q" and "q \<le> 100"
  shows "nearest_rank ds q \<in> set ds" and "q / 100 \<le> share_upto ds (nearest_rank ds q)" and "d < nearest_rank ds q \<Longrightarrow> share_upto ds d < q / 100"
proof -
  let ?n = "real (length ds)" and ?c = "\<lceil>q / 100 * real (length ds)\<rceil>"
  have n: "0 < ?n" using assms(2) by simp
  have pos: "0 < q / 100 * ?n" using assms(3) n by simp
  then have c: "1 \<le> ?c" by (simp add: le_ceiling_iff)
  have "q / 100 * ?n \<le> 1 * ?n" using assms(4) n by (intro mult_right_mono) auto
  then have le: "?c \<le> int (length ds)" by (simp add: ceiling_le_iff)
  define i where "i = nat (?c - 1)"
  have i: "i < length ds" "int i = ?c - 1" unfolding i_def using c le by linarith+
  have rank: "nearest_rank ds q = ds ! i" using c by (simp add: nearest_rank_def i_def max_def)
  show "nearest_rank ds q \<in> set ds" using i by (simp add: rank)
  have "q / 100 * ?n \<le> of_int ?c" by (rule le_of_int_ceiling)
  also have "of_int ?c = real (Suc i)" using i(2) by (simp add: of_nat_Suc)
  also have "real (Suc i) \<le> real (length (filter (\<lambda>e. e \<le> ds ! i) ds))" using sorted_prefix_count(1) [OF assms(1) i(1)] by simp
  finally show "q / 100 \<le> share_upto ds (nearest_rank ds q)" using n by (simp add: share_upto_def rank pos_le_divide_eq)
  assume "d < nearest_rank ds q"
  then have "real (length (filter (\<lambda>e. e \<le> d) ds)) \<le> real i" using sorted_prefix_count(2) [OF assms(1) i(1)] rank by simp
  also have "real i < q / 100 * ?n" using i(2) c ceiling_correct [of "q / 100 * ?n"] by linarith
  finally show "share_upto ds d < q / 100" using n by (simp add: share_upto_def pos_divide_less_eq)
qed

lemma count_split:
  "(\<And>x. x \<in> set xs \<Longrightarrow> (if P x then 1 else 0) + (if Q x then 1 else 0) + (if S x then 1 else 0) = (1 :: nat)) \<Longrightarrow>
   length (filter P xs) + length (filter Q xs) + length (filter S xs) = length xs"
proof (induction xs)
  case (Cons x xs)
  have "(if P x then 1 else 0) + (if Q x then 1 else 0) + (if S x then 1 else 0) = (1 :: nat)" by (rule Cons.prems) simp
  moreover have "length (filter P xs) + length (filter Q xs) + length (filter S xs) = length xs" by (rule Cons.IH) (rule Cons.prems, simp)
  ultimately show ?case by (auto split: if_splits)
qed simp

lemma detected_length:
  "length (List.map_filter (\<lambda>d. if before_postmortem d then d else None) ds) = length (filter before_postmortem ds)"
  by (induction ds) (auto simp: List.map_filter_def before_postmortem_def split: option.splits)

lemma overall_first_dates:
  assumes "overall_first (detector_days series num det first) = Some d" and "unset first"
  shows "d \<in> fst ` set series"
proof -
  have "dict_wf first \<Longrightarrow> set (List.map_filter snd (detector_days series num det first)) \<subseteq> fst ` set series \<union> set (List.map_filter snd first)"
  proof (induction series arbitrary: num det first)
    case (Cons x series)
    obtain day m where x: "x = (day, m)" by fastforce
    obtain det' first' where s: "detector_metrics day num m METRIC_NAMES det first = (det', first')" by fastforce
    note dates = detector_metrics_dates [OF s Cons.prems]
    from Cons.IH [OF dates(3), of "num + 1" det'] dates(1) show ?case by (auto simp: x s)
  qed simp
  moreover have "d \<in> set (List.map_filter snd (detector_days series num det first))"
    using assms(1) Min_in [of "set (List.map_filter snd (detector_days series num det first))"] by (auto simp: overall_first_def Let_def split: if_splits)
  ultimately show ?thesis using assms(2) by (auto simp: unset_def)
qed

lemma sorted_ends:
  assumes "sorted s" and "s \<noteq> []"
  shows "hd s = Min (set s)" and "last s = Max (set s)"
proof -
  show "hd s = Min (set s)" using assms by (cases s) (auto intro: Min_eqI [symmetric])
  show "last s = Max (set s)" using assms by (cases s rule: rev_cases) (auto simp: sorted_append intro: Max_eqI [symmetric])
qed

lemma noise_series_dates: "noise_series R n series g = Inr noised_series \<Longrightarrow> map fst noised_series = map fst series"
proof (induction series arbitrary: g noised_series)
  case (Cons x series)
  obtain d m where "x = (d, m)" by fastforce
  with Cons show ?case by (auto simp: sum_bind_Inr_iff map_sum_Inr)
qed simp

lemma draw_seeds_length [simp]: "length (draw_seeds R k g) = k"
  by (induction k arbitrary: g) (simp_all add: case_prod_beta)

theorem noise_study_accounts_for_every_seed:
  assumes "dp_backtest_main R n = Inr rep"
  shows "length (nr_detected rep) + nr_on_postmortem rep + nr_no_alert rep = 200 \<and> nr_pre_onset rep \<le> length (nr_detected rep)
    \<and> sorted (nr_detected rep) \<and> nr_detection_rate rep = 100 * real (length (nr_detected rep)) / 200
    \<and> (case nr_quartet rep of None \<Rightarrow> nr_detected rep = []
       | Some (lo, med, p90, hi) \<Rightarrow> lo = Min (set (nr_detected rep)) \<and> hi = Max (set (nr_detected rep)) \<and> hi < POSTMORTEM_DATE
           \<and> 1 / 2 \<le> share_upto (nr_detected rep) med \<and> share_upto (nr_detected rep) (med - 1) < 1 / 2
           \<and> 9 / 10 \<le> share_upto (nr_detected rep) p90 \<and> share_upto (nr_detected rep) (p90 - 1) < 9 / 10)"
proof -
  obtain firsts nulls where firsts: "traverse (noised_first R n (generate_series R)) (draw_seeds R N_NOISE_SEEDS (rng_seed R NOISE_MASTER_SEED)) = Inr firsts"
    and rep: "rep = noise_figures firsts nulls"
    using assms by (auto simp: dp_backtest_main_def Let_def sum_bind_Inr_iff split: if_splits)
  have len: "length firsts = 200" using traverse_members [OF firsts] by (simp add: N_NOISE_SEEDS_def)
  have range: "d \<le> POSTMORTEM_DATE" if d: "Some d \<in> set (map overall_first firsts)" for d
  proof -
    obtain f where "f \<in> set firsts" "overall_first f = Some d" using d by auto
    then obtain seed where f: "overall_first f = Some d" "noised_first R n (generate_series R) seed = Inr f"
      using traverse_members [OF firsts] by blast
    then obtain series where s: "noise_series R n (generate_series R) (rng_seed R seed) = Inr series" "f = run_detector series"
      by (auto simp: noised_first_def map_sum_Inr)
    have "unset (map (\<lambda>m. (m, None)) METRIC_NAMES)" by (simp add: unset_def METRIC_NAMES_def List.map_filter_def)
    then have "d \<in> fst ` set series" using overall_first_dates f(1) s(2) unfolding run_detector_def by blast
    then have "d \<in> set (map fst (generate_series R))" using noise_series_dates [OF s(1)] by (metis image_set)
    then show ?thesis by (simp add: generate_series_def Let_def)
  qed
  let ?ds = "map overall_first firsts"
  define ds where "ds = List.map_filter (\<lambda>d. if before_postmortem d then d else None) ?ds"
  have det: "nr_detected rep = sort ds" by (simp add: rep noise_figures_def ds_def Let_def)
  have parts: "length (filter before_postmortem ?ds) + length (filter (\<lambda>d. d = Some POSTMORTEM_DATE) ?ds) + length (filter (\<lambda>d. d = None) ?ds) = length ?ds"
    by (rule count_split) (use range in \<open>force simp: before_postmortem_def split: option.splits\<close>)
  have before: "\<forall>d \<in> set ds. d < POSTMORTEM_DATE"
    by (auto simp: ds_def List.map_filter_def before_postmortem_def split: option.splits if_splits)
  have counts: "length (nr_detected rep) + nr_on_postmortem rep + nr_no_alert rep = 200"
    using parts len detected_length [of ?ds] by (simp add: rep noise_figures_def Let_def)
  have "case nr_quartet rep of None \<Rightarrow> nr_detected rep = []
     | Some (lo, med, p90, hi) \<Rightarrow> lo = Min (set (nr_detected rep)) \<and> hi = Max (set (nr_detected rep)) \<and> hi < POSTMORTEM_DATE
         \<and> 1 / 2 \<le> share_upto (nr_detected rep) med \<and> share_upto (nr_detected rep) (med - 1) < 1 / 2
         \<and> 9 / 10 \<le> share_upto (nr_detected rep) p90 \<and> share_upto (nr_detected rep) (p90 - 1) < 9 / 10"
  proof (cases "nr_detected rep = []")
    case True
    then show ?thesis using det by (simp add: rep noise_figures_def Let_def ds_def)
  next
    case False
    let ?s = "sort ds"
    have ne: "?s \<noteq> []" using False det by simp
    have "nr_quartet rep = Some (hd ?s, nearest_rank ?s 50, nearest_rank ?s 90, last ?s)"
      using ne by (simp add: rep noise_figures_def Let_def ds_def)
    moreover have "hd ?s = Min (set ?s)" "last ?s = Max (set ?s)" using sorted_ends [OF sorted_sort ne] by simp_all
    moreover have "last ?s < POSTMORTEM_DATE" using before ne last_in_set [OF ne] by simp
    ultimately show ?thesis
      using nearest_rank_spec [OF sorted_sort ne, of 50] nearest_rank_spec [OF sorted_sort ne, of 90] by (simp add: det)
  qed
  moreover have "nr_pre_onset rep = length (filter (\<lambda>d. d < BUG_DATE) (nr_detected rep))" "sorted (nr_detected rep)"
    "nr_detection_rate rep = 100 * real (length (nr_detected rep)) / 200"
    by (simp_all add: rep noise_figures_def Let_def N_NOISE_SEEDS_def)
  ultimately show ?thesis using counts length_filter_le [of "\<lambda>d. d < BUG_DATE" "nr_detected rep"] by simp
qed

end
