(* ===== verification/QuorumSim.thy ===== *)
theory QuorumSim
  imports Backtests Correlation
begin

section \<open>The multi-observer simulation (scripts/experiment_quorum.py)\<close>

text \<open>
  Several observers of one provider, each with its own noise and detector, whose first alerts are replayed through the scorer of the
  engine: the incident (A), the stable window (B), a burst at one observer (C1) and an organisation that always alerts (C2). The scorer reads the
  clock at every vote and every poll: \<open>clock i\<close> is the \<open>i\<close>-th reading, and the number of readings so far is passed along. Printing,
  the figure and the trial number in the text of an assertion are left out.
\<close>

subsection \<open>Constants and series\<close>

definition N_TRIALS :: nat where "N_TRIALS = 200"
definition MAX_M :: nat where "MAX_M = 5"
definition M_VALUES :: "nat list" where "M_VALUES = [2, 3, 5]"
definition QUORUMS :: "nat list" where "QUORUMS = [2, 3]"
definition TTL_DAYS :: nat where "TTL_DAYS = 14"
definition SEED_STRIDE :: nat where "SEED_STRIDE = 8"
definition A_DATA_BASE :: int where "A_DATA_BASE = 50000"
definition A_NOISE_BASE :: int where "A_NOISE_BASE = 60000"
definition B_DATA_BASE :: int where "B_DATA_BASE = 70000"
definition B_NOISE_BASE :: int where "B_NOISE_BASE = 80000"
definition EC1_DATA_BASE :: int where "EC1_DATA_BASE = 90000"
definition EC1_NOISE_BASE :: int where "EC1_NOISE_BASE = 95000"
definition EC2_DATA_BASE :: int where "EC2_DATA_BASE = 100000"
definition EC2_NOISE_BASE :: int where "EC2_NOISE_BASE = 105000"
definition BURST_START_DAY :: nat where "BURST_START_DAY = 45"
definition BURST_LEN_DAYS :: nat where "BURST_LEN_DAYS = 20"
definition BURST_RATE_SHIFT :: real where "BURST_RATE_SHIFT = 6 / 100"
definition SYBIL_ORG :: string where "SYBIL_ORG = ''org-sybil''"
definition SYBIL_SCORE :: real where "SYBIL_SCORE = 999"

definition apply_dp_observer :: "'g rng \<Rightarrow> int \<Rightarrow> day_metrics \<Rightarrow> 'g \<Rightarrow> py_error + day_metrics \<times> 'g" where
  "apply_dp_observer R n metrics g =
     sum_bind (noised (rng_expo R) ''avg_output_length'' n (dict_get metrics ''avg_output_length'' 0) g) (\<lambda>(len, g).
     sum_bind (noised (rng_expo R) ''json_success_rate'' n (dict_get metrics ''json_success_rate'' 0) g) (\<lambda>(rate, g).
       Inr ([(''json_success_rate'', py_round 4 (max 0 (min 1 rate))), (''avg_output_length'', py_round 4 (max 0 len))], g)))"

definition synth_incident_series :: "'g rng \<Rightarrow> int \<Rightarrow> py_error + day_metrics list" where
  "synth_incident_series R data_seed =
     Inr (fst (simulate_days R shipped_noise [BASELINE_START..POSTMORTEM_DATE] (rng_seed R data_seed)))"

definition inject_burst :: "day_metrics list \<Rightarrow> day_metrics list" where
  "inject_burst days =
     map (\<lambda>(i, m). if BURST_START_DAY \<le> i \<and> i < BURST_START_DAY + BURST_LEN_DAYS
                   then AList.update ''json_success_rate'' (max 0 (dict_get m ''json_success_rate'' 0 - BURST_RATE_SHIFT)) m else m)
       (List.enumerate 0 days)"

subsection \<open>One observer\<close>

text \<open>The day and the score of its first alert on any stream.\<close>

type_synonym candidate = "(nat \<times> real) option"

fun candidate_metrics :: "nat \<Rightarrow> day_metrics \<Rightarrow> string list \<Rightarrow> cusum_detector \<Rightarrow> cusum_detector \<times> candidate" where
  "candidate_metrics i m [] det = (det, None)"
| "candidate_metrics i m (name # names) det =
     (case detector_update det 0 MODEL name (dict_get m name 0) (Some (int i * DAY_NS)) [] of
        (det, Some a) \<Rightarrow> (det, Some (i, da_cusum_score a))
      | (det, None) \<Rightarrow> candidate_metrics i m names det)"

fun candidate_days :: "'g rng \<Rightarrow> int \<Rightarrow> nat \<Rightarrow> day_metrics list \<Rightarrow> 'g \<Rightarrow> cusum_detector \<Rightarrow> py_error + candidate" where
  "candidate_days R n i [] g det = Inr None"
| "candidate_days R n i (raw # days) g det =
     sum_bind (apply_dp_observer R n raw g) (\<lambda>(m, g).
       case candidate_metrics i m METRIC_NAMES det of
         (det, Some c) \<Rightarrow> Inr (Some c)
       | (det, None) \<Rightarrow> candidate_days R n (Suc i) days g det)"

definition first_candidate_day :: "'g rng \<Rightarrow> int \<Rightarrow> day_metrics list \<Rightarrow> int \<Rightarrow> py_error + candidate" where
  "first_candidate_day R n days noise_seed =
     candidate_days R n 0 days (rng_seed R noise_seed) (harness_detector CUSUM_H CUSUM_K BASELINE_SAMPLES)"

subsection \<open>The replay through the scorer\<close>

definition candidate_result :: "string \<Rightarrow> real \<Rightarrow> change_point_result" where
  "candidate_result org score =
     \<lparr>cp_model_tuple = MODEL, cp_change_detected = True, cp_score = score, cp_threshold = CUSUM_H, cp_contributing_orgs = [org],
      cp_metric_name = [], cp_timestamp_ns = 0, cp_suite_version = []\<rparr>"

definition org_name :: "nat \<Rightarrow> string" where
  "org_name i = ''org-'' @ digits_of i"

definition group_by_day :: "candidate list \<Rightarrow> (nat, (string \<times> real) list) dict" where
  "group_by_day candidates =
     fold (\<lambda>(i, c) d. case c of None \<Rightarrow> d | Some (day, score) \<Rightarrow> AList.update day (dict_get d day [] @ [(org_name i, score)]) d)
       (List.enumerate 0 candidates) []"

fun vote_all :: "(nat \<Rightarrow> int) \<Rightarrow> (string \<times> real) list \<Rightarrow> scorer \<Rightarrow> nat \<Rightarrow> scorer \<times> nat" where
  "vote_all clock [] sc t = (sc, t)"
| "vote_all clock ((org, score) # cs) sc t = vote_all clock cs (scorer_ingest sc (clock t) (candidate_result org score)) (Suc t)"

definition sim_scorer :: "nat \<Rightarrow> scorer" where
  "sim_scorer quorum = init_scorer (Some (int quorum)) DEFAULT_TTL_NS QUORUM_FRAC_NUM QUORUM_FRAC_DEN"

text \<open>The engine as it is: one scorer, polled once a day.\<close>

fun persistent_days ::
  "(nat \<Rightarrow> int) \<Rightarrow> (nat, (string \<times> real) list) dict \<Rightarrow> (string \<times> real) list \<Rightarrow> nat list \<Rightarrow> scorer \<Rightarrow> nat
    \<Rightarrow> (py_error + nat option) \<times> nat" where
  "persistent_days clock by_day daily [] sc t = (Inr None, t)"
| "persistent_days clock by_day daily (day # days) sc t =
     (case vote_all clock (dict_get by_day day [] @ daily) sc t of
        (sc, t) \<Rightarrow>
          (case promote_to_public_alert sc (clock t) MODEL [] [] of
             Inl e \<Rightarrow> (Inl e, Suc t)
           | Inr (sc, Some _) \<Rightarrow> (Inr (Some day), Suc t)
           | Inr (sc, None) \<Rightarrow> persistent_days clock by_day daily days sc (Suc t)))"

text \<open>The expiry of the harness: a fresh scorer every day, fed with the candidates of the last \<open>ttl\<close> days.\<close>

fun expiring_days ::
  "(nat \<Rightarrow> int) \<Rightarrow> (nat, (string \<times> real) list) dict \<Rightarrow> (string \<times> real) list \<Rightarrow> nat \<Rightarrow> nat \<Rightarrow> nat list \<Rightarrow> nat
    \<Rightarrow> (py_error + nat option) \<times> nat" where
  "expiring_days clock by_day daily quorum ttl [] t = (Inr None, t)"
| "expiring_days clock by_day daily quorum ttl (day # days) t =
     (case vote_all clock (concat (map (\<lambda>d. dict_get by_day d []) [day + 1 - ttl..<day + 1]) @ daily) (sim_scorer quorum) t of
        (sc, t) \<Rightarrow>
          (case promote_to_public_alert sc (clock t) MODEL [] [] of
             Inl e \<Rightarrow> (Inl e, Suc t)
           | Inr (_, Some _) \<Rightarrow> (Inr (Some day), Suc t)
           | Inr (_, None) \<Rightarrow> expiring_days clock by_day daily quorum ttl days (Suc t)))"

definition promotion_day ::
  "(nat \<Rightarrow> int) \<Rightarrow> candidate list \<Rightarrow> nat \<Rightarrow> nat \<Rightarrow> nat option \<Rightarrow> string list \<Rightarrow> nat \<Rightarrow> (py_error + nat option) \<times> nat" where
  "promotion_day clock candidates quorum n_days ttl daily_orgs t =
     (let by_day = group_by_day candidates; daily = map (\<lambda>org. (org, SYBIL_SCORE)) daily_orgs
      in case ttl of
           None \<Rightarrow> persistent_days clock by_day daily [0..<n_days] (sim_scorer quorum) t
         | Some ttl \<Rightarrow> expiring_days clock by_day daily quorum ttl [0..<n_days] t)"

subsection \<open>The experiments\<close>

text \<open>Steps that may raise and that read the clock.\<close>

definition clock_bind :: "('e + 'a) \<times> nat \<Rightarrow> ('a \<Rightarrow> nat \<Rightarrow> ('e + 'b) \<times> nat) \<Rightarrow> ('e + 'b) \<times> nat" where
  "clock_bind m f = (case m of (Inl e, t) \<Rightarrow> (Inl e, t) | (Inr x, t) \<Rightarrow> f x t)"

fun clock_traverse :: "('a \<Rightarrow> nat \<Rightarrow> ('e + 'b) \<times> nat) \<Rightarrow> 'a list \<Rightarrow> nat \<Rightarrow> ('e + 'b list) \<times> nat" where
  "clock_traverse f [] t = (Inr [], t)"
| "clock_traverse f (x # xs) t =
     clock_bind (f x t) (\<lambda>y t. clock_bind (clock_traverse f xs t) (\<lambda>ys t. (Inr (y # ys), t)))"

text \<open>The index is computed with floor division, so an empty list raises.\<close>

definition order_stat :: "nat list \<Rightarrow> nat \<Rightarrow> nat \<Rightarrow> py_error + nat" where
  "order_stat sorted_vals num den =
     (if sorted_vals = [] then Inl (OtherException ''IndexError'' ''list index out of range'')
      else Inr (sorted_vals ! (num * (length sorted_vals - 1) div den)))"

definition observer_candidate :: "'g rng \<Rightarrow> int \<Rightarrow> (int \<Rightarrow> py_error + day_metrics list) \<Rightarrow> int \<Rightarrow> int \<Rightarrow> nat \<Rightarrow> nat \<Rightarrow> py_error + candidate" where
  "observer_candidate R n synth data_base noise_base trial ob =
     sum_bind (synth (data_base + int (trial * SEED_STRIDE + ob)))
       (\<lambda>days. first_candidate_day R n days (noise_base + int (trial * SEED_STRIDE + ob)))"

definition collect_candidates ::
  "'g rng \<Rightarrow> int \<Rightarrow> int \<Rightarrow> int \<Rightarrow> (int \<Rightarrow> py_error + day_metrics list) \<Rightarrow> nat \<Rightarrow> py_error + candidate list list" where
  "collect_candidates R n data_base noise_base synth n_obs =
     traverse (\<lambda>trial. traverse (observer_candidate R n synth data_base noise_base trial) [0..<n_obs]) [0..<N_TRIALS]"

text \<open>The gate: the rate of the published run of the stable windows, without noise.\<close>

definition run_sanity_gate :: "'g rng \<Rightarrow> int \<Rightarrow> py_error + unit" where
  "run_sanity_gate R n =
     sum_bind (traverse (\<lambda>i. stable_window R n (C1_DATA_BASE + int i) None) [0..<N_TRIALS]) (\<lambda>results.
       let rate = real (length (filter (\<lambda>r. r \<noteq> []) results)) / real N_TRIALS
       in if \<bar>rate - 4 / 10\<bar> < 1 / 10 ^ 9 then Inr () else Inl (assertion_error ''sanity gate FAILED''))"

definition promotions ::
  "(nat \<Rightarrow> int) \<Rightarrow> candidate list list \<Rightarrow> nat \<Rightarrow> nat \<Rightarrow> nat option \<Rightarrow> nat \<Rightarrow> (py_error + nat option list) \<times> nat" where
  "promotions clock trials quorum n_days ttl = clock_traverse (\<lambda>cand. promotion_day clock cand quorum n_days ttl []) trials"

definition settings :: "(nat \<times> nat) list" where
  "settings = filter (\<lambda>(m, q). q \<le> m) (concat (map (\<lambda>m. map (Pair m) QUORUMS) M_VALUES))"

record incident_stats =
  ia_m :: nat
  ia_quorum :: nat
  ia_rate :: real
  ia_figures :: "(nat \<times> nat \<times> nat \<times> nat \<times> int \<times> nat \<times> int) option"

definition before_day :: "nat \<Rightarrow> nat option list \<Rightarrow> nat list" where
  "before_day pm_day pubs = sort (filter (\<lambda>p. p < pm_day) (List.map_filter id pubs))"

definition candidate_firsts :: "candidate list list \<Rightarrow> nat list" where
  "candidate_firsts subs =
     sort (List.map_filter (\<lambda>sub. let fire = sort (List.map_filter (map_option fst) sub)
                              in case fire of [] \<Rightarrow> None | d # _ \<Rightarrow> Some d) subs)"

text \<open>
  First, median, 90th percentile and last public alert, the median's lead over the postmortem, the median first candidate of a
  single observer and the cost of the quorum in days.
\<close>

definition incident_stats_of :: "nat \<Rightarrow> nat \<Rightarrow> candidate list list \<Rightarrow> nat \<Rightarrow> nat option list \<Rightarrow> py_error + incident_stats" where
  "incident_stats_of m q subs pm_day pubs =
     (let det = before_day pm_day pubs; rate = real (length det) / real N_TRIALS
      in if det = [] then Inr \<lparr>ia_m = m, ia_quorum = q, ia_rate = rate, ia_figures = None\<rparr>
         else sum_bind (order_stat det 1 2) (\<lambda>md. sum_bind (order_stat det 9 10) (\<lambda>p90.
              sum_bind (order_stat (candidate_firsts subs) 1 2) (\<lambda>fd.
                Inr \<lparr>ia_m = m, ia_quorum = q, ia_rate = rate,
                     ia_figures = Some (hd det, md, p90, last det, POSTMORTEM_DATE - (BASELINE_START + int md), fd, int md - int fd)\<rparr>))))"

definition run_experiment_a ::
  "'g rng \<Rightarrow> int \<Rightarrow> (nat \<Rightarrow> int) \<Rightarrow> nat \<Rightarrow> (py_error + incident_stats list \<times> (nat \<times> real \<times> nat) list) \<times> nat" where
  "run_experiment_a R n clock t =
     (let n_days = nat (POSTMORTEM_DATE - BASELINE_START + 1); pm_day = n_days - 1
      in clock_bind (collect_candidates R n A_DATA_BASE A_NOISE_BASE (synth_incident_series R) MAX_M, t) (\<lambda>trials t.
         clock_bind (clock_traverse (\<lambda>(m, q) t. clock_bind (promotions clock (map (take m) trials) q n_days None t)
                       (\<lambda>pubs t. (incident_stats_of m q (map (take m) trials) pm_day pubs, t))) settings t) (\<lambda>stats t.
         clock_bind (clock_traverse (\<lambda>m t. clock_bind (promotions clock (map (take m) trials) 2 n_days (Some TTL_DAYS) t)
                       (\<lambda>pubs t. let det = before_day pm_day pubs
                                 in (map_sum id (\<lambda>md. (m, real (length det) / real N_TRIALS, md)) (order_stat det 1 2), t))) M_VALUES t)
           (\<lambda>expiry t. (Inr (stats, expiry), t)))))"

definition promoted_rate :: "nat option list \<Rightarrow> real" where
  "promoted_rate pubs = real (length (filter (\<lambda>p. p \<noteq> None) pubs)) / real N_TRIALS"

definition run_experiment_b ::
  "'g rng \<Rightarrow> int \<Rightarrow> (nat \<Rightarrow> int) \<Rightarrow> nat \<Rightarrow> (py_error + real \<times> real \<times> (nat \<times> nat \<times> real \<times> real) list) \<times> nat" where
  "run_experiment_b R n clock t =
     clock_bind (collect_candidates R n B_DATA_BASE B_NOISE_BASE (synth_stable_window R) MAX_M, t) (\<lambda>trials t.
       let m1 = real (length (filter (\<lambda>c. hd c \<noteq> None) trials)) / real N_TRIALS;
           pooled = real (length (filter (\<lambda>x. x \<noteq> None) (concat trials))) / real (N_TRIALS * MAX_M)
       in clock_bind (clock_traverse (\<lambda>(m, q) t.
              clock_bind (promotions clock (map (take m) trials) q (nat WINDOW_DAYS) None t) (\<lambda>hits t.
              clock_bind (promotions clock (map (take m) trials) q (nat WINDOW_DAYS) (Some TTL_DAYS) t) (\<lambda>hits_ttl t.
                (Inr (m, q, promoted_rate hits, promoted_rate hits_ttl), t)))) settings t)
            (\<lambda>fp t. (Inr (m1, pooled, fp), t)))"

text \<open>One trial of the burst: whether both honest observers were quiet, and the promotions with the burst, without it, and with expiry.\<close>

definition burst_trial ::
  "'g rng \<Rightarrow> int \<Rightarrow> (nat \<Rightarrow> int) \<Rightarrow> nat \<Rightarrow> nat \<Rightarrow> (py_error + bool \<times> nat option \<times> nat option \<times> nat option) \<times> nat" where
  "burst_trial R n clock trial t =
     clock_bind (traverse (observer_candidate R n (synth_stable_window R) EC1_DATA_BASE EC1_NOISE_BASE trial) [0, 1], t) (\<lambda>honest t.
     clock_bind (observer_candidate R n (\<lambda>seed. map_sum id inject_burst (synth_stable_window R seed)) EC1_DATA_BASE EC1_NOISE_BASE trial 2, t) (\<lambda>burst t.
       if burst = None then (Inl (assertion_error ''burst observer never fired''), t)
       else clock_bind (promotion_day clock (honest @ [burst]) 2 (nat WINDOW_DAYS) None [] t) (\<lambda>pub t.
            if honest = [None, None] \<and> pub \<noteq> None then (Inl (assertion_error ''INVARIANT VIOLATION''), t)
            else clock_bind (promotion_day clock honest 2 (nat WINDOW_DAYS) None [] t) (\<lambda>without t.
                 clock_bind (promotion_day clock (honest @ [burst]) 2 (nat WINDOW_DAYS) (Some TTL_DAYS) [] t) (\<lambda>expiring t.
                   (Inr (honest = [None, None], pub, without, expiring), t))))))"

definition run_experiment_c1 ::
  "'g rng \<Rightarrow> int \<Rightarrow> (nat \<Rightarrow> int) \<Rightarrow> nat \<Rightarrow> (py_error + nat \<times> real \<times> real \<times> real) \<times> nat" where
  "run_experiment_c1 R n clock t =
     clock_bind (clock_traverse (burst_trial R n clock) [0..<N_TRIALS] t) (\<lambda>trials t.
       (Inr (length (filter fst trials), promoted_rate (map (\<lambda>(_, pub, _, _). pub) trials),
             promoted_rate (map (\<lambda>(_, _, without, _). without) trials), promoted_rate (map (\<lambda>(_, _, _, expiring). expiring) trials)), t))"

definition sybil_trial :: "'g rng \<Rightarrow> int \<Rightarrow> (nat \<Rightarrow> int) \<Rightarrow> nat \<Rightarrow> nat \<Rightarrow> (py_error + bool \<times> nat option \<times> nat option) \<times> nat" where
  "sybil_trial R n clock trial t =
     clock_bind (traverse (observer_candidate R n (synth_stable_window R) EC2_DATA_BASE EC2_NOISE_BASE trial) [0, 1], t) (\<lambda>honest t.
     clock_bind (promotion_day clock honest 2 (nat WINDOW_DAYS) None [SYBIL_ORG] t) (\<lambda>p2 t.
     clock_bind (promotion_day clock honest 3 (nat WINDOW_DAYS) None [SYBIL_ORG] t) (\<lambda>p3 t.
       if honest = [None, None] \<and> p2 \<noteq> None then (Inl (assertion_error ''Sybil promoted without any honest candidate''), t)
       else (Inr (honest = [None, None], p2, p3), t))))"

definition run_experiment_c2 :: "'g rng \<Rightarrow> int \<Rightarrow> (nat \<Rightarrow> int) \<Rightarrow> nat \<Rightarrow> (py_error + nat \<times> real \<times> real) \<times> nat" where
  "run_experiment_c2 R n clock t =
     clock_bind (promotion_day clock [] 2 (nat WINDOW_DAYS) None [SYBIL_ORG] t) (\<lambda>alone t.
       if alone \<noteq> None then (Inl (assertion_error ''Sybil alone produced a public alert''), t)
       else clock_bind (clock_traverse (sybil_trial R n clock) [0..<N_TRIALS] t) (\<lambda>trials t.
         (Inr (length (filter fst trials), promoted_rate (map (\<lambda>(_, p2, _). p2) trials), promoted_rate (map (\<lambda>(_, _, p3). p3) trials)), t)))"

text \<open>The whole script: the gate and the four experiments.\<close>

definition quorum_experiment ::
  "'g rng \<Rightarrow> int \<Rightarrow> (nat \<Rightarrow> int) \<Rightarrow> nat
    \<Rightarrow> (py_error + (incident_stats list \<times> (nat \<times> real \<times> nat) list) \<times> (real \<times> real \<times> (nat \<times> nat \<times> real \<times> real) list)
         \<times> (nat \<times> real \<times> real \<times> real) \<times> (nat \<times> real \<times> real)) \<times> nat" where
  "quorum_experiment R n clock t =
     clock_bind (sum_bind (metric_sensitivity ''avg_output_length'' n) (\<lambda>_. sum_bind (metric_sensitivity ''json_success_rate'' n) (\<lambda>_.
                   run_sanity_gate R n)), t) (\<lambda>_ t.
     clock_bind (run_experiment_a R n clock t) (\<lambda>a t. clock_bind (run_experiment_b R n clock t) (\<lambda>b t.
     clock_bind (run_experiment_c1 R n clock t) (\<lambda>c1 t. clock_bind (run_experiment_c2 R n clock t) (\<lambda>c2 t.
       (Inr (a, b, c1, c2), t))))))"

subsection \<open>Lemmas: the board of the scorer\<close>

definition sim_key :: stream_key where
  "sim_key = (MODEL, [], [])"

text \<open>A clock that goes forward and, over the whole run, by no more than the lifetime of a candidate.\<close>

definition steady :: "(nat \<Rightarrow> int) \<Rightarrow> bool" where
  "steady clock \<longleftrightarrow> 0 < clock 0 \<and> mono clock \<and> (\<forall>i. clock i \<le> clock 0 + DEFAULT_TTL_NS)"

text \<open>A table that holds exactly the organisations of \<open>S\<close>, stamped by the clock so far.\<close>

definition posted :: "(nat \<Rightarrow> int) \<Rightarrow> nat \<Rightarrow> string set \<Rightarrow> org_table \<Rightarrow> bool" where
  "posted clock t S table \<longleftrightarrow> dict_wf table \<and> dom (map_of table) = S \<and> (\<forall>org ts. map_of table org = Some ts \<longrightarrow> clock 0 \<le> ts \<and> ts \<le> clock t)"

definition board :: "(nat \<Rightarrow> int) \<Rightarrow> nat \<Rightarrow> string set \<Rightarrow> nat \<Rightarrow> scorer \<Rightarrow> bool" where
  "board clock quorum S t sc \<longleftrightarrow> sc_floor sc = int quorum \<and> sc_ttl_ns sc = DEFAULT_TTL_NS \<and> sc_frac_num sc = 1 \<and> sc_frac_den sc = 3
     \<and> posted clock t S (agree_table sc sim_key) \<and> posted clock t S (observer_table sc sim_key)"

lemma posted_live:
  assumes "steady clock" and "posted clock t S table" and "sc_ttl_ns sc = DEFAULT_TTL_NS"
  shows "live_orgs sc table (clock t) = S"
proof -
  have now: "clock t - DEFAULT_TTL_NS \<le> clock 0" using assms(1) by (simp add: steady_def algebra_simps)
  have wf: "dict_wf table" using assms(2) by (simp add: posted_def)
  have "(\<exists>ts. map_of table org = Some ts \<and> clock t - DEFAULT_TTL_NS \<le> ts \<and> ts \<le> clock t) \<longleftrightarrow> org \<in> dom (map_of table)" for org
    using assms(2) now by (fastforce simp: posted_def dom_def simp del: map_of_eq_Some_iff)
  then show ?thesis using assms(2) unfolding live_orgs_map [OF wf] assms(3) by (simp add: posted_def)
qed

lemma posted_later: "steady clock \<Longrightarrow> t \<le> t' \<Longrightarrow> posted clock t S table \<Longrightarrow> posted clock t' S table"
  unfolding posted_def by (metis steady_def monoD order_trans)

lemma posted_stamp:
  assumes "steady clock" and "posted clock t S table"
  shows "posted clock t (insert org S) (if dict_get table org 0 \<le> clock t then AList.update org (clock t) table else table)"
proof -
  have lo: "0 < clock 0" "clock 0 \<le> clock t" using assms(1) by (auto simp: steady_def mono_def)
  have "dict_get table org 0 \<le> clock t"
  proof (cases "map_of table org")
    case (Some ts)
    with assms(2) show ?thesis by (simp add: posted_def dict_get_def del: map_of_eq_Some_iff)
  qed (use lo in \<open>simp add: dict_get_def\<close>)
  then show ?thesis using assms(2) lo by (auto simp: posted_def update_conv' simp del: map_of_eq_Some_iff)
qed

lemma board_init: "board clock quorum {} t (sim_scorer quorum)"
  by (simp add: board_def posted_def sim_scorer_def init_scorer_def QUORUM_FRAC_NUM_def QUORUM_FRAC_DEN_def agree_table_def observer_table_def
      dict_get_def)

lemma board_vote:
  assumes "steady clock" and "board clock quorum S t sc"
  shows "board clock quorum (insert org S) (Suc t) (scorer_ingest sc (clock t) (candidate_result org score))"
proof -
  have "0 < clock t" using assms(1) by (metis steady_def monoD le0 less_le_trans)
  then have step: "scorer_ingest sc (clock t) (candidate_result org score) = ingest_org (candidate_result org score) (clock t) (clock t) org sc"
    "stamp_or_now (Some (clock t)) (clock t) = clock t"
    by (simp_all add: scorer_ingest_def candidate_result_def stamp_or_now_def)
  have key: "cp_key (candidate_result org score) = sim_key" "cp_change_detected (candidate_result org score)"
    by (simp_all add: candidate_result_def cp_key_def sim_key_def)
  have "board clock quorum (insert org S) t (scorer_ingest sc (clock t) (candidate_result org score))"
    using assms posted_stamp [OF assms(1), of t S _ org] by (simp add: board_def step key Let_def)
  then show ?thesis using posted_later [OF assms(1), of t "Suc t"] by (simp add: board_def)
qed

lemma board_later: "steady clock \<Longrightarrow> t \<le> t' \<Longrightarrow> board clock quorum S t sc \<Longrightarrow> board clock quorum S t' sc"
  by (simp add: board_def posted_later)

lemma board_vote_all:
  assumes "steady clock" and "board clock quorum S t sc" and "vote_all clock cs sc t = (sc', t')"
  shows "board clock quorum (S \<union> fst ` set cs) t' sc'"
  using assms(2,3)
proof (induction cs arbitrary: S sc t)
  case (Cons c cs)
  obtain org score where c: "c = (org, score)" by fastforce
  from Cons.IH [OF board_vote [OF assms(1) Cons.prems(1)]] Cons.prems(2) show ?case by (simp add: c)
qed simp

lemma board_promote:
  assumes "steady clock" and "board clock quorum S t sc" and "1 \<le> quorum"
  shows "if quorum \<le> card S then \<exists>sc'. promote_to_public_alert sc (clock t) MODEL [] [] = Inr (sc', Some (card S))
    else promote_to_public_alert sc (clock t) MODEL [] [] = Inr (sc, None)"
proof -
  have live: "live_orgs sc (agree_table sc sim_key) (clock t) = S" "live_orgs sc (observer_table sc sim_key) (clock t) = S"
    using assms(2) posted_live [OF assms(1)] by (simp_all add: board_def)
  have q: "quorum_of sc sim_key (clock t) = Inr (max (int quorum) ((int (card S) + 2) div 3))"
    using assms(2) by (simp add: quorum_of_def live board_def)
  have "finite S" using live(1) finite_live_orgs by metis
  then have "S \<noteq> {} \<Longrightarrow> 1 \<le> card S" by (simp add: Suc_le_eq card_gt_0_iff)
  then have "(int (card S) + 2) div 3 \<le> int (card S)" if "S \<noteq> {}" using that by presburger
  then show ?thesis
    using assms(3) by (auto simp: promote_decision sim_key_def [symmetric] Let_def live q)
qed

subsection \<open>Lemmas: who has alerted\<close>

text \<open>The organisations whose candidate falls into a span of days, and those that alert every day.\<close>

definition alerted_between :: "candidate list \<Rightarrow> nat \<Rightarrow> nat \<Rightarrow> string set" where
  "alerted_between candidates lo hi = {org_name i | i e score. i < length candidates \<and> candidates ! i = Some (e, score) \<and> lo \<le> e \<and> e \<le> hi}"

lemma group_by_day_orgs:
  "fst ` set (dict_get (group_by_day candidates) day []) = {org_name i | i score. i < length candidates \<and> candidates ! i = Some (day, score)}"
proof -
  have "fst ` set (dict_get (fold (\<lambda>(i, c) d. case c of None \<Rightarrow> d | Some (day, score) \<Rightarrow> AList.update day (dict_get d day [] @ [(org_name i, score)]) d)
      (List.enumerate n cs) d) day []) =
    fst ` set (dict_get d day []) \<union> {org_name (n + i) | i score. i < length cs \<and> cs ! i = Some (day, score)}" for n cs and d :: "(nat, (string \<times> real) list) dict"
  proof (induction cs arbitrary: n d)
    case (Cons c cs)
    have split: "{org_name (n + i) | i score. i < length (c # cs) \<and> (c # cs) ! i = Some (day, score)} =
        {org_name n | score. c = Some (day, score)} \<union> {org_name (Suc n + i) | i score. i < length cs \<and> cs ! i = Some (day, score)}"
    proof (intro set_eqI iffI)
      fix x assume "x \<in> {org_name (n + i) | i score. i < length (c # cs) \<and> (c # cs) ! i = Some (day, score)}"
      then obtain i score where "x = org_name (n + i)" "i < length (c # cs)" "(c # cs) ! i = Some (day, score)" by blast
      then show "x \<in> {org_name n | score. c = Some (day, score)} \<union> {org_name (Suc n + i) | i score. i < length cs \<and> cs ! i = Some (day, score)}"
        by (cases i) auto
    next
      fix x assume "x \<in> {org_name n | score. c = Some (day, score)} \<union> {org_name (Suc n + i) | i score. i < length cs \<and> cs ! i = Some (day, score)}"
      then consider score where "x = org_name n" "c = Some (day, score)"
        | i score where "x = org_name (Suc n + i)" "i < length cs" "cs ! i = Some (day, score)" by blast
      then show "x \<in> {org_name (n + i) | i score. i < length (c # cs) \<and> (c # cs) ! i = Some (day, score)}"
      proof cases
        case 1
        then show ?thesis by (intro CollectI exI [of _ 0] exI [of _ score]) simp
      next
        case (2 i score)
        then show ?thesis by (intro CollectI exI [of _ "Suc i"] exI [of _ score]) simp
      qed
    qed
    show ?case
    proof (cases c)
      case (Some ds)
      then show ?thesis using Cons.IH [of "Suc n"] split by (cases ds) auto
    qed (use Cons.IH [of "Suc n"] split in auto)
  qed simp
  from this [where n = 0 and cs = candidates and d = "[]"] show ?thesis by (simp add: group_by_day_def dict_get_def)
qed

lemma alerted_from_zero:
  "alerted_between candidates 0 (Suc day) = alerted_between candidates 0 day \<union> fst ` set (dict_get (group_by_day candidates) (Suc day) [])"
  by (auto simp: alerted_between_def group_by_day_orgs le_Suc_eq)

lemma alerted_span:
  "fst ` set (concat (map (\<lambda>d. dict_get (group_by_day candidates) d []) [lo..<hi + 1])) = alerted_between candidates lo hi"
proof -
  let ?f = "\<lambda>d. dict_get (group_by_day candidates) d []"
  have "fst ` set (concat (map ?f [lo..<hi + 1])) = (\<Union>d \<in> set [lo..<hi + 1]. fst ` set (?f d))" by auto
  also have "\<dots> = alerted_between candidates lo hi" unfolding group_by_day_orgs alerted_between_def by fastforce
  finally show ?thesis .
qed

definition fired :: "candidate list \<Rightarrow> string list \<Rightarrow> nat option \<Rightarrow> nat \<Rightarrow> string set" where
  "fired candidates daily_orgs ttl day =
     alerted_between candidates (case ttl of None \<Rightarrow> 0 | Some k \<Rightarrow> day + 1 - k) day \<union> set daily_orgs"

lemma fst_daily [simp]: "fst ` (\<lambda>org. (org, s)) ` A = A"
  by (simp add: image_image)

lemma expiring_spec:
  assumes "steady clock" and "1 \<le> quorum"
  shows "fst (expiring_days clock (group_by_day cs) (map (\<lambda>org. (org, SYBIL_SCORE)) orgs) quorum k days t) =
    Inr (List.find (\<lambda>d. quorum \<le> card (fired cs orgs (Some k) d)) days)"
proof (induction days arbitrary: t)
  case (Cons day days)
  let ?votes = "concat (map (\<lambda>d. dict_get (group_by_day cs) d []) [day + 1 - k..<day + 1]) @ map (\<lambda>org. (org, SYBIL_SCORE)) orgs"
  obtain sc t' where v: "vote_all clock ?votes (sim_scorer quorum) t = (sc, t')" by fastforce
  have votes: "fst ` set ?votes = fired cs orgs (Some k) day"
    using alerted_span [of cs "day + 1 - k" day] by (simp add: image_Un fired_def)
  have "board clock quorum (fired cs orgs (Some k) day) t' sc"
    using board_vote_all [OF assms(1) board_init v] by (simp only: votes) simp
  from board_promote [OF assms(1) this assms(2)] show ?case
    using v Cons.IH [of "Suc t'"] by (auto simp: split: if_splits)
qed simp

lemma persistent_spec:
  assumes "steady clock" and "1 \<le> quorum" and "board clock quorum S t sc"
    and "S = (if first = 0 then {} else fired cs orgs None (first - 1))"
  shows "fst (persistent_days clock (group_by_day cs) (map (\<lambda>org. (org, SYBIL_SCORE)) orgs) [first..<first + k] sc t) =
    Inr (List.find (\<lambda>d. quorum \<le> card (fired cs orgs None d)) [first..<first + k])"
  using assms(3,4)
proof (induction k arbitrary: first S sc t)
  case (Suc k)
  let ?votes = "dict_get (group_by_day cs) first [] @ map (\<lambda>org. (org, SYBIL_SCORE)) orgs"
  obtain sc' t' where v: "vote_all clock ?votes sc t = (sc', t')" by fastforce
  have "S \<union> fst ` set ?votes = fired cs orgs None first"
  proof (cases first)
    case 0
    then show ?thesis using Suc.prems(2) by (auto simp: fired_def alerted_between_def image_Un group_by_day_orgs)
  next
    case (Suc n)
    then show ?thesis using Suc.prems(2) alerted_from_zero [of cs n] by (auto simp: fired_def image_Un)
  qed
  then have board: "board clock quorum (fired cs orgs None first) t' sc'"
    using board_vote_all [OF assms(1) Suc.prems(1) v] by simp
  have days: "[first..<first + Suc k] = first # [Suc first..<Suc first + k]" by (simp add: upt_conv_Cons)
  have rest: "fst (persistent_days clock (group_by_day cs) (map (\<lambda>org. (org, SYBIL_SCORE)) orgs) [Suc first..<Suc first + k] sc' (Suc t')) =
      Inr (List.find (\<lambda>d. quorum \<le> card (fired cs orgs None d)) [Suc first..<Suc first + k])"
    by (rule Suc.IH [OF board_later [OF assms(1) _ board]]) simp_all
  show ?case
  proof (cases "quorum \<le> card (fired cs orgs None first)")
    case True
    then show ?thesis unfolding days using board_promote [OF assms(1) board assms(2)] v by (auto simp del: upt_Suc)
  next
    case False
    then have "promote_to_public_alert sc' (clock t') MODEL [] [] = Inr (sc', None)"
      using board_promote [OF assms(1) board assms(2)] by simp
    with False rest v show ?thesis unfolding days by (simp del: upt_Suc)
  qed
qed simp

lemma promotion_day_is_quorum_day':
  assumes "steady clock" and "1 \<le> quorum"
  shows "fst (promotion_day clock candidates quorum n_days ttl daily_orgs t) =
    Inr (List.find (\<lambda>d. quorum \<le> card (fired candidates daily_orgs ttl d)) [0..<n_days])"
proof (cases ttl)
  case None
  then show ?thesis
    using persistent_spec [OF assms board_init, of 0 candidates daily_orgs n_days t] by (simp add: promotion_day_def Let_def)
next
  case (Some k)
  then show ?thesis using expiring_spec [OF assms] by (simp add: promotion_day_def Let_def)
qed

subsection \<open>Properties\<close>

text \<open>C38: A promotion happens on the day the quorum is complete. Over any candidates, with or without expiry in the harness and with any organisations
  that alert every day, the replay returns the first day on which the organisations that have alerted (within the last days, if candidates expire) reach the
  quorum, or nothing; so one voice alone, however often it alerts, never promotes. The clock must advance by at most the lifetime of a candidate during the replay.\<close>

theorem promotion_day_is_quorum_day:
  assumes "steady clock" and "1 \<le> quorum"
  shows "fst (promotion_day clock candidates quorum n_days ttl daily_orgs t) =
    Inr (List.find (\<lambda>d. quorum \<le> card (fired candidates daily_orgs ttl d)) [0..<n_days])"
  by (rule promotion_day_is_quorum_day' [OF assms])

theorem promotion_day_is_quorum_day_witness:
  "fst (promotion_day (\<lambda>_. 1) [Some (0, 6), Some (2, 7)] 2 4 None [] 0) = Inr (Some 2)
   \<and> fst (promotion_day (\<lambda>_. 1) [Some (0, 6), Some (2, 7)] 2 4 (Some 2) [] 0) = Inr None"
proof -
  have steady: "steady (\<lambda>_. 1)" by (simp add: steady_def DEFAULT_TTL_NS_def mono_def)
  have names: "org_name 0 \<noteq> org_name 1" by code_simp
  have sets: "alerted_between [Some (0, 6), Some (2, 7)] lo hi =
      (if lo = 0 then {org_name 0} else {}) \<union> (if lo \<le> 2 \<and> 2 \<le> hi then {org_name 1} else {})" for lo hi
  proof -
    have "x \<in> alerted_between [Some (0, 6), Some (2, 7)] lo hi \<longleftrightarrow>
        x = org_name 0 \<and> lo = 0 \<or> x = org_name 1 \<and> lo \<le> 2 \<and> 2 \<le> hi" for x
    proof -
      have "(\<exists>i e score. x = org_name i \<and> i < Suc (Suc 0) \<and> [Some (0, 6), Some (2, 7)] ! i = Some (e, score) \<and> lo \<le> e \<and> e \<le> hi) \<longleftrightarrow>
          (\<exists>e score. x = org_name 0 \<and> Some (0, 6) = Some (e, score) \<and> lo \<le> e \<and> e \<le> hi)
          \<or> (\<exists>e score. x = org_name 1 \<and> Some (2, 7) = Some (e, score) \<and> lo \<le> e \<and> e \<le> hi)"
        unfolding less_Suc_eq by fastforce
      then show ?thesis by (simp add: alerted_between_def)
    qed
    then show ?thesis by auto
  qed
  have days: "[0..<4] = [0, 1, 2, 3 :: nat]" by code_simp
  show ?thesis
    using promotion_day_is_quorum_day [OF steady, of 2 "[Some (0, 6), Some (2, 7)]" 4 None "[]" 0]
      promotion_day_is_quorum_day [OF steady, of 2 "[Some (0, 6), Some (2, 7)]" 4 "Some 2" "[]" 0] names
    by (simp add: fired_def sets days)
qed

lemma fired_card: "card (fired cs orgs ttl d) \<le> length (filter (\<lambda>c. c \<noteq> None) cs) + length orgs"
proof -
  have "alerted_between cs lo hi \<subseteq> org_name ` {i. i < length cs \<and> cs ! i \<noteq> None}" for lo hi
    by (auto simp: alerted_between_def)
  then have "card (alerted_between cs lo hi) \<le> card {i. i < length cs \<and> cs ! i \<noteq> None}" for lo hi
    using card_mono [OF _, of "org_name ` {i. i < length cs \<and> cs ! i \<noteq> None}" "alerted_between cs lo hi"]
      card_image_le [of "{i. i < length cs \<and> cs ! i \<noteq> None}" org_name] by (simp add: le_trans)
  then have "card (alerted_between cs lo hi) \<le> length (filter (\<lambda>c. c \<noteq> None) cs)" for lo hi by (simp add: length_filter_conv_card)
  moreover have "card (set orgs) \<le> length orgs" by (rule card_length)
  ultimately show ?thesis unfolding fired_def by (meson add_mono card_Un_le le_trans)
qed

lemma no_quorum_no_promotion:
  assumes "steady clock" and "length (filter (\<lambda>c. c \<noteq> None) cs) + length orgs < quorum"
  shows "fst (promotion_day clock cs quorum n_days ttl orgs t) = Inr None"
proof -
  have "\<not> quorum \<le> card (fired cs orgs ttl d)" for d using fired_card [of cs orgs ttl d] assms(2) by simp
  then show ?thesis using promotion_day_is_quorum_day' [OF assms(1), of quorum cs n_days ttl orgs t] assms(2) by (simp add: find_None_iff)
qed

lemma promotion_total: "steady clock \<Longrightarrow> 1 \<le> quorum \<Longrightarrow> \<exists>p t'. promotion_day clock cs quorum n_days ttl orgs t = (Inr p, t')"
  using promotion_day_is_quorum_day' [of clock quorum cs n_days ttl orgs t] by (cases "promotion_day clock cs quorum n_days ttl orgs t") auto

lemma candidate_total: "1 \<le> n \<Longrightarrow> \<exists>c. first_candidate_day R n days seed = Inr c"
proof -
  assume n: "1 \<le> n"
  have dp: "\<exists>m g'. apply_dp_observer R n m0 g = Inr (m, g')" for m0 g
    using n by (auto simp: apply_dp_observer_def noised_def metric_sensitivity_def metric_bases_def split: prod.splits)
  have "\<exists>c. candidate_days R n i days g det = Inr c" for i g det
  proof (induction days arbitrary: i g det)
    case (Cons m0 days)
    obtain m g' where "apply_dp_observer R n m0 g = Inr (m, g')" using dp by blast
    with Cons show ?case by (auto split: prod.splits option.splits)
  qed simp
  then show ?thesis by (simp add: first_candidate_day_def)
qed

lemma stable_total: "\<forall>seed. \<exists>days. synth_stable_window R seed = Inr days"
  by (auto simp: synth_stable_window_def get_phase_def STABLE_END_def)

lemma observer_total:
  assumes "1 \<le> n" and "\<forall>seed. \<exists>days. synth seed = Inr days"
  shows "\<exists>c. observer_candidate R n synth data noise trial ob = Inr c"
  unfolding observer_candidate_def using spec [OF assms(2), of "data + int (trial * SEED_STRIDE + ob)"] candidate_total [OF assms(1)] by auto

lemma two_observers:
  assumes "1 \<le> n" and "\<forall>seed. \<exists>days. synth seed = Inr days"
  shows "\<exists>a b. traverse (observer_candidate R n synth data noise trial) [0, 1] = Inr [a, b]"
  using observer_total [OF assms, where R = R and data = data and noise = noise and trial = trial and ob = 0]
    observer_total [OF assms, where R = R and data = data and noise = noise and trial = trial and ob = 1] by auto

lemma clock_traverse_members:
  assumes "\<And>x t. x \<in> set xs \<Longrightarrow> case fst (f x t) of Inr y \<Rightarrow> P y | Inl e \<Rightarrow> Q e"
  shows "case fst (clock_traverse f xs t) of Inr ys \<Rightarrow> length ys = length xs \<and> (\<forall>y \<in> set ys. P y) | Inl e \<Rightarrow> Q e"
  using assms
proof (induction xs arbitrary: t)
  case (Cons x xs)
  obtain r t' where r: "f x t = (r, t')" by fastforce
  show ?case
  proof (cases r)
    case (Inl e)
    then show ?thesis using Cons.prems [of x t] r by (simp add: clock_bind_def)
  next
    case (Inr y)
    obtain rs t'' where rs: "clock_traverse f xs t' = (rs, t'')" by fastforce
    have "case fst (clock_traverse f xs t') of Inr ys \<Rightarrow> length ys = length xs \<and> (\<forall>y \<in> set ys. P y) | Inl e \<Rightarrow> Q e"
      by (rule Cons.IH) (use Cons.prems in auto)
    then show ?thesis using Cons.prems [of x t] r rs Inr by (cases rs) (auto simp: clock_bind_def)
  qed
qed simp

lemma burst_trial_quiet:
  assumes "steady clock" and "1 \<le> n"
  shows "case fst (burst_trial R n clock trial t) of
      Inl e \<Rightarrow> e = assertion_error ''burst observer never fired''
    | Inr (quiet, pub, without, expiring) \<Rightarrow> quiet \<longrightarrow> pub = None \<and> without = None \<and> expiring = None"
proof -
  obtain a b where honest: "traverse (observer_candidate R n (synth_stable_window R) EC1_DATA_BASE EC1_NOISE_BASE trial) [0, 1] = Inr [a, b]"
    using two_observers [OF assms(2) stable_total] by blast
  obtain c where burst: "observer_candidate R n (\<lambda>seed. map_sum id inject_burst (synth_stable_window R seed)) EC1_DATA_BASE EC1_NOISE_BASE trial 2 = Inr c"
    using observer_total [OF assms(2), of "\<lambda>seed. map_sum id inject_burst (synth_stable_window R seed)"] stable_total
    by (metis map_sum.simps(2))
  obtain p t1 where p: "promotion_day clock [a, b, c] 2 (nat WINDOW_DAYS) None [] t = (Inr p, t1)" using promotion_total [OF assms(1)] by fastforce
  obtain w t2 where w: "promotion_day clock [a, b] 2 (nat WINDOW_DAYS) None [] t1 = (Inr w, t2)" using promotion_total [OF assms(1)] by fastforce
  obtain x t3 where x: "promotion_day clock [a, b, c] 2 (nat WINDOW_DAYS) (Some TTL_DAYS) [] t2 = (Inr x, t3)"
    using promotion_total [OF assms(1)] by fastforce
  have none: "p = None \<and> w = None \<and> x = None" if "a = None" "b = None"
    using no_quorum_no_promotion [OF assms(1), of "[None, None, c]" "[]" 2 "nat WINDOW_DAYS" None t]
      no_quorum_no_promotion [OF assms(1), of "[None, None]" "[]" 2 "nat WINDOW_DAYS" None t1]
      no_quorum_no_promotion [OF assms(1), of "[None, None, c]" "[]" 2 "nat WINDOW_DAYS" "Some TTL_DAYS" t2] p w x that by auto
  show ?thesis
    using none by (auto simp: burst_trial_def clock_bind_def honest [simplified] burst p w x)
qed

lemma sybil_trial_quiet:
  assumes "steady clock" and "1 \<le> n"
  shows "case fst (sybil_trial R n clock trial t) of
      Inl e \<Rightarrow> False | Inr (quiet, p2, p3) \<Rightarrow> quiet \<longrightarrow> p2 = None \<and> p3 = None"
proof -
  obtain a b where honest: "traverse (observer_candidate R n (synth_stable_window R) EC2_DATA_BASE EC2_NOISE_BASE trial) [0, 1] = Inr [a, b]"
    using two_observers [OF assms(2) stable_total] by blast
  obtain p t1 where p: "promotion_day clock [a, b] 2 (nat WINDOW_DAYS) None [SYBIL_ORG] t = (Inr p, t1)" using promotion_total [OF assms(1)] by fastforce
  obtain w t2 where w: "promotion_day clock [a, b] 3 (nat WINDOW_DAYS) None [SYBIL_ORG] t1 = (Inr w, t2)" using promotion_total [OF assms(1)] by fastforce
  have none: "p = None \<and> w = None" if "a = None" "b = None"
    using no_quorum_no_promotion [OF assms(1), of "[None, None]" "[SYBIL_ORG]" 2 "nat WINDOW_DAYS" None t]
      no_quorum_no_promotion [OF assms(1), of "[None, None]" "[SYBIL_ORG]" 3 "nat WINDOW_DAYS" None t1] p w that by auto
  have "fst (sybil_trial R n clock trial t) = (if [a, b] = [None, None] \<and> p \<noteq> None
      then Inl (assertion_error ''Sybil promoted without any honest candidate'') else Inr ([a, b] = [None, None], p, w))"
    unfolding sybil_trial_def honest by (simp add: clock_bind_def p w)
  then show ?thesis using none by (cases a; cases b) auto
qed

text \<open>The share of promoted trials, when a quiet trial is never promoted.\<close>

lemma promoted_rate_quiet:
  assumes "length ys = N_TRIALS" and "\<forall>y \<in> set ys. fst y \<longrightarrow> g y = None"
  shows "promoted_rate (map g ys) \<le> 1 - real (length (filter fst ys)) / real N_TRIALS"
proof -
  have "length (filter (\<lambda>y. g y \<noteq> None) ys) + length (filter fst ys) \<le> length ys"
    using assms(2) by (induction ys) auto
  then have "real (length (filter (\<lambda>y. g y \<noteq> None) ys)) + real (length (filter fst ys)) \<le> real N_TRIALS" using assms(1) by linarith
  then show ?thesis by (simp add: promoted_rate_def filter_map comp_def N_TRIALS_def field_simps)
qed

text \<open>Lone voices stay private, whatever the random numbers are. With no more than one candidate in a trial nothing is ever promoted: in the experiment with the
  burst the invariant assertion never fails and every quiet trial stays private with and without the burst and with expiry, and the experiment with the organisation that
  always alerts always completes, with the promoted share of the trials bounded by the share in which an honest observer alerted.\<close>

theorem lone_voices_stay_private:
  assumes "steady clock" and "1 \<le> n"
  shows "(case fst (run_experiment_c1 R n clock t) of
        Inl e \<Rightarrow> e = assertion_error ''burst observer never fired''
      | Inr (quiet, burst, without, expiring) \<Rightarrow>
          burst \<le> 1 - real quiet / real N_TRIALS \<and> without \<le> 1 - real quiet / real N_TRIALS \<and> expiring \<le> 1 - real quiet / real N_TRIALS)
    \<and> (case fst (run_experiment_c2 R n clock t) of
        Inl e \<Rightarrow> False
      | Inr (quiet, two, three) \<Rightarrow> two \<le> 1 - real quiet / real N_TRIALS \<and> three \<le> 1 - real quiet / real N_TRIALS)"
proof (rule conjI)
  let ?quiet1 = "\<lambda>(quiet, pub :: nat option, without :: nat option, expiring :: nat option).
    quiet \<longrightarrow> pub = None \<and> without = None \<and> expiring = None"
  have "case fst (clock_traverse (burst_trial R n clock) [0..<N_TRIALS] t) of
      Inr ys \<Rightarrow> length ys = length [0..<N_TRIALS] \<and> (\<forall>y \<in> set ys. ?quiet1 y) | Inl e \<Rightarrow> e = assertion_error ''burst observer never fired''"
    by (rule clock_traverse_members) (use burst_trial_quiet [OF assms, of R] in \<open>simp split: sum.splits\<close>)
  then show "case fst (run_experiment_c1 R n clock t) of
        Inl e \<Rightarrow> e = assertion_error ''burst observer never fired''
      | Inr (quiet, burst, without, expiring) \<Rightarrow>
          burst \<le> 1 - real quiet / real N_TRIALS \<and> without \<le> 1 - real quiet / real N_TRIALS \<and> expiring \<le> 1 - real quiet / real N_TRIALS"
    by (cases "clock_traverse (burst_trial R n clock) [0..<N_TRIALS] t")
      (auto simp: run_experiment_c1_def clock_bind_def split: sum.splits prod.splits intro!: promoted_rate_quiet)
next
  obtain alone t1 where alone: "promotion_day clock [] 2 (nat WINDOW_DAYS) None [SYBIL_ORG] t = (Inr alone, t1)"
    using promotion_total [OF assms(1)] by fastforce
  have none: "alone = None" using no_quorum_no_promotion [OF assms(1), of "[]" "[SYBIL_ORG]" 2 "nat WINDOW_DAYS" None t] alone by simp
  let ?quiet2 = "\<lambda>(quiet, p2 :: nat option, p3 :: nat option). quiet \<longrightarrow> p2 = None \<and> p3 = None"
  have "case fst (clock_traverse (sybil_trial R n clock) [0..<N_TRIALS] t1) of
      Inr ys \<Rightarrow> length ys = length [0..<N_TRIALS] \<and> (\<forall>y \<in> set ys. ?quiet2 y) | Inl e \<Rightarrow> False"
    by (rule clock_traverse_members) (use sybil_trial_quiet [OF assms, of R] in \<open>simp split: sum.splits\<close>)
  then show "case fst (run_experiment_c2 R n clock t) of
        Inl e \<Rightarrow> False
      | Inr (quiet, two, three) \<Rightarrow> two \<le> 1 - real quiet / real N_TRIALS \<and> three \<le> 1 - real quiet / real N_TRIALS"
    by (cases "clock_traverse (sybil_trial R n clock) [0..<N_TRIALS] t1")
      (auto simp: run_experiment_c2_def clock_bind_def alone none split: sum.splits prod.splits intro!: promoted_rate_quiet)
qed

theorem lone_voices_stay_private_witness:
  "\<exists>quiet two three. fst (run_experiment_c2 late_rng 100 (\<lambda>_. 1) 0) = Inr (quiet, two, three) \<and> two \<le> 1 - real quiet / real N_TRIALS"
proof -
  have steady: "steady (\<lambda>_. 1)" by (simp add: steady_def DEFAULT_TTL_NS_def mono_def)
  show ?thesis using lone_voices_stay_private [OF steady, of 100 late_rng 0] by (auto split: sum.splits)
qed

end
