(* ===== verification/Spec2Isabelle.thy ===== *)
theory Spec2Isabelle
  imports Detector Correlation Bayes Restart Reports Sdk CompareMain ScorerRedis Suites Adapters Fleet LiveEmit QuorumBound WeatherWindows ClampStudy DriftFloor QuorumSim
begin

text \<open>
  SEISMOGRAPH is a federated monitor for drift of language models. Probes run fixed canary suites against a provider, reduce
  the answers to a few numbers, add noise under a daily privacy budget, sign the batch and post it to a gateway. The gateway
  validates it, runs a CUSUM detector on every stream and publishes a drift alert only when enough distinct
  organisations agree; it also publishes the weather of every model and audit reports. Beside this stand a local
  comparison tool, adapters that feed probes from traces and answer questions about the weather, a first-party fleet, and the scripts that calibrate
  the quorum. This theory imports all the others and holds the properties that span probe and gateway.

  \<^bold>\<open>Theories and sources (under src/).\<close>
  \<^item> \<^verbatim>\<open>Prelude\<close>, \<^verbatim>\<open>Keyed\<close>, \<^verbatim>\<open>Json\<close>: exceptions and their sequencing, dictionaries as association lists, a locale of keyed
    stores, JSON values and string functions shared by all.
  \<^item> \<^verbatim>\<open>Detector\<close>: engine/detector.py. The state of a stream (baseline, then two accumulators), the detector as a dictionary of streams.
  \<^item> \<^verbatim>\<open>Correlation\<close>, \<^verbatim>\<open>Bayes\<close>: engine/correlation.py. The quorum policy, the agreement scorer, the Bayesian detector.
  \<^item> \<^verbatim>\<open>ScorerRedis\<close>: engine/scorer_redis.py with its Lua script, over sorted-set commands.
  \<^item> \<^verbatim>\<open>Repository\<close>, \<^verbatim>\<open>Clickhouse\<close>: engine/models.py, engine/repository.py, engine/clickhouse.py. Tables as lists of records; both
    backends fill the same record of operations.
  \<^item> \<^verbatim>\<open>Schema\<close>, \<^verbatim>\<open>Weather\<close>, \<^verbatim>\<open>Gateway\<close>, \<^verbatim>\<open>Restart\<close>, \<^verbatim>\<open>Reports\<close>: gateway/schema.py, gateway/main.py, engine/webhooks.py, engine/audit.py. Validation,
    the weather, the ingest handler with its public and private path, the replay of stored signals at start-up, the audit report.
  \<^item> \<^verbatim>\<open>Auth\<close>: probe/crypto.py, gateway/auth.py, gateway/ingest.py, gateway/ingestion.py. Keys, signatures, the early receivers.
  \<^item> \<^verbatim>\<open>Providers\<close>, \<^verbatim>\<open>Corpus\<close>, \<^verbatim>\<open>Canary\<close>, \<^verbatim>\<open>Suites\<close>: probe/providers.py, probe/canary.py, probe/suite_spec.py, probe/canary_suite.py. The provider client, the
    published suites as data, their execution with retries, suite files and the suite registry.
  \<^item> \<^verbatim>\<open>Accountant\<close>, \<^verbatim>\<open>Aggregator\<close>: probe/privacy.py. The budget, the noise, the queue of results and the batch built from it.
  \<^item> \<^verbatim>\<open>Spool\<close>, \<^verbatim>\<open>Sdk\<close>: probe/spool.py, probe/sdk.py. The directory of unsent batches; the probe object with spans and flush.
  \<^item> \<^verbatim>\<open>CompareRun\<close>, \<^verbatim>\<open>Compare\<close>, \<^verbatim>\<open>Evidence\<close>, \<^verbatim>\<open>CompareReport\<close>, \<^verbatim>\<open>CompareMain\<close>: probe/compare.py. Calls, statistics, evidence, report, command.
  \<^item> \<^verbatim>\<open>Adapters\<close>: probe/adapters/otel.py and mcp.py. \<^verbatim>\<open>Fleet\<close>: scripts/first_party_fleet.py. \<^verbatim>\<open>LiveEmit\<close>:
    scripts/live_emit.py, one run of the emitter from the backlog to the exit code.
  \<^item> \<^verbatim>\<open>QuorumBound\<close>: scripts/experiment_quorum_bound.py and quorum_seismo_pick.py. \<^verbatim>\<open>Backtests\<close>: scripts/anthropic_backtest.py,
    experiment_stable_fp.py, experiment_dp_backtest.py and experiment_sensitivity.py, the seeded incident and the harnesses that run the detector on it. \<^verbatim>\<open>QuorumSim\<close>: scripts/experiment_quorum.py,
    several observers of that incident whose first alerts are replayed through the scorer of the gateway.
  \<^item> \<^verbatim>\<open>WeatherWindows\<close>, \<^verbatim>\<open>ClampStudy\<close>, \<^verbatim>\<open>DriftFloor\<close>: scripts/weather_window_stats.py, measure_clamp_saturation.py, measure_drift_floor.py,
    compare_preflight.py and live_probe.py, the instruments around published weather, the length clamp and a live endpoint.

  \<^bold>\<open>How code becomes definitions.\<close> A class is a record and each method a function on it that returns the new record; a raise is the
  left side of a sum, with the exceptions of \<^verbatim>\<open>Prelude\<close>; definitions keep the names of the code. What a method reads of the outside (clock, UUID, HTTP,
  random numbers) is an explicit argument or an operation on a world that is passed along, so the order of effects is the
  order of the code. Hashes, Ed25519, the JSON codec, the Redis and SQL servers and the mathematical library are arguments; a
  theorem that needs a law of theirs assumes it by name and its witness gives an instance.

  \<^bold>\<open>What the lemmas show.\<close> Each theory proves first what every operation keeps (well-formed dictionaries, budgets, queues of one model,
  spools within their cap), then the behaviour of each operation on every branch, then its contract. The contracts are: the
  recursive CUSUM equals its closed form and a sustained shift raises an alert; the agreement scorer decides by the
  quorum of the votes in its window, and the Redis scorer is the same scorer with a millisecond clock on ordered histories and differs from it on others; no public
  alert without a quorum of distinct clients, no batch twice, no effect of private fleets on public state before a
  restart; the two storage backends answer alike when their save times differ; a flush is private with
  \<open>EPSILON\<close> for each noised metric, and is charged it once; a
  flush spends, posts, keeps or reports in exactly the stated way, and nothing a failed post carries is lost with a spool;
  a strict run is all or nothing, and so is the live emission built on it; a run ends within its pacing budget, and its batch is accepted unchanged by the gateway;
  the comparison completes, sends nothing without consent, shows no unescaped text and reports no change of a model against itself; the
  quorum constants are those the calibration selects, and the populations where its worst case exceeds the budget;
  the harnesses of the experiments agree on their first alerts, add the noise of the probe and pay a baseline for every alarm; a simulated fleet promotes
  on the day its quorum is complete and never on one voice; the instruments lose no run and read the
  published rows as stated.
  Some theorems state defects: their text says which behaviour of the code they exhibit.

  \<^bold>\<open>Bounds and fuel.\<close> No definition takes fuel for a loop of the code: loops over data are structural, retries recurse over the remaining
  attempts, and the two endless loops (fleet rounds, requests of the server) are taken by the number of rounds and the list of lines. The
  sizes are those of the code: 200 prompts and items, 999 permutations, 100 spooled files, 20 organisations in the
  calibration.

  \<^bold>\<open>Idealisations.\<close> Floats are reals, with NaN and the infinities kept where JSON admits them, so rounding errors are outside; strings are byte
  characters; a replaced file is replaced atomically; Redis expiry changes no score within a history and Lua numbers are
  exact; the law of the noise is stated by the density of its recorded samples and no probability space is built.

  \<^bold>\<open>Not modelled.\<close> The dashboard (static pages) and src/memory (development tooling) hold no logic of the program. Of the scripts, the
  console demonstration (demo_simulation) and measure_google_latency are left out. Inside modelled files: argument parsing, progress lines, the git
  and package queries of the comparison tool, logging, session plumbing of the database driver, and the interface stubs that only raise.
\<close>

section \<open>From the probe to the published weather\<close>

text \<open>The suites whose runs the gateway can interpret, by version.\<close>

definition published_suites :: "(string, prompt list) dict" where
  "published_suites = [(SUITE_VERSION, CANARY_SUITE_V1), (SUITE_VERSION_V1_1, CANARY_SUITE_V1_1), (SUITE_VERSION_V2, CANARY_SUITE_V2)]"

definition structured_count :: "prompt list \<Rightarrow> nat" where
  "structured_count suite = length (filter (\<lambda>p. pm_category p = Some ''structured_output'') suite)"

text \<open>The table of the gateway is computed from the corpus of the probe.\<close>

lemma json_base_is_corpus:
  "json_base_by_suite = map (\<lambda>(v, suite). (v, int (length suite), int (structured_count suite))) published_suites"
  by (simp add: json_base_by_suite_def published_suites_def structured_count_def SUITE_VERSION_def SUITE_VERSION_V1_1_def
      corpus_defs)

lemma corpus_ids_accepted: "list_all (\<lambda>(v, suite). list_all key_pat_match (map pm_prompt_id suite)) published_suites"
  by (simp add: published_suites_def corpus_defs key_pat_match_def dollar_bodies_def hash_key_char_def is_lower_def is_digit_def
      newline_def)

lemma fold_add_result:
  "dict_get (ag_pending (fold (\<lambda>r ag. add_result ag r) rs ag)) mt [] =
     dict_get (ag_pending ag) mt [] @ filter (\<lambda>r. cr_model_tuple r = mt) rs"
  by (induction rs arbitrary: ag) (simp_all add: add_result_def Let_def)

lemma structured_mean:
  assumes "list_all2 (result_for env mt v) suite rs"
  shows "mean_over json_value rs = real (length (filter cr_json_valid rs)) / real (length suite)"
    and "length (filter cr_json_valid rs) \<le> structured_count suite" and "length rs = length suite"
proof -
  have "sum_list (map json_value rs) = real (length (filter cr_json_valid rs))"
    by (induction rs) (simp_all add: json_value_def)
  with assms show "mean_over json_value rs = real (length (filter cr_json_valid rs)) / real (length suite)"
    by (simp add: mean_over_def list_all2_lengthD)
  show "length (filter cr_json_valid rs) \<le> structured_count suite"
    using assms by (induction rule: list_all2_induct) (auto simp: structured_count_def result_for_def)
  show "length rs = length suite" using assms by (simp add: list_all2_lengthD)
qed

lemma published_suite:
  assumes "(v, suite) \<in> set published_suites"
  shows "map_of json_base_by_suite v = Some (int (length suite), int (structured_count suite))"
    and "list_all key_pat_match (map pm_prompt_id suite)" and "v \<noteq> []" and "suite \<noteq> []"
proof -
  have wf: "dict_wf json_base_by_suite" by (simp add: json_base_by_suite_def)
  have "(v, int (length suite), int (structured_count suite)) \<in> set json_base_by_suite"
    using assms by (force simp: json_base_is_corpus)
  with wf show base: "map_of json_base_by_suite v = Some (int (length suite), int (structured_count suite))" by simp
  show "list_all key_pat_match (map pm_prompt_id suite)"
    using corpus_ids_accepted assms by (fastforce simp: list_all_iff)
  show "v \<noteq> []" using base by (auto simp: json_base_by_suite_def)
  show "suite \<noteq> []" using json_base_pos [OF base] by auto
qed

subsection \<open>Properties\<close>

text \<open>C5: From a canary run to an accepted batch. A strict run of a published suite that succeeds, staged in a fresh
  aggregator and flushed under any noise, gives a batch that the gateway decodes and validates
  unchanged, with the version of the suite, its full prompt count and the fleet of the probe.
  Assumed of the libraries: SHA-256 digests are 64 hex digits, and ISO stamps of the clock parse back and sort like time.\<close>

theorem strict_run_reaches_gateway:
  assumes "(v, suite) \<in> set published_suites" and "mt \<noteq> []"
    and "execute_canary_strict cenv mt (Some suite) mock prov (Some v) pc w = (Inr rs, w')"
    and "\<And>x. val_pat_match (ce_sha256 cenv x)"
    and "range (ce_now cenv) \<subseteq> (\<lambda>t. toiso (utc t)) ` {lo..<hi}"
    and "\<And>t. t \<in> {lo..hi} \<Longrightarrow> fromiso (toiso (utc t)) = Some (utc t)"
    and "\<And>s t. s \<in> {lo..hi} \<Longrightarrow> t \<in> {lo..hi} \<Longrightarrow> s < t \<Longrightarrow> toiso (utc s) < toiso (utc t)"
    and "agg_flush expo fromiso toiso is_uuid fresh mt fleet (fold (\<lambda>r ag. add_result ag r) rs (init_aggregator client g))
      = (Inr sb, ag')"
  shows "\<exists>b. wire_batch fromiso sb = Some b \<and> validate_batch b = Inr b \<and> ib_fleet_id b = fleet
     \<and> ib_suite_version b = v \<and> ib_result_count b = int (length suite)"
proof -
  note suite = published_suite [OF assms(1)]
  have all: "list_all2 (result_for cenv mt v) suite rs"
    using strict_run_results [OF assms(3)] by (simp add: version_of_def)
  have each: "\<exists>p \<in> set suite. result_for cenv mt v p r" if "r \<in> set rs" for r
    using all that by (metis list_all2_conv_all_nth in_set_conv_nth)
  have "filter (\<lambda>r. cr_model_tuple r = mt) rs = rs"
    using each by (fastforce simp: filter_id_conv result_for_def)
  then have staged: "rs = dict_get (ag_pending (fold (\<lambda>r ag. add_result ag r) rs (init_aggregator client g))) mt []"
    by (simp add: fold_add_result) (simp add: init_aggregator_def dict_get_def)
  have "rs \<noteq> []" using structured_mean(3) [OF all] suite(4) by auto
  have versions: "cr_suite_version ` set rs \<subseteq> {v}" using each by (auto simp: result_for_def)
  have pairs: "(\<lambda>r. (cr_prompt_id r, cr_response_hash r)) ` set rs \<subseteq> {(k, h). key_pat_match k \<and> val_pat_match h}"
    using each suite(2) assms(4) by (fastforce simp: result_for_def list_all_iff)
  have stamps: "cr_timestamp ` set rs \<subseteq> (\<lambda>t. toiso (utc t)) ` {lo..<hi}"
    using each assms(5) by (fastforce simp: result_for_def)
  have "\<exists>b. wire_batch fromiso sb = Some b \<and> validate_batch b = Inr b \<and> ib_fleet_id b = fleet"
    by (rule flushed_batch_accepted [OF assms(8) staged assms(2) _ pairs stamps assms(6,7)]) (use versions suite(3) in auto)
  moreover have "cr_suite_version (hd rs) = v" using versions hd_in_set [OF \<open>rs \<noteq> []\<close>] by blast
  then have "sb_suite_version sb = v" "sb_result_count sb = int (length suite)"
    using agg_flush_Inr(9,11) [OF assms(8), folded staged] structured_mean(3) [OF all]
    by simp_all
  ultimately show ?thesis by (auto simp: wire_batch_def split: option.splits)
qed

text \<open>A mock run in an environment with a fixed clock and digest.\<close>

definition digest_env :: "unit canary_env" where
  "digest_env = silent_env\<lparr>ce_sha256 := (\<lambda>_. replicate 64 (CHR ''0'')), ce_now := (\<lambda>_. unary_stamp (utc 3))\<rparr>"

definition quiet_pacing :: "unit pacing" where
  "quiet_pacing = \<lparr>pc_delay_ms = 0, pc_max_retries = 2, pc_backoff_base_ms = 0, pc_max_total_backoff_ms = 0, pc_sleeper = (\<lambda>s w. w)\<rparr>"

lemma quiet: "pc_delay_ms quiet_pacing \<le> 0"
  by (simp add: quiet_pacing_def)

theorem strict_run_reaches_gateway_witness:
  "\<exists>rs sb ag' b. execute_canary_strict digest_env ''m'' (Some CANARY_SUITE_V2) True None (Some SUITE_VERSION_V2) quiet_pacing () = (Inr rs, ())
     \<and> agg_flush (\<lambda>_ g. (0, g)) unary_parse unary_stamp (\<lambda>_. True) ''b'' ''m'' None
         (fold (\<lambda>r ag. add_result ag r) rs (init_aggregator ''c'' ())) = (Inr sb, ag')
     \<and> wire_batch unary_parse sb = Some b \<and> validate_batch b = Inr b \<and> ib_result_count b = 50"
proof -
  have known: "(SUITE_VERSION_V2, CANARY_SUITE_V2) \<in> set published_suites" by (simp add: published_suites_def)
  obtain rs where run: "execute_canary_strict digest_env ''m'' (Some CANARY_SUITE_V2) True None (Some SUITE_VERSION_V2) quiet_pacing () = (Inr rs, ())"
    using mock_run_succeeds [OF quiet] by blast
  have all: "list_all2 (result_for digest_env ''m'' SUITE_VERSION_V2) CANARY_SUITE_V2 rs"
    using strict_run_results [OF run] by (simp add: version_of_def)
  have each: "cr_model_tuple r = ''m'' \<and> cr_suite_version r = SUITE_VERSION_V2 \<and> cr_timestamp r = unary_stamp (utc 3)"
    if "r \<in> set rs" for r
    using all that by (auto simp: in_set_conv_nth list_all2_conv_all_nth result_for_def digest_env_def)
  let ?ag = "fold (\<lambda>r ag. add_result ag r) rs (init_aggregator ''c'' ())"
  have "filter (\<lambda>r. cr_model_tuple r = ''m'') rs = rs" using each by (simp add: filter_id_conv)
  then have staged: "dict_get (ag_pending ?ag) ''m'' [] = rs"
    by (simp add: fold_add_result) (simp add: init_aggregator_def dict_get_def)
  have "length rs = 50" using structured_mean(3) [OF all] corpus_append_only(3) by simp
  then have ne: "rs \<noteq> []" by auto
  have const: "cr_suite_version ` set rs = {SUITE_VERSION_V2}" "cr_timestamp ` set rs = {unary_stamp (utc 3)}"
    using each ne by (auto simp: image_def) (use hd_in_set in blast)+
  have "flush_window unary_parse unary_stamp rs = Inr (unary_stamp (utc 3), unary_stamp (utc 4))"
    using const(2) by (simp add: flush_window_def unary_parse_def Let_def) (simp add: unary_stamp_def utc_def)
  then obtain sb ag' where flush: "agg_flush (\<lambda>_ g. (0, g)) unary_parse unary_stamp (\<lambda>_. True) ''b'' ''m'' None ?ag = (Inr sb, ag')"
    using agg_flush_total [of ?ag "''m''" "\<lambda>_. True" "''b''" unary_parse unary_stamp _ "\<lambda>_ g. (0, g)" None] const(1) ne
    by (auto simp: staged)
  have hex: "val_pat_match (replicate 64 (CHR ''0''))"
    by (simp add: val_pat_match_def dollar_bodies_def lower_hex_char_def is_digit_def newline_def list_all_iff)
  have "\<exists>b. wire_batch unary_parse sb = Some b \<and> validate_batch b = Inr b \<and> ib_fleet_id b = None
     \<and> ib_suite_version b = SUITE_VERSION_V2 \<and> ib_result_count b = int (length CANARY_SUITE_V2)"
    by (rule strict_run_reaches_gateway [OF known _ run, where lo = 0 and hi = 9 and toiso = unary_stamp, OF _ _ _ _ _ flush])
       (auto simp: digest_env_def hex unary_parse_def unary_stamp_def utc_def intro: replicate_less
         intro!: image_eqI [of _ _ 3])
  with run flush show ?thesis by (auto simp: corpus_append_only(3))
qed

text \<open>C23: The published rate of a complete run is the share of valid answers among the scorable prompts. For a
  strict run of a published suite, the raw rate the probe computes (before noise), rescaled by the
  gateway, is the number of valid answers over the number of structured-output prompts of the
  suite: the table of the gateway fits the corpus of the probe.\<close>

theorem complete_run_publishes_true_rate:
  assumes "(v, suite) \<in> set published_suites"
    and "execute_canary_strict cenv mt (Some suite) mock prov (Some v) pc w = (Inr rs, w')"
  shows "scorable_json_rate (Some (mean_over json_value rs)) (Some (real (length rs))) v =
     Some (real (length (filter cr_json_valid rs)) / real (structured_count suite))"
proof -
  have "list_all2 (result_for cenv mt v) suite rs"
    using strict_run_results [OF assms(2)] by (simp add: version_of_def)
  note mean = structured_mean [OF this]
  show ?thesis
    using scorable_rate_exact [OF published_suite(1) [OF assms(1)], of "int (length (filter cr_json_valid rs))" "int (length suite)"] mean
    by simp
qed

theorem complete_run_publishes_true_rate_witness:
  "\<exists>rs. execute_canary_strict digest_env ''m'' (Some CANARY_SUITE_V1) True None (Some SUITE_VERSION) quiet_pacing () = (Inr rs, ())
     \<and> scorable_json_rate (Some (mean_over json_value rs)) (Some (real (length rs))) SUITE_VERSION =
         Some (real (length (filter cr_json_valid rs)))"
proof -
  obtain rs where run: "execute_canary_strict digest_env ''m'' (Some CANARY_SUITE_V1) True None (Some SUITE_VERSION) quiet_pacing () = (Inr rs, ())"
    using mock_run_succeeds [OF quiet] by blast
  show ?thesis
    using complete_run_publishes_true_rate [OF _ run] run
    by (simp add: published_suites_def structured_count_def CANARY_SUITE_V1_def)
qed

end
